(* ===== verification/Vco_Prelude.thy ===== *)
theory Vco_Prelude
  imports Complex_Main "HOL-Library.AList"
begin

text \<open>
  Shared vocabulary of the development: the Python values the components compute with
  (seconds, insertion-ordered dictionaries, list insertion at an arbitrary integer
  position, prefixes of strings), the exceptions the modelled code can raise, and the
  generic lemmas that the component theories use through the collections
  \<open>dict_simps\<close> and \<open>py_simps\<close>.

  Floating-point seconds and scores are rationals: every finite float is one; the
  rounding of the arithmetic on them is not modelled unless a theory says so.
\<close>

named_theorems dict_simps
named_theorems py_simps

section \<open>Types\<close>

type_synonym seconds = rat

type_synonym agent_id = string

text \<open>The exceptions raised by the modelled code, as values.\<close>

datatype py_error =
    ValueError string
  | KeyError string
  | TypeError string
  | IndexError
  | AssertionError string
  | RuntimeError string
  | AttributeError string
  | NotImplementedError string
  | TransitionNotAllowed
  | OSError
  | ValidationError

text \<open>
  An operation that may raise after it has already changed its object returns the
  object together with the outcome.
\<close>

type_synonym ('s, 'a) outcome = "'s \<times> (py_error + 'a)"

text \<open>What follows an operation unless it raises, and what an \<open>except\<close> clause does when it does.\<close>

definition and_then :: "('s, 'a) outcome \<Rightarrow> ('s \<Rightarrow> ('s, 'b) outcome) \<Rightarrow> ('s, 'b) outcome" where
  "and_then r f = (case r of (s, Inl e) \<Rightarrow> (s, Inl e) | (s, Inr x) \<Rightarrow> f s)"

definition catching :: "('s, 'a) outcome \<Rightarrow> ('s \<Rightarrow> ('s, 'a) outcome) \<Rightarrow> ('s, 'a) outcome" where
  "catching r h = (case r of (s, Inl e) \<Rightarrow> h s | (s, Inr x) \<Rightarrow> (s, Inr x))"

lemma and_then_simps [simp]:
  "and_then (s, Inl e) f = (s, Inl e)"
  "and_then (s, Inr x) f = f s"
  "catching (s, Inl e) h = h s"
  "catching (s, Inr x) h = (s, Inr x)"
  by (simp_all add: and_then_def catching_def)

section \<open>Dictionaries\<close>

text \<open>
  A Python \<open>dict\<close> iterates in insertion order; assigning to a key that is present keeps
  its position, a new key goes to the end, and \<open>pop(k, None)\<close> removes the key. That is
  an association list with distinct keys under \<open>AList.update\<close> and \<open>AList.delete\<close>.
\<close>

type_synonym ('k, 'v) dict = "('k \<times> 'v) list"

abbreviation dict_get :: "('k, 'v) dict \<Rightarrow> 'k \<Rightarrow> 'v option" where
  "dict_get d k \<equiv> map_of d k"

abbreviation dict_set :: "('k, 'v) dict \<Rightarrow> 'k \<Rightarrow> 'v \<Rightarrow> ('k, 'v) dict" where
  "dict_set d k v \<equiv> AList.update k v d"

abbreviation dict_pop :: "('k, 'v) dict \<Rightarrow> 'k \<Rightarrow> ('k, 'v) dict" where
  "dict_pop d k \<equiv> AList.delete k d"

abbreviation dict_keys :: "('k, 'v) dict \<Rightarrow> 'k list" where
  "dict_keys d \<equiv> map fst d"

abbreviation dict_values :: "('k, 'v) dict \<Rightarrow> 'v list" where
  "dict_values d \<equiv> map snd d"

abbreviation dict_ok :: "('k, 'v) dict \<Rightarrow> bool" where
  "dict_ok d \<equiv> distinct (map fst d)"

lemma dict_get_set [dict_simps]:
  "dict_get (dict_set d k v) k' = (if k' = k then Some v else dict_get d k')"
  by (simp add: update_conv')

lemma dict_get_pop [dict_simps]:
  "dict_get (dict_pop d k) k' = (if k' = k then None else dict_get d k')"
  by (simp add: delete_conv')

lemma dict_ok_set [dict_simps]: "dict_ok d \<Longrightarrow> dict_ok (dict_set d k v)"
  by (simp add: distinct_update)

lemma dict_ok_pop [dict_simps]: "dict_ok d \<Longrightarrow> dict_ok (dict_pop d k)"
  by (simp add: distinct_delete)

lemma dict_keys_set [dict_simps]:
  "set (dict_keys (dict_set d k v)) = insert k (set (dict_keys d))"
  by (induction d) auto

lemma dict_keys_iff_get: "k \<in> set (dict_keys d) \<longleftrightarrow> (\<exists>v. dict_get d k = Some v)"
  by (metis map_of_eq_None_iff not_None_eq set_map)

lemma dict_keys_pop [dict_simps]:
  "set (dict_keys (dict_pop d k)) = set (dict_keys d) - {k}"
  by (auto simp: dict_keys_iff_get dict_get_pop split: if_splits simp del: set_map)

lemma dict_pop_filter: "dict_pop d k = filter (\<lambda>(k', v). k' \<noteq> k) d"
  by (induction d) auto

lemma set_dict_set:
  "dict_ok d \<Longrightarrow> set (dict_set d k v) = insert (k, v) {p \<in> set d. fst p \<noteq> k}"
proof (induction d)
  case (Cons p d)
  then show ?case by (cases "fst p = k") (auto simp: image_iff)
qed simp

lemma dict_length_keys: "dict_ok d \<Longrightarrow> length d = card (set (dict_keys d))"
  by (metis distinct_card length_map)

lemma dict_get_filter:
  "dict_ok d \<Longrightarrow> dict_get (filter (\<lambda>(k, v). P v) d) k
     = (case dict_get d k of None \<Rightarrow> None | Some v \<Rightarrow> if P v then Some v else None)"
proof (induction d)
  case (Cons p d)
  obtain a v where p: "p = (a, v)" by force
  from Cons.prems p have "dict_get d a = None"
    by (simp add: map_of_eq_None_iff)
  with Cons p show ?case by (auto split: option.splits)
qed simp

lemma dict_ok_filter [dict_simps]: "dict_ok d \<Longrightarrow> dict_ok (filter P d)"
  by (rule distinct_map_filter)

lemma dict_get_in_keys: "dict_get d k = Some v \<Longrightarrow> k \<in> set (dict_keys d)"
  by (metis map_of_eq_None_iff option.distinct(1) set_map)

section \<open>Numbers\<close>

text \<open>\<open>int(x)\<close> of a float truncates towards zero.\<close>

definition py_int :: "rat \<Rightarrow> int" where
  "py_int x = (if x < 0 then \<lceil>x\<rceil> else \<lfloor>x\<rfloor>)"

section \<open>Lists\<close>

text \<open>
  \<open>list.insert(i, x)\<close>: a negative position counts from the end and stops at 0, a position
  past the end appends.
\<close>

definition py_index :: "nat \<Rightarrow> int \<Rightarrow> nat" where
  "py_index n i = (if i < 0 then nat (max 0 (int n + i)) else min (nat i) n)"

definition py_insert :: "'a list \<Rightarrow> int \<Rightarrow> 'a \<Rightarrow> 'a list" where
  "py_insert xs i x = (let p = py_index (length xs) i in take p xs @ [x] @ drop p xs)"

text \<open>\<open>xs.pop(i)\<close> for an index known to be in range: the list without position \<open>i\<close>.\<close>

definition py_remove_at :: "nat \<Rightarrow> 'a list \<Rightarrow> 'a list" where
  "py_remove_at i xs = take i xs @ drop (Suc i) xs"

lemma py_index_le [simp]: "py_index n i \<le> n"
  by (auto simp: py_index_def)

lemma set_py_insert [py_simps]: "set (py_insert xs i x) = insert x (set xs)"
proof -
  have "set (take p xs @ [x] @ drop p xs) = insert x (set (take p xs @ drop p xs))" for p
    by (simp del: append_take_drop_id)
  then show ?thesis
    by (simp only: py_insert_def Let_def append_take_drop_id)
qed

lemma length_py_insert [py_simps]: "length (py_insert xs i x) = Suc (length xs)"
  by (simp add: py_insert_def Let_def)

lemma distinct_map_py_insert:
  "distinct (map f xs) \<Longrightarrow> f x \<notin> f ` set xs \<Longrightarrow> distinct (map f (py_insert xs i x))"
proof -
  assume d: "distinct (map f xs)" and n: "f x \<notin> f ` set xs"
  define p where "p = py_index (length xs) i"
  have "distinct (map f (take p xs @ drop p xs))" using d by simp
  moreover have "f x \<notin> f ` set (take p xs)" "f x \<notin> f ` set (drop p xs)"
    using n by (auto dest: in_set_takeD in_set_dropD)
  ultimately show ?thesis
    by (simp add: py_insert_def p_def Let_def del: append_take_drop_id)
qed

lemma py_remove_at_split:
  "i < length xs \<Longrightarrow> xs = take i xs @ xs ! i # drop (Suc i) xs"
  by (simp add: id_take_nth_drop)

lemma find_append:
  "find P (xs @ ys) = (case find P xs of None \<Rightarrow> find P ys | Some x \<Rightarrow> Some x)"
  by (induction xs) auto

lemma find_mem: "find P xs = Some x \<Longrightarrow> x \<in> set xs"
  by (induction xs) (auto split: if_splits)

section \<open>Strings\<close>

definition startswith :: "string \<Rightarrow> string \<Rightarrow> bool" where
  "startswith s p = (take (length p) s = p)"

lemma startswith_append [simp]: "startswith (p @ s) p"
  by (simp add: startswith_def)

lemma startswith_iff: "startswith s p \<longleftrightarrow> (\<exists>r. s = p @ r)"
  by (metis append_eq_conv_conj append_take_drop_id startswith_def)

section \<open>Traces\<close>

lemma filter_le_filter_length: "length (filter P xs) \<le> length xs"
  by simp

lemma sorted_dropWhile_filter:
  fixes xs :: "'a :: linorder list"
  shows "sorted xs \<Longrightarrow> dropWhile (\<lambda>x. x < c) xs = filter (\<lambda>x. c \<le> x) xs"
proof (induction xs)
  case (Cons x xs)
  show ?case
  proof (cases "x < c")
    case True
    with Cons show ?thesis by simp
  next
    case False
    with Cons.prems have "\<forall>y \<in> set xs. c \<le> y" by auto
    with False show ?thesis by simp
  qed
qed simp

end
