(* ===== verification/Sliding_Window.thy ===== *)
theory Sliding_Window
  imports Vco_Prelude
begin

text \<open>
  The contract of a rate limiter over a sliding window, shared by
  \<open>RestartTracker\<close> (src/vcompany/supervisor/restart_tracker.py) and
  \<open>DelegationTracker\<close> (src/vcompany/autonomy/delegation.py). A request reads the clock
  once to check the window and, when it is granted, once more to record the grant; both
  readings are part of the event. The theorem proved here once, inside the locale, is what
  a limiter is for: of any \<open>limit + 1\<close> consecutive grants the last is out of the window
  of the first.
\<close>

text \<open>
  The stamps of the requests that a run grants, in order. An event is a request with the
  clock reading of its check and the reading that would be recorded.
\<close>

fun granted ::
  "('s \<Rightarrow> 'e \<Rightarrow> seconds \<Rightarrow> seconds \<Rightarrow> bool \<times> 's) \<Rightarrow> 's \<Rightarrow> ('e \<times> seconds \<times> seconds) list
     \<Rightarrow> seconds list"
where
  "granted grant s [] = []"
| "granted grant s ((e, a, b) # evs) =
     (case grant s e a b of (ok, s') \<Rightarrow>
        (if ok then [b] else []) @ granted grant s' evs)"

text \<open>Clock readings that never go back, starting at \<open>c\<close>.\<close>

fun monotonic_from :: "seconds \<Rightarrow> ('e \<times> seconds \<times> seconds) list \<Rightarrow> bool" where
  "monotonic_from c [] = True"
| "monotonic_from c ((e, a, b) # evs) = (c \<le> a \<and> a \<le> b \<and> monotonic_from b evs)"

definition spaced :: "(seconds \<Rightarrow> seconds \<Rightarrow> bool) \<Rightarrow> nat \<Rightarrow> seconds list \<Rightarrow> bool" where
  "spaced fresh n gs \<longleftrightarrow> (\<forall>i. i + n < length gs \<longrightarrow> \<not> fresh (gs ! (i + n)) (gs ! i))"

locale window_limiter =
  fixes grant :: "'s \<Rightarrow> 'e \<Rightarrow> seconds \<Rightarrow> seconds \<Rightarrow> bool \<times> 's"
    and stamps :: "'s \<Rightarrow> seconds list"
    and ok :: "seconds \<Rightarrow> 's \<Rightarrow> bool"
    and fresh :: "seconds \<Rightarrow> seconds \<Rightarrow> bool"
    and limit :: nat
  assumes fresh_antimono: "a \<le> a' \<Longrightarrow> fresh a' u \<Longrightarrow> fresh a u"
    and fresh_upward: "u \<le> u' \<Longrightarrow> fresh a u \<Longrightarrow> fresh a u'"
    and granted_below_limit:
      "ok c s \<Longrightarrow> c \<le> a \<Longrightarrow> a \<le> b \<Longrightarrow> grant s e a b = (True, s') \<Longrightarrow>
        length (filter (fresh a) (stamps s)) < limit"
    and stamps_granted:
      "ok c s \<Longrightarrow> c \<le> a \<Longrightarrow> a \<le> b \<Longrightarrow> grant s e a b = (True, s') \<Longrightarrow>
        filter (fresh b) (stamps s') = filter (fresh b) (stamps s @ [b])"
    and stamps_denied:
      "ok c s \<Longrightarrow> c \<le> a \<Longrightarrow> a \<le> b \<Longrightarrow> grant s e a b = (False, s') \<Longrightarrow>
        filter (fresh b) (stamps s') = filter (fresh b) (stamps s)"
    and ok_grant:
      "ok c s \<Longrightarrow> c \<le> a \<Longrightarrow> a \<le> b \<Longrightarrow> grant s e a b = (r, s') \<Longrightarrow> ok b s'"
begin

lemma fresh_filter_later:
  assumes "filter (fresh c) xs = filter (fresh c) ys" and "c \<le> a"
  shows "filter (fresh a) xs = filter (fresh a) ys"
proof -
  have sub: "filter (fresh a) zs = filter (fresh a) (filter (fresh c) zs)" for zs
    by (induction zs) (auto dest: fresh_antimono [OF \<open>c \<le> a\<close>])
  show ?thesis
    by (subst sub, subst (2) sub) (simp add: assms(1))
qed

text \<open>A grant after the grants \<open>gs\<close> is out of the window of the \<open>limit\<close>-th last of them.\<close>

lemma spaced_snoc:
  assumes sp: "spaced fresh limit gs" and so: "sorted gs"
    and few: "length (filter (fresh a) gs) < limit" and ab: "a \<le> b"
  shows "spaced fresh limit (gs @ [b])"
proof -
  have "\<not> fresh b (gs ! i)" if i: "i + limit = length gs" for i
  proof
    assume "fresh b (gs ! i)"
    then have fr: "fresh a (gs ! i)" by (rule fresh_antimono [OF ab])
    have "fresh a u" if "u \<in> set (drop i gs)" for u
    proof -
      from that obtain j where "j < length gs" "i \<le> j" "u = gs ! j"
        by (auto simp: in_set_conv_nth) (metis add.commute le_add1 less_diff_conv)
      with so have "gs ! i \<le> u" by (simp add: sorted_iff_nth_mono)
      then show ?thesis using fr by (rule fresh_upward)
    qed
    then have "filter (fresh a) (drop i gs) = drop i gs" by simp
    then have "limit \<le> length (filter (fresh a) (take i gs @ drop i gs))"
      using i by (simp del: append_take_drop_id)
    with few show False by simp
  qed
  moreover have "0 < limit" using few by simp
  ultimately show ?thesis
    using sp by (auto simp: spaced_def nth_append less_Suc_eq)
qed

lemma granted_spaced_from:
  assumes "monotonic_from c evs" and "ok c s"
    and "filter (fresh c) (stamps s) = filter (fresh c) gs"
    and "spaced fresh limit gs" and "sorted gs" and "\<forall>g \<in> set gs. g \<le> c"
  shows "spaced fresh limit (gs @ granted grant s evs)"
  using assms
proof (induction evs arbitrary: c s gs)
  case (Cons ev evs)
  obtain e a b where ev: "ev = (e, a, b)" by (cases ev)
  obtain r s' where r: "grant s e a b = (r, s')" by force
  from Cons.prems(1) ev have le: "c \<le> a" "a \<le> b" and mono: "monotonic_from b evs"
    by auto
  have ok': "ok b s'" using Cons.prems(2) le r by (rule ok_grant)
  have at: "filter (fresh a) (stamps s) = filter (fresh a) gs"
    using Cons.prems(3) le(1) by (rule fresh_filter_later)
  have bt: "filter (fresh b) (stamps s) = filter (fresh b) gs"
    using at le(2) by (rule fresh_filter_later)
  show ?case
  proof (cases r)
    case True
    have few: "length (filter (fresh a) gs) < limit"
      using granted_below_limit [OF Cons.prems(2) le] r True at by simp
    have st: "filter (fresh b) (stamps s') = filter (fresh b) (gs @ [b])"
      using stamps_granted [OF Cons.prems(2) le] r True bt by simp
    have "spaced fresh limit ((gs @ [b]) @ granted grant s' evs)"
    proof (rule Cons.IH [OF mono ok' st])
      show "spaced fresh limit (gs @ [b])"
        by (rule spaced_snoc [OF Cons.prems(4,5) few le(2)])
      show "sorted (gs @ [b])"
        using Cons.prems(5,6) le by (force simp: sorted_append)
      show "\<forall>g \<in> set (gs @ [b]). g \<le> b"
        using Cons.prems(6) le by force
    qed
    with ev r True show ?thesis by simp
  next
    case False
    have st: "filter (fresh b) (stamps s') = filter (fresh b) gs"
      using stamps_denied [OF Cons.prems(2) le] r False bt by simp
    have "spaced fresh limit (gs @ granted grant s' evs)"
      using Cons.prems(6) le by (intro Cons.IH [OF mono ok' st Cons.prems(4,5)]) force
    with ev r False show ?thesis by simp
  qed
qed simp

theorem granted_spaced:
  assumes "monotonic_from c evs" and "ok c s" and "filter (fresh c) (stamps s) = []"
  shows "spaced fresh limit (granted grant s evs)"
  using granted_spaced_from [of c evs s "[]"] assms by (simp add: spaced_def)

end

end
