(* ===== verification/Restart_Tracker.thy ===== *)
theory Restart_Tracker
  imports Sliding_Window
begin

text \<open>
  \<open>RestartTracker\<close> of src/vcompany/supervisor/restart_tracker.py: the restart intensity
  limit of a supervisor. The clock is an argument: one reading per call of
  \<open>self._clock()\<close>, in the order of the calls.
\<close>

section \<open>Model\<close>

record restart_tracker =
  max_restarts :: int
  window_seconds :: int
  timestamps :: "seconds list"

definition new_restart_tracker :: "int \<Rightarrow> int \<Rightarrow> restart_tracker" where
  "new_restart_tracker m w = \<lparr>max_restarts = m, window_seconds = w, timestamps = []\<rparr>"

fun purge_loop :: "seconds \<Rightarrow> seconds list \<Rightarrow> seconds list" where
  "purge_loop cutoff [] = []"
| "purge_loop cutoff (t # ts) = (if t < cutoff then purge_loop cutoff ts else t # ts)"

definition rt_purge :: "seconds \<Rightarrow> restart_tracker \<Rightarrow> restart_tracker" where
  "rt_purge now tr =
     tr\<lparr>timestamps := purge_loop (now - of_int (window_seconds tr)) (timestamps tr)\<rparr>"

definition allow_restart :: "seconds \<Rightarrow> seconds \<Rightarrow> restart_tracker \<Rightarrow> bool \<times> restart_tracker" where
  "allow_restart now now' tr =
     (let tr = rt_purge now tr in
      if max_restarts tr \<le> int (length (timestamps tr)) then (False, tr)
      else (True, tr\<lparr>timestamps := timestamps tr @ [now']\<rparr>))"

definition rt_reset :: "restart_tracker \<Rightarrow> restart_tracker" where
  "rt_reset tr = tr\<lparr>timestamps := []\<rparr>"

definition restart_count :: "seconds \<Rightarrow> restart_tracker \<Rightarrow> nat \<times> restart_tracker" where
  "restart_count now tr = (let tr = rt_purge now tr in (length (timestamps tr), tr))"

section \<open>The tracker is a window limiter\<close>

lemma purge_loop_dropWhile: "purge_loop c ts = dropWhile (\<lambda>t. t < c) ts"
  by (induction ts) auto

text \<open>Recorded restarts are in clock order and not in the future of the last reading.\<close>

definition rt_ok :: "int \<Rightarrow> int \<Rightarrow> seconds \<Rightarrow> restart_tracker \<Rightarrow> bool" where
  "rt_ok m w now tr \<longleftrightarrow> max_restarts tr = m \<and> window_seconds tr = w \<and>
     sorted (timestamps tr) \<and> (\<forall>t \<in> set (timestamps tr). t \<le> now)"

abbreviation in_window :: "int \<Rightarrow> seconds \<Rightarrow> seconds \<Rightarrow> bool" where
  "in_window w now t \<equiv> now - of_int w \<le> t"

lemma rt_purge_timestamps:
  "rt_ok m w c tr \<Longrightarrow> timestamps (rt_purge now tr) = filter (in_window w now) (timestamps tr)"
  by (simp add: rt_ok_def rt_purge_def purge_loop_dropWhile sorted_dropWhile_filter)

lemma rt_purge_config [simp]:
  "max_restarts (rt_purge now tr) = max_restarts tr"
  "window_seconds (rt_purge now tr) = window_seconds tr"
  by (simp_all add: rt_purge_def)

lemma allow_restart_cases:
  assumes "rt_ok m w c tr" and "allow_restart a b tr = (r, tr')"
  defines "kept \<equiv> filter (in_window w a) (timestamps tr)"
  shows "max_restarts tr' = m" and "window_seconds tr' = w"
    and "r \<longleftrightarrow> int (length kept) < m"
    and "timestamps tr' = kept @ (if r then [b] else [])"
  using assms rt_purge_timestamps [OF assms(1), of a]
  by (auto simp: allow_restart_def rt_ok_def Let_def split: if_splits)

interpretation rt: window_limiter
  "\<lambda>tr (e :: unit) a b. allow_restart a b tr" timestamps "rt_ok m w" "in_window w" "nat m"
  for m w
proof unfold_locales
  fix a a' u :: seconds
  assume "a \<le> a'" "in_window w a' u"
  then show "in_window w a u" by simp
next
  fix u u' a :: seconds
  assume "u \<le> u'" "in_window w a u"
  then show "in_window w a u'" by simp
next
  fix c s a b e s'
  assume h: "rt_ok m w c s" and "c \<le> a" "a \<le> b" and r: "allow_restart a b s = (True, s')"
  from allow_restart_cases(3) [OF h r]
  show "length (filter (in_window w a) (timestamps s)) < nat m" by simp
next
  fix c s a b e s'
  assume h: "rt_ok m w c s" and "c \<le> a" "a \<le> b" and r: "allow_restart a b s = (True, s')"
  then show "filter (in_window w b) (timestamps s') = filter (in_window w b) (timestamps s @ [b])"
    by (auto simp: allow_restart_cases(4) [OF h r] intro: filter_cong)
next
  fix c s a b e s'
  assume h: "rt_ok m w c s" and "c \<le> a" "a \<le> b" and r: "allow_restart a b s = (False, s')"
  then show "filter (in_window w b) (timestamps s') = filter (in_window w b) (timestamps s)"
    by (auto simp: allow_restart_cases(4) [OF h r] intro: filter_cong)
next
  fix c s a b e r s'
  assume h: "rt_ok m w c s" and "c \<le> a" "a \<le> b" and r: "allow_restart a b s = (r, s')"
  then show "rt_ok m w b s'"
    using allow_restart_cases [OF h r]
    by (auto simp: rt_ok_def sorted_append sorted_wrt_filter)
qed

section \<open>Properties\<close>

text \<open>
  C12. The restart intensity limit: over any sequence of restart requests whose clock
  readings never go back, of every \<open>max_restarts + 1\<close> consecutive granted restarts the
  last one was recorded more than \<open>window_seconds\<close> after the first.
\<close>

theorem restart_intensity:
  assumes "monotonic_from c evs"
    and "gs = granted (\<lambda>tr (e :: unit) a b. allow_restart a b tr) (new_restart_tracker m w) evs"
    and "i + nat m < length gs"
  shows "gs ! i + of_int w < gs ! (i + nat m)"
proof -
  have "rt_ok m w c (new_restart_tracker m w)"
    by (simp add: rt_ok_def new_restart_tracker_def)
  then have "spaced (in_window w) (nat m) gs"
    using rt.granted_spaced [OF assms(1)] assms(2) by (simp add: new_restart_tracker_def)
  with assms(3) show ?thesis by (fastforce simp: spaced_def)
qed

theorem restart_intensity_witness:
  "granted (\<lambda>tr (e :: unit) a b. allow_restart a b tr) (new_restart_tracker 2 600)
      [((), 0, 0), ((), 10, 10), ((), 20, 20), ((), 610, 611)] ! 2
    = 611 \<and> (0 :: seconds) + 600 < 611"
  using restart_intensity [of 0 "[((), 0, 0), ((), 10, 10), ((), 20, 20), ((), 610, 611)]"
      "[0, 10, 611]" 2 600 0]
  by (simp add: new_restart_tracker_def allow_restart_def rt_purge_def Let_def)

end
