(* ===== verification/Delegation.thy ===== *)
theory Delegation
  imports Sliding_Window
begin

text \<open>
  The delegation protocol of src/vcompany/autonomy/delegation.py: policy, request, result
  and the tracker that enforces the concurrent cap per requester and the hourly rate.
  The text of a rejection is modelled by a constructor that carries the values the
  f-string interpolates.
\<close>

section \<open>Model\<close>

record delegation_policy =
  max_concurrent_delegations :: int
  max_delegations_per_hour :: int
  allowed_agent_types :: "string list"

definition default_delegation_policy :: delegation_policy where
  "default_delegation_policy = \<lparr>max_concurrent_delegations = 3, max_delegations_per_hour = 10,
     allowed_agent_types = [''gsd'']\<rparr>"

record delegation_request =
  requester_id :: agent_id
  task_description :: string
  request_agent_type :: string
  context_overrides :: "(string, string) dict"

datatype reject_reason =
    NoReason
  | DelegationNotEnabled
  | TypeNotAllowed string "string list"
  | ConcurrentLimitReached int agent_id
  | HourlyRateLimitReached int

record delegation_result =
  approved :: bool
  result_agent_id :: "agent_id option"
  reason :: reject_reason

record delegation_tracker =
  dt_policy :: delegation_policy
  dt_active :: "(agent_id, agent_id set) dict"
  dt_history :: "seconds list"

definition new_delegation_tracker :: "delegation_policy \<Rightarrow> delegation_tracker" where
  "new_delegation_tracker p = \<lparr>dt_policy = p, dt_active = [], dt_history = []\<rparr>"

definition active_set :: "delegation_tracker \<Rightarrow> agent_id \<Rightarrow> agent_id set" where
  "active_set tr r = (case dict_get (dt_active tr) r of None \<Rightarrow> {} | Some s \<Rightarrow> s)"

definition can_delegate ::
  "agent_id \<Rightarrow> string \<Rightarrow> seconds \<Rightarrow> delegation_tracker \<Rightarrow> bool \<times> reject_reason" where
  "can_delegate requester agent_type now tr =
     (let p = dt_policy tr in
      if agent_type \<notin> set (allowed_agent_types p) then
        (False, TypeNotAllowed agent_type (allowed_agent_types p))
      else if max_concurrent_delegations p \<le> int (card (active_set tr requester)) then
        (False, ConcurrentLimitReached (max_concurrent_delegations p) requester)
      else
        let cutoff = now - 3600;
            recent = filter (\<lambda>t. cutoff < t) (dt_history tr) in
        if max_delegations_per_hour p \<le> int (length recent) then
          (False, HourlyRateLimitReached (max_delegations_per_hour p))
        else (True, NoReason))"

definition record_delegation ::
  "agent_id \<Rightarrow> agent_id \<Rightarrow> seconds \<Rightarrow> delegation_tracker \<Rightarrow> delegation_tracker" where
  "record_delegation requester agent now tr =
     (let active = (if dict_get (dt_active tr) requester = None
                    then dict_set (dt_active tr) requester {} else dt_active tr) in
      tr\<lparr>dt_active := dict_set active requester (insert agent (the (dict_get active requester))),
         dt_history := dt_history tr @ [now]\<rparr>)"

definition record_completion ::
  "agent_id \<Rightarrow> agent_id \<Rightarrow> delegation_tracker \<Rightarrow> delegation_tracker" where
  "record_completion requester agent tr =
     (case dict_get (dt_active tr) requester of
        None \<Rightarrow> tr
      | Some s \<Rightarrow> tr\<lparr>dt_active := dict_set (dt_active tr) requester (s - {agent})\<rparr>)"

section \<open>Behaviour of the operations\<close>

lemma active_set_record_delegation:
  "active_set (record_delegation r x now tr) q =
     (if q = r then insert x (active_set tr r) else active_set tr q)"
  by (auto simp: active_set_def record_delegation_def Let_def dict_simps split: option.splits)

lemma active_set_record_completion:
  "active_set (record_completion r x tr) q =
     (if q = r then active_set tr r - {x} else active_set tr q)"
  by (auto simp: active_set_def record_completion_def dict_simps split: option.splits)

lemma record_delegation_frame [simp]:
  "dt_policy (record_delegation r x now tr) = dt_policy tr"
  "dt_history (record_delegation r x now tr) = dt_history tr @ [now]"
  by (simp_all add: record_delegation_def Let_def)

lemma record_completion_frame [simp]:
  "dt_policy (record_completion r x tr) = dt_policy tr"
  "dt_history (record_completion r x tr) = dt_history tr"
  by (auto simp: record_completion_def split: option.splits)

lemma can_delegate_True:
  "fst (can_delegate r ty now tr) \<longleftrightarrow>
     ty \<in> set (allowed_agent_types (dt_policy tr)) \<and>
     int (card (active_set tr r)) < max_concurrent_delegations (dt_policy tr) \<and>
     int (length (filter (\<lambda>t. now - 3600 < t) (dt_history tr))) < max_delegations_per_hour (dt_policy tr)"
  by (auto simp: can_delegate_def Let_def)

section \<open>The protocol\<close>

text \<open>
  A requester asks, and only an approved delegation is recorded: the order in which
  \<open>Supervisor.handle_delegation_request\<close> calls the tracker. A completion may be reported
  at any time, for any pair.
\<close>

datatype delegation_event =
    Ask agent_id string agent_id seconds seconds
  | Complete agent_id agent_id

definition delegate ::
  "delegation_tracker \<Rightarrow> agent_id \<times> string \<times> agent_id \<Rightarrow> seconds \<Rightarrow> seconds
     \<Rightarrow> bool \<times> delegation_tracker" where
  "delegate tr e a b = (case e of (r, ty, x) \<Rightarrow>
     if fst (can_delegate r ty a tr) then (True, record_delegation r x b tr) else (False, tr))"

fun delegation_step :: "delegation_tracker \<Rightarrow> delegation_event \<Rightarrow> delegation_tracker" where
  "delegation_step tr (Ask r ty x a b) = snd (delegate tr (r, ty, x) a b)"
| "delegation_step tr (Complete r x) = record_completion r x tr"

definition within_caps :: "delegation_tracker \<Rightarrow> bool" where
  "within_caps tr \<longleftrightarrow> (\<forall>r. finite (active_set tr r) \<and>
     (active_set tr r \<noteq> {} \<longrightarrow> int (card (active_set tr r)) \<le> max_concurrent_delegations (dt_policy tr)))"

lemma within_caps_delegate:
  assumes "within_caps tr" and "int (card (active_set tr r)) < max_concurrent_delegations (dt_policy tr)"
  shows "within_caps (record_delegation r x b tr)"
  unfolding within_caps_def active_set_record_delegation record_delegation_frame
proof (intro allI conjI impI)
  fix q
  from assms(1) have fin: "finite (active_set tr q)" for q by (simp add: within_caps_def)
  then show "finite (if q = r then insert x (active_set tr r) else active_set tr q)" by simp
  assume ne: "(if q = r then insert x (active_set tr r) else active_set tr q) \<noteq> {}"
  have "card (insert x (active_set tr r)) \<le> Suc (card (active_set tr r))"
    using fin by (simp add: card_insert_if)
  with assms(2) have "int (card (insert x (active_set tr r))) \<le> max_concurrent_delegations (dt_policy tr)"
    by linarith
  with assms(1) ne show "int (card (if q = r then insert x (active_set tr r) else active_set tr q))
      \<le> max_concurrent_delegations (dt_policy tr)"
    by (auto simp: within_caps_def split: if_splits)
qed

lemma within_caps_complete:
  assumes "within_caps tr"
  shows "within_caps (record_completion r x tr)"
  unfolding within_caps_def active_set_record_completion record_completion_frame
proof (intro allI conjI impI)
  fix q
  from assms have fin: "finite (active_set tr q)" for q by (simp add: within_caps_def)
  then show "finite (if q = r then active_set tr r - {x} else active_set tr q)" by simp
  assume ne: "(if q = r then active_set tr r - {x} else active_set tr q) \<noteq> {}"
  have "card (active_set tr r - {x}) \<le> card (active_set tr r)"
    using fin by (simp add: card_mono)
  with assms ne show "int (card (if q = r then active_set tr r - {x} else active_set tr q))
      \<le> max_concurrent_delegations (dt_policy tr)"
    by (fastforce simp: within_caps_def split: if_splits)
qed

lemma within_caps_step: "within_caps tr \<Longrightarrow> within_caps (delegation_step tr e)"
  by (cases e) (auto simp: delegate_def can_delegate_True
      intro: within_caps_delegate within_caps_complete)

lemma delegation_step_policy [simp]: "dt_policy (delegation_step tr e) = dt_policy tr"
  by (cases e) (auto simp: delegate_def)

lemma within_caps_run: "within_caps tr \<Longrightarrow> within_caps (foldl delegation_step tr es)"
  by (induction es arbitrary: tr) (auto intro: within_caps_step)

lemma delegation_run_policy [simp]: "dt_policy (foldl delegation_step tr es) = dt_policy tr"
  by (induction es arbitrary: tr) auto

definition dt_ok :: "delegation_policy \<Rightarrow> seconds \<Rightarrow> delegation_tracker \<Rightarrow> bool" where
  "dt_ok p now tr \<longleftrightarrow> dt_policy tr = p"

interpretation dt: window_limiter
  delegate dt_history "dt_ok p" "\<lambda>now t. now - 3600 < t" "nat (max_delegations_per_hour p)"
  for p
  by unfold_locales
    (auto simp: dt_ok_def delegate_def can_delegate_True split: prod.splits if_splits)

section \<open>Properties\<close>

text \<open>
  C9. The concurrent cap: whatever requests and completions arrive, no requester ever has
  more active delegated agents than \<open>max_concurrent_delegations\<close>.
\<close>

theorem delegation_concurrency_cap:
  assumes "0 \<le> max_concurrent_delegations p"
  shows "int (card (active_set (foldl delegation_step (new_delegation_tracker p) es) r))
    \<le> max_concurrent_delegations p"
proof -
  have "within_caps (new_delegation_tracker p)"
    by (simp add: within_caps_def active_set_def new_delegation_tracker_def)
  then have "within_caps (foldl delegation_step (new_delegation_tracker p) es)"
    by (rule within_caps_run)
  then show ?thesis
    using assms
    by (cases "active_set (foldl delegation_step (new_delegation_tracker p) es) r = {}")
      (auto simp: within_caps_def new_delegation_tracker_def)
qed

theorem delegation_concurrency_cap_witness:
  "card (active_set (foldl delegation_step (new_delegation_tracker
      (default_delegation_policy\<lparr>max_concurrent_delegations := 1\<rparr>))
      [Ask ''pm'' ''gsd'' ''d1'' 0 0, Ask ''pm'' ''gsd'' ''d2'' 1 1]) ''pm'') \<le> 1"
  using delegation_concurrency_cap [of "default_delegation_policy\<lparr>max_concurrent_delegations := 1\<rparr>"
      "[Ask ''pm'' ''gsd'' ''d1'' 0 0, Ask ''pm'' ''gsd'' ''d2'' 1 1]" "''pm''"]
  by (simp add: default_delegation_policy_def)

text \<open>
  The hourly rate: over any sequence of requests whose clock readings never go back,
  of every \<open>max_delegations_per_hour + 1\<close> consecutive approved delegations, from whatever
  requesters, the last is recorded at least 3600 seconds after the first.
\<close>

theorem delegation_hourly_rate:
  assumes "monotonic_from c evs"
    and "gs = granted delegate (new_delegation_tracker p) evs"
    and "i + nat (max_delegations_per_hour p) < length gs"
  shows "gs ! i + 3600 \<le> gs ! (i + nat (max_delegations_per_hour p))"
proof -
  have "dt_ok p c (new_delegation_tracker p)"
    by (simp add: dt_ok_def new_delegation_tracker_def)
  then have "spaced (\<lambda>now t. now - 3600 < t) (nat (max_delegations_per_hour p)) gs"
    using dt.granted_spaced [OF assms(1)] assms(2) by (simp add: new_delegation_tracker_def)
  with assms(3) show ?thesis by (fastforce simp: spaced_def)
qed

theorem delegation_hourly_rate_witness:
  "granted delegate (new_delegation_tracker (default_delegation_policy\<lparr>max_delegations_per_hour := 1\<rparr>))
      [((''a'', ''gsd'', ''d1''), 0, 0), ((''b'', ''gsd'', ''d2''), 10, 10),
       ((''b'', ''gsd'', ''d3''), 3600, 3601)] = [0, 3601]
    \<and> (0 :: seconds) + 3600 \<le> 3601"
proof -
  let ?p = "default_delegation_policy\<lparr>max_delegations_per_hour := 1\<rparr>"
  let ?evs = "[((''a'', ''gsd'', ''d1''), 0, 0), ((''b'', ''gsd'', ''d2''), 10, 10),
       ((''b'', ''gsd'', ''d3''), 3600, 3601)]"
  have g: "granted delegate (new_delegation_tracker ?p) ?evs = [0, 3601]"
    by (simp add: delegate_def can_delegate_def record_delegation_def new_delegation_tracker_def
        default_delegation_policy_def active_set_def Let_def)
  from delegation_hourly_rate [of 0 ?evs "[0, 3601]" ?p 0] g
  show ?thesis by (simp add: default_delegation_policy_def)
qed

lemma busy_requester_history:
  assumes "ty \<in> set (allowed_agent_types (dt_policy tr))"
    and "0 < max_concurrent_delegations (dt_policy tr)"
    and "active_set tr a = {}" and "dt_history tr = replicate m t"
    and "int (m + n) \<le> max_delegations_per_hour (dt_policy tr)"
  shows "dt_history (foldl delegation_step tr (concat (replicate n [Ask a ty x t t, Complete a x])))
    = replicate (m + n) t"
  using assms
proof (induction n arbitrary: tr m)
  case (Suc n)
  let ?tr = "delegation_step (delegation_step tr (Ask a ty x t t)) (Complete a x)"
  have "fst (can_delegate a ty t tr)"
    using Suc.prems by (simp add: can_delegate_True)
  then have step: "?tr = record_completion a x (record_delegation a x t tr)"
    by (simp add: delegate_def)
  have "dt_history (foldl delegation_step ?tr (concat (replicate n [Ask a ty x t t, Complete a x])))
      = replicate (Suc m + n) t"
    unfolding step using Suc.prems
    by (intro Suc.IH) (simp_all add: active_set_record_completion active_set_record_delegation
        replicate_append_same)
  then show ?case by simp
qed simp

text \<open>
  The hourly rate is shared by all requesters (\<open>DelegationPolicy\<close> documents it as a
  limit per requester): when one requester has delegated and completed
  \<open>max_delegations_per_hour\<close> tasks, another one that has never delegated anything is
  rejected within the hour.
\<close>

theorem delegation_rate_is_shared:
  fixes x :: agent_id
  assumes "ty \<in> set (allowed_agent_types p)" and "0 < max_concurrent_delegations p"
    and "0 \<le> max_delegations_per_hour p" and "a \<noteq> r" and "now < t + 3600"
  defines "es \<equiv> concat (replicate (nat (max_delegations_per_hour p)) [Ask a ty x t t, Complete a x])"
  shows "active_set (foldl delegation_step (new_delegation_tracker p) es) r = {}
    \<and> can_delegate r ty now (foldl delegation_step (new_delegation_tracker p) es)
        = (False, HourlyRateLimitReached (max_delegations_per_hour p))"
proof
  let ?tr = "foldl delegation_step (new_delegation_tracker p) es"
  have other: "active_set (foldl delegation_step tr
      (concat (replicate n [Ask a ty x t t, Complete a x]))) r = active_set tr r" for n tr
    using assms(4) by (induction n arbitrary: tr)
      (simp_all add: delegate_def active_set_record_completion active_set_record_delegation)
  show idle: "active_set ?tr r = {}"
    by (simp add: es_def other) (simp add: active_set_def new_delegation_tracker_def)
  have "dt_history ?tr = replicate (nat (max_delegations_per_hour p)) t"
    using busy_requester_history [of ty "new_delegation_tracker p" a 0 t] assms(1-3)
    by (simp add: es_def new_delegation_tracker_def active_set_def)
  then show "can_delegate r ty now ?tr = (False, HourlyRateLimitReached (max_delegations_per_hour p))"
    using assms(1-3,5) idle by (simp add: can_delegate_def Let_def new_delegation_tracker_def)
qed

theorem delegation_rate_is_shared_witness:
  "can_delegate ''b'' ''gsd'' 5
      (foldl delegation_step
         (new_delegation_tracker (default_delegation_policy\<lparr>max_delegations_per_hour := 1\<rparr>))
         [Ask ''a'' ''gsd'' ''d1'' 1 1, Complete ''a'' ''d1''])
    = (False, HourlyRateLimitReached 1)"
  using delegation_rate_is_shared [of "''gsd''"
      "default_delegation_policy\<lparr>max_delegations_per_hour := 1\<rparr>" "''a''" "''b''" 5 1 "''d1''"]
  by (simp add: default_delegation_policy_def)

end
