(* ===== verification/Degraded_Mode.thy ===== *)
theory Degraded_Mode
  imports Vco_Prelude
begin

text \<open>
  \<open>DegradedModeManager\<close> of src/vcompany/resilience/degraded_mode.py. The state that
  decides the mode is modelled; the result of a probe is an argument (the background loop
  turns an exception of the probe into a failed one). The callbacks are recorded as the
  list of the notifications that were sent.
\<close>

section \<open>Model\<close>

datatype mode = Normal | Degraded

datatype notification = OnDegraded | OnRecovered

record degraded_mode =
  failure_threshold :: int
  recovery_threshold :: int
  has_on_degraded :: bool
  has_on_recovered :: bool
  dm_state :: mode
  consecutive_failures :: int
  consecutive_successes :: int
  notified :: "notification list"
  dm_task :: bool

definition new_degraded_mode :: "int \<Rightarrow> int \<Rightarrow> bool \<Rightarrow> bool \<Rightarrow> degraded_mode" where
  "new_degraded_mode f r d u = \<lparr>failure_threshold = f, recovery_threshold = r,
     has_on_degraded = d, has_on_recovered = u, dm_state = Normal,
     consecutive_failures = 0, consecutive_successes = 0, notified = [], dm_task = False\<rparr>"

definition is_degraded :: "degraded_mode \<Rightarrow> bool" where
  "is_degraded m = (dm_state m = Degraded)"

definition dm_start :: "degraded_mode \<Rightarrow> degraded_mode" where
  "dm_start m = (if dm_task m then m else m\<lparr>dm_task := True\<rparr>)"

definition dm_stop :: "degraded_mode \<Rightarrow> degraded_mode" where
  "dm_stop m = (if dm_task m then m\<lparr>dm_task := False\<rparr> else m)"

definition record_result :: "bool \<Rightarrow> degraded_mode \<Rightarrow> degraded_mode" where
  "record_result healthy m =
     (if healthy then
        (let m = m\<lparr>consecutive_successes := consecutive_successes m + 1, consecutive_failures := 0\<rparr> in
         if dm_state m = Degraded \<and> recovery_threshold m \<le> consecutive_successes m then
           m\<lparr>dm_state := Normal, consecutive_successes := 0,
             notified := notified m @ (if has_on_recovered m then [OnRecovered] else [])\<rparr>
         else m)
      else
        (let m = m\<lparr>consecutive_failures := consecutive_failures m + 1, consecutive_successes := 0\<rparr> in
         if dm_state m = Normal \<and> failure_threshold m \<le> consecutive_failures m then
           m\<lparr>dm_state := Degraded, consecutive_failures := 0,
             notified := notified m @ (if has_on_degraded m then [OnDegraded] else [])\<rparr>
         else m))"

text \<open>One round of \<open>_check_loop\<close>: a probe that raised (\<open>None\<close>) counts as unhealthy.\<close>

definition check_round :: "bool option \<Rightarrow> degraded_mode \<Rightarrow> degraded_mode" where
  "check_round probe m =
     record_result (case probe of None \<Rightarrow> False | Some healthy \<Rightarrow> healthy) m"

definition record_operational_failure :: "degraded_mode \<Rightarrow> degraded_mode" where
  "record_operational_failure m = record_result False m"

definition record_operational_success :: "degraded_mode \<Rightarrow> degraded_mode" where
  "record_operational_success m = record_result True m"

section \<open>Specification\<close>

text \<open>
  The abstract promise looks only at the results seen so far, latest first: the length of
  the current streak of equal results decides the mode.
\<close>

fun streak :: "bool \<Rightarrow> bool list \<Rightarrow> nat" where
  "streak b [] = 0"
| "streak b (x # xs) = (if x = b then Suc (streak b xs) else 0)"

fun mode_spec :: "int \<Rightarrow> int \<Rightarrow> bool list \<Rightarrow> mode" where
  "mode_spec f r [] = Normal"
| "mode_spec f r (x # xs) =
     (case mode_spec f r xs of
        Normal \<Rightarrow> if \<not> x \<and> f \<le> int (streak False (x # xs)) then Degraded else Normal
      | Degraded \<Rightarrow> if x \<and> r \<le> int (streak True (x # xs)) then Normal else Degraded)"

abbreviation dm_run :: "degraded_mode \<Rightarrow> bool list \<Rightarrow> degraded_mode" where
  "dm_run m xs \<equiv> foldr record_result xs m"

lemma record_result_frame [simp]:
  "failure_threshold (record_result h m) = failure_threshold m"
  "recovery_threshold (record_result h m) = recovery_threshold m"
  "has_on_degraded (record_result h m) = has_on_degraded m"
  "has_on_recovered (record_result h m) = has_on_recovered m"
  by (simp_all add: record_result_def Let_def)

lemma dm_run_frame [simp]:
  "failure_threshold (dm_run m xs) = failure_threshold m"
  "recovery_threshold (dm_run m xs) = recovery_threshold m"
  "has_on_degraded (dm_run m xs) = has_on_degraded m"
  "has_on_recovered (dm_run m xs) = has_on_recovered m"
  by (induction xs) simp_all

text \<open>
  The simulation: the counter that matters in the current mode is the current streak.
\<close>

definition dm_rel :: "bool list \<Rightarrow> degraded_mode \<Rightarrow> bool" where
  "dm_rel xs m \<longleftrightarrow>
     dm_state m = mode_spec (failure_threshold m) (recovery_threshold m) xs \<and>
     (dm_state m = Normal \<longrightarrow> consecutive_failures m = int (streak False xs)) \<and>
     (dm_state m = Degraded \<longrightarrow> consecutive_successes m = int (streak True xs))"

lemma dm_rel_step: "dm_rel xs m \<Longrightarrow> dm_rel (h # xs) (record_result h m)"
  by (cases "dm_state m"; cases h)
    (auto simp: dm_rel_def record_result_def Let_def split: mode.splits)

lemma dm_rel_run: "dm_rel [] m \<Longrightarrow> dm_rel xs (dm_run m xs)"
  by (induction xs) (auto intro: dm_rel_step)

text \<open>
  With both callbacks registered, the notifications alternate, starting with the degraded
  one, and the last one names the current mode.
\<close>

fun alternating :: "mode \<Rightarrow> notification list \<Rightarrow> bool" where
  "alternating Normal [] = True"
| "alternating Degraded [] = False"
| "alternating s (x # xs) =
     (case x of OnDegraded \<Rightarrow> s = Degraded \<and> alternating Normal xs
      | OnRecovered \<Rightarrow> s = Normal \<and> alternating Degraded xs)"

lemma alternating_step:
  assumes "has_on_degraded m" "has_on_recovered m" "alternating (dm_state m) (rev (notified m))"
  shows "alternating (dm_state (record_result h m)) (rev (notified (record_result h m)))"
  using assms by (cases "dm_state m") (auto simp: record_result_def Let_def)

lemma alternating_run:
  assumes "has_on_degraded m" "has_on_recovered m" "alternating (dm_state m) (rev (notified m))"
  shows "alternating (dm_state (dm_run m xs)) (rev (notified (dm_run m xs)))"
  using assms by (induction xs) (simp_all add: alternating_step)

section \<open>Properties\<close>

text \<open>
  C13. The mode is decided by the streaks of the results alone: after any sequence of
  results (latest first), a new manager is in the mode of the specification. It leaves the
  normal mode exactly with a failure whose streak has reached \<open>failure_threshold\<close>, and the
  degraded mode exactly with a success whose streak has reached \<open>recovery_threshold\<close>.
\<close>

theorem degraded_mode_refines_streaks:
  "dm_state (foldr record_result xs (new_degraded_mode f r d u)) = mode_spec f r xs"
  using dm_rel_run [of "new_degraded_mode f r d u" xs]
  by (simp add: dm_rel_def new_degraded_mode_def)

text \<open>
  The owner is notified once per transition: with both callbacks registered the
  notifications alternate between degraded and recovered, and the latest one agrees with
  the current mode.
\<close>

theorem degraded_mode_notifications:
  "alternating (dm_state (foldr record_result xs (new_degraded_mode f r True True)))
     (rev (notified (foldr record_result xs (new_degraded_mode f r True True))))"
  by (rule alternating_run) (simp_all add: new_degraded_mode_def)

end
