(* ===== verification/Bulk_Failure.thy ===== *)
theory Bulk_Failure
  imports Vco_Prelude
begin

text \<open>
  \<open>BulkFailureDetector\<close> of src/vcompany/resilience/bulk_failure.py. The clock readings
  are arguments, one per call of \<open>self._clock()\<close>.
\<close>

section \<open>Model\<close>

record bulk_detector =
  child_count :: int
  correlation_window :: seconds
  threshold_ratio :: rat
  threshold :: int
  backoff_seconds :: seconds
  max_backoff :: seconds
  recent_failures :: "(agent_id, seconds) dict"
  in_backoff :: bool
  current_backoff :: seconds

definition bulk_threshold :: "int \<Rightarrow> rat \<Rightarrow> int" where
  "bulk_threshold count ratio = max 2 (py_int (of_int count * ratio))"

definition new_bulk_detector ::
  "int \<Rightarrow> seconds \<Rightarrow> rat \<Rightarrow> seconds \<Rightarrow> seconds \<Rightarrow> bulk_detector" where
  "new_bulk_detector count window ratio backoff max_back =
     \<lparr>child_count = count, correlation_window = window, threshold_ratio = ratio,
      threshold = bulk_threshold count ratio, backoff_seconds = backoff,
      max_backoff = max_back, recent_failures = [], in_backoff = False,
      current_backoff = backoff\<rparr>"

text \<open>The detector a supervisor creates: only the number of children is given.\<close>

definition default_bulk_detector :: "int \<Rightarrow> bulk_detector" where
  "default_bulk_detector count = new_bulk_detector count 30 (1 / 2) 120 600"

definition purge_old :: "seconds \<Rightarrow> bulk_detector \<Rightarrow> bulk_detector" where
  "purge_old now d =
     (let cutoff = now - correlation_window d;
          expired = map fst (filter (\<lambda>(cid, ts). ts < cutoff) (recent_failures d)) in
      d\<lparr>recent_failures := foldl (\<lambda>rf cid. dict_pop rf cid) (recent_failures d) expired\<rparr>)"

definition record_failure :: "agent_id \<Rightarrow> seconds \<Rightarrow> seconds \<Rightarrow> bulk_detector \<Rightarrow> bool \<times> bulk_detector" where
  "record_failure child now now' d =
     (let d = purge_old now d;
          d = d\<lparr>recent_failures := dict_set (recent_failures d) child now'\<rparr> in
      if threshold d \<le> int (length (recent_failures d)) then (True, d\<lparr>in_backoff := True\<rparr>)
      else (False, d))"

definition is_in_backoff :: "bulk_detector \<Rightarrow> bool" where
  "is_in_backoff d = in_backoff d"

definition reset_backoff :: "bulk_detector \<Rightarrow> bulk_detector" where
  "reset_backoff d = d\<lparr>in_backoff := False, current_backoff := backoff_seconds d\<rparr>"

definition escalate_backoff :: "bulk_detector \<Rightarrow> bulk_detector" where
  "escalate_backoff d = d\<lparr>current_backoff := min (current_backoff d * 2) (max_backoff d)\<rparr>"

definition update_child_count :: "int \<Rightarrow> bulk_detector \<Rightarrow> bulk_detector" where
  "update_child_count count d =
     d\<lparr>child_count := count, threshold := bulk_threshold count (threshold_ratio d)\<rparr>"

section \<open>The window\<close>

lemma foldl_dict_pop:
  "foldl (\<lambda>rf cid. dict_pop rf cid) d ks = filter (\<lambda>(k, v). k \<notin> set ks) d"
proof (induction ks arbitrary: d)
  case (Cons k ks)
  then show ?case by (auto simp: dict_pop_filter intro: filter_cong)
qed (simp add: filter_True)

lemma recent_failures_purge_old:
  assumes "dict_ok (recent_failures d)"
  shows "recent_failures (purge_old now d)
    = filter (\<lambda>(cid, ts). now - correlation_window d \<le> ts) (recent_failures d)"
proof -
  have "(k \<in> set (map fst (filter (\<lambda>(cid, ts). ts < c) (recent_failures d)))) \<longleftrightarrow> v < c"
    if "(k, v) \<in> set (recent_failures d)" for k v and c :: seconds
    using that assms by (auto simp: image_iff dest: eq_key_imp_eq_value)
  then have "filter (\<lambda>(k, v). k \<notin> set (map fst (filter (\<lambda>(cid, ts). ts < c) (recent_failures d))))
      (recent_failures d) = filter (\<lambda>(cid, ts). c \<le> ts) (recent_failures d)" for c :: seconds
    by (intro filter_cong refl) (force simp: not_less simp del: set_map set_filter)
  then show ?thesis
    by (simp only: purge_old_def Let_def foldl_dict_pop) simp
qed

lemma purge_old_frame [simp]:
  "threshold (purge_old now d) = threshold d"
  "correlation_window (purge_old now d) = correlation_window d"
  "in_backoff (purge_old now d) = in_backoff d"
  by (simp_all add: purge_old_def Let_def)

lemma record_failure_frame [simp]:
  "threshold (snd (record_failure k a b d)) = threshold d"
  "correlation_window (snd (record_failure k a b d)) = correlation_window d"
  by (simp_all add: record_failure_def Let_def)

section \<open>Specification\<close>

text \<open>
  The children that failed at or after a time, in the whole history of failures: what the
  detector has to count, and what its dictionary of latest failures stands for.
\<close>

definition failed_since :: "seconds \<Rightarrow> (agent_id \<times> seconds) list \<Rightarrow> agent_id set" where
  "failed_since c hist = {k. \<exists>t. (k, t) \<in> set hist \<and> c \<le> t}"

fun bulk_run :: "bulk_detector \<Rightarrow> (agent_id \<times> seconds \<times> seconds) list \<Rightarrow> bulk_detector" where
  "bulk_run d [] = d"
| "bulk_run d ((k, a, b) # evs) = bulk_run (snd (record_failure k a b d)) evs"

fun clock_from :: "seconds \<Rightarrow> (agent_id \<times> seconds \<times> seconds) list \<Rightarrow> bool" where
  "clock_from c [] = True"
| "clock_from c ((k, a, b) # evs) = (c \<le> a \<and> a \<le> b \<and> clock_from b evs)"

abbreviation failures :: "(agent_id \<times> seconds \<times> seconds) list \<Rightarrow> (agent_id \<times> seconds) list" where
  "failures evs \<equiv> map (\<lambda>(k, a, b). (k, b)) evs"

definition bulk_rel :: "seconds \<Rightarrow> (agent_id \<times> seconds) list \<Rightarrow> bulk_detector \<Rightarrow> bool" where
  "bulk_rel now hist d \<longleftrightarrow> dict_ok (recent_failures d) \<and>
     (\<forall>(k, t) \<in> set (recent_failures d). t \<le> now) \<and> (\<forall>(k, t) \<in> set hist. t \<le> now) \<and>
     (\<forall>c \<ge> now - correlation_window d. failed_since c (recent_failures d) = failed_since c hist)"

lemma failed_since_filter:
  "c' \<le> c \<Longrightarrow> failed_since c (filter (\<lambda>(k, t). c' \<le> t) hist) = failed_since c hist"
  by (auto simp: failed_since_def)

lemma failed_since_keys:
  "set (dict_keys (filter (\<lambda>(k, t). c \<le> t) hist)) = failed_since c hist"
  by (force simp: failed_since_def)

lemma failed_since_dict_set:
  assumes "dict_ok d" and "\<forall>(k, t) \<in> set d. t \<le> b"
  shows "failed_since c (dict_set d k b) = failed_since c ((k, b) # d)"
proof -
  have "x \<in> failed_since c (dict_set d k b)" if "x \<in> failed_since c ((k, b) # d)" for x
  proof -
    from that obtain t where t: "(x, t) = (k, b) \<or> (x, t) \<in> set d" "c \<le> t"
      by (auto simp: failed_since_def)
    with assms(2) have "x = k \<Longrightarrow> c \<le> b" by auto
    with t show ?thesis
      by (cases "x = k") (auto simp: failed_since_def set_dict_set [OF assms(1)])
  qed
  then show ?thesis by (auto simp: failed_since_def set_dict_set [OF assms(1)])
qed

lemma record_failure_recent:
  assumes "dict_ok (recent_failures d)"
  shows "recent_failures (snd (record_failure k a b d))
    = dict_set (filter (\<lambda>(k, t). a - correlation_window d \<le> t) (recent_failures d)) k b"
  by (simp add: record_failure_def Let_def recent_failures_purge_old [OF assms])

lemma bulk_rel_step:
  assumes rel: "bulk_rel now hist d" and "now \<le> a" "a \<le> b"
  shows "bulk_rel b (hist @ [(k, b)]) (snd (record_failure k a b d))"
proof -
  let ?w = "correlation_window d" and ?rf = "recent_failures d"
  let ?kept = "filter (\<lambda>(k, t). a - ?w \<le> t) ?rf"
  from rel have ok: "dict_ok ?rf" and le: "\<forall>(k, t) \<in> set ?rf. t \<le> now"
    and hist: "\<forall>(k, t) \<in> set hist. t \<le> now"
    and eq: "\<And>c. now - ?w \<le> c \<Longrightarrow> failed_since c ?rf = failed_since c hist"
    by (auto simp: bulk_rel_def)
  have okk: "dict_ok ?kept" using ok by (rule dict_ok_filter)
  have lek: "\<forall>(k, t) \<in> set ?kept. t \<le> b" using le assms(2,3) by force
  have "failed_since c (dict_set ?kept k b) = failed_since c (hist @ [(k, b)])"
    if c: "b - ?w \<le> c" for c
  proof -
    have "failed_since c (dict_set ?kept k b) = failed_since c ((k, b) # ?kept)"
      by (rule failed_since_dict_set [OF okk lek])
    also have "\<dots> = failed_since c ((k, b) # hist)"
      using eq [of c] failed_since_filter [of "a - ?w" c ?rf] c assms(2,3)
      by (auto simp: failed_since_def)
    finally show ?thesis by (auto simp: failed_since_def)
  qed
  moreover have "\<forall>(x, t) \<in> set (dict_set ?kept k b). t \<le> b"
    using lek by (auto simp: set_dict_set [OF okk])
  ultimately show ?thesis
    using hist assms(2,3) dict_ok_set [OF okk]
    by (force simp: bulk_rel_def record_failure_recent [OF ok])
qed

lemma bulk_rel_run:
  assumes "clock_from c (evs @ [(k, a, b)])" and "bulk_rel c hist d"
  shows "\<exists>c' \<le> a. bulk_rel c' (hist @ failures evs) (bulk_run d evs) \<and> a \<le> b"
  using assms
proof (induction evs arbitrary: c d hist)
  case (Cons ev evs)
  obtain k' a' b' where ev: "ev = (k', a', b')" by (cases ev)
  with Cons.prems have "bulk_rel b' (hist @ [(k', b')]) (snd (record_failure k' a' b' d))"
    by (auto intro: bulk_rel_step)
  from Cons.IH [OF _ this] Cons.prems(1) ev show ?case by auto
qed auto

lemma bulk_run_frame [simp]:
  "threshold (bulk_run d evs) = threshold d"
  "correlation_window (bulk_run d evs) = correlation_window d"
  by (induction d evs rule: bulk_run.induct) simp_all

lemma record_failure_verdict:
  assumes "bulk_rel now hist d" and "now \<le> a" "a \<le> b"
  shows "fst (record_failure k a b d) \<longleftrightarrow>
    threshold d \<le> int (card (insert k (failed_since (a - correlation_window d) hist)))"
proof -
  let ?kept = "filter (\<lambda>(k, t). a - correlation_window d \<le> t) (recent_failures d)"
  from assms have ok: "dict_ok (recent_failures d)"
    and eq: "failed_since (a - correlation_window d) (recent_failures d)
      = failed_since (a - correlation_window d) hist"
    by (auto simp: bulk_rel_def)
  have "length (dict_set ?kept k b) = card (set (dict_keys (dict_set ?kept k b)))"
    by (intro dict_length_keys dict_ok_set dict_ok_filter ok)
  also have "\<dots> = card (insert k (failed_since (a - correlation_window d) hist))"
    by (simp only: dict_keys_set failed_since_keys eq)
  finally show ?thesis
    by (simp add: record_failure_def Let_def recent_failures_purge_old [OF ok])
qed

section \<open>Properties\<close>

text \<open>
  The verdict of the detector is the specification's: after any history of failures
  with a clock that never goes back, a failure is reported as a bulk failure exactly when
  the number of distinct children that failed within the correlation window, this one
  included, reaches the threshold; repeated failures of one child count once.
\<close>

theorem bulk_failure_counts_distinct_children:
  assumes "clock_from c (evs @ [(k, a, b)])"
  shows "fst (record_failure k a b (bulk_run (new_bulk_detector n w q back mb) evs)) \<longleftrightarrow>
    bulk_threshold n q \<le> int (card (insert k (failed_since (a - w) (failures evs))))"
proof -
  let ?d = "new_bulk_detector n w q back mb"
  have "bulk_rel c [] ?d"
    by (simp add: bulk_rel_def new_bulk_detector_def)
  from bulk_rel_run [OF assms this] obtain c' where
    "c' \<le> a" "bulk_rel c' (failures evs) (bulk_run ?d evs)" "a \<le> b" by auto
  from record_failure_verdict [OF this(2,1,3)] show ?thesis
    by (simp add: new_bulk_detector_def)
qed

theorem bulk_failure_counts_distinct_children_witness:
  "\<not> fst (record_failure ''a'' 5 5 (bulk_run (default_bulk_detector 2) [(''a'', 0, 0), (''a'', 1, 1)]))"
proof -
  have "insert ''a'' (failed_since (5 - 30) (failures [(''a'', 0, 0), (''a'', 1, 1)])) = {''a''}"
    by (auto simp: failed_since_def)
  then show ?thesis
    using bulk_failure_counts_distinct_children
      [of 0 "[(''a'', 0, 0), (''a'', 1, 1)]" "''a''" 5 5 2 30 "1 / 2" 120 600]
    by (simp only: default_bulk_detector_def bulk_threshold_def) simp
qed

text \<open>
  The default threshold is half of the children rounded down, and never below 2. For an
  odd number of at least five children it is below half of them (two of five), where the
  module documents "50%+ of distinct children".
\<close>

theorem bulk_threshold_half:
  assumes "0 \<le> n"
  shows "bulk_threshold n (1 / 2) = max 2 (n div 2)
    \<and> (5 \<le> n \<and> odd n \<longrightarrow> 2 * bulk_threshold n (1 / 2) < n)"
proof -
  have "\<lfloor>(of_int n :: rat) * (1 / 2)\<rfloor> = n div 2"
    using floor_divide_of_int_eq [of n 2, where 'a = rat] by simp
  with assms have t: "bulk_threshold n (1 / 2) = max 2 (n div 2)"
    by (simp add: bulk_threshold_def py_int_def)
  then show ?thesis by (auto elim!: oddE)
qed

theorem bulk_threshold_half_witness: "bulk_threshold 5 (1 / 2) = 2 \<and> 2 * bulk_threshold 5 (1 / 2) < 5"
  using bulk_threshold_half [of 5] by simp

end
