(* ===== verification/Message_Queue.thy ===== *)
theory Message_Queue
  imports Vco_Prelude "HOL-Library.Multiset"
begin

text \<open>
  \<open>MessageQueue\<close> of src/vcompany/resilience/message_queue.py. The priority queue is a
  multiset; \<open>get\<close> takes some message that no queued one precedes (the order of messages
  that compare equal is the heap's affair and is left open). The drain loop is a step
  relation over its suspension points, with the outcome of \<open>send_func\<close>, the end of a sleep
  and the cancellation of the task as the choices of the environment. The record
  \<open>mq_run\<close> extends the queue with the log of what happened to the messages: those handed
  to \<open>enqueue\<close> or \<open>enqueue_health\<close>, those delivered, those dropped after an error other
  than a rate limit, those whose send was cancelled, and the health reports that a later
  report for the same channel replaced in the buffer.
\<close>

section \<open>Messages\<close>

datatype message_priority = ESCALATION | SUPERVISOR | STATUS | HEALTH_DEBOUNCED

fun priority_value :: "message_priority \<Rightarrow> int" where
  "priority_value ESCALATION = 0"
| "priority_value SUPERVISOR = 1"
| "priority_value STATUS = 2"
| "priority_value HEALTH_DEBOUNCED = 3"

text \<open>An \<open>IntEnum\<close> compares by value.\<close>

instantiation message_priority :: linorder
begin

definition less_eq_message_priority :: "message_priority \<Rightarrow> message_priority \<Rightarrow> bool" where
  "less_eq_message_priority p q = (priority_value p \<le> priority_value q)"

definition less_message_priority :: "message_priority \<Rightarrow> message_priority \<Rightarrow> bool" where
  "less_message_priority p q = (priority_value p < priority_value q)"

instance
proof
  fix p q :: message_priority
  show "p \<le> q \<Longrightarrow> q \<le> p \<Longrightarrow> p = q"
    by (cases p; cases q) (simp_all add: less_eq_message_priority_def)
qed (auto simp: less_eq_message_priority_def less_message_priority_def)

end

record queued_message =
  msg_priority :: int
  msg_timestamp :: seconds
  msg_channel_id :: int
  msg_content :: "string option"
  msg_embed :: "nat option"

text \<open>
  \<open>@dataclass(order=True)\<close>: priority first, then timestamp; the other fields do not take
  part in comparisons. The embed is an opaque object, named by a number.
\<close>

instantiation queued_message_ext :: (type) preorder
begin

definition less_eq_queued_message_ext ::
  "'a queued_message_scheme \<Rightarrow> 'a queued_message_scheme \<Rightarrow> bool" where
  "less_eq_queued_message_ext x y \<longleftrightarrow> msg_priority x < msg_priority y \<or>
     msg_priority x = msg_priority y \<and> msg_timestamp x \<le> msg_timestamp y"

definition less_queued_message_ext ::
  "'a queued_message_scheme \<Rightarrow> 'a queued_message_scheme \<Rightarrow> bool" where
  "less_queued_message_ext x y \<longleftrightarrow> msg_priority x < msg_priority y \<or>
     msg_priority x = msg_priority y \<and> msg_timestamp x < msg_timestamp y"

instance
  by standard (auto simp: less_eq_queued_message_ext_def less_queued_message_ext_def)

end

lemma queued_message_not_less:
  fixes x y :: queued_message
  shows "\<not> y < x \<longleftrightarrow> x \<le> y"
  by (auto simp: less_eq_queued_message_ext_def less_queued_message_ext_def)

section \<open>The queue and its drain loop\<close>

text \<open>
  Where the drain task is suspended: waiting for a message, sleeping off the backoff,
  inside \<open>send_func\<close>, in the rate-limiting sleep, or finished.
\<close>

datatype drain_pc =
    Getting
  | BackingOff queued_message
  | Sending queued_message
  | Pausing
  | Finished

datatype send_result = Sent | RateLimited | SendError

record message_queue =
  max_rate :: rat
  debounce_seconds :: seconds
  queue :: "queued_message multiset"
  backoff :: seconds
  health_buffer :: "(int, queued_message) dict"
  flush_armed :: bool
  drain_task :: "drain_pc option"

record mq_run = message_queue +
  accepted :: "queued_message multiset"
  sent :: "queued_message list"
  discarded :: "queued_message multiset"
  cut_off :: "queued_message multiset"
  superseded :: "queued_message multiset"

definition new_message_queue :: "rat \<Rightarrow> seconds \<Rightarrow> mq_run" where
  "new_message_queue rate deb = \<lparr>max_rate = rate, debounce_seconds = deb, queue = {#},
     backoff = 0, health_buffer = [], flush_armed = False, drain_task = None,
     accepted = {#}, sent = [], discarded = {#}, cut_off = {#}, superseded = {#}\<rparr>"

definition mq_start :: "mq_run \<Rightarrow> mq_run" where
  "mq_start s = (if drain_task s \<noteq> None \<and> drain_task s \<noteq> Some Finished then s
                 else s\<lparr>drain_task := Some Getting\<rparr>)"

text \<open>\<open>PriorityQueue.put\<close> on an unbounded queue: it never waits.\<close>

definition queue_put :: "queued_message \<Rightarrow> mq_run \<Rightarrow> mq_run" where
  "queue_put msg s = s\<lparr>queue := add_mset msg (queue s)\<rparr>"

definition enqueue :: "queued_message \<Rightarrow> mq_run \<Rightarrow> mq_run" where
  "enqueue msg s = queue_put msg (s\<lparr>accepted := add_mset msg (accepted s)\<rparr>)"

definition health_message :: "int \<Rightarrow> nat \<Rightarrow> seconds \<Rightarrow> queued_message" where
  "health_message channel emb now = \<lparr>msg_priority = priority_value HEALTH_DEBOUNCED,
     msg_timestamp = now, msg_channel_id = channel, msg_content = None, msg_embed = Some emb\<rparr>"

text \<open>
  A health report is accepted when it enters the buffer; the report it replaces there, if
  any, is logged as superseded.
\<close>

definition replaced :: "mq_run \<Rightarrow> int \<Rightarrow> queued_message multiset" where
  "replaced s channel = (case dict_get (health_buffer s) channel of None \<Rightarrow> {#} | Some old \<Rightarrow> {#old#})"

definition enqueue_health :: "int \<Rightarrow> nat \<Rightarrow> seconds \<Rightarrow> mq_run \<Rightarrow> mq_run" where
  "enqueue_health channel emb now s =
     s\<lparr>health_buffer := dict_set (health_buffer s) channel (health_message channel emb now),
       flush_armed := True,
       accepted := add_mset (health_message channel emb now) (accepted s),
       superseded := superseded s + replaced s channel\<rparr>"

fun put_all :: "queued_message list \<Rightarrow> mq_run \<Rightarrow> mq_run" where
  "put_all [] s = s"
| "put_all (msg # msgs) s = put_all msgs (queue_put msg s)"

definition flush_health :: "mq_run \<Rightarrow> mq_run" where
  "flush_health s = (put_all (dict_values (health_buffer s)) s)\<lparr>health_buffer := [], flush_armed := False\<rparr>"

text \<open>Cancelling the task at each of its suspension points.\<close>

definition cancel_drain :: "mq_run \<Rightarrow> mq_run" where
  "cancel_drain s =
     (case drain_task s of
        None \<Rightarrow> s
      | Some (BackingOff msg) \<Rightarrow>
          s\<lparr>queue := add_mset msg (queue s), drain_task := Some Finished\<rparr>
      | Some (Sending msg) \<Rightarrow>
          s\<lparr>drain_task := Some Finished, cut_off := add_mset msg (cut_off s)\<rparr>
      | Some _ \<Rightarrow> s\<lparr>drain_task := Some Finished\<rparr>)"

definition mq_stop :: "mq_run \<Rightarrow> mq_run" where
  "mq_stop s = cancel_drain (flush_health (s\<lparr>flush_armed := False\<rparr>))"

definition next_backoff :: "seconds \<Rightarrow> seconds" where
  "next_backoff b = min (max (b * 2) 1) 60"

definition after_send :: "mq_run \<Rightarrow> mq_run" where
  "after_send s = s\<lparr>drain_task := Some (if 0 < max_rate s then Pausing else Getting)\<rparr>"

definition drain_get :: "queued_message \<Rightarrow> mq_run \<Rightarrow> mq_run" where
  "drain_get msg s = s\<lparr>queue := queue s - {#msg#},
     drain_task := Some (if 0 < backoff s then BackingOff msg else Sending msg)\<rparr>"

definition drain_send :: "send_result \<Rightarrow> queued_message \<Rightarrow> mq_run \<Rightarrow> mq_run" where
  "drain_send r msg s = after_send
     (case r of
        Sent \<Rightarrow> s\<lparr>backoff := 0, sent := sent s @ [msg]\<rparr>
      | RateLimited \<Rightarrow> s\<lparr>queue := add_mset msg (queue s), backoff := next_backoff (backoff s)\<rparr>
      | SendError \<Rightarrow> s\<lparr>discarded := add_mset msg (discarded s)\<rparr>)"

text \<open>The steps of the drain task between two cancellations.\<close>

inductive drain_step :: "mq_run \<Rightarrow> mq_run \<Rightarrow> bool" where
  get: "drain_task s = Some Getting \<Longrightarrow> msg \<in># queue s \<Longrightarrow> \<forall>m \<in># queue s. \<not> m < msg \<Longrightarrow>
     drain_step s (drain_get msg s)"
| backed_off: "drain_task s = Some (BackingOff msg) \<Longrightarrow>
     drain_step s (s\<lparr>drain_task := Some (Sending msg)\<rparr>)"
| send: "drain_task s = Some (Sending msg) \<Longrightarrow> drain_step s (drain_send r msg s)"
| paused: "drain_task s = Some Pausing \<Longrightarrow> drain_step s (s\<lparr>drain_task := Some Getting\<rparr>)"

text \<open>
  Every step of the queue: calls of its methods, its timer, and its task. The timer starts
  a task for the flush, which may run after another call has replaced or cancelled the
  timer, so a flush is possible at any moment.
\<close>

inductive mq_step :: "mq_run \<Rightarrow> mq_run \<Rightarrow> bool" where
  start: "mq_step s (mq_start s)"
| stop: "mq_step s (mq_stop s)"
| call_enqueue: "mq_step s (enqueue msg s)"
| call_enqueue_health: "mq_step s (enqueue_health channel emb now s)"
| flush_timer: "mq_step s (flush_health s)"
| drain: "drain_step s s' \<Longrightarrow> mq_step s s'"

inductive mq_reachable :: "rat \<Rightarrow> seconds \<Rightarrow> mq_run \<Rightarrow> bool" for rate deb where
  init: "mq_reachable rate deb (new_message_queue rate deb)"
| step: "mq_reachable rate deb s \<Longrightarrow> mq_step s s' \<Longrightarrow> mq_reachable rate deb s'"

section \<open>No message is lost or duplicated\<close>

fun in_flight :: "drain_pc option \<Rightarrow> queued_message multiset" where
  "in_flight (Some (BackingOff msg)) = {#msg#}"
| "in_flight (Some (Sending msg)) = {#msg#}"
| "in_flight _ = {#}"

definition conserved :: "mq_run \<Rightarrow> bool" where
  "conserved s \<longleftrightarrow>
     accepted s = queue s + in_flight (drain_task s) + mset (sent s) + discarded s + cut_off s
       + mset (dict_values (health_buffer s)) + superseded s"

definition backoff_ok :: "mq_run \<Rightarrow> bool" where
  "backoff_ok s \<longleftrightarrow> backoff s = 0 \<or> 1 \<le> backoff s \<and> backoff s \<le> 60"

lemmas mq_ops = mq_start_def mq_stop_def queue_put_def enqueue_def enqueue_health_def flush_health_def
  cancel_drain_def after_send_def drain_get_def drain_send_def

lemma put_all_frame [simp]:
  "drain_task (put_all ms s) = drain_task s" "sent (put_all ms s) = sent s"
  "discarded (put_all ms s) = discarded s" "cut_off (put_all ms s) = cut_off s"
  "backoff (put_all ms s) = backoff s"
  "queue (put_all ms s) = mset ms + queue s" "accepted (put_all ms s) = accepted s"
  "superseded (put_all ms s) = superseded s" "health_buffer (put_all ms s) = health_buffer s"
  by (induction ms arbitrary: s) (simp_all add: queue_put_def)

lemma mset_values_set:
  "mset (dict_values (dict_set d k v)) + (case dict_get d k of None \<Rightarrow> {#} | Some old \<Rightarrow> {#old#})
     = add_mset v (mset (dict_values d))"
  by (induction d) (auto split: option.splits)

lemma conserved_enqueue_health: "conserved s \<Longrightarrow> conserved (enqueue_health channel emb now s)"
  using mset_values_set [where d = "health_buffer s" and k = channel and v = "health_message channel emb now"]
  by (simp add: conserved_def enqueue_health_def replaced_def ac_simps)

lemma conserved_drain_step: "drain_step s s' \<Longrightarrow> conserved s \<Longrightarrow> conserved s'"
  by (induction rule: drain_step.induct)
    (auto simp: conserved_def mq_ops split: send_result.splits)

lemma conserved_cancel: "conserved s \<Longrightarrow> conserved (cancel_drain s)"
  by (auto simp: conserved_def mq_ops split: option.splits drain_pc.splits)

lemma conserved_flush: "conserved s \<Longrightarrow> conserved (flush_health s)"
  by (simp add: conserved_def flush_health_def)

lemma conserved_step: "mq_step s s' \<Longrightarrow> conserved s \<Longrightarrow> conserved s'"
proof (induction rule: mq_step.induct)
  case (stop s)
  then have "conserved (s\<lparr>flush_armed := False\<rparr>)" by (simp add: conserved_def)
  then show ?case unfolding mq_stop_def by (intro conserved_cancel conserved_flush)
next
  case (drain s s')
  then show ?case by (rule conserved_drain_step)
qed (simp_all add: conserved_flush conserved_enqueue_health, simp_all add: conserved_def mq_ops)

lemma backoff_ok_step: "mq_step s s' \<Longrightarrow> backoff_ok s \<Longrightarrow> backoff_ok s'"
  by (induction rule: mq_step.induct)
    (auto simp: backoff_ok_def mq_ops next_backoff_def elim!: drain_step.cases
      split: send_result.splits option.splits drain_pc.splits)

lemma mq_reachable_inv: "mq_reachable rate deb s \<Longrightarrow> conserved s \<and> backoff_ok s"
proof (induction rule: mq_reachable.induct)
  case init
  show ?case by (simp add: conserved_def backoff_ok_def new_message_queue_def)
next
  case (step s s')
  then show ?case using conserved_step backoff_ok_step by blast
qed

lemma next_backoff_start: "next_backoff 0 = 1"
  by (simp add: next_backoff_def)

lemma next_backoff_double: "1 \<le> x \<Longrightarrow> next_backoff (min x 60) = min (2 * x) 60"
  unfolding next_backoff_def min_def max_def by auto

lemma next_backoff_doubles: "next_backoff (min (2 ^ k) 60) = min (2 * 2 ^ k) 60"
  by (rule next_backoff_double) simp

section \<open>Order of delivery\<close>

definition delivery_ordered :: "queued_message list \<Rightarrow> mq_run \<Rightarrow> bool" where
  "delivery_ordered old s \<longleftrightarrow> (\<exists>new. sent s = old @ new \<and> sorted_wrt (\<le>) new \<and>
     (\<forall>x \<in> set new. \<forall>y \<in># queue s + in_flight (drain_task s). x \<le> y) \<and>
     (\<forall>x \<in># in_flight (drain_task s). \<forall>y \<in># queue s. x \<le> y))"

lemma delivery_ordered_step:
  assumes "drain_step s s'" and "delivery_ordered old s"
  shows "delivery_ordered old s'"
  using assms
proof (induction rule: drain_step.induct)
  case (get s msg)
  then show ?case
    by (auto simp: delivery_ordered_def drain_get_def queued_message_not_less dest!: in_diffD)
next
  case (send s msg r)
  then obtain new where new: "sent s = old @ new" "sorted_wrt (\<le>) new"
    "\<forall>x \<in> set new. \<forall>y \<in># add_mset msg (queue s). x \<le> y" "\<forall>y \<in># queue s. msg \<le> y"
    by (auto simp: delivery_ordered_def)
  show ?case
  proof (cases r)
    case Sent
    with new show ?thesis
      by (auto simp: delivery_ordered_def drain_send_def after_send_def sorted_wrt_append
          intro!: exI [of _ "new @ [msg]"])
  qed (use new in \<open>auto simp: delivery_ordered_def drain_send_def after_send_def\<close>)
qed (auto simp: delivery_ordered_def)

lemma delivery_ordered_run:
  assumes "drain_step\<^sup>*\<^sup>* s s'" and "delivery_ordered old s"
  shows "delivery_ordered old s'"
  using assms by (induction rule: rtranclp_induct) (auto intro: delivery_ordered_step)

section \<open>Progress\<close>

lemma minimal_message_exists:
  fixes Q :: "queued_message multiset"
  assumes "Q \<noteq> {#}"
  shows "\<exists>m \<in># Q. \<forall>x \<in># Q. \<not> x < m"
  using assms
proof (induction Q)
  case (add m Q)
  show ?case
  proof (cases "Q = {#}")
    case False
    with add.IH obtain k where k: "k \<in># Q" "\<forall>x \<in># Q. \<not> x < k" by blast
    show ?thesis
    proof (cases "m < k")
      case True
      have "\<not> x < m" if "x \<in># Q" for x
        using k that True by (meson less_trans)
      then show ?thesis by auto
    next
      case False
      with k show ?thesis by auto
    qed
  qed auto
qed simp

lemma drain_one:
  assumes "drain_task s = Some Getting" and "queue s \<noteq> {#}"
  shows "\<exists>m s'. drain_step\<^sup>*\<^sup>* s s' \<and> m \<in># queue s \<and> drain_task s' = Some Getting \<and>
    queue s' = queue s - {#m#} \<and> sent s' = sent s @ [m]"
proof -
  from minimal_message_exists [OF assms(2)] obtain m where
    m: "m \<in># queue s" "\<forall>x \<in># queue s. \<not> x < m" by blast
  let ?g = "drain_get m s"
  let ?b = "?g\<lparr>drain_task := Some (Sending m)\<rparr>"
  let ?t = "drain_send Sent m ?b"
  have "drain_step s ?g" using assms(1) m by (rule drain_step.get)
  moreover have "drain_step\<^sup>*\<^sup>* ?g ?b"
  proof (cases "0 < backoff s")
    case True
    then have "drain_task ?g = Some (BackingOff m)" by (simp add: drain_get_def)
    then show ?thesis by (intro r_into_rtranclp drain_step.backed_off)
  next
    case False
    then have "?b = ?g" by (simp add: drain_get_def)
    then show ?thesis by simp
  qed
  moreover have "drain_step ?b ?t" by (rule drain_step.send) simp
  moreover have "drain_step\<^sup>*\<^sup>* ?t (?t\<lparr>drain_task := Some Getting\<rparr>)"
  proof (cases "0 < max_rate s")
    case True
    then have "drain_task ?t = Some Pausing"
      by (simp add: drain_send_def after_send_def drain_get_def)
    then show ?thesis by (intro r_into_rtranclp drain_step.paused)
  next
    case False
    then have "?t\<lparr>drain_task := Some Getting\<rparr> = ?t"
      by (simp add: drain_send_def after_send_def drain_get_def)
    then show ?thesis by simp
  qed
  ultimately have "drain_step\<^sup>*\<^sup>* s (?t\<lparr>drain_task := Some Getting\<rparr>)"
    by (meson converse_rtranclp_into_rtranclp rtranclp_trans)
  then show ?thesis
    using m(1) by (intro exI conjI) (auto simp: drain_send_def after_send_def drain_get_def)
qed

lemma drain_all:
  assumes "drain_task s = Some Getting"
  shows "\<exists>s' new. drain_step\<^sup>*\<^sup>* s s' \<and> queue s' = {#} \<and> sent s' = sent s @ new \<and> mset new = queue s"
  using assms
proof (induction "size (queue s)" arbitrary: s)
  case 0
  then show ?case by (intro exI [of _ s] exI [of _ "[]"]) auto
next
  case (Suc n)
  then have "queue s \<noteq> {#}" by auto
  from drain_one [OF Suc.prems this] obtain m s1 where
    s1: "drain_step\<^sup>*\<^sup>* s s1" "m \<in># queue s" "drain_task s1 = Some Getting"
      "queue s1 = queue s - {#m#}" "sent s1 = sent s @ [m]" by blast
  have "n = size (queue s1)" using Suc.hyps(2) s1(2,4) by (simp add: size_Diff_singleton)
  from Suc.hyps(1) [OF this s1(3)] obtain s' new where
    "drain_step\<^sup>*\<^sup>* s1 s'" "queue s' = {#}" "sent s' = sent s1 @ new" "mset new = queue s1" by blast
  with s1 show ?case
    by (intro exI [of _ s'] exI [of _ "m # new"]) (auto intro: rtranclp_trans)
qed

text \<open>
  The steps of the drain task when every \<open>send_func\<close> call returns. A run of them stays in
  the loop, delivers each message once and gets closer to an idle loop with each step, and
  the only state without a further step is the idle loop with an empty queue.
\<close>

definition delivering :: "mq_run \<Rightarrow> mq_run \<Rightarrow> bool" where
  "delivering s s' \<longleftrightarrow> drain_step s s' \<and>
     (\<forall>msg. drain_task s = Some (Sending msg) \<longrightarrow> s' = drain_send Sent msg s)"

fun steps_left :: "drain_pc \<Rightarrow> nat" where
  "steps_left (BackingOff msg) = 3"
| "steps_left (Sending msg) = 2"
| "steps_left Pausing = 1"
| "steps_left _ = 0"

definition delivered_since :: "mq_run \<Rightarrow> nat \<Rightarrow> mq_run \<Rightarrow> bool" where
  "delivered_since s0 n s \<longleftrightarrow> (\<exists>pc new. drain_task s = Some pc \<and> pc \<noteq> Finished \<and>
     n + 4 * size (queue s) + steps_left pc \<le> 4 * size (queue s0) \<and>
     sent s = sent s0 @ new \<and> mset new + in_flight (Some pc) + queue s = queue s0)"

lemma delivered_since_step:
  assumes "delivering s s'" and "delivered_since s0 n s"
  shows "delivered_since s0 (Suc n) s'"
proof -
  from assms(1) have "drain_step s s'" by (simp add: delivering_def)
  then show ?thesis
  proof (cases rule: drain_step.cases)
    case (get msg)
    then have "size (queue s) = Suc (size (queue s - {#msg#}))"
      by (metis insert_DiffM size_add_mset)
    with get assms(2) show ?thesis
      by (auto simp: delivered_since_def drain_get_def)
  next
    case (send msg r)
    with assms(1) have s': "s' = drain_send Sent msg s" by (simp add: delivering_def)
    from send(2) assms(2) show ?thesis
      by (auto simp: delivered_since_def s' drain_send_def after_send_def)
  qed (use assms(2) in \<open>auto simp: delivered_since_def\<close>)
qed

lemma delivered_since_run:
  assumes "(delivering ^^ n) s s'" and "drain_task s = Some Getting"
  shows "delivered_since s n s'"
  using assms(1)
proof (induction n arbitrary: s')
  case 0
  with assms(2) show ?case by (simp add: delivered_since_def)
next
  case (Suc n)
  then obtain t where "(delivering ^^ n) s t" "delivering t s'" by auto
  with Suc.IH show ?case using delivered_since_step by blast
qed

lemma delivering_progress:
  assumes "drain_task s = Some pc" "pc \<noteq> Finished" and "\<not> (\<exists>s'. delivering s s')"
  shows "pc = Getting \<and> queue s = {#}"
proof (cases pc)
  case Getting
  with assms have "\<not> drain_step s s'" for s' by (auto simp: delivering_def)
  then have "\<not> (msg \<in># queue s \<and> (\<forall>m \<in># queue s. \<not> m < msg))" for msg
    using drain_step.get [of s msg] assms(1) Getting by blast
  then have "queue s = {#}" using minimal_message_exists [of "queue s"] by blast
  with Getting show ?thesis by simp
next
  case (Sending msg)
  with assms drain_step.send [of s msg Sent] show ?thesis by (auto simp: delivering_def)
qed (use assms drain_step.backed_off drain_step.paused in \<open>auto simp: delivering_def\<close>)

section \<open>Properties\<close>

text \<open>
  C1. No message is lost or duplicated: in every reachable state, with any interleaving of
  calls, timer, send outcomes and cancellations, the messages handed to \<open>enqueue\<close> and
  \<open>enqueue_health\<close> are exactly, as a multiset, the queued ones, the one in flight, those
  sent, those dropped after an error other than 429, those whose send was cut off by
  stopping the queue, the health reports waiting in the debounce buffer, and the reports
  a later report for the same channel replaced there.
\<close>

theorem no_message_lost:
  assumes "mq_reachable rate deb s"
  shows "accepted s = queue s + in_flight (drain_task s) + mset (sent s) + discarded s + cut_off s
    + mset (dict_values (health_buffer s)) + superseded s"
  using mq_reachable_inv [OF assms] by (simp add: conserved_def)

theorem no_message_lost_witness:
  "accepted (mq_stop (enqueue_health 7 2 1 (enqueue_health 7 1 0 (new_message_queue 5 5))))
     = {#health_message 7 2 1#} + {#health_message 7 1 0#}
   \<and> queue (mq_stop (enqueue_health 7 2 1 (enqueue_health 7 1 0 (new_message_queue 5 5))))
     = {#health_message 7 2 1#}"
  (is "accepted (mq_stop ?s) = _ \<and> _")
proof -
  have "mq_reachable 5 5 ?s"
    by (rule mq_reachable.step [OF mq_reachable.step [OF mq_reachable.init
            mq_step.call_enqueue_health] mq_step.call_enqueue_health])
  then have "mq_reachable 5 5 (mq_stop ?s)" by (rule mq_reachable.step) (rule mq_step.stop)
  moreover have "queue (mq_stop ?s) = {#health_message 7 2 1#}"
    "drain_task (mq_stop ?s) = None" "sent (mq_stop ?s) = []" "discarded (mq_stop ?s) = {#}"
    "cut_off (mq_stop ?s) = {#}" "health_buffer (mq_stop ?s) = []"
    "superseded (mq_stop ?s) = {#health_message 7 1 0#}"
    by (simp_all add: mq_ops replaced_def new_message_queue_def)
  ultimately show ?thesis using no_message_lost [of 5 5 "mq_stop ?s"] by simp
qed

text \<open>
  C14. Escalations first: while nothing new is enqueued, the messages the drain loop
  delivers come out ordered by priority and, within a priority, by timestamp, even when
  sends are rate limited and retried or fail in between.
\<close>

theorem delivery_in_priority_order:
  assumes "drain_task s = Some Getting" and "drain_step\<^sup>*\<^sup>* s s'"
  shows "\<exists>new. sent s' = sent s @ new \<and> sorted_wrt (\<le>) new"
proof -
  from assms(1) have "delivery_ordered (sent s) s"
    by (simp add: delivery_ordered_def)
  with assms(2) have "delivery_ordered (sent s) s'" by (rule delivery_ordered_run)
  then show ?thesis by (auto simp: delivery_ordered_def)
qed

theorem delivery_in_priority_order_witness:
  "\<exists>s' new. drain_step\<^sup>*\<^sup>* (mq_start (enqueue \<lparr>msg_priority = 0, msg_timestamp = 9,
      msg_channel_id = 7, msg_content = Some ''down'', msg_embed = None\<rparr>
      (enqueue \<lparr>msg_priority = 2, msg_timestamp = 0, msg_channel_id = 7,
         msg_content = Some ''hi'', msg_embed = None\<rparr> (new_message_queue 5 5)))) s'
    \<and> sent s' = new \<and> length new = 2 \<and> sorted_wrt (\<le>) new"
  (is "\<exists>s' new. drain_step\<^sup>*\<^sup>* ?s s' \<and> _")
proof -
  have g: "drain_task ?s = Some Getting" by (simp add: mq_ops new_message_queue_def)
  from drain_all [OF g] obtain s' new where
    r: "drain_step\<^sup>*\<^sup>* ?s s'" "sent s' = sent ?s @ new" "mset new = queue ?s" by blast
  have e: "sent ?s = []" and q: "size (queue ?s) = 2"
    by (simp_all add: mq_ops new_message_queue_def)
  from delivery_in_priority_order [OF g r(1)] e have "sorted_wrt (\<le>) (sent s')" by auto
  moreover have "length new = 2" using r(3) q by (metis size_mset)
  ultimately show ?thesis using r e by auto
qed

text \<open>
  C15. The queue drains: when every send succeeds and nothing new is enqueued, a loop that
  waits for a message takes at most four steps per queued message, however it chooses
  among messages that compare equal; it never stops or blocks before the queue is empty;
  and when it has no further step it waits on an empty queue, having delivered every
  message of the queue exactly once.
\<close>

theorem queue_drains:
  assumes "drain_task s = Some Getting" and "(delivering ^^ n) s s'"
  shows "n \<le> 4 * size (queue s) \<and>
    ((\<exists>s''. delivering s' s'') \<or>
     queue s' = {#} \<and> drain_task s' = Some Getting \<and>
     (\<exists>new. sent s' = sent s @ new \<and> mset new = queue s))"
proof -
  from delivered_since_run [OF assms(2,1)] obtain pc new where
    s': "drain_task s' = Some pc" "pc \<noteq> Finished"
      "n + 4 * size (queue s') + steps_left pc \<le> 4 * size (queue s)"
      "sent s' = sent s @ new" "mset new + in_flight (Some pc) + queue s' = queue s"
    by (auto simp: delivered_since_def)
  have "queue s' = {#} \<and> drain_task s' = Some Getting \<and> mset new = queue s"
    if "\<not> (\<exists>s''. delivering s' s'')"
    using delivering_progress [OF s'(1,2) that] s' by auto
  with s'(3,4) show ?thesis by auto
qed

theorem queue_drains_witness:
  "\<exists>s'. (delivering ^^ 3) (mq_start (enqueue (health_message 7 1 0) (new_message_queue 5 5))) s'
    \<and> queue s' = {#} \<and> sent s' = [health_message 7 1 0]"
  (is "\<exists>s'. (delivering ^^ 3) ?s s' \<and> _ \<and> sent s' = [?m]")
proof -
  let ?a = "drain_get ?m ?s"
  let ?b = "drain_send Sent ?m ?a"
  let ?c = "?b\<lparr>drain_task := Some Getting\<rparr>"
  have g: "drain_task ?s = Some Getting" "queue ?s = {#?m#}" "sent ?s = []"
    by (simp_all add: mq_ops new_message_queue_def)
  have "drain_step ?s ?a" using g by (intro drain_step.get) auto
  then have 1: "delivering ?s ?a" using g by (simp add: delivering_def)
  have a: "drain_task ?a = Some (Sending ?m)" by (simp add: mq_ops new_message_queue_def)
  then have 2: "delivering ?a ?b" by (simp add: delivering_def drain_step.send)
  have b: "drain_task ?b = Some Pausing" by (simp add: mq_ops new_message_queue_def)
  then have 3: "delivering ?b ?c" by (simp add: delivering_def drain_step.paused)
  from 1 2 3 have run: "(delivering ^^ 3) ?s ?c" by (auto simp: numeral_3_eq_3)
  have "queue ?c = {#}" "drain_task ?c = Some Getting" using g by (simp_all add: mq_ops)
  then have "\<not> (\<exists>s''. delivering ?c s'')" by (auto simp: delivering_def elim: drain_step.cases)
  with queue_drains [OF g(1) run] g have "queue ?c = {#} \<and> sent ?c = [?m]" by auto
  with run show ?thesis by blast
qed

text \<open>
  Exponential backoff: after \<open>n\<close> rate-limited sends in a row the backoff is
  \<open>2 ^ (n - 1)\<close> seconds, capped at 60, and in every reachable state it is 0 or between
  1 and 60 seconds.
\<close>

theorem backoff_exponential:
  "(next_backoff ^^ n) 0 = (if n = 0 then 0 else min (2 ^ (n - 1)) 60)
    \<and> (mq_reachable rate deb s \<longrightarrow> backoff s = 0 \<or> 1 \<le> backoff s \<and> backoff s \<le> 60)"
proof
  show "(next_backoff ^^ n) 0 = (if n = 0 then 0 else min (2 ^ (n - 1)) 60)"
  proof (induction n)
    case (Suc n)
    then show ?case by (cases n) (simp_all add: next_backoff_doubles next_backoff_start)
  qed simp
  show "mq_reachable rate deb s \<longrightarrow> backoff s = 0 \<or> 1 \<le> backoff s \<and> backoff s \<le> 60"
    using mq_reachable_inv by (auto simp: backoff_ok_def)
qed

theorem backoff_exponential_witness:
  "(next_backoff ^^ 3) 0 = 4 \<and> backoff (new_message_queue 5 5) \<le> 60"
  using backoff_exponential [of 3 5 5 "new_message_queue 5 5"]
  by (auto simp: mq_reachable.init)

end
