(* ===== verification/Memory_Store.thy ===== *)
theory Memory_Store
  imports Vco_Prelude "HOL-Library.List_Lexorder" "HOL-Library.Char_ord"
begin

text \<open>
  \<open>shared/memory_store.py\<close>: the key-value table and the checkpoint table that every agent
  keeps in its own SQLite file. The record holds the two tables and whether the connection
  is open; the tables outlive the connection. Each statement of the source is translated
  by its SQL meaning: \<open>INSERT OR REPLACE\<close> on a primary key deletes the conflicting row
  and inserts a new one, \<open>ORDER BY id DESC\<close> on an AUTOINCREMENT key is the reverse order
  of insertion. Every operation on a closed store raises the assertion of the source.
\<close>

section \<open>Model\<close>

record kv_row =
  kv_value :: string
  kv_updated_at :: string

record checkpoint_row =
  cp_label :: string
  cp_data :: string
  cp_created_at :: string

record memory_store =
  ms_opened :: bool
  ms_kv :: "(string, kv_row) dict"
  ms_checkpoints :: "checkpoint_row list"

definition new_memory_store :: memory_store where
  "new_memory_store = \<lparr>ms_opened = False, ms_kv = [], ms_checkpoints = []\<rparr>"

definition mem_open :: "memory_store \<Rightarrow> memory_store" where
  "mem_open s = s\<lparr>ms_opened := True\<rparr>"

definition mem_close :: "memory_store \<Rightarrow> memory_store" where
  "mem_close s = (if ms_opened s then s\<lparr>ms_opened := False\<rparr> else s)"

abbreviation not_opened :: py_error where
  "not_opened \<equiv> AssertionError ''MemoryStore not opened''"

definition mem_get :: "memory_store \<Rightarrow> string \<Rightarrow> py_error + string option" where
  "mem_get s key =
     (if \<not> ms_opened s then Inl not_opened
      else Inr (map_option kv_value (dict_get (ms_kv s) key)))"

definition mem_set :: "memory_store \<Rightarrow> string \<Rightarrow> string \<Rightarrow> string \<Rightarrow> py_error + memory_store" where
  "mem_set s key val now =
     (if \<not> ms_opened s then Inl not_opened
      else Inr (s\<lparr>ms_kv := dict_pop (ms_kv s) key @ [(key, \<lparr>kv_value = val, kv_updated_at = now\<rparr>)]\<rparr>))"

definition mem_delete :: "memory_store \<Rightarrow> string \<Rightarrow> py_error + memory_store" where
  "mem_delete s key =
     (if \<not> ms_opened s then Inl not_opened else Inr (s\<lparr>ms_kv := dict_pop (ms_kv s) key\<rparr>))"

definition mem_keys :: "memory_store \<Rightarrow> py_error + string list" where
  "mem_keys s = (if \<not> ms_opened s then Inl not_opened else Inr (sort (dict_keys (ms_kv s))))"

definition mem_checkpoint :: "memory_store \<Rightarrow> string \<Rightarrow> string \<Rightarrow> string \<Rightarrow> py_error + memory_store" where
  "mem_checkpoint s label data now =
     (if \<not> ms_opened s then Inl not_opened
      else Inr (s\<lparr>ms_checkpoints := ms_checkpoints s
                   @ [\<lparr>cp_label = label, cp_data = data, cp_created_at = now\<rparr>]\<rparr>))"

definition mem_get_latest_checkpoint :: "memory_store \<Rightarrow> string \<Rightarrow> py_error + string option" where
  "mem_get_latest_checkpoint s label =
     (if \<not> ms_opened s then Inl not_opened
      else Inr (map_option cp_data (find (\<lambda>c. cp_label c = label) (rev (ms_checkpoints s)))))"

definition mem_list_checkpoints :: "memory_store \<Rightarrow> py_error + (string \<times> string) list" where
  "mem_list_checkpoints s =
     (if \<not> ms_opened s then Inl not_opened
      else Inr (map (\<lambda>c. (cp_label c, cp_created_at c)) (rev (ms_checkpoints s))))"

section \<open>The interface of the store\<close>

text \<open>
  What the clients of the store rely on: a read after a write on an open store. The
  clients' own invariants rest on this locale, not on the tables.
\<close>

locale kv_store =
  fixes opened :: "'s \<Rightarrow> bool"
    and get :: "'s \<Rightarrow> string \<Rightarrow> py_error + string option"
    and put :: "'s \<Rightarrow> string \<Rightarrow> string \<Rightarrow> string \<Rightarrow> py_error + 's"
    and del :: "'s \<Rightarrow> string \<Rightarrow> py_error + 's"
  assumes put_open: "opened s \<Longrightarrow> \<exists>s'. put s k v now = Inr s'"
    and del_open: "opened s \<Longrightarrow> \<exists>s'. del s k = Inr s'"
    and put_law: "put s k v now = Inr s' \<Longrightarrow>
      opened s' \<and> (\<forall>k'. get s' k' = (if k' = k then Inr (Some v) else get s k'))"
    and del_law: "del s k = Inr s' \<Longrightarrow>
      opened s' \<and> (\<forall>k'. get s' k' = (if k' = k then Inr None else get s k'))"
begin

lemma get_put: "put s k v now = Inr s' \<Longrightarrow> get s' k' = (if k' = k then Inr (Some v) else get s k')"
  using put_law by blast

lemma get_del: "del s k = Inr s' \<Longrightarrow> get s' k' = (if k' = k then Inr None else get s k')"
  using del_law by blast

lemma put_other: "put s k v now = Inr s' \<Longrightarrow> k' \<noteq> k \<Longrightarrow> get s' k' = get s k'"
  by (simp add: get_put)

lemma del_other: "del s k = Inr s' \<Longrightarrow> k' \<noteq> k \<Longrightarrow> get s' k' = get s k'"
  by (simp add: get_del)

lemma put_opened: "put s k v now = Inr s' \<Longrightarrow> opened s'"
  using put_law by blast

lemma del_opened: "del s k = Inr s' \<Longrightarrow> opened s'"
  using del_law by blast

end

lemma dict_get_append_new:
  "dict_get (dict_pop d k @ [(k, v)]) k' = (if k' = k then Some v else dict_get d k')"
  by (auto simp: map_add_def dict_get_pop split: option.splits)

interpretation ms: kv_store ms_opened mem_get mem_set mem_delete
proof (unfold_locales, goal_cases)
  case 1
  then show ?case by (simp add: mem_set_def)
next
  case 2
  then show ?case by (simp add: mem_delete_def)
next
  case 3
  then show ?case
    by (auto simp: mem_set_def mem_get_def dict_get_append_new simp del: map_of_append
        split: if_splits)
next
  case 4
  then show ?case
    by (auto simp: mem_delete_def mem_get_def dict_get_pop split: if_splits)
qed

section \<open>Runs of the store against the history of its calls\<close>

datatype mem_op =
    MemOpen
  | MemClose
  | MemSet string string string
  | MemDelete string
  | MemCheckpoint string string string

text \<open>One call; a call that raises leaves the store as it was.\<close>

fun mem_step :: "memory_store \<Rightarrow> mem_op \<Rightarrow> memory_store" where
  "mem_step s MemOpen = mem_open s"
| "mem_step s MemClose = mem_close s"
| "mem_step s (MemSet k v now) = (case mem_set s k v now of Inl _ \<Rightarrow> s | Inr s' \<Rightarrow> s')"
| "mem_step s (MemDelete k) = (case mem_delete s k of Inl _ \<Rightarrow> s | Inr s' \<Rightarrow> s')"
| "mem_step s (MemCheckpoint l d now) = (case mem_checkpoint s l d now of Inl _ \<Rightarrow> s | Inr s' \<Rightarrow> s')"

definition mem_run :: "mem_op list \<Rightarrow> memory_store" where
  "mem_run ops = foldl mem_step new_memory_store ops"

text \<open>
  The specification looks only at the history of calls: whether the last of open and close
  was an open, the calls made while the store was open, the last of those that wrote or
  deleted a key, and the last checkpoint under a label.
\<close>

fun open_after :: "bool \<Rightarrow> mem_op list \<Rightarrow> bool" where
  "open_after b [] = b"
| "open_after b (MemOpen # ops) = open_after True ops"
| "open_after b (MemClose # ops) = open_after False ops"
| "open_after b (_ # ops) = open_after b ops"

fun effective :: "bool \<Rightarrow> mem_op list \<Rightarrow> mem_op list" where
  "effective b [] = []"
| "effective b (MemOpen # ops) = effective True ops"
| "effective b (MemClose # ops) = effective False ops"
| "effective b (op # ops) = (if b then [op] else []) @ effective b ops"

fun last_write :: "string \<Rightarrow> mem_op list \<Rightarrow> string option" where
  "last_write k [] = None"
| "last_write k (MemSet k' v now # earlier) = (if k' = k then Some v else last_write k earlier)"
| "last_write k (MemDelete k' # earlier) = (if k' = k then None else last_write k earlier)"
| "last_write k (_ # earlier) = last_write k earlier"

fun last_checkpoint :: "string \<Rightarrow> mem_op list \<Rightarrow> string option" where
  "last_checkpoint l [] = None"
| "last_checkpoint l (MemCheckpoint l' d now # earlier) =
     (if l' = l then Some d else last_checkpoint l earlier)"
| "last_checkpoint l (_ # earlier) = last_checkpoint l earlier"

lemma open_after_append: "open_after b (xs @ ys) = open_after (open_after b xs) ys"
  by (induction b xs rule: open_after.induct) auto

lemma effective_append: "effective b (xs @ ys) = effective b xs @ effective (open_after b xs) ys"
  by (induction b xs rule: effective.induct) auto

lemma mem_run_snoc: "mem_run (ops @ [op]) = mem_step (mem_run ops) op"
  by (simp add: mem_run_def)

lemma mem_run_opened: "ms_opened (mem_run ops) = open_after False ops"
proof (induction ops rule: rev_induct)
  case Nil
  then show ?case by (simp add: mem_run_def new_memory_store_def)
next
  case (snoc op ops)
  then show ?case
    by (cases op) (auto simp: mem_run_snoc open_after_append mem_open_def mem_close_def
        mem_set_def mem_delete_def mem_checkpoint_def)
qed

lemma mem_run_kv:
  "map_option kv_value (dict_get (ms_kv (mem_run ops)) k) = last_write k (rev (effective False ops))"
proof (induction ops rule: rev_induct)
  case Nil
  then show ?case by (simp add: mem_run_def new_memory_store_def)
next
  case (snoc op ops)
  then show ?case
    by (cases op) (auto simp: mem_run_snoc effective_append mem_open_def mem_close_def mem_run_opened
        mem_set_def mem_delete_def mem_checkpoint_def dict_get_append_new dict_get_pop
        simp del: map_of_append)
qed

lemma mem_run_checkpoints:
  "map_option cp_data (find (\<lambda>c. cp_label c = l) (rev (ms_checkpoints (mem_run ops))))
     = last_checkpoint l (rev (effective False ops))"
proof (induction ops rule: rev_induct)
  case Nil
  then show ?case by (simp add: mem_run_def new_memory_store_def)
next
  case (snoc op ops)
  then show ?case
    by (cases op) (auto simp: mem_run_snoc effective_append mem_open_def mem_close_def mem_run_opened
        mem_set_def mem_delete_def mem_checkpoint_def)
qed

lemma mem_run_kv_ok: "dict_ok (ms_kv (mem_run ops))"
proof (induction ops rule: rev_induct)
  case Nil
  then show ?case by (simp add: mem_run_def new_memory_store_def)
next
  case (snoc op ops)
  then have "dict_ok (dict_pop (ms_kv (mem_run ops)) k @ [(k, v)])" for k v
    using dict_keys_pop [of k "ms_kv (mem_run ops)"] by (auto simp: dict_ok_pop simp del: dict_keys_pop)
  with snoc show ?case
    by (cases op) (auto simp: mem_run_snoc mem_open_def mem_close_def mem_set_def mem_delete_def
        mem_checkpoint_def dict_simps)
qed

fun checkpoints_taken :: "mem_op list \<Rightarrow> (string \<times> string) list" where
  "checkpoints_taken [] = []"
| "checkpoints_taken (MemCheckpoint l d now # earlier) = (l, now) # checkpoints_taken earlier"
| "checkpoints_taken (_ # earlier) = checkpoints_taken earlier"

lemma mem_run_checkpoint_list:
  "map (\<lambda>c. (cp_label c, cp_created_at c)) (rev (ms_checkpoints (mem_run ops)))
     = checkpoints_taken (rev (effective False ops))"
proof (induction ops rule: rev_induct)
  case Nil
  then show ?case by (simp add: mem_run_def new_memory_store_def)
next
  case (snoc op ops)
  then show ?case
    by (cases op) (auto simp: mem_run_snoc effective_append mem_open_def mem_close_def mem_run_opened
        mem_set_def mem_delete_def mem_checkpoint_def)
qed

lemma mem_run_keys:
  "sort (dict_keys (ms_kv (mem_run ops)))
     = sorted_list_of_set {k. last_write k (rev (effective False ops)) \<noteq> None}"
proof -
  have "set (dict_keys (ms_kv (mem_run ops))) = {k. last_write k (rev (effective False ops)) \<noteq> None}"
    by (auto simp: dict_keys_iff_get simp del: set_map simp flip: mem_run_kv)
  with mem_run_kv_ok [of ops] show ?thesis
    by (metis distinct_remdups_id sorted_list_of_set_sort_remdups)
qed

lemma mem_writes_need_open:
  "mem_set s k v now = Inl not_opened \<longleftrightarrow> \<not> ms_opened s"
  "mem_delete s k = Inl not_opened \<longleftrightarrow> \<not> ms_opened s"
  "mem_checkpoint s l d now = Inl not_opened \<longleftrightarrow> \<not> ms_opened s"
  by (simp_all add: mem_set_def mem_delete_def mem_checkpoint_def)

text \<open>
  C16. The store refines its history. After any sequence of calls on a new store, opens
  and closes in any order included, a call that needs the database raises the assertion
  exactly when the store is closed. Otherwise a read returns the value of the last call
  that wrote the key while the store was open (nothing when that call deleted it or there
  was none), whatever was closed and reopened in between; the latest checkpoint of a label
  is the last one taken under it; the listed checkpoints are all that were taken, the last
  one first; and the listed keys are the keys that have a value, in increasing order and
  without repetition.
\<close>

theorem store_refines_history:
  "mem_get (mem_run ops) k =
     (if open_after False ops then Inr (last_write k (rev (effective False ops))) else Inl not_opened)
   \<and> mem_get_latest_checkpoint (mem_run ops) l =
     (if open_after False ops then Inr (last_checkpoint l (rev (effective False ops))) else Inl not_opened)
   \<and> mem_list_checkpoints (mem_run ops) =
     (if open_after False ops then Inr (checkpoints_taken (rev (effective False ops))) else Inl not_opened)
   \<and> mem_keys (mem_run ops) =
     (if open_after False ops
      then Inr (sorted_list_of_set {k. last_write k (rev (effective False ops)) \<noteq> None})
      else Inl not_opened)
   \<and> (mem_set (mem_run ops) k v now = Inl not_opened \<longleftrightarrow> \<not> open_after False ops)
   \<and> (mem_delete (mem_run ops) k = Inl not_opened \<longleftrightarrow> \<not> open_after False ops)
   \<and> (mem_checkpoint (mem_run ops) l v now = Inl not_opened \<longleftrightarrow> \<not> open_after False ops)"
proof -
  note read = mem_run_opened mem_run_kv mem_run_checkpoints mem_run_checkpoint_list mem_run_keys
  have "mem_get (mem_run ops) k =
     (if open_after False ops then Inr (last_write k (rev (effective False ops))) else Inl not_opened)"
    by (simp add: mem_get_def read)
  moreover have "mem_get_latest_checkpoint (mem_run ops) l =
     (if open_after False ops then Inr (last_checkpoint l (rev (effective False ops))) else Inl not_opened)"
    by (simp add: mem_get_latest_checkpoint_def read)
  moreover have "mem_list_checkpoints (mem_run ops) =
     (if open_after False ops then Inr (checkpoints_taken (rev (effective False ops))) else Inl not_opened)"
    unfolding mem_list_checkpoints_def read by simp
  moreover have "mem_keys (mem_run ops) =
     (if open_after False ops
      then Inr (sorted_list_of_set {k. last_write k (rev (effective False ops)) \<noteq> None})
      else Inl not_opened)"
    unfolding mem_keys_def read by simp
  ultimately show ?thesis by (simp add: mem_writes_need_open mem_run_opened)
qed

end
