(* ===== verification/Py_Json.thy ===== *)
theory Py_Json
  imports Vco_Prelude
begin

text \<open>
  What the components use of Python's \<open>json\<close> module: \<open>dumps\<close> with its default
  separators and ASCII escapes, and \<open>loads\<close>, on values built from null, booleans,
  integers, strings, lists and dictionaries (none of the persisted models has a float
  field; \<open>loads\<close> of a float is outside the fragment and is modelled as a failure).
  A string is a list of 8-bit code points. The round trip is proved once here and used by
  every component that persists its state.
\<close>

section \<open>Values and printing\<close>

datatype json =
    JNull
  | JBool bool
  | JInt int
  | JStr string
  | JArr "json list"
  | JObj "(string \<times> json) list"

definition digit_char :: "nat \<Rightarrow> char" where
  "digit_char d = char_of (48 + d)"

fun show_nat :: "nat \<Rightarrow> string" where
  "show_nat n = (if n < 10 then [digit_char n] else show_nat (n div 10) @ [digit_char (n mod 10)])"

declare show_nat.simps [simp del]

definition show_int :: "int \<Rightarrow> string" where
  "show_int i = (if i < 0 then ''-'' @ show_nat (nat (- i)) else show_nat (nat i))"

definition hex_char :: "nat \<Rightarrow> char" where
  "hex_char d = (if d < 10 then char_of (48 + d) else char_of (87 + d))"

abbreviation quote_char :: char where
  "quote_char \<equiv> CHR 0x22"

abbreviation backslash :: char where
  "backslash \<equiv> CHR 0x5C"

definition esc_char :: "char \<Rightarrow> string" where
  "esc_char c =
     (let n = of_char c :: nat in
      if n = 34 then [backslash, quote_char]
      else if n = 92 then [backslash, backslash]
      else if n = 10 then [backslash, CHR ''n'']
      else if n = 13 then [backslash, CHR ''r'']
      else if n = 9 then [backslash, CHR ''t'']
      else if n = 8 then [backslash, CHR ''b'']
      else if n = 12 then [backslash, CHR ''f'']
      else if 32 \<le> n \<and> n \<le> 126 then [c]
      else [backslash, CHR ''u'', CHR ''0'', CHR ''0'', hex_char (n div 16), hex_char (n mod 16)])"

definition show_str :: "string \<Rightarrow> string" where
  "show_str s = quote_char # concat (map esc_char s) @ [quote_char]"

text \<open>
  \<open>repr\<close> of a string, as the format specifier \<open>!r\<close> inserts it: single quotes unless
  the text has a single quote and no double quote, with the quote, the backslash and the
  non-printable code points escaped.
\<close>

definition repr_char :: "char \<Rightarrow> char \<Rightarrow> string" where
  "repr_char q c =
     (let n = of_char c :: nat in
      if c = q \<or> c = backslash then [backslash, c]
      else if n = 10 then [backslash, CHR ''n'']
      else if n = 13 then [backslash, CHR ''r'']
      else if n = 9 then [backslash, CHR ''t'']
      else if n < 32 \<or> (127 \<le> n \<and> n \<le> 160) \<or> n = 173
        then [backslash, CHR ''x'', hex_char (n div 16), hex_char (n mod 16)]
      else [c])"

definition py_repr :: "string \<Rightarrow> string" where
  "py_repr s =
     (let q = (if CHR 0x27 \<in> set s \<and> quote_char \<notin> set s then quote_char else CHR 0x27) in
      [q] @ concat (map (repr_char q) s) @ [q])"

fun dumps :: "json \<Rightarrow> string"
  and dumps_items :: "json list \<Rightarrow> string"
  and dumps_fields :: "(string \<times> json) list \<Rightarrow> string"
where
  "dumps JNull = ''null''"
| "dumps (JBool b) = (if b then ''true'' else ''false'')"
| "dumps (JInt i) = show_int i"
| "dumps (JStr s) = show_str s"
| "dumps (JArr xs) = ''['' @ dumps_items xs @ '']''"
| "dumps (JObj kvs) = ''{'' @ dumps_fields kvs @ ''}''"
| "dumps_items [] = ''''"
| "dumps_items (x # xs) = dumps x @ (if xs = [] then '''' else '', '' @ dumps_items xs)"
| "dumps_fields [] = ''''"
| "dumps_fields ((k, v) # kvs) =
     show_str k @ '': '' @ dumps v @ (if kvs = [] then '''' else '', '' @ dumps_fields kvs)"

section \<open>Parsing\<close>

definition is_ws :: "char \<Rightarrow> bool" where
  "is_ws c \<longleftrightarrow> of_char c \<in> {32, 9, 10, 13 :: nat}"

definition skip_ws :: "string \<Rightarrow> string" where
  "skip_ws s = dropWhile is_ws s"

definition is_digit :: "char \<Rightarrow> bool" where
  "is_digit c \<longleftrightarrow> 48 \<le> (of_char c :: nat) \<and> (of_char c :: nat) \<le> 57"

definition digit_val :: "char \<Rightarrow> nat" where
  "digit_val c = of_char c - 48"

definition hex_val :: "char \<Rightarrow> nat option" where
  "hex_val c =
     (let n = of_char c :: nat in
      if 48 \<le> n \<and> n \<le> 57 then Some (n - 48)
      else if 97 \<le> n \<and> n \<le> 102 then Some (n - 87)
      else if 65 \<le> n \<and> n \<le> 70 then Some (n - 55)
      else None)"

definition unescape :: "char \<Rightarrow> char option" where
  "unescape e =
     map_of [(quote_char, quote_char), (backslash, backslash), (CHR ''/'', CHR ''/''),
       (CHR ''b'', char_of (8 :: nat)), (CHR ''f'', char_of (12 :: nat)),
       (CHR ''n'', char_of (10 :: nat)), (CHR ''r'', char_of (13 :: nat)),
       (CHR ''t'', char_of (9 :: nat))] e"

text \<open>A four-digit escape that denotes an 8-bit code point.\<close>

definition hex4 :: "char \<Rightarrow> char \<Rightarrow> char \<Rightarrow> char \<Rightarrow> char option" where
  "hex4 a b c d =
     (case (hex_val a, hex_val b, hex_val c, hex_val d) of
        (Some w, Some x, Some y, Some z) \<Rightarrow>
          if w = 0 \<and> x = 0 then Some (char_of (16 * y + z)) else None
      | _ \<Rightarrow> None)"

text \<open>The characters of a string after its opening quote, up to the closing one.\<close>

fun parse_str :: "string \<Rightarrow> (string \<times> string) option" where
  "parse_str [] = None"
| "parse_str (c # s) =
     (if c = quote_char then Some ([], s)
      else if c = backslash then
        (case s of
           [] \<Rightarrow> None
         | e # s' \<Rightarrow>
             if e = CHR ''u'' then
               (case s' of
                  h1 # h2 # h3 # h4 # s'' \<Rightarrow>
                    (case hex4 h1 h2 h3 h4 of
                       None \<Rightarrow> None
                     | Some ch \<Rightarrow> map_option (\<lambda>(t, r). (ch # t, r)) (parse_str s''))
                | _ \<Rightarrow> None)
             else
               (case unescape e of
                  None \<Rightarrow> None
                | Some ch \<Rightarrow> map_option (\<lambda>(t, r). (ch # t, r)) (parse_str s')))
      else if of_char c < (32 :: nat) then None
      else map_option (\<lambda>(t, r). (c # t, r)) (parse_str s))"

declare parse_str.simps(2) [simp del]

definition nat_of_digits :: "string \<Rightarrow> nat" where
  "nat_of_digits ds = foldl (\<lambda>v d. 10 * v + digit_val d) 0 ds"

text \<open>\<open>-?(0|[1-9][0-9]*)\<close>, not followed by a fraction or an exponent.\<close>

definition parse_digits :: "string \<Rightarrow> (nat \<times> string) option" where
  "parse_digits s =
     (case s of
        [] \<Rightarrow> None
      | d # _ \<Rightarrow>
          if \<not> is_digit d then None
          else
            let ds = (if d = CHR ''0'' then [d] else takeWhile is_digit s);
                r = drop (length ds) s in
            if r \<noteq> [] \<and> hd r \<in> {CHR ''.'', CHR ''e'', CHR ''E''} then None
            else Some (nat_of_digits ds, r))"

definition parse_int :: "string \<Rightarrow> (int \<times> string) option" where
  "parse_int s =
     (if s \<noteq> [] \<and> hd s = CHR ''-'' then map_option (\<lambda>(n, r). (- int n, r)) (parse_digits (tl s))
      else map_option (\<lambda>(n, r). (int n, r)) (parse_digits s))"

text \<open>The scanner; every call on a smaller part of the text spends one unit of fuel.\<close>

fun parse_value :: "nat \<Rightarrow> string \<Rightarrow> (json \<times> string) option"
  and parse_items :: "nat \<Rightarrow> string \<Rightarrow> (json list \<times> string) option"
  and parse_fields :: "nat \<Rightarrow> string \<Rightarrow> ((string \<times> json) list \<times> string) option"
where
  "parse_value 0 s = None"
| "parse_value (Suc n) s =
     (case s of
        [] \<Rightarrow> None
      | c # r \<Rightarrow>
          if c = quote_char then map_option (\<lambda>(t, r'). (JStr t, r')) (parse_str r)
          else if c = CHR ''['' then
            (let r = skip_ws r in
             if r \<noteq> [] \<and> hd r = CHR '']'' then Some (JArr [], tl r)
             else map_option (\<lambda>(xs, r'). (JArr xs, r')) (parse_items n r))
          else if c = CHR ''{'' then
            (let r = skip_ws r in
             if r \<noteq> [] \<and> hd r = CHR ''}'' then Some (JObj [], tl r)
             else map_option (\<lambda>(kvs, r'). (JObj (foldl (\<lambda>d (k, v). dict_set d k v) [] kvs), r'))
                    (parse_fields n r))
          else if startswith s ''null'' then Some (JNull, drop 4 s)
          else if startswith s ''true'' then Some (JBool True, drop 4 s)
          else if startswith s ''false'' then Some (JBool False, drop 5 s)
          else map_option (\<lambda>(i, r'). (JInt i, r')) (parse_int s))"
| "parse_items 0 s = None"
| "parse_items (Suc n) s =
     (case parse_value n s of
        None \<Rightarrow> None
      | Some (x, r) \<Rightarrow>
          (case skip_ws r of
             [] \<Rightarrow> None
           | c # r' \<Rightarrow>
               if c = CHR '']'' then Some ([x], r')
               else if c = CHR '','' then
                 map_option (\<lambda>(xs, q). (x # xs, q)) (parse_items n (skip_ws r'))
               else None))"
| "parse_fields 0 s = None"
| "parse_fields (Suc n) s =
     (case s of
        [] \<Rightarrow> None
      | q # r \<Rightarrow>
          if q \<noteq> quote_char then None
          else
            (case parse_str r of
               None \<Rightarrow> None
             | Some (k, r1) \<Rightarrow>
                 (case skip_ws r1 of
                    [] \<Rightarrow> None
                  | c # r2 \<Rightarrow>
                      if c \<noteq> CHR '':'' then None
                      else
                        (case parse_value n (skip_ws r2) of
                           None \<Rightarrow> None
                         | Some (v, r3) \<Rightarrow>
                             (case skip_ws r3 of
                                [] \<Rightarrow> None
                              | e # r4 \<Rightarrow>
                                  if e = CHR ''}'' then Some ([(k, v)], r4)
                                  else if e = CHR '','' then
                                    map_option (\<lambda>(kvs, z). ((k, v) # kvs, z))
                                      (parse_fields n (skip_ws r4))
                                  else None)))))"

definition loads :: "string \<Rightarrow> json option" where
  "loads s =
     (case parse_value (length s) (skip_ws s) of
        None \<Rightarrow> None
      | Some (j, r) \<Rightarrow> if skip_ws r = [] then Some j else None)"

section \<open>Round trip: characters and numbers\<close>

lemma char_eq_code: "c = d \<longleftrightarrow> of_char c = (of_char d :: nat)"
  by (metis of_char_eq_iff)

lemma char_of_quote: "char_of (34 :: nat) = quote_char" "char_of (92 :: nat) = backslash"
  by (simp_all add: char_eq_code)

lemma hex_val_hex_char: "d < 16 \<Longrightarrow> hex_val (hex_char d) = Some d"
  by (auto simp: hex_val_def hex_char_def Let_def)

lemma hex4_esc: "n < 256 \<Longrightarrow>
    hex4 (CHR ''0'') (CHR ''0'') (hex_char (n div 16)) (hex_char (n mod 16)) = Some (char_of n)"
proof -
  assume "n < 256"
  moreover have "hex_val (CHR ''0'') = Some 0" by (simp add: hex_val_def)
  ultimately show ?thesis by (simp add: hex4_def hex_val_hex_char less_mult_imp_div_less)
qed

lemma parse_str_esc_char:
  "parse_str (esc_char c @ s) = map_option (\<lambda>(t, r). (c # t, r)) (parse_str s)"
proof -
  define n :: nat where "n = of_char c"
  then have c: "c = char_of n" by simp
  have n: "n < 256" by (simp add: n_def)
  consider "n \<in> {34, 92, 10, 13, 9, 8, 12}" | "n \<notin> {34, 92, 10, 13, 9, 8, 12}" "32 \<le> n" "n \<le> 126"
    | "n \<notin> {34, 92, 10, 13, 9, 8, 12}" "\<not> (32 \<le> n \<and> n \<le> 126)" by blast
  then show ?thesis
  proof cases
    case 1
    then show ?thesis
      by (auto simp: c esc_char_def parse_str.simps(2) unescape_def char_of_quote)
  next
    case 2
    then show ?thesis
      using n by (auto simp: c esc_char_def parse_str.simps(2) char_eq_code)
  next
    case 3
    then have "esc_char c = [backslash, CHR ''u'', CHR ''0'', CHR ''0'', hex_char (n div 16), hex_char (n mod 16)]"
      by (simp add: esc_char_def Let_def flip: n_def)
    then show ?thesis
      by (simp add: parse_str.simps(2) [of backslash] hex4_esc [OF n] flip: c)
  qed
qed

lemma parse_str_show: "parse_str (concat (map esc_char s) @ quote_char # r) = Some (s, r)"
  by (induction s) (simp_all add: parse_str_esc_char parse_str.simps(2))

lemma is_digit_digit_char: "d < 10 \<Longrightarrow> is_digit (digit_char d)"
  by (simp add: is_digit_def digit_char_def)

lemma digit_val_digit_char: "d < 10 \<Longrightarrow> digit_val (digit_char d) = d"
  by (simp add: digit_val_def digit_char_def)

lemma show_nat_digits: "\<forall>c \<in> set (show_nat n). is_digit c"
proof (induction n rule: show_nat.induct)
  case (1 n)
  then show ?case by (subst show_nat.simps) (auto simp: is_digit_digit_char)
qed

lemma show_nat_not_Nil [simp]: "show_nat n \<noteq> []"
  by (subst show_nat.simps) simp

lemma nat_of_digits_show [simp]: "nat_of_digits (show_nat n) = n"
proof (induction n rule: show_nat.induct)
  case (1 n)
  show ?case
  proof (cases "n < 10")
    case True
    then show ?thesis by (subst show_nat.simps) (simp add: nat_of_digits_def digit_val_digit_char)
  next
    case False
    with 1 have "nat_of_digits (show_nat (n div 10)) = n div 10" by simp
    with False show ?thesis
      by (subst show_nat.simps) (simp add: nat_of_digits_def digit_val_digit_char)
  qed
qed

lemma show_nat_leading: "hd (show_nat n) = CHR ''0'' \<longleftrightarrow> n = 0"
proof (induction n rule: show_nat.induct)
  case (1 n)
  show ?case
  proof (cases "n < 10")
    case True
    then show ?thesis
      by (subst show_nat.simps) (simp add: digit_char_def char_eq_code)
  next
    case False
    with 1 have "hd (show_nat (n div 10)) = CHR ''0'' \<longleftrightarrow> n div 10 = 0" by simp
    with False show ?thesis
      by (subst show_nat.simps) simp
  qed
qed

text \<open>What may follow a printed value: nothing, or a character that ends it.\<close>

definition ends_value :: "string \<Rightarrow> bool" where
  "ends_value r \<longleftrightarrow> r = [] \<or> hd r \<in> {CHR '','', CHR '']'', CHR ''}''}"

lemma ends_value_hd:
  "ends_value r \<Longrightarrow> r \<noteq> [] \<Longrightarrow> \<not> is_digit (hd r) \<and> hd r \<notin> {CHR ''.'', CHR ''e'', CHR ''E''} \<and> \<not> is_ws (hd r)"
  by (auto simp: ends_value_def is_digit_def is_ws_def)

lemma parse_digits_show:
  assumes "ends_value r"
  shows "parse_digits (show_nat n @ r) = Some (n, r)"
proof -
  obtain d ds where s: "show_nat n = d # ds" by (cases "show_nat n") auto
  have dig: "is_digit d" "\<forall>c \<in> set (show_nat n). is_digit c"
    using show_nat_digits [of n] s by auto
  have tw: "takeWhile is_digit (show_nat n @ r) = show_nat n"
    using dig(2) ends_value_hd [OF assms]
    by (cases r) (auto simp: takeWhile_append)
  have z: "d = CHR ''0'' \<longleftrightarrow> n = 0" using show_nat_leading [of n] s by simp
  have "n = 0 \<Longrightarrow> [d] = show_nat n" using s by (simp add: show_nat.simps [of 0])
  with z tw have ds: "(if d = CHR ''0'' then [d] else takeWhile is_digit (show_nat n @ r)) = show_nat n"
    by auto
  have "parse_digits (show_nat n @ r) =
    (let es = (if d = CHR ''0'' then [d] else takeWhile is_digit (show_nat n @ r));
         q = drop (length es) (show_nat n @ r) in
     if q \<noteq> [] \<and> hd q \<in> {CHR ''.'', CHR ''e'', CHR ''E''} then None else Some (nat_of_digits es, q))"
    using dig(1) s by (simp add: parse_digits_def)
  then show ?thesis using ends_value_hd [OF assms] by (auto simp: ds Let_def)
qed

lemma parse_int_show:
  assumes "ends_value r"
  shows "parse_int (show_int i @ r) = Some (i, r)"
proof -
  have "hd (show_nat n @ r) \<noteq> CHR ''-''" for n
    using show_nat_digits [of n] by (cases "show_nat n") (auto simp: is_digit_def)
  then show ?thesis
    by (simp add: parse_int_def show_int_def parse_digits_show [OF assms])
qed

section \<open>Round trip: values\<close>

text \<open>A dictionary has distinct keys, at every level.\<close>

fun wf_json :: "json \<Rightarrow> bool"
  and wf_items :: "json list \<Rightarrow> bool"
  and wf_fields :: "(string \<times> json) list \<Rightarrow> bool"
where
  "wf_json (JArr xs) = wf_items xs"
| "wf_json (JObj kvs) = (dict_ok kvs \<and> wf_fields kvs)"
| "wf_json _ = True"
| "wf_items [] = True"
| "wf_items (x # xs) = (wf_json x \<and> wf_items xs)"
| "wf_fields [] = True"
| "wf_fields ((k, v) # kvs) = (wf_json v \<and> wf_fields kvs)"

lemma dict_set_new: "k \<notin> set (dict_keys d) \<Longrightarrow> dict_set d k v = d @ [(k, v)]"
  by (induction d) auto

lemma foldl_dict_set_new:
  "dict_ok (acc @ kvs) \<Longrightarrow> foldl (\<lambda>d (k, v). dict_set d k v) acc kvs = acc @ kvs"
  by (induction kvs arbitrary: acc) (auto simp: dict_set_new)

lemma skip_ws_char: "\<not> is_ws c \<Longrightarrow> skip_ws (c # s) = c # s"
  by (simp add: skip_ws_def)

lemma skip_ws_space: "skip_ws (CHR '' '' # s) = skip_ws s"
  by (simp add: skip_ws_def is_ws_def)

lemma not_ws [simp]:
  "\<not> is_ws quote_char" "\<not> is_ws (CHR '','')" "\<not> is_ws (CHR '']'')" "\<not> is_ws (CHR ''}'')"
  "\<not> is_ws (CHR '':'')" "\<not> is_ws (CHR ''['')" "\<not> is_ws (CHR ''{'')"
  by (auto simp: is_ws_def)

lemma show_int_start: "\<exists>c s. show_int i = c # s \<and> (is_digit c \<or> c = CHR ''-'')"
proof -
  have "\<exists>c s. show_nat n = c # s \<and> is_digit c" for n
    using show_nat_digits by (metis list.set_intros(1) neq_Nil_conv show_nat_not_Nil)
  from this [of "nat i"] show ?thesis by (cases "i < 0") (auto simp: show_int_def)
qed

text \<open>A printed value starts with a character that neither ends a value nor is white space.\<close>

definition starts_value :: "char \<Rightarrow> bool" where
  "starts_value c \<longleftrightarrow> \<not> is_ws c \<and> c \<noteq> CHR '']'' \<and> c \<noteq> CHR ''}''"

lemma digit_starts_value: "is_digit c \<or> c = CHR ''-'' \<Longrightarrow> starts_value c"
  by (auto simp: starts_value_def is_digit_def is_ws_def)

lemma dumps_start: "\<exists>c s. dumps j = c # s \<and> starts_value c"
proof (cases j)
  case (JInt i)
  then show ?thesis using show_int_start [of i] by (auto intro: digit_starts_value)
qed (auto simp: show_str_def starts_value_def is_ws_def)

lemma skip_ws_dumps [simp]: "skip_ws (dumps j @ r) = dumps j @ r"
proof -
  obtain c s where "dumps j = c # s" "starts_value c" using dumps_start by blast
  then show ?thesis by (simp add: skip_ws_def starts_value_def)
qed

lemma dumps_length: "0 < length (dumps j)"
  using dumps_start [of j] by auto

lemma parse_array:
  assumes "starts_value c"
  shows "parse_value (Suc n) (CHR ''['' # c # s)
    = map_option (\<lambda>(xs, r). (JArr xs, r)) (parse_items n (c # s))"
  using assms by (simp add: starts_value_def skip_ws_char)

lemma parse_object:
  "parse_value (Suc n) (CHR ''{'' # show_str k @ s)
    = map_option (\<lambda>(kvs, r). (JObj (foldl (\<lambda>d (k, v). dict_set d k v) [] kvs), r))
        (parse_fields n (show_str k @ s))"
  by (simp add: show_str_def skip_ws_char)

lemma parse_number:
  assumes "ends_value r"
  shows "parse_value (Suc n) (show_int i @ r) = Some (JInt i, r)"
proof -
  obtain c s where c: "show_int i = c # s" "is_digit c \<or> c = CHR ''-''"
    using show_int_start by blast
  then have "c \<notin> {quote_char, CHR ''['', CHR ''{'', CHR ''n'', CHR ''t'', CHR ''f''}"
    by (auto simp: is_digit_def)
  then show ?thesis
    using parse_int_show [OF assms, of i] c(1) by (auto simp: startswith_def)
qed

lemma dumps_items_Cons:
  "dumps_items (x # xs) @ r = dumps x @ (if xs = [] then r else '', '' @ dumps_items xs @ r)"
  by simp

lemma dumps_items_start:
  assumes "xs \<noteq> []"
  shows "\<exists>c s. dumps_items xs = c # s \<and> starts_value c"
proof -
  from assms obtain x ys where "xs = x # ys" by (cases xs) auto
  with dumps_start [of x] show ?thesis by auto
qed

lemma skip_ws_items: "xs \<noteq> [] \<Longrightarrow> skip_ws (dumps_items xs @ r) = dumps_items xs @ r"
  using dumps_items_start [of xs] by (auto simp: skip_ws_def starts_value_def)

lemma skip_ws_show_str [simp]: "skip_ws (show_str k @ r) = show_str k @ r"
  by (simp add: show_str_def skip_ws_char)

lemma skip_ws_fields: "kvs \<noteq> [] \<Longrightarrow> skip_ws (dumps_fields kvs @ r) = dumps_fields kvs @ r"
  by (cases kvs) auto

lemma ends_value_char [simp]:
  "ends_value []" "ends_value (CHR '','' # r)" "ends_value (CHR '']'' # r)" "ends_value (CHR ''}'' # r)"
  by (simp_all add: ends_value_def)

lemma parse_field:
  assumes "parse_value n (dumps v @ r) = Some (v, r)"
  shows "parse_fields (Suc n) (show_str k @ '': '' @ dumps v @ r) =
    (case skip_ws r of [] \<Rightarrow> None
     | e # r4 \<Rightarrow> if e = CHR ''}'' then Some ([(k, v)], r4)
         else if e = CHR '','' then map_option (\<lambda>(kvs, z). ((k, v) # kvs, z)) (parse_fields n (skip_ws r4))
         else None)"
  using assms
  by (simp add: show_str_def parse_str_show skip_ws_char skip_ws_space del: parse_value.simps)

lemma parse_dumps:
  "wf_json j \<Longrightarrow> ends_value r \<Longrightarrow> length (dumps j) \<le> n \<Longrightarrow>
     parse_value n (dumps j @ r) = Some (j, r)"
  "wf_items xs \<Longrightarrow> xs \<noteq> [] \<Longrightarrow> length (dumps_items xs) < n \<Longrightarrow>
     parse_items n (dumps_items xs @ CHR '']'' # r) = Some (xs, r)"
  "wf_fields kvs \<Longrightarrow> kvs \<noteq> [] \<Longrightarrow> length (dumps_fields kvs) < n \<Longrightarrow>
     parse_fields n (dumps_fields kvs @ CHR ''}'' # r) = Some (kvs, r)"
proof (induction j and xs and kvs arbitrary: r n and r n and r n
    rule: dumps_dumps_items_dumps_fields.induct)
  case 1
  then show ?case by (cases n) (auto simp: startswith_def)
next
  case (2 b)
  then show ?case by (cases n; cases b) (auto simp: startswith_def)
next
  case (3 i)
  then have "n \<noteq> 0" using dumps_length [of "JInt i"] by (metis le_zero_eq less_numeral_extra(3))
  with 3 show ?case by (cases n) (simp_all add: parse_number del: parse_value.simps)
next
  case (4 s)
  then show ?case by (cases n) (simp_all add: show_str_def parse_str_show)
next
  case (5 xs)
  then obtain m where m: "n = Suc m" by (cases n) auto
  show ?case
  proof (cases "xs = []")
    case True
    with m show ?thesis by (simp add: skip_ws_char)
  next
    case False
    from dumps_items_start [OF this] obtain c s where c: "dumps_items xs = c # s" "starts_value c" by blast
    have "parse_items m (dumps_items xs @ CHR '']'' # r) = Some (xs, r)"
      using 5 m False by (intro "5.IH") auto
    with c m show ?thesis by (simp add: parse_array del: parse_value.simps)
  qed
next
  case (6 kvs)
  then obtain m where m: "n = Suc m" by (cases n) auto
  show ?case
  proof (cases kvs)
    case Nil
    with m show ?thesis by (simp add: skip_ws_char)
  next
    case (Cons kv rest)
    obtain k v where kv: "kv = (k, v)" by force
    have "parse_fields m (dumps_fields kvs @ CHR ''}'' # r) = Some (kvs, r)"
      using 6 m Cons by (intro "6.IH") auto
    moreover have "foldl (\<lambda>d (k, v). dict_set d k v) [] kvs = kvs"
      using foldl_dict_set_new [of "[]" kvs] 6 by simp
    ultimately show ?thesis
      using m Cons kv by (simp add: parse_object del: parse_value.simps parse_fields.simps)
  qed
next
  case (8 x xs)
  then obtain m where m: "n = Suc m" by (cases n) auto
  let ?r = "if xs = [] then CHR '']'' # r else '', '' @ dumps_items xs @ CHR '']'' # r"
  have x: "parse_value m (dumps x @ ?r) = Some (x, ?r)"
    using 8 m by (intro "8.IH"(1)) (auto split: if_splits)
  show ?case
  proof (cases "xs = []")
    case True
    with x m show ?thesis by (simp add: skip_ws_char)
  next
    case False
    then have "parse_items m (dumps_items xs @ CHR '']'' # r) = Some (xs, r)"
      using 8 m by (intro "8.IH"(2)) auto
    with x m False show ?thesis
      by (simp add: skip_ws_char skip_ws_space skip_ws_items)
  qed
next
  case (10 k v kvs)
  then obtain m where m: "n = Suc m" by (cases n) auto
  let ?r = "if kvs = [] then CHR ''}'' # r else '', '' @ dumps_fields kvs @ CHR ''}'' # r"
  have x: "parse_value m (dumps v @ ?r) = Some (v, ?r)"
    using 10 m by (intro "10.IH"(1)) (auto split: if_splits)
  show ?case
  proof (cases "kvs = []")
    case True
    with parse_field [OF x] m show ?thesis by (simp add: skip_ws_char del: parse_fields.simps)
  next
    case False
    then have "parse_fields m (dumps_fields kvs @ CHR ''}'' # r) = Some (kvs, r)"
      using 10 m by (intro "10.IH"(2)) auto
    with parse_field [OF x, of k] m False show ?thesis
      by (simp add: skip_ws_char skip_ws_space skip_ws_fields del: parse_fields.simps)
  qed
qed auto

theorem loads_dumps: "wf_json j \<Longrightarrow> loads (dumps j) = Some j"
  using parse_dumps(1) [of j "[]" "length (dumps j)"] skip_ws_dumps [of j "[]"]
  by (simp add: loads_def skip_ws_def)

section \<open>Iterating over a parsed value\<close>

text \<open>
  \<open>for d in data\<close> over a parsed value: a list gives its elements, a string its
  characters, a dictionary its keys; anything else is not iterable.
\<close>

fun json_iter :: "json \<Rightarrow> json list option" where
  "json_iter (JArr xs) = Some xs"
| "json_iter (JStr s) = Some (map (\<lambda>c. JStr [c]) s)"
| "json_iter (JObj kvs) = Some (map (\<lambda>(k, v). JStr k) kvs)"
| "json_iter _ = None"

lemma wf_items_iff: "wf_items xs \<longleftrightarrow> (\<forall>x \<in> set xs. wf_json x)"
  by (induction xs) auto

text \<open>Reading a field of a parsed object at an expected type.\<close>

fun as_str :: "json \<Rightarrow> string option" where
  "as_str (JStr s) = Some s"
| "as_str _ = None"

fun as_optional_str :: "json \<Rightarrow> string option option" where
  "as_optional_str JNull = Some None"
| "as_optional_str (JStr s) = Some (Some s)"
| "as_optional_str _ = None"

fun as_int :: "json \<Rightarrow> int option" where
  "as_int (JInt i) = Some i"
| "as_int _ = None"

fun json_fields :: "json \<Rightarrow> (string, json) dict" where
  "json_fields (JObj kvs) = kvs"
| "json_fields _ = []"

definition json_field :: "json \<Rightarrow> string \<Rightarrow> (json \<Rightarrow> 'a option) \<Rightarrow> 'a option" where
  "json_field j k g = Option.bind (dict_get (json_fields j) k) g"

section \<open>Pydantic models\<close>

text \<open>
  \<open>model_dump\<close> and \<open>model_validate\<close> belong to Pydantic: they are parameters of the
  definitions that persist models. What the code relies on is that a dumped model
  validates to itself.
\<close>

record 'a model_class =
  model_dump :: "'a \<Rightarrow> json"
  model_validate :: "json \<Rightarrow> 'a option"

fun validate_all :: "'a model_class \<Rightarrow> json list \<Rightarrow> py_error + 'a list" where
  "validate_all M [] = Inr []"
| "validate_all M (d # ds) =
     (case model_validate M d of
        None \<Rightarrow> Inl ValidationError
      | Some x \<Rightarrow> (case validate_all M ds of Inl e \<Rightarrow> Inl e | Inr xs \<Rightarrow> Inr (x # xs)))"

definition load_models :: "'a model_class \<Rightarrow> string \<Rightarrow> py_error + 'a list" where
  "load_models M raw =
     (case loads raw of
        None \<Rightarrow> Inl (ValueError ''JSONDecodeError'')
      | Some j \<Rightarrow>
          (case json_iter j of
             None \<Rightarrow> Inl (TypeError ''not iterable'')
           | Some ds \<Rightarrow> validate_all M ds))"

definition dump_models :: "'a model_class \<Rightarrow> 'a list \<Rightarrow> string" where
  "dump_models M xs = dumps (JArr (map (model_dump M) xs))"

locale pydantic_model =
  fixes M :: "'a model_class"
  assumes validate_dump: "model_validate M (model_dump M x) = Some x"
    and wf_dump: "wf_json (model_dump M x)"
begin

lemma validate_all_dump: "validate_all M (map (model_dump M) xs) = Inr xs"
  by (induction xs) (simp_all add: validate_dump)

theorem load_dump_models: "load_models M (dump_models M xs) = Inr xs"
proof -
  have "wf_json (JArr (map (model_dump M) xs))"
    by (simp add: wf_items_iff wf_dump)
  then show ?thesis
    by (simp add: load_models_def dump_models_def loads_dumps validate_all_dump del: dumps.simps)
qed

end

end
