(* ===== verification/Backlog.thy ===== *)
theory Backlog
  imports Memory_Store Py_Json "HOL-Library.Multiset"
begin

text \<open>
  \<open>autonomy/backlog.py\<close>: the milestone backlog of the project manager. The queue keeps its
  items in memory and, after every mutation and still under its lock, writes the whole list
  as JSON into the store of the manager. The in-memory change comes first, so an operation
  returns the changed queue together with what it raised. The lock serialises the
  operations; one application of a definition below is one critical section. The
  mutation callback never changes the queue and its exceptions are swallowed: the model
  records the messages handed to it. Pydantic's dump and validation of an item are the
  argument \<open>M\<close>; the clock that stamps the stored row is the argument \<open>now\<close>.
\<close>

section \<open>Model\<close>

definition BACKLOG_KEY :: string where
  "BACKLOG_KEY = ''backlog''"

datatype backlog_item_status = PENDING | ASSIGNED | IN_PROGRESS | COMPLETED | CANCELLED

record backlog_item =
  item_id :: string
  title :: string
  description :: string
  priority :: int
  status :: backlog_item_status
  assigned_to :: "agent_id option"
  created_at :: string

record backlog_queue =
  bq_memory :: memory_store
  bq_has_callback :: bool
  bq_items :: "backlog_item list"
  bq_notified :: "string list"

definition new_backlog_queue :: "memory_store \<Rightarrow> bool \<Rightarrow> backlog_queue" where
  "new_backlog_queue mem cb =
     \<lparr>bq_memory = mem, bq_has_callback = cb, bq_items = [], bq_notified = []\<rparr>"

definition bq_notify :: "string \<Rightarrow> backlog_queue \<Rightarrow> backlog_queue" where
  "bq_notify msg q = (if bq_has_callback q then q\<lparr>bq_notified := bq_notified q @ [msg]\<rparr> else q)"

definition bq_load :: "backlog_item model_class \<Rightarrow> backlog_queue \<Rightarrow> (backlog_queue, unit) outcome" where
  "bq_load M q =
     (case mem_get (bq_memory q) BACKLOG_KEY of
        Inl e \<Rightarrow> (q, Inl e)
      | Inr None \<Rightarrow> (q\<lparr>bq_items := []\<rparr>, Inr ())
      | Inr (Some raw) \<Rightarrow>
          (case load_models M raw of
             Inl e \<Rightarrow> (q, Inl e)
           | Inr items \<Rightarrow> (q\<lparr>bq_items := items\<rparr>, Inr ())))"

definition bq_persist :: "backlog_item model_class \<Rightarrow> string \<Rightarrow> backlog_queue \<Rightarrow> (backlog_queue, unit) outcome" where
  "bq_persist M now q =
     (case mem_set (bq_memory q) BACKLOG_KEY (dump_models M (bq_items q)) now of
        Inl e \<Rightarrow> (q, Inl e)
      | Inr mem \<Rightarrow> (q\<lparr>bq_memory := mem\<rparr>, Inr ()))"

fun find_index :: "string \<Rightarrow> backlog_item list \<Rightarrow> nat option" where
  "find_index i [] = None"
| "find_index i (x # xs) = (if item_id x = i then Some 0 else map_option Suc (find_index i xs))"

definition item_not_found :: "string \<Rightarrow> py_error" where
  "item_not_found i = ValueError (''Item '' @ py_repr i @ '' not found in backlog'')"

definition bq_find_index :: "string \<Rightarrow> backlog_queue \<Rightarrow> py_error + nat" where
  "bq_find_index i q =
     (case find_index i (bq_items q) of None \<Rightarrow> Inl (item_not_found i) | Some n \<Rightarrow> Inr n)"

text \<open>The last two statements of every mutation: write through, then tell the callback.\<close>

definition bq_commit :: "backlog_item model_class \<Rightarrow> string \<Rightarrow> string \<Rightarrow> backlog_queue
    \<Rightarrow> (backlog_queue, unit) outcome" where
  "bq_commit M now msg q =
     (case bq_persist M now q of
        (q', Inl e) \<Rightarrow> (q', Inl e)
      | (q', Inr _) \<Rightarrow> (bq_notify msg q', Inr ()))"

definition bq_append :: "backlog_item model_class \<Rightarrow> string \<Rightarrow> backlog_item \<Rightarrow> backlog_queue
    \<Rightarrow> (backlog_queue, unit) outcome" where
  "bq_append M now item q =
     bq_commit M now
       (''[Backlog] Added: '' @ [CHR 0x27] @ title item @ [CHR 0x27] @ '' (priority '' @ show_int (priority item) @ '')'')
       (q\<lparr>bq_items := bq_items q @ [item]\<rparr>)"

definition bq_insert_urgent :: "backlog_item model_class \<Rightarrow> string \<Rightarrow> backlog_item \<Rightarrow> backlog_queue
    \<Rightarrow> (backlog_queue, unit) outcome" where
  "bq_insert_urgent M now item q =
     bq_commit M now
       (''[Backlog] Urgent: '' @ [CHR 0x27] @ title item @ [CHR 0x27] @ '' inserted at position 0'')
       (q\<lparr>bq_items := py_insert (bq_items q) 0 item\<rparr>)"

definition bq_insert_after :: "backlog_item model_class \<Rightarrow> string \<Rightarrow> string \<Rightarrow> backlog_item \<Rightarrow> backlog_queue
    \<Rightarrow> (backlog_queue, unit) outcome" where
  "bq_insert_after M now after_id item q =
     (case bq_find_index after_id q of
        Inl e \<Rightarrow> (q, Inl e)
      | Inr idx \<Rightarrow> bq_persist M now (q\<lparr>bq_items := py_insert (bq_items q) (int idx + 1) item\<rparr>))"

definition bq_reorder :: "backlog_item model_class \<Rightarrow> string \<Rightarrow> string \<Rightarrow> int \<Rightarrow> backlog_queue
    \<Rightarrow> (backlog_queue, unit) outcome" where
  "bq_reorder M now i new_position q =
     (case bq_find_index i q of
        Inl e \<Rightarrow> (q, Inl e)
      | Inr idx \<Rightarrow>
          (let item = bq_items q ! idx;
               rest = py_remove_at idx (bq_items q);
               pos = min new_position (int (length rest)) in
           bq_commit M now
             (''[Backlog] Reordered: '' @ [CHR 0x27] @ i @ [CHR 0x27] @ '' moved to position '' @ show_int new_position)
             (q\<lparr>bq_items := py_insert rest pos item\<rparr>)))"

text \<open>Assigning to the fields of the object that \<open>_find_item\<close> returned.\<close>

definition bq_update :: "string \<Rightarrow> (backlog_item \<Rightarrow> backlog_item) \<Rightarrow> backlog_queue \<Rightarrow> py_error + backlog_queue" where
  "bq_update i f q =
     (case bq_find_index i q of
        Inl e \<Rightarrow> Inl e
      | Inr n \<Rightarrow> Inr (q\<lparr>bq_items := (bq_items q)[n := f (bq_items q ! n)]\<rparr>))"

definition bq_cancel :: "backlog_item model_class \<Rightarrow> string \<Rightarrow> string \<Rightarrow> backlog_queue
    \<Rightarrow> (backlog_queue, unit) outcome" where
  "bq_cancel M now i q =
     (case bq_update i (\<lambda>x. x\<lparr>status := CANCELLED\<rparr>) q of
        Inl e \<Rightarrow> (q, Inl e)
      | Inr q' \<Rightarrow> bq_commit M now (''[Backlog] Cancelled: '' @ [CHR 0x27] @ i @ [CHR 0x27]) q')"

definition bq_mark_completed :: "backlog_item model_class \<Rightarrow> string \<Rightarrow> string \<Rightarrow> backlog_queue
    \<Rightarrow> (backlog_queue, unit) outcome" where
  "bq_mark_completed M now i q =
     (case bq_update i (\<lambda>x. x\<lparr>status := COMPLETED\<rparr>) q of
        Inl e \<Rightarrow> (q, Inl e)
      | Inr q' \<Rightarrow> bq_commit M now (''[Backlog] Completed: '' @ [CHR 0x27] @ i @ [CHR 0x27]) q')"

definition bq_mark_pending :: "backlog_item model_class \<Rightarrow> string \<Rightarrow> string \<Rightarrow> backlog_queue
    \<Rightarrow> (backlog_queue, unit) outcome" where
  "bq_mark_pending M now i q =
     (case bq_update i (\<lambda>x. x\<lparr>status := PENDING, assigned_to := None\<rparr>) q of
        Inl e \<Rightarrow> (q, Inl e)
      | Inr q' \<Rightarrow> bq_commit M now
          (''[Backlog] Re-queued: '' @ [CHR 0x27] @ i @ [CHR 0x27] @ '' back to pending'') q')"

text \<open>The scan of \<open>claim_next\<close>: the items before the first pending one, that item, the rest.\<close>

fun split_pending :: "backlog_item list \<Rightarrow> (backlog_item list \<times> backlog_item \<times> backlog_item list) option" where
  "split_pending [] = None"
| "split_pending (x # xs) =
     (if status x = PENDING then Some ([], x, xs)
      else map_option (\<lambda>(b, y, a). (x # b, y, a)) (split_pending xs))"

definition bq_claim_next :: "backlog_item model_class \<Rightarrow> string \<Rightarrow> agent_id \<Rightarrow> backlog_queue
    \<Rightarrow> (backlog_queue, backlog_item option) outcome" where
  "bq_claim_next M now agent q =
     (case split_pending (bq_items q) of
        None \<Rightarrow> (q, Inr None)
      | Some (before, x, after) \<Rightarrow>
          (let item = x\<lparr>status := ASSIGNED, assigned_to := Some agent\<rparr> in
           (case bq_commit M now
              (''[Backlog] Claimed: '' @ [CHR 0x27] @ title item @ [CHR 0x27] @ '' assigned to '' @ agent)
              (q\<lparr>bq_items := before @ item # after\<rparr>) of
              (q', Inl e) \<Rightarrow> (q', Inl e)
            | (q', Inr _) \<Rightarrow> (q', Inr (Some item)))))"

definition pending_items :: "backlog_queue \<Rightarrow> backlog_item list" where
  "pending_items q = filter (\<lambda>x. status x = PENDING) (bq_items q)"

section \<open>Operations as a sequence\<close>

datatype bq_op =
    Append backlog_item
  | InsertUrgent backlog_item
  | InsertAfter string backlog_item
  | Reorder string int
  | Cancel string
  | ClaimNext agent_id
  | MarkCompleted string
  | MarkPending string

definition returning_none :: "('s, unit) outcome \<Rightarrow> ('s, 'a option) outcome" where
  "returning_none r = (case r of (q, Inl e) \<Rightarrow> (q, Inl e) | (q, Inr _) \<Rightarrow> (q, Inr None))"

text \<open>One call; what it returns is an item for a successful claim and None otherwise.\<close>

fun bq_exec :: "backlog_item model_class \<Rightarrow> string \<Rightarrow> bq_op \<Rightarrow> backlog_queue
    \<Rightarrow> (backlog_queue, backlog_item option) outcome" where
  "bq_exec M now (Append x) q = returning_none (bq_append M now x q)"
| "bq_exec M now (InsertUrgent x) q = returning_none (bq_insert_urgent M now x q)"
| "bq_exec M now (InsertAfter i x) q = returning_none (bq_insert_after M now i x q)"
| "bq_exec M now (Reorder i p) q = returning_none (bq_reorder M now i p q)"
| "bq_exec M now (Cancel i) q = returning_none (bq_cancel M now i q)"
| "bq_exec M now (ClaimNext a) q = bq_claim_next M now a q"
| "bq_exec M now (MarkCompleted i) q = returning_none (bq_mark_completed M now i q)"
| "bq_exec M now (MarkPending i) q = returning_none (bq_mark_pending M now i q)"

text \<open>The change a call makes to the list of items when the write-through succeeds.\<close>

definition update_item :: "string \<Rightarrow> (backlog_item \<Rightarrow> backlog_item) \<Rightarrow> backlog_item list \<Rightarrow> backlog_item list" where
  "update_item i f xs =
     (case find_index i xs of None \<Rightarrow> xs | Some n \<Rightarrow> xs[n := f (xs ! n)])"

definition move_item :: "string \<Rightarrow> int \<Rightarrow> backlog_item list \<Rightarrow> backlog_item list" where
  "move_item i p xs =
     (case find_index i xs of
        None \<Rightarrow> xs
      | Some n \<Rightarrow> py_insert (py_remove_at n xs) (min p (int (length (py_remove_at n xs)))) (xs ! n))"

definition claim_item :: "agent_id \<Rightarrow> backlog_item list \<Rightarrow> backlog_item list" where
  "claim_item a xs =
     (case split_pending xs of
        None \<Rightarrow> xs
      | Some (before, x, after) \<Rightarrow> before @ x\<lparr>status := ASSIGNED, assigned_to := Some a\<rparr> # after)"

fun items_after :: "bq_op \<Rightarrow> backlog_item list \<Rightarrow> backlog_item list" where
  "items_after (Append x) xs = xs @ [x]"
| "items_after (InsertUrgent x) xs = x # xs"
| "items_after (InsertAfter i x) xs =
     (case find_index i xs of None \<Rightarrow> xs | Some n \<Rightarrow> py_insert xs (int n + 1) x)"
| "items_after (Reorder i p) xs = move_item i p xs"
| "items_after (Cancel i) xs = update_item i (\<lambda>x. x\<lparr>status := CANCELLED\<rparr>) xs"
| "items_after (ClaimNext a) xs = claim_item a xs"
| "items_after (MarkCompleted i) xs = update_item i (\<lambda>x. x\<lparr>status := COMPLETED\<rparr>) xs"
| "items_after (MarkPending i) xs = update_item i (\<lambda>x. x\<lparr>status := PENDING, assigned_to := None\<rparr>) xs"

section \<open>Scanning the items\<close>

lemma find_index_Some:
  "find_index i xs = Some n \<Longrightarrow> n < length xs \<and> item_id (xs ! n) = i"
proof (induction xs arbitrary: n)
  case (Cons x xs)
  then show ?case by (cases n) (auto split: if_splits)
qed simp

lemma find_index_None: "find_index i xs = None \<longleftrightarrow> i \<notin> item_id ` set xs"
  by (induction xs) auto

lemma find_index_distinct:
  "distinct (map item_id xs) \<Longrightarrow> n < length xs \<Longrightarrow> find_index (item_id (xs ! n)) xs = Some n"
proof (induction xs arbitrary: n)
  case (Cons x xs)
  then show ?case by (cases n) auto
qed simp

lemma split_pending_Some:
  "split_pending xs = Some (b, x, a) \<longleftrightarrow>
     xs = b @ x # a \<and> status x = PENDING \<and> (\<forall>y \<in> set b. status y \<noteq> PENDING)"
proof (induction xs arbitrary: b)
  case (Cons y ys)
  show ?case
  proof (cases "status y = PENDING")
    case True
    then show ?thesis by (cases b) auto
  next
    case False
    then show ?thesis by (cases b) (auto simp: Cons.IH)
  qed
qed simp

lemma split_pending_None: "split_pending xs = None \<longleftrightarrow> (\<forall>y \<in> set xs. status y \<noteq> PENDING)"
  by (induction xs) auto

lemma map_item_id_update:
  "(\<And>x. item_id (f x) = item_id x) \<Longrightarrow> map item_id (update_item i f xs) = map item_id xs"
  by (auto simp: update_item_def map_update split: option.splits dest!: find_index_Some)
    (metis list_update_id map_update nth_map)

lemma map_item_id_claim: "map item_id (claim_item a xs) = map item_id xs"
  by (auto simp: claim_item_def split_pending_Some split: option.splits)

lemma mset_py_insert: "mset (py_insert xs i x) = add_mset x (mset xs)"
proof -
  have "mset (take p xs) + mset (drop p xs) = mset xs" for p
    by (metis append_take_drop_id mset_append)
  then show ?thesis by (simp add: py_insert_def Let_def)
qed

lemma mset_py_remove_at: "n < length xs \<Longrightarrow> add_mset (xs ! n) (mset (py_remove_at n xs)) = mset xs"
  by (metis append_Cons id_take_nth_drop mset.simps(2) mset_append py_remove_at_def union_mset_add_mset_right)

lemma mset_move_item: "mset (move_item i p xs) = mset xs"
  by (auto simp: move_item_def mset_py_insert mset_py_remove_at split: option.splits dest!: find_index_Some)

section \<open>Write-through\<close>

lemma bq_persist_open:
  assumes "ms_opened (bq_memory q)"
  obtains mem where "bq_persist M now q = (q\<lparr>bq_memory := mem\<rparr>, Inr ())" "ms_opened mem"
    "mem_get mem BACKLOG_KEY = Inr (Some (dump_models M (bq_items q)))"
    "\<And>k. k \<noteq> BACKLOG_KEY \<Longrightarrow> mem_get mem k = mem_get (bq_memory q) k"
proof -
  obtain mem where "mem_set (bq_memory q) BACKLOG_KEY (dump_models M (bq_items q)) now = Inr mem"
    using ms.put_open [OF assms] by blast
  then show thesis
    using ms.put_opened ms.get_put by (intro that [of mem]) (auto simp: bq_persist_def)
qed

lemma bq_commit_open:
  assumes "ms_opened (bq_memory q)"
  obtains q' where "bq_commit M now msg q = (q', Inr ())" "ms_opened (bq_memory q')"
    "bq_items q' = bq_items q"
    "mem_get (bq_memory q') BACKLOG_KEY = Inr (Some (dump_models M (bq_items q)))"
    "\<And>k. k \<noteq> BACKLOG_KEY \<Longrightarrow> mem_get (bq_memory q') k = mem_get (bq_memory q) k"
proof -
  obtain mem where mem: "bq_persist M now q = (q\<lparr>bq_memory := mem\<rparr>, Inr ())" "ms_opened mem"
    "mem_get mem BACKLOG_KEY = Inr (Some (dump_models M (bq_items q)))"
    "\<And>k. k \<noteq> BACKLOG_KEY \<Longrightarrow> mem_get mem k = mem_get (bq_memory q) k"
    using bq_persist_open [OF assms] by blast
  show thesis
    by (rule that [of "bq_notify msg (q\<lparr>bq_memory := mem\<rparr>)"])
      (use mem in \<open>simp_all add: bq_commit_def bq_notify_def\<close>)
qed

text \<open>
  The stored text is the dump of the items (a store that has no backlog yet stands for
  the empty list).
\<close>

definition stored :: "backlog_item model_class \<Rightarrow> backlog_queue \<Rightarrow> bool" where
  "stored M q \<longleftrightarrow> ms_opened (bq_memory q) \<and>
     (mem_get (bq_memory q) BACKLOG_KEY = Inr (Some (dump_models M (bq_items q)))
      \<or> (mem_get (bq_memory q) BACKLOG_KEY = Inr None \<and> bq_items q = []))"

text \<open>
  What one call does on an open store: the items change as \<open>items_after\<close> says, the new
  list is on disk, and no other key of the store changes.
\<close>

definition writes_through :: "backlog_item model_class \<Rightarrow> backlog_queue \<Rightarrow> backlog_queue \<Rightarrow> bool" where
  "writes_through M q q' \<longleftrightarrow> stored M q' \<and>
     (\<forall>k. k \<noteq> BACKLOG_KEY \<longrightarrow> mem_get (bq_memory q') k = mem_get (bq_memory q) k)"

lemma writes_through_commit:
  assumes "ms_opened (bq_memory q)"
  shows "\<exists>q'. bq_commit M now msg (q\<lparr>bq_items := xs\<rparr>) = (q', Inr ()) \<and> bq_items q' = xs
    \<and> writes_through M q q'"
proof -
  from assms have "ms_opened (bq_memory (q\<lparr>bq_items := xs\<rparr>))" by simp
  from bq_commit_open [OF this, of M now msg] show ?thesis
    by (metis backlog_queue.select_convs(1,3) backlog_queue.surjective backlog_queue.update_convs(3)
        stored_def writes_through_def)
qed

lemma writes_through_persist:
  assumes "ms_opened (bq_memory q)"
  shows "\<exists>q'. bq_persist M now (q\<lparr>bq_items := xs\<rparr>) = (q', Inr ()) \<and> bq_items q' = xs
    \<and> writes_through M q q'"
proof -
  obtain mem where "bq_persist M now (q\<lparr>bq_items := xs\<rparr>) = (q\<lparr>bq_items := xs, bq_memory := mem\<rparr>, Inr ())"
    "ms_opened mem" "mem_get mem BACKLOG_KEY = Inr (Some (dump_models M xs))"
    "\<And>k. k \<noteq> BACKLOG_KEY \<Longrightarrow> mem_get mem k = mem_get (bq_memory q) k"
    using assms bq_persist_open [of "q\<lparr>bq_items := xs\<rparr>" M now] by auto
  then show ?thesis by (simp add: writes_through_def stored_def)
qed

lemma writes_through_refl: "stored M q \<Longrightarrow> writes_through M q q"
  by (simp add: writes_through_def)

lemma stored_opened: "stored M q \<Longrightarrow> ms_opened (bq_memory q)"
  by (simp add: stored_def)

lemma py_insert_0: "py_insert xs 0 x = x # xs"
  by (simp add: py_insert_def py_index_def)

text \<open>What a call returns: the claimed item, nothing, or the error for an unknown identifier.\<close>

fun result_of :: "bq_op \<Rightarrow> backlog_item list \<Rightarrow> py_error + backlog_item option" where
  "result_of (ClaimNext a) xs =
     Inr (map_option (\<lambda>(b, x, c). x\<lparr>status := ASSIGNED, assigned_to := Some a\<rparr>) (split_pending xs))"
| "result_of (InsertAfter i x) xs = (if i \<in> item_id ` set xs then Inr None else Inl (item_not_found i))"
| "result_of (Reorder i p) xs = (if i \<in> item_id ` set xs then Inr None else Inl (item_not_found i))"
| "result_of (Cancel i) xs = (if i \<in> item_id ` set xs then Inr None else Inl (item_not_found i))"
| "result_of (MarkCompleted i) xs = (if i \<in> item_id ` set xs then Inr None else Inl (item_not_found i))"
| "result_of (MarkPending i) xs = (if i \<in> item_id ` set xs then Inr None else Inl (item_not_found i))"
| "result_of _ xs = Inr None"

lemma bq_update_open:
  assumes "stored M q"
  shows "\<exists>q'. (case bq_update i f q of Inl e \<Rightarrow> (q, Inl e) | Inr q' \<Rightarrow> bq_commit M now msg q')
      = (q', if i \<in> item_id ` set (bq_items q) then Inr () else Inl (item_not_found i))
    \<and> bq_items q' = update_item i f (bq_items q) \<and> writes_through M q q'"
proof (cases "find_index i (bq_items q)")
  case None
  moreover from None have "i \<notin> item_id ` set (bq_items q)" by (simp add: find_index_None)
  ultimately show ?thesis
    using assms by (simp add: bq_update_def bq_find_index_def update_item_def writes_through_refl)
next
  case (Some n)
  then have "i \<in> item_id ` set (bq_items q)"
    using find_index_None by (metis option.distinct(1))
  with Some writes_through_commit [OF stored_opened [OF assms]] show ?thesis
    by (simp add: bq_update_def bq_find_index_def update_item_def)
qed

lemma bq_insert_after_open:
  assumes "stored M q"
  shows "\<exists>q'. bq_insert_after M now i x q
      = (q', if i \<in> item_id ` set (bq_items q) then Inr () else Inl (item_not_found i))
    \<and> bq_items q' = items_after (InsertAfter i x) (bq_items q) \<and> writes_through M q q'"
proof (cases "find_index i (bq_items q)")
  case None
  moreover from None have "i \<notin> item_id ` set (bq_items q)" by (simp add: find_index_None)
  ultimately show ?thesis
    using assms by (simp add: bq_insert_after_def bq_find_index_def writes_through_refl)
next
  case (Some n)
  then have "i \<in> item_id ` set (bq_items q)"
    using find_index_None by (metis option.distinct(1))
  with Some writes_through_persist [OF stored_opened [OF assms]] show ?thesis
    by (simp add: bq_insert_after_def bq_find_index_def)
qed

lemma bq_reorder_open:
  assumes "stored M q"
  shows "\<exists>q'. bq_reorder M now i p q
      = (q', if i \<in> item_id ` set (bq_items q) then Inr () else Inl (item_not_found i))
    \<and> bq_items q' = move_item i p (bq_items q) \<and> writes_through M q q'"
proof (cases "find_index i (bq_items q)")
  case None
  moreover from None have "i \<notin> item_id ` set (bq_items q)" by (simp add: find_index_None)
  ultimately show ?thesis
    using assms by (simp add: bq_reorder_def bq_find_index_def move_item_def writes_through_refl)
next
  case (Some n)
  then have "i \<in> item_id ` set (bq_items q)"
    using find_index_None by (metis option.distinct(1))
  with Some writes_through_commit [OF stored_opened [OF assms]] show ?thesis
    by (simp add: bq_reorder_def bq_find_index_def move_item_def Let_def)
qed

lemma bq_claim_next_open:
  assumes "stored M q"
  shows "\<exists>q'. bq_claim_next M now a q = (q', result_of (ClaimNext a) (bq_items q))
    \<and> bq_items q' = claim_item a (bq_items q) \<and> writes_through M q q'"
proof (cases "split_pending (bq_items q)")
  case None
  with assms show ?thesis by (simp add: bq_claim_next_def claim_item_def writes_through_refl)
next
  case (Some bxa)
  obtain b x c where "bxa = (b, x, c)" by (cases bxa)
  let ?item = "x\<lparr>status := ASSIGNED, assigned_to := Some a\<rparr>"
  obtain q' where "bq_commit M now
      (''[Backlog] Claimed: '' @ [CHR 0x27] @ title ?item @ [CHR 0x27] @ '' assigned to '' @ a)
      (q\<lparr>bq_items := b @ ?item # c\<rparr>) = (q', Inr ())"
    "bq_items q' = b @ ?item # c" "writes_through M q q'"
    using writes_through_commit [OF stored_opened [OF assms]] by blast
  with Some \<open>bxa = (b, x, c)\<close> show ?thesis
    by (simp add: bq_claim_next_def claim_item_def Let_def)
qed

lemma returning_none_simps [simp]:
  "returning_none (q, Inr u) = (q, Inr None)" "returning_none (q, Inl e) = (q, Inl e)"
  by (simp_all add: returning_none_def)

lemma bq_exec_update:
  assumes "stored M q"
    and "r = (case bq_update i f q of Inl e \<Rightarrow> (q, Inl e) | Inr q' \<Rightarrow> bq_commit M now msg q')"
  shows "\<exists>q'. returning_none r = (q', if i \<in> item_id ` set (bq_items q) then Inr None else Inl (item_not_found i))
    \<and> bq_items q' = update_item i f (bq_items q) \<and> writes_through M q q'"
proof -
  obtain q' where "r = (q', if i \<in> item_id ` set (bq_items q) then Inr () else Inl (item_not_found i))"
    "bq_items q' = update_item i f (bq_items q)" "writes_through M q q'"
    using bq_update_open [OF assms(1), of now msg i f] assms(2) by auto
  then show ?thesis by simp
qed

lemma bq_exec_open:
  assumes "stored M q"
  shows "\<exists>q'. bq_exec M now op q = (q', result_of op (bq_items q))
    \<and> bq_items q' = items_after op (bq_items q) \<and> writes_through M q q'"
proof (cases op)
  case (Append x)
  obtain q' where "bq_append M now x q = (q', Inr ())" "bq_items q' = bq_items q @ [x]"
    "writes_through M q q'"
    using writes_through_commit [OF stored_opened [OF assms]] unfolding bq_append_def by blast
  with Append show ?thesis by simp
next
  case (InsertUrgent x)
  obtain q' where "bq_insert_urgent M now x q = (q', Inr ())" "bq_items q' = x # bq_items q"
    "writes_through M q q'"
    using writes_through_commit [OF stored_opened [OF assms]]
    unfolding bq_insert_urgent_def py_insert_0 by blast
  with InsertUrgent show ?thesis by simp
next
  case (InsertAfter i x)
  then show ?thesis using bq_insert_after_open [OF assms, of now i x] by (auto split: if_splits)
next
  case (Reorder i p)
  then show ?thesis using bq_reorder_open [OF assms, of now i p] by (auto split: if_splits)
next
  case (Cancel i)
  then show ?thesis
    using bq_exec_update [OF assms bq_cancel_def [of M now i q]] by simp
next
  case (ClaimNext a)
  then show ?thesis using bq_claim_next_open [OF assms, of now a] by simp
next
  case (MarkCompleted i)
  then show ?thesis
    using bq_exec_update [OF assms bq_mark_completed_def [of M now i q]] by simp
next
  case (MarkPending i)
  then show ?thesis
    using bq_exec_update [OF assms bq_mark_pending_def [of M now i q]] by simp
qed

section \<open>Claiming is first in, first out\<close>

lemma pending_split:
  "split_pending xs = Some (b, x, a) \<Longrightarrow> filter (\<lambda>y. status y = PENDING) xs
     = x # filter (\<lambda>y. status y = PENDING) a"
  by (auto simp: split_pending_Some filter_empty_conv)

text \<open>
  Claiming on an open store: with no pending item it returns None and changes
  nothing; otherwise it returns the first pending item in queue order, now assigned to the
  caller, the remaining pending items are the others in their order, every other item and
  every position stays as it was, and the new list is on disk when the call returns.
\<close>

theorem claim_next_fifo:
  assumes "ms_opened (bq_memory q)"
  shows "case pending_items q of
      [] \<Rightarrow> bq_claim_next M now a q = (q, Inr None)
    | x # ps \<Rightarrow> (let y = x\<lparr>status := ASSIGNED, assigned_to := Some a\<rparr> in
        \<exists>q' n. bq_claim_next M now a q = (q', Inr (Some y)) \<and> pending_items q' = ps
          \<and> n < length (bq_items q) \<and> bq_items q ! n = x \<and> bq_items q' = (bq_items q)[n := y]
          \<and> mem_get (bq_memory q') BACKLOG_KEY = Inr (Some (dump_models M (bq_items q'))))"
proof (cases "split_pending (bq_items q)")
  case None
  then have "pending_items q = []"
    by (simp add: pending_items_def split_pending_None filter_empty_conv)
  with None show ?thesis by (simp add: bq_claim_next_def)
next
  case (Some bxa)
  then obtain b x c where s: "split_pending (bq_items q) = Some (b, x, c)" by (cases bxa) auto
  let ?y = "x\<lparr>status := ASSIGNED, assigned_to := Some a\<rparr>"
  let ?msg = "''[Backlog] Claimed: '' @ [CHR 0x27] @ title ?y @ [CHR 0x27] @ '' assigned to '' @ a"
  have o: "ms_opened (bq_memory (q\<lparr>bq_items := b @ ?y # c\<rparr>))" using assms by simp
  obtain q' where "bq_commit M now ?msg (q\<lparr>bq_items := b @ ?y # c\<rparr>) = (q', Inr ())"
    "bq_items q' = bq_items (q\<lparr>bq_items := b @ ?y # c\<rparr>)"
    "mem_get (bq_memory q') BACKLOG_KEY
      = Inr (Some (dump_models M (bq_items (q\<lparr>bq_items := b @ ?y # c\<rparr>))))"
    by (rule bq_commit_open [OF o, of M now ?msg], rule that)
  then have q': "bq_commit M now ?msg (q\<lparr>bq_items := b @ ?y # c\<rparr>) = (q', Inr ())"
    "bq_items q' = b @ ?y # c"
    "mem_get (bq_memory q') BACKLOG_KEY = Inr (Some (dump_models M (b @ ?y # c)))" by simp_all
  have "bq_items q = b @ x # c" "\<forall>y \<in> set b. status y \<noteq> PENDING"
    using s by (auto simp: split_pending_Some)
  with q' have "length b < length (bq_items q)" "bq_items q ! length b = x"
    "bq_items q' = (bq_items q)[length b := ?y]"
    "pending_items q' = filter (\<lambda>y. status y = PENDING) c"
    by (auto simp: pending_items_def filter_empty_conv)
  moreover have "bq_claim_next M now a q = (q', Inr (Some ?y))"
    using s q' by (simp add: bq_claim_next_def Let_def)
  moreover have "pending_items q = x # filter (\<lambda>y. status y = PENDING) c"
    using pending_split [OF s] by (simp add: pending_items_def)
  ultimately show ?thesis using q'(2,3) by (auto simp: Let_def)
qed

section \<open>No item is held by two agents\<close>

datatype bq_event = Claimed agent_id string | Requeued string

definition event_of :: "bq_op \<Rightarrow> py_error + backlog_item option \<Rightarrow> bq_event list" where
  "event_of op r =
     (case (op, r) of
        (ClaimNext a, Inr (Some x)) \<Rightarrow> [Claimed a (item_id x)]
      | (MarkPending i, Inr _) \<Rightarrow> [Requeued i]
      | _ \<Rightarrow> [])"

text \<open>A run of calls, each with the time that stamps its row, and the claims it made.\<close>

fun bq_run :: "backlog_item model_class \<Rightarrow> (string \<times> bq_op) list \<Rightarrow> backlog_queue
    \<Rightarrow> backlog_queue \<times> bq_event list" where
  "bq_run M [] q = (q, [])"
| "bq_run M ((now, op) # ops) q =
     (let (q', r) = bq_exec M now op q; (q'', es) = bq_run M ops q' in (q'', event_of op r @ es))"

text \<open>The identifiers claimed and not put back since.\<close>

fun hold :: "string list \<Rightarrow> bq_event \<Rightarrow> string list" where
  "hold h (Claimed a i) = i # h"
| "hold h (Requeued i) = removeAll i h"

abbreviation held :: "bq_event list \<Rightarrow> string list" where
  "held es \<equiv> foldl hold [] es"

text \<open>The calls add only items whose identifier is not in the queue yet.\<close>

fun fresh_op :: "bq_op \<Rightarrow> backlog_item list \<Rightarrow> bool" where
  "fresh_op (Append x) xs = (item_id x \<notin> item_id ` set xs)"
| "fresh_op (InsertUrgent x) xs = (item_id x \<notin> item_id ` set xs)"
| "fresh_op (InsertAfter i x) xs = (item_id x \<notin> item_id ` set xs)"
| "fresh_op _ xs = True"

fun fresh_run :: "(string \<times> bq_op) list \<Rightarrow> backlog_item list \<Rightarrow> bool" where
  "fresh_run [] xs = True"
| "fresh_run ((now, op) # ops) xs = (fresh_op op xs \<and> fresh_run ops (items_after op xs))"

definition busy :: "backlog_item list \<Rightarrow> string set" where
  "busy xs = item_id ` {x \<in> set xs. status x \<noteq> PENDING}"

lemma busy_simps [simp]:
  "busy (x # xs) = (if status x = PENDING then busy xs else insert (item_id x) (busy xs))"
  "busy (xs @ ys) = busy xs \<union> busy ys"
  by (auto simp: busy_def)

lemma busy_mset_eq: "mset xs = mset ys \<Longrightarrow> busy xs = busy ys"
  by (metis busy_def set_mset_mset)

lemma busy_update:
  assumes "distinct (map item_id xs)" "\<And>x. item_id (f x) = item_id x"
  shows "busy xs - {i} \<subseteq> busy (update_item i f xs)"
    and "(\<And>x. status (f x) \<noteq> PENDING) \<Longrightarrow> busy xs \<subseteq> busy (update_item i f xs)"
proof -
  have "busy xs - {i} \<subseteq> busy (update_item i f xs)
    \<and> ((\<forall>x. status (f x) \<noteq> PENDING) \<longrightarrow> busy xs \<subseteq> busy (update_item i f xs))"
  proof (cases "find_index i xs")
    case None
    then show ?thesis by (auto simp: update_item_def)
  next
    case (Some n)
    then have n: "n < length xs" "item_id (xs ! n) = i" by (auto dest: find_index_Some)
    from n have "busy xs = busy (take n xs @ xs ! n # drop (Suc n) xs)"
      using id_take_nth_drop by metis
    moreover have "update_item i f xs = take n xs @ f (xs ! n) # drop (Suc n) xs"
      using Some n by (simp add: update_item_def upd_conv_take_nth_drop)
    ultimately show ?thesis using n(2) assms(2) by auto
  qed
  then show "busy xs - {i} \<subseteq> busy (update_item i f xs)"
    and "(\<And>x. status (f x) \<noteq> PENDING) \<Longrightarrow> busy xs \<subseteq> busy (update_item i f xs)" by auto
qed

lemma distinct_items_after:
  assumes "distinct (map item_id xs)" "fresh_op op xs"
  shows "distinct (map item_id (items_after op xs))"
proof (cases op)
  case (Reorder i p)
  have "mset (map item_id (move_item i p xs)) = mset (map item_id xs)"
    by (simp add: mset_move_item)
  then show ?thesis using Reorder assms(1) by (simp only: items_after.simps) (metis mset_eq_imp_distinct_iff)
qed (use assms in \<open>auto simp: map_item_id_update map_item_id_claim distinct_map_py_insert simp del: map_update
      split: option.splits\<close>)

lemma busy_items_after:
  assumes d: "distinct (map item_id xs)" "fresh_op op xs" and h: "set h \<subseteq> busy xs"
  shows "set (foldl hold h (event_of op (result_of op xs))) \<subseteq> busy (items_after op xs)"
proof (cases op)
  case (InsertAfter i x)
  have "busy xs \<subseteq> busy (py_insert xs p x)" for p
    by (auto simp: busy_def set_py_insert)
  with InsertAfter h show ?thesis by (auto simp: event_of_def split: option.splits)
next
  case (Reorder i p)
  with h busy_mset_eq [OF mset_move_item] show ?thesis by (simp add: event_of_def)
next
  case (Cancel i)
  have "busy xs \<subseteq> busy (update_item i (\<lambda>x. x\<lparr>status := CANCELLED\<rparr>) xs)"
    by (rule busy_update(2) [OF d(1)]) simp_all
  with Cancel h show ?thesis by (auto simp: event_of_def)
next
  case (MarkCompleted i)
  have "busy xs \<subseteq> busy (update_item i (\<lambda>x. x\<lparr>status := COMPLETED\<rparr>) xs)"
    by (rule busy_update(2) [OF d(1)]) simp_all
  with MarkCompleted h show ?thesis by (auto simp: event_of_def)
next
  case (MarkPending i)
  have "i \<notin> item_id ` set xs \<Longrightarrow> update_item i f xs = xs" for f
    by (simp add: update_item_def find_index_None [THEN iffD2])
  with MarkPending h busy_update(1) [OF d(1), of "\<lambda>x. x\<lparr>status := PENDING, assigned_to := None\<rparr>" i]
  show ?thesis by (auto simp: event_of_def)
next
  case (ClaimNext a)
  then show ?thesis
    using h by (auto simp: event_of_def claim_item_def split_pending_Some split: option.splits)
qed (use h in \<open>auto simp: event_of_def\<close>)

lemma claimed_was_free:
  assumes "distinct (map item_id xs)" "set h \<subseteq> busy xs"
    and "event_of op (result_of op xs) = [Claimed a i]"
  shows "i \<notin> set h"
proof -
  from assms(3) obtain b x c where s: "split_pending xs = Some (b, x, c)" "i = item_id x"
    by (cases op) (auto simp: event_of_def split: option.splits if_splits)
  then have xs: "xs = b @ x # c" "status x = PENDING" by (auto simp: split_pending_Some)
  with assms(1) have "item_id x \<notin> busy xs" by (auto simp: busy_def)
  with assms(2) s(2) show ?thesis by blast
qed

lemma event_of_cases:
  "event_of op r = [] \<or> (\<exists>a i. event_of op r = [Claimed a i]) \<or> (\<exists>i. event_of op r = [Requeued i])"
  by (auto simp: event_of_def split: bq_op.splits sum.splits option.splits)

lemma claims_exclusive_from:
  assumes "stored M q" "distinct (map item_id (bq_items q))" "set h \<subseteq> busy (bq_items q)"
    and "fresh_run ops (bq_items q)" and "snd (bq_run M ops q) = es @ Claimed a i # es'"
  shows "i \<notin> set (foldl hold h es)"
  using assms
proof (induction ops arbitrary: q h es)
  case (Cons nop ops)
  obtain now op where nop: "nop = (now, op)" by force
  let ?ev = "event_of op (result_of op (bq_items q))"
  obtain q' where q': "bq_exec M now op q = (q', result_of op (bq_items q))"
    "bq_items q' = items_after op (bq_items q)" "stored M q'"
    using bq_exec_open [OF Cons.prems(1)] unfolding writes_through_def by blast
  have inv: "distinct (map item_id (bq_items q'))" "set (foldl hold h ?ev) \<subseteq> busy (bq_items q')"
    "fresh_run ops (bq_items q')"
    using Cons.prems q' nop distinct_items_after busy_items_after by auto
  have es: "?ev @ snd (bq_run M ops q') = es @ Claimed a i # es'"
    using Cons.prems(5) nop q' by (simp add: split: prod.splits)
  show ?case
  proof (cases "\<exists>es1. es = ?ev @ es1")
    case True
    then obtain es1 where "es = ?ev @ es1" by blast
    with es Cons.IH [OF q'(3) inv] show ?thesis by simp
  next
    case False
    with es event_of_cases [of op "result_of op (bq_items q)"]
    have "es = []" "?ev = [Claimed a i]" by (auto simp: Cons_eq_append_conv)
    with claimed_was_free [OF Cons.prems(2,3)] show ?thesis by simp
  qed
qed simp

text \<open>
  C3. No item is handed out twice. In every run of calls from a queue whose items are on
  disk and have distinct identifiers, where new items bring new identifiers, an item is
  claimed only when nobody holds it: between two claims of one item, by the same agent or
  by two, it was put back to pending.
\<close>

theorem claims_exclusive:
  assumes "stored M q" and "distinct (map item_id (bq_items q))" and "fresh_run ops (bq_items q)"
    and "snd (bq_run M ops q) = es @ Claimed a i # es'"
  shows "i \<notin> set (held es)"
  using claims_exclusive_from [OF assms(1,2) _ assms(3,4), of "[]"] by simp

section \<open>Moving an item\<close>

lemma filter_py_insert:
  "\<not> P x \<Longrightarrow> filter P (py_insert xs i x) = filter P xs"
proof -
  assume "\<not> P x"
  then have "filter P (take p xs @ [x] @ drop p xs) = filter P (take p xs @ drop p xs)" for p
    by (simp del: append_take_drop_id)
  then show ?thesis by (simp add: py_insert_def Let_def del: filter_append)
qed

lemma filter_py_remove_at:
  assumes "n < length xs" "\<not> P (xs ! n)"
  shows "filter P (py_remove_at n xs) = filter P xs"
proof -
  have "filter P xs = filter P (take n xs @ xs ! n # drop (Suc n) xs)"
    using id_take_nth_drop [OF assms(1)] by metis
  with assms(2) show ?thesis by (simp add: py_remove_at_def)
qed

lemma nth_py_insert: "py_insert xs i x ! py_index (length xs) i = x"
  by (simp add: py_insert_def Let_def nth_append)

lemma length_py_remove_at [simp]: "n < length xs \<Longrightarrow> length (py_remove_at n xs) = length xs - 1"
  by (simp add: py_remove_at_def)

text \<open>
  Reordering on a queue whose items are on disk: an unknown identifier raises the
  error and changes nothing; otherwise the items are permuted, the other items keep their
  order, and the moved item stands at the requested position, where a position past the
  end means the last one and a negative one counts back from the end of the list without
  the item, stopping at the front.
\<close>

theorem reorder_moves_one_item:
  assumes "stored M q"
  shows "if i \<notin> item_id ` set (bq_items q) then bq_reorder M now i p q = (q, Inl (item_not_found i))
    else \<exists>q' x. bq_reorder M now i p q = (q', Inr ()) \<and> stored M q'
      \<and> mset (bq_items q') = mset (bq_items q)
      \<and> filter (\<lambda>y. item_id y \<noteq> i) (bq_items q') = filter (\<lambda>y. item_id y \<noteq> i) (bq_items q)
      \<and> find (\<lambda>y. item_id y = i) (bq_items q) = Some x
      \<and> bq_items q' ! (if p < 0 then nat (max 0 (int (length (bq_items q)) - 1 + p))
           else min (nat p) (length (bq_items q) - 1)) = x"
proof (cases "find_index i (bq_items q)")
  case None
  moreover from None have "i \<notin> item_id ` set (bq_items q)" by (simp add: find_index_None)
  ultimately show ?thesis by (simp add: bq_reorder_def bq_find_index_def)
next
  case (Some n)
  then have n: "n < length (bq_items q)" "item_id (bq_items q ! n) = i" by (auto dest: find_index_Some)
  then have i: "i \<in> item_id ` set (bq_items q)" by auto
  let ?rest = "py_remove_at n (bq_items q)"
  obtain q' where q': "bq_reorder M now i p q = (q', Inr ())" "stored M q'"
    "bq_items q' = move_item i p (bq_items q)"
    using bq_reorder_open [OF assms, of now i p] i by (auto simp: writes_through_def)
  have items: "bq_items q' = py_insert ?rest (min p (int (length ?rest))) (bq_items q ! n)"
    using q'(3) Some by (simp add: move_item_def)
  have "filter (\<lambda>y. item_id y \<noteq> i) (bq_items q') = filter (\<lambda>y. item_id y \<noteq> i) (bq_items q)"
    by (simp add: items filter_py_insert filter_py_remove_at n)
  moreover have "find (\<lambda>y. item_id y = i) xs = Some (xs ! m)" if "find_index i xs = Some m" for xs m
    using that by (induction xs arbitrary: m) (auto split: if_splits)
  moreover have "py_index (length ?rest) (min p (int (length ?rest)))
      = (if p < 0 then nat (max 0 (int (length (bq_items q)) - 1 + p)) else min (nat p) (length (bq_items q) - 1))"
    using n by (auto simp: py_index_def of_nat_diff min_def)
  then have "bq_items q' ! (if p < 0 then nat (max 0 (int (length (bq_items q)) - 1 + p))
           else min (nat p) (length (bq_items q) - 1)) = bq_items q ! n"
    using nth_py_insert [of ?rest "min p (int (length ?rest))" "bq_items q ! n"] by (simp only: items)
  ultimately show ?thesis using q' i Some by (auto simp: mset_move_item)
qed

section \<open>A concrete model class\<close>

text \<open>
  An instance of the Pydantic parameter with the field names of the source: it shows that
  the assumption of the round trip can hold, and the witnesses run on it.
\<close>

fun status_value :: "backlog_item_status \<Rightarrow> string" where
  "status_value PENDING = ''pending''"
| "status_value ASSIGNED = ''assigned''"
| "status_value IN_PROGRESS = ''in_progress''"
| "status_value COMPLETED = ''completed''"
| "status_value CANCELLED = ''cancelled''"

definition status_of_value :: "string \<Rightarrow> backlog_item_status option" where
  "status_of_value s =
     map_of (map (\<lambda>st. (status_value st, st)) [PENDING, ASSIGNED, IN_PROGRESS, COMPLETED, CANCELLED]) s"

lemma status_of_value_inverse [simp]: "status_of_value (status_value st) = Some st"
  by (cases st) (simp_all add: status_of_value_def)

definition item_dump :: "backlog_item \<Rightarrow> json" where
  "item_dump x = JObj
     [(''item_id'', JStr (item_id x)), (''title'', JStr (title x)),
      (''description'', JStr (description x)), (''priority'', JInt (priority x)),
      (''status'', JStr (status_value (status x))),
      (''assigned_to'', case assigned_to x of None \<Rightarrow> JNull | Some a \<Rightarrow> JStr a),
      (''created_at'', JStr (created_at x))]"

definition item_validate :: "json \<Rightarrow> backlog_item option" where
  "item_validate j =
     (case (json_field j ''item_id'' as_str, json_field j ''title'' as_str,
            json_field j ''description'' as_str, json_field j ''priority'' as_int,
            json_field j ''created_at'' as_str, Option.bind (json_field j ''status'' as_str) status_of_value,
            json_field j ''assigned_to'' as_optional_str) of
        (Some i, Some t, Some d, Some p, Some c, Some st, Some a) \<Rightarrow>
          Some \<lparr>item_id = i, title = t, description = d, priority = p, status = st,
                assigned_to = a, created_at = c\<rparr>
      | _ \<Rightarrow> None)"

definition backlog_item_model :: "backlog_item model_class" where
  "backlog_item_model = \<lparr>model_dump = item_dump, model_validate = item_validate\<rparr>"

interpretation bi: pydantic_model backlog_item_model
proof (unfold_locales, goal_cases)
  case (1 x)
  then show ?case
    by (cases "assigned_to x") (simp_all add: backlog_item_model_def item_dump_def item_validate_def json_field_def)
next
  case (2 x)
  then show ?case
    by (cases "assigned_to x") (simp_all add: backlog_item_model_def item_dump_def)
qed

section \<open>Witnesses\<close>

definition demo_item :: "string \<Rightarrow> backlog_item" where
  "demo_item i = \<lparr>item_id = i, title = ''Build auth'', description = '''', priority = 0,
     status = PENDING, assigned_to = None, created_at = ''t0''\<rparr>"

definition demo_queue :: backlog_queue where
  "demo_queue =
     (let xs = [demo_item ''a'', demo_item ''b''] in
      \<lparr>bq_memory = \<lparr>ms_opened = True,
          ms_kv = [(BACKLOG_KEY, \<lparr>kv_value = dump_models backlog_item_model xs, kv_updated_at = ''t0''\<rparr>)],
          ms_checkpoints = []\<rparr>,
       bq_has_callback = True, bq_items = xs, bq_notified = []\<rparr>)"

lemma demo_queue_stored: "stored backlog_item_model demo_queue"
  by (simp add: stored_def demo_queue_def mem_get_def Let_def)

theorem claim_next_fifo_witness:
  "ms_opened (bq_memory demo_queue) \<and>
   (\<exists>q'. bq_claim_next backlog_item_model ''t1'' ''gsd-1'' demo_queue
      = (q', Inr (Some ((demo_item ''a'')\<lparr>status := ASSIGNED, assigned_to := Some ''gsd-1''\<rparr>)))
    \<and> pending_items q' = [demo_item ''b''])"
  using claim_next_fifo [of demo_queue backlog_item_model "''t1''" "''gsd-1''"]
  by (auto simp: demo_queue_def pending_items_def demo_item_def Let_def)

definition demo_ops :: "(string \<times> bq_op) list" where
  "demo_ops = [(''t1'', ClaimNext ''gsd-1''), (''t2'', Append (demo_item ''c'')),
     (''t3'', MarkPending ''a''), (''t4'', ClaimNext ''gsd-2'')]"

lemma demo_run:
  "snd (bq_run backlog_item_model demo_ops demo_queue)
     = [Claimed ''gsd-1'' ''a'', Requeued ''a''] @ Claimed ''gsd-2'' ''a'' # []"
  by (simp add: demo_ops_def demo_queue_def demo_item_def Let_def bq_claim_next_def bq_append_def
      bq_mark_pending_def bq_update_def bq_find_index_def bq_commit_def bq_persist_def bq_notify_def
      mem_set_def event_of_def returning_none_def)

theorem claims_exclusive_witness:
  "fresh_run demo_ops (bq_items demo_queue) \<and> ''a'' \<notin> set (held [Claimed ''gsd-1'' ''a'', Requeued ''a''])"
proof -
  have "distinct (map item_id (bq_items demo_queue))" "fresh_run demo_ops (bq_items demo_queue)"
    by (simp_all add: demo_queue_def demo_ops_def demo_item_def Let_def claim_item_def)
  with claims_exclusive [OF demo_queue_stored _ _ demo_run] show ?thesis by simp
qed

theorem reorder_moves_one_item_witness:
  "stored backlog_item_model demo_queue \<and>
   (\<exists>q'. bq_reorder backlog_item_model ''t1'' ''a'' 5 demo_queue = (q', Inr ()) \<and> bq_items q' ! 1 = demo_item ''a'')"
  using reorder_moves_one_item [OF demo_queue_stored, of "''a''" "''t1''" 5] demo_queue_stored
  by (auto simp: demo_queue_def demo_item_def Let_def)

end
