(* ===== verification/Project_State.thy ===== *)
theory Project_State
  imports Backlog
begin

text \<open>
  \<open>autonomy/project_state.py\<close>: the project manager's coordination of its backlog with one
  assignment record per agent. The runtime gives the manager and its backlog the same
  store, so the state is the backlog queue, whose \<open>bq_memory\<close> also holds the records
  under the keys \<open>assignment:<agent>\<close>. Each call of the backlog and of the store is made in
  the order of the source, and an exception leaves what the earlier calls did.
\<close>

section \<open>Model\<close>

definition assignment_key :: "string \<Rightarrow> string" where
  "assignment_key a = ''assignment:'' @ a"

text \<open>Formatting an optional string into an f-string prints \<open>None\<close>.\<close>

definition fmt_optional :: "string option \<Rightarrow> string" where
  "fmt_optional a = (case a of None \<Rightarrow> ''None'' | Some s \<Rightarrow> s)"

definition assign_next_task :: "backlog_item model_class \<Rightarrow> string \<Rightarrow> agent_id \<Rightarrow> backlog_queue
    \<Rightarrow> (backlog_queue, backlog_item option) outcome" where
  "assign_next_task M now a q =
     (case bq_claim_next M now a q of
        (q', Inl e) \<Rightarrow> (q', Inl e)
      | (q', Inr None) \<Rightarrow> (q', Inr None)
      | (q', Inr (Some item)) \<Rightarrow>
          (case mem_set (bq_memory q') (assignment_key a) (dumps (model_dump M item)) now of
             Inl e \<Rightarrow> (q', Inl e)
           | Inr mem \<Rightarrow> (q'\<lparr>bq_memory := mem\<rparr>, Inr (Some item))))"

definition clear_record :: "string \<Rightarrow> backlog_queue \<Rightarrow> (backlog_queue, unit) outcome" where
  "clear_record a q =
     (case mem_delete (bq_memory q) (assignment_key a) of
        Inl e \<Rightarrow> (q, Inl e)
      | Inr mem \<Rightarrow> (q\<lparr>bq_memory := mem\<rparr>, Inr ()))"

definition handle_task_completed :: "backlog_item model_class \<Rightarrow> string \<Rightarrow> agent_id \<Rightarrow> string
    \<Rightarrow> backlog_queue \<Rightarrow> (backlog_queue, unit) outcome" where
  "handle_task_completed M now a i q =
     (case bq_mark_completed M now i q of
        (q', Inl e) \<Rightarrow> (q', Inl e)
      | (q', Inr _) \<Rightarrow> clear_record a q')"

definition handle_task_failed :: "backlog_item model_class \<Rightarrow> string \<Rightarrow> agent_id \<Rightarrow> string
    \<Rightarrow> backlog_queue \<Rightarrow> (backlog_queue, unit) outcome" where
  "handle_task_failed M now a i q =
     (case bq_mark_pending M now i q of
        (q', Inl e) \<Rightarrow> (q', Inl e)
      | (q', Inr _) \<Rightarrow> clear_record a q')"

definition is_stale :: "agent_id set \<Rightarrow> backlog_item \<Rightarrow> bool" where
  "is_stale active x \<longleftrightarrow>
     status x = ASSIGNED \<and> (case assigned_to x of None \<Rightarrow> False | Some a \<Rightarrow> a \<notin> active)"

text \<open>
  The loop over the live list, by position. The items are objects, so after
  \<open>mark_pending\<close> the field \<open>assigned_to\<close> of the loop variable is read from the changed list.
\<close>

fun reassign_loop :: "backlog_item model_class \<Rightarrow> string \<Rightarrow> agent_id set \<Rightarrow> nat list \<Rightarrow> string list
    \<Rightarrow> backlog_queue \<Rightarrow> (backlog_queue, string list) outcome" where
  "reassign_loop M now active [] reassigned q = (q, Inr reassigned)"
| "reassign_loop M now active (n # ns) reassigned q =
     (let item = bq_items q ! n in
      if is_stale active item then
        (case bq_mark_pending M now (item_id item) q of
           (q1, Inl e) \<Rightarrow> (q1, Inl e)
         | (q1, Inr _) \<Rightarrow>
             (case clear_record (fmt_optional (assigned_to (bq_items q1 ! n))) q1 of
                (q2, Inl e) \<Rightarrow> (q2, Inl e)
              | (q2, Inr _) \<Rightarrow>
                  reassign_loop M now active ns (reassigned @ [item_id (bq_items q2 ! n)]) q2))
      else reassign_loop M now active ns reassigned q)"

definition reassign_stale :: "backlog_item model_class \<Rightarrow> string \<Rightarrow> agent_id set \<Rightarrow> backlog_queue
    \<Rightarrow> (backlog_queue, string list) outcome" where
  "reassign_stale M now active q = reassign_loop M now active [0..<length (bq_items q)] [] q"

definition get_agent_assignment :: "agent_id \<Rightarrow> backlog_queue \<Rightarrow> py_error + json option" where
  "get_agent_assignment a q =
     (case mem_get (bq_memory q) (assignment_key a) of
        Inl e \<Rightarrow> Inl e
      | Inr None \<Rightarrow> Inr None
      | Inr (Some raw) \<Rightarrow>
          (case loads raw of None \<Rightarrow> Inl (ValueError ''JSONDecodeError'') | Some j \<Rightarrow> Inr (Some j)))"

section \<open>Records and the backlog share the store without interfering\<close>

lemma assignment_key_backlog [simp]:
  "assignment_key a \<noteq> BACKLOG_KEY" "BACKLOG_KEY \<noteq> assignment_key a"
  by (simp_all add: assignment_key_def BACKLOG_KEY_def)

lemma assignment_key_inj [simp]: "assignment_key a = assignment_key b \<longleftrightarrow> a = b"
  by (simp add: assignment_key_def)

lemma clear_record_open:
  assumes "stored M q"
  shows "\<exists>q'. clear_record a q = (q', Inr ()) \<and> stored M q' \<and> bq_items q' = bq_items q
    \<and> (\<forall>k. mem_get (bq_memory q') k = (if k = assignment_key a then Inr None else mem_get (bq_memory q) k))"
proof -
  obtain mem where "mem_delete (bq_memory q) (assignment_key a) = Inr mem"
    using ms.del_open [OF stored_opened [OF assms]] by blast
  moreover from this have "ms_opened mem" "\<And>k. mem_get mem k
      = (if k = assignment_key a then Inr None else mem_get (bq_memory q) k)"
    using ms.del_opened ms.get_del by blast+
  ultimately show ?thesis using assms by (simp add: clear_record_def stored_def)
qed

lemma mark_pending_open:
  assumes "stored M q" "i \<in> item_id ` set (bq_items q)"
  shows "\<exists>q'. bq_mark_pending M now i q = (q', Inr ())
    \<and> bq_items q' = update_item i (\<lambda>x. x\<lparr>status := PENDING, assigned_to := None\<rparr>) (bq_items q)
    \<and> stored M q' \<and> (\<forall>k. k \<noteq> BACKLOG_KEY \<longrightarrow> mem_get (bq_memory q') k = mem_get (bq_memory q) k)"
  unfolding bq_mark_pending_def
  using bq_update_open [OF assms(1), of now _ i "\<lambda>x. x\<lparr>status := PENDING, assigned_to := None\<rparr>"] assms(2)
  by (simp only: writes_through_def if_True)

lemma assign_next_task_open:
  assumes "stored M q"
  shows "\<exists>q'. assign_next_task M now a q = (q', result_of (ClaimNext a) (bq_items q)) \<and> stored M q'
    \<and> bq_items q' = claim_item a (bq_items q)
    \<and> (\<forall>k. k \<noteq> BACKLOG_KEY \<longrightarrow> mem_get (bq_memory q') k =
         (case result_of (ClaimNext a) (bq_items q) of
            Inr (Some x) \<Rightarrow> if k = assignment_key a then Inr (Some (dumps (model_dump M x)))
                            else mem_get (bq_memory q) k
          | _ \<Rightarrow> mem_get (bq_memory q) k))"
proof -
  obtain q1 where q1: "bq_claim_next M now a q = (q1, result_of (ClaimNext a) (bq_items q))"
    "bq_items q1 = claim_item a (bq_items q)" "writes_through M q q1"
    using bq_claim_next_open [OF assms] by blast
  show ?thesis
  proof (cases "split_pending (bq_items q)")
    case None
    with q1 show ?thesis by (simp add: assign_next_task_def writes_through_def)
  next
    case (Some bxc)
    let ?x = "(fst (snd bxc))\<lparr>status := ASSIGNED, assigned_to := Some a\<rparr>"
    have r: "result_of (ClaimNext a) (bq_items q) = Inr (Some ?x)"
      using Some by (simp add: case_prod_beta)
    have o: "ms_opened (bq_memory q1)" using q1(3) by (simp add: writes_through_def stored_def)
    obtain mem where mem: "mem_set (bq_memory q1) (assignment_key a) (dumps (model_dump M ?x)) now = Inr mem"
      using ms.put_open [OF o] by blast
    have "ms_opened mem" "\<And>k. mem_get mem k = (if k = assignment_key a then Inr (Some (dumps (model_dump M ?x)))
        else mem_get (bq_memory q1) k)"
      using ms.put_opened [OF mem] ms.get_put [OF mem] by blast+
    moreover have "claim_item a (bq_items q) \<noteq> []"
      using Some by (auto simp: claim_item_def case_prod_beta)
    ultimately show ?thesis
      unfolding r using q1 r mem
      by (simp add: assign_next_task_def writes_through_def stored_def del: result_of.simps)
  qed
qed

section \<open>Recovering stale assignments\<close>

definition requeue :: "backlog_item \<Rightarrow> backlog_item" where
  "requeue x = x\<lparr>status := PENDING, assigned_to := None\<rparr>"

lemma requeue_simps [simp]:
  "item_id (requeue x) = item_id x" "assigned_to (requeue x) = None" "\<not> is_stale A (requeue x)"
  by (simp_all add: requeue_def is_stale_def)

lemma mark_pending_at:
  assumes "stored M q" "distinct (map item_id (bq_items q))" "n < length (bq_items q)"
  shows "\<exists>q'. bq_mark_pending M now (item_id (bq_items q ! n)) q = (q', Inr ())
    \<and> bq_items q' = (bq_items q)[n := requeue (bq_items q ! n)]
    \<and> stored M q' \<and> (\<forall>k. k \<noteq> BACKLOG_KEY \<longrightarrow> mem_get (bq_memory q') k = mem_get (bq_memory q) k)"
  using mark_pending_open [OF assms(1), of "item_id (bq_items q ! n)" now] assms(3)
    find_index_distinct [OF assms(2,3)]
  by (simp add: update_item_def requeue_def)

lemma reassign_loop_open:
  assumes "stored M q" "distinct (map item_id (bq_items q))"
    and "distinct ns" "\<forall>n \<in> set ns. n < length (bq_items q)"
  shows "\<exists>q'. reassign_loop M now A ns acc q
      = (q', Inr (acc @ map (\<lambda>n. item_id (bq_items q ! n)) (filter (\<lambda>n. is_stale A (bq_items q ! n)) ns)))
    \<and> stored M q' \<and> length (bq_items q') = length (bq_items q)
    \<and> (\<forall>n < length (bq_items q). bq_items q' ! n
        = (if n \<in> set ns \<and> is_stale A (bq_items q ! n) then requeue (bq_items q ! n) else bq_items q ! n))
    \<and> (\<forall>k. k \<noteq> BACKLOG_KEY \<and> k \<noteq> assignment_key ''None'' \<longrightarrow> mem_get (bq_memory q') k = mem_get (bq_memory q) k)"
  using assms
proof (induction ns arbitrary: q acc)
  case (Cons n ns)
  show ?case
  proof (cases "is_stale A (bq_items q ! n)")
    case False
    with Cons.IH [of q acc] Cons.prems show ?thesis by (auto simp: Let_def)
  next
    case True
    have n: "n < length (bq_items q)" using Cons.prems by simp
    obtain q1 where q1: "bq_mark_pending M now (item_id (bq_items q ! n)) q = (q1, Inr ())" "stored M q1"
      "bq_items q1 = (bq_items q)[n := requeue (bq_items q ! n)]"
      "\<forall>k. k \<noteq> BACKLOG_KEY \<longrightarrow> mem_get (bq_memory q1) k = mem_get (bq_memory q) k"
      using mark_pending_at [OF Cons.prems(1,2) n] by blast
    obtain q2 where q2: "clear_record ''None'' q1 = (q2, Inr ())" "stored M q2" "bq_items q2 = bq_items q1"
      "\<forall>k. mem_get (bq_memory q2) k = (if k = assignment_key ''None'' then Inr None else mem_get (bq_memory q1) k)"
      using clear_record_open [OF q1(2)] by blast
    have items: "bq_items q2 = (bq_items q)[n := requeue (bq_items q ! n)]" using q1 q2 by simp
    have "map item_id (bq_items q2) = map item_id (bq_items q)"
      by (simp add: items map_update) (metis list_update_id map_update)
    then have d: "distinct (map item_id (bq_items q2))" using Cons.prems by simp
    have ns: "distinct ns" "\<forall>n \<in> set ns. n < length (bq_items q2)" using Cons.prems items by auto
    have "assigned_to (bq_items q1 ! n) = None" using q1(3) n by simp
    then have step: "reassign_loop M now A (n # ns) acc q
        = reassign_loop M now A ns (acc @ [item_id (bq_items q ! n)]) q2"
      using True q1 q2 n by (simp add: fmt_optional_def)
    have same: "m \<in> set ns \<Longrightarrow> bq_items q2 ! m = bq_items q ! m" for m
      using Cons.prems(3) by (metis distinct.simps(2) items nth_list_update_neq)
    then have ids: "map (\<lambda>n. item_id (bq_items q2 ! n)) (filter (\<lambda>n. is_stale A (bq_items q2 ! n)) ns)
        = map (\<lambda>n. item_id (bq_items q ! n)) (filter (\<lambda>n. is_stale A (bq_items q ! n)) ns)"
      by (metis (mono_tags, lifting) filter_cong map_eq_conv mem_Collect_eq set_filter)
    obtain q' where q': "reassign_loop M now A ns (acc @ [item_id (bq_items q ! n)]) q2
      = (q', Inr ((acc @ [item_id (bq_items q ! n)])
          @ map (\<lambda>n. item_id (bq_items q2 ! n)) (filter (\<lambda>n. is_stale A (bq_items q2 ! n)) ns)))"
      "stored M q'" "length (bq_items q') = length (bq_items q2)"
      "\<forall>m < length (bq_items q2). bq_items q' ! m
        = (if m \<in> set ns \<and> is_stale A (bq_items q2 ! m) then requeue (bq_items q2 ! m) else bq_items q2 ! m)"
      "\<forall>k. k \<noteq> BACKLOG_KEY \<and> k \<noteq> assignment_key ''None'' \<longrightarrow> mem_get (bq_memory q') k = mem_get (bq_memory q2) k"
      using Cons.IH [OF q2(2) d ns] by blast
    have "bq_items q' ! m = (if m \<in> set (n # ns) \<and> is_stale A (bq_items q ! m)
        then requeue (bq_items q ! m) else bq_items q ! m)" if "m < length (bq_items q)" for m
      using q'(4) that True same n by (cases "m = n") (auto simp: items nth_list_update)
    moreover have "reassign_loop M now A (n # ns) acc q
      = (q', Inr (acc @ map (\<lambda>n. item_id (bq_items q ! n)) (filter (\<lambda>n. is_stale A (bq_items q ! n)) (n # ns))))"
      unfolding step q'(1) ids using True by simp
    ultimately show ?thesis using q' q1(4) q2(4) items by auto
  qed
qed simp

text \<open>
  Recovery of orphaned work. On a backlog that is on disk and has distinct
  identifiers, \<open>reassign_stale\<close> returns, in queue order, exactly the identifiers of the
  assigned items whose agent is not active; those items are pending and unassigned
  afterwards, every other item and the order are unchanged, so no item stays assigned to
  an agent that is gone; and the new list is on disk.
\<close>

theorem reassign_stale_recovers:
  assumes "stored M q" and "distinct (map item_id (bq_items q))"
  shows "\<exists>q'. reassign_stale M now A q = (q', Inr (map item_id (filter (is_stale A) (bq_items q))))
    \<and> bq_items q' = map (\<lambda>x. if is_stale A x then requeue x else x) (bq_items q)
    \<and> (\<forall>x \<in> set (bq_items q'). \<not> is_stale A x) \<and> stored M q'"
proof -
  let ?n = "length (bq_items q)"
  obtain q' where q': "reassign_stale M now A q
      = (q', Inr (map (\<lambda>n. item_id (bq_items q ! n)) (filter (\<lambda>n. is_stale A (bq_items q ! n)) [0..<?n])))"
    "stored M q'" "length (bq_items q') = ?n"
    "\<forall>n < ?n. bq_items q' ! n = (if n \<in> set [0..<?n] \<and> is_stale A (bq_items q ! n)
       then requeue (bq_items q ! n) else bq_items q ! n)"
    using reassign_loop_open [OF assms, of "[0..<?n]" now A "[]"] by (auto simp: reassign_stale_def)
  have "map item_id (filter (is_stale A) (map ((!) (bq_items q)) [0..<?n]))
      = map (\<lambda>n. item_id (bq_items q ! n)) (filter (\<lambda>n. is_stale A (bq_items q ! n)) [0..<?n])"
    by (simp add: filter_map comp_def)
  then have ids: "map (\<lambda>n. item_id (bq_items q ! n)) (filter (\<lambda>n. is_stale A (bq_items q ! n)) [0..<?n])
      = map item_id (filter (is_stale A) (bq_items q))"
    by (simp only: map_nth)
  have "bq_items q' = map (\<lambda>x. if is_stale A x then requeue x else x) (bq_items q)"
    using q'(3,4) by (intro nth_equalityI) auto
  then show ?thesis using q'(1,2) ids by auto
qed

text \<open>The witnesses below run on the demonstration queue after its first item was claimed.\<close>

definition demo_assigned :: backlog_queue where
  "demo_assigned = fst (assign_next_task backlog_item_model ''t1'' ''gsd-1'' demo_queue)"

lemma demo_assigned_simps:
  "bq_items demo_assigned = [(demo_item ''a'')\<lparr>status := ASSIGNED, assigned_to := Some ''gsd-1''\<rparr>, demo_item ''b'']"
  "stored backlog_item_model demo_assigned"
proof -
  obtain q' where "assign_next_task backlog_item_model ''t1'' ''gsd-1'' demo_queue
      = (q', result_of (ClaimNext ''gsd-1'') (bq_items demo_queue))"
    "stored backlog_item_model q'" "bq_items q' = claim_item ''gsd-1'' (bq_items demo_queue)"
    using assign_next_task_open [OF demo_queue_stored] by blast
  then show "bq_items demo_assigned = [(demo_item ''a'')\<lparr>status := ASSIGNED, assigned_to := Some ''gsd-1''\<rparr>, demo_item ''b'']"
    "stored backlog_item_model demo_assigned"
    by (simp_all add: demo_assigned_def claim_item_def demo_queue_def demo_item_def Let_def)
qed

theorem reassign_stale_recovers_witness:
  "\<exists>q'. reassign_stale backlog_item_model ''t2'' {''gsd-2''} demo_assigned = (q', Inr [''a''])
     \<and> bq_items q' = [demo_item ''a'', demo_item ''b'']"
  using reassign_stale_recovers [OF demo_assigned_simps(2), of "''t2''" "{''gsd-2''}"]
  by (simp add: demo_assigned_simps(1) is_stale_def requeue_def demo_item_def) blast

section \<open>The manager as a whole\<close>

datatype pm_op =
    PmBacklog bq_op
  | PmAssign agent_id
  | PmCompleted agent_id string
  | PmFailed agent_id string
  | PmReassign "agent_id list"

fun pm_step :: "backlog_item model_class \<Rightarrow> string \<times> pm_op \<Rightarrow> backlog_queue \<Rightarrow> backlog_queue" where
  "pm_step M (now, PmBacklog op) q = fst (bq_exec M now op q)"
| "pm_step M (now, PmAssign a) q = fst (assign_next_task M now a q)"
| "pm_step M (now, PmCompleted a i) q = fst (handle_task_completed M now a i q)"
| "pm_step M (now, PmFailed a i) q = fst (handle_task_failed M now a i q)"
| "pm_step M (now, PmReassign as) q = fst (reassign_stale M now (set as) q)"

lemma stored_then_clear:
  assumes "\<exists>q'. res = (q', r) \<and> stored M q'"
  shows "stored M (fst (case res of (q', Inl e) \<Rightarrow> (q', Inl e) | (q', Inr u) \<Rightarrow> clear_record a q'))"
proof -
  from assms obtain q' where q': "res = (q', r)" "stored M q'" by blast
  from clear_record_open [OF this(2), of a] show ?thesis using q' by (auto split: sum.splits)
qed

lemma mark_open:
  assumes "stored M q"
  shows "\<exists>q'. bq_mark_completed M now i q = (q', if i \<in> item_id ` set (bq_items q) then Inr () else Inl (item_not_found i)) \<and> stored M q'"
    and "\<exists>q'. bq_mark_pending M now i q = (q', if i \<in> item_id ` set (bq_items q) then Inr () else Inl (item_not_found i)) \<and> stored M q'"
  using bq_update_open [OF assms, of now _ i "\<lambda>x. x\<lparr>status := COMPLETED\<rparr>"]
    bq_update_open [OF assms, of now _ i "\<lambda>x. x\<lparr>status := PENDING, assigned_to := None\<rparr>"]
  unfolding bq_mark_completed_def bq_mark_pending_def writes_through_def by blast+

lemma stored_reassign_loop:
  assumes "stored M q" "\<forall>n \<in> set ns. n < length (bq_items q)"
  shows "stored M (fst (reassign_loop M now A ns acc q))"
  using assms
proof (induction ns arbitrary: q acc)
  case (Cons n ns)
  show ?case
  proof (cases "is_stale A (bq_items q ! n)")
    case True
    have i: "item_id (bq_items q ! n) \<in> item_id ` set (bq_items q)" using Cons.prems by auto
    obtain q1 where q1: "bq_mark_pending M now (item_id (bq_items q ! n)) q = (q1, Inr ())" "stored M q1"
      "length (bq_items q1) = length (bq_items q)"
      using mark_pending_open [OF Cons.prems(1) i, of now]
      by (auto simp: update_item_def split: option.splits)
    obtain q2 where "clear_record (fmt_optional (assigned_to (bq_items q1 ! n))) q1 = (q2, Inr ())"
      "stored M q2" "bq_items q2 = bq_items q1"
      using clear_record_open [OF q1(2)] by blast
    with Cons q1 True show ?thesis by simp
  qed (use Cons in simp)
qed simp

lemma pm_step_stored: "stored M q \<Longrightarrow> stored M (pm_step M (now, op) q)"
proof (cases op)
  case (PmBacklog bop)
  assume "stored M q"
  then show ?thesis using bq_exec_open [of M q now bop] PmBacklog by (auto simp: writes_through_def)
next
  case (PmAssign a)
  assume "stored M q"
  then show ?thesis using assign_next_task_open [of M q now a] PmAssign by auto
next
  case (PmCompleted a i)
  assume "stored M q"
  from stored_then_clear [OF mark_open(1) [OF this, of now i], of a] show ?thesis
    using PmCompleted by (simp only: pm_step.simps handle_task_completed_def)
next
  case (PmFailed a i)
  assume "stored M q"
  from stored_then_clear [OF mark_open(2) [OF this, of now i], of a] show ?thesis
    using PmFailed by (simp only: pm_step.simps handle_task_failed_def)
next
  case (PmReassign as)
  assume "stored M q"
  then show ?thesis using PmReassign by (simp add: reassign_stale_def stored_reassign_loop)
qed

lemma pm_run_stored: "stored M q \<Longrightarrow> stored M (fold (pm_step M) ops q)"
  by (induction ops arbitrary: q) (auto simp: pm_step_stored simp del: pm_step.simps)

text \<open>
  C17. The backlog survives a restart. Suppose a dumped item validates to itself. From a
  backlog that is on disk (a freshly loaded one is), after any sequence of backlog calls,
  assignments, completions, failures and recoveries, those that raise included, closing
  the store, reopening it and loading it into a new queue gives exactly the items the old
  queue had.
\<close>

theorem backlog_survives_restart:
  assumes validate_dump: "\<And>x. model_validate M (model_dump M x) = Some x"
    and wf_dump: "\<And>x. wf_json (model_dump M x)"
    and "stored M q"
  shows "bq_load M (new_backlog_queue (mem_open (mem_close (bq_memory (fold (pm_step M) ops q)))) cb)
    = (\<lparr>bq_memory = bq_memory (fold (pm_step M) ops q), bq_has_callback = cb,
         bq_items = bq_items (fold (pm_step M) ops q), bq_notified = []\<rparr>, Inr ())"
proof -
  let ?q = "fold (pm_step M) ops q"
  have s: "stored M ?q" using pm_run_stored [OF assms(3)] .
  have "mem_open (mem_close m) = m" if "ms_opened m" for m
    using that by (simp add: mem_open_def mem_close_def)
  moreover have "load_models M (dump_models M xs) = Inr xs" for xs
    by (rule pydantic_model.load_dump_models) (unfold_locales, simp_all add: assms(1,2))
  ultimately show ?thesis
    using s by (auto simp: bq_load_def new_backlog_queue_def stored_def)
qed

theorem backlog_survives_restart_witness:
  "stored backlog_item_model demo_queue \<and>
   snd (bq_load backlog_item_model (new_backlog_queue (mem_open (mem_close (bq_memory
     (fold (pm_step backlog_item_model) [(''t1'', PmAssign ''gsd-1''), (''t2'', PmReassign [])] demo_queue)))) False)) = Inr ()"
  using backlog_survives_restart [OF bi.validate_dump bi.wf_dump demo_queue_stored,
      of "[(''t1'', PmAssign ''gsd-1''), (''t2'', PmReassign [])]" False] demo_queue_stored
  by (simp del: fold_simps)

section \<open>Assignment records\<close>

lemma assign_next_task_Some:
  assumes "stored M q" "assign_next_task M now a q = (q1, Inr (Some x))"
  shows "result_of (ClaimNext a) (bq_items q) = Inr (Some x)" "stored M q1"
    "bq_items q1 = claim_item a (bq_items q)"
    "\<forall>k. k \<noteq> BACKLOG_KEY \<longrightarrow> mem_get (bq_memory q1) k =
      (if k = assignment_key a then Inr (Some (dumps (model_dump M x))) else mem_get (bq_memory q) k)"
proof -
  obtain q' where q': "assign_next_task M now a q = (q', result_of (ClaimNext a) (bq_items q))" "stored M q'"
    "bq_items q' = claim_item a (bq_items q)"
    "\<forall>k. k \<noteq> BACKLOG_KEY \<longrightarrow> mem_get (bq_memory q') k =
         (case result_of (ClaimNext a) (bq_items q) of
            Inr (Some x) \<Rightarrow> if k = assignment_key a then Inr (Some (dumps (model_dump M x)))
                            else mem_get (bq_memory q) k
          | _ \<Rightarrow> mem_get (bq_memory q) k)"
    using assign_next_task_open [OF assms(1), of now a] by blast
  with assms(2) have "q' = q1" and r: "result_of (ClaimNext a) (bq_items q) = Inr (Some x)"
    by (simp_all del: result_of.simps)
  with q' show "result_of (ClaimNext a) (bq_items q) = Inr (Some x)" "stored M q1"
    "bq_items q1 = claim_item a (bq_items q)"
    "\<forall>k. k \<noteq> BACKLOG_KEY \<longrightarrow> mem_get (bq_memory q1) k =
      (if k = assignment_key a then Inr (Some (dumps (model_dump M x))) else mem_get (bq_memory q) k)"
    by (simp_all del: result_of.simps)
qed

lemma claimed_in_items:
  "result_of (ClaimNext a) xs = Inr (Some x) \<Longrightarrow>
     x \<in> set (claim_item a xs) \<and> status x = ASSIGNED \<and> assigned_to x = Some a"
  by (auto simp: claim_item_def split: option.splits)

text \<open>
  The record of an agent. When an agent is given an item, reading its assignment
  returns the dump of exactly that item, and the records of the other agents stay; when
  the item is then reported completed or failed, the record is gone.
\<close>

theorem assignment_record_lifecycle:
  assumes wf_dump: "\<And>x. wf_json (model_dump M x)" and "stored M q"
    and "assign_next_task M now a q = (q1, Inr (Some x))"
  shows "get_agent_assignment a q1 = Inr (Some (model_dump M x))
    \<and> (b \<noteq> a \<longrightarrow> get_agent_assignment b q1 = get_agent_assignment b q)
    \<and> (\<exists>q2. handle_task_completed M now' a (item_id x) q1 = (q2, Inr ()) \<and> get_agent_assignment a q2 = Inr None)
    \<and> (\<exists>q2. handle_task_failed M now' a (item_id x) q1 = (q2, Inr ()) \<and> get_agent_assignment a q2 = Inr None)"
proof -
  have q1: "result_of (ClaimNext a) (bq_items q) = Inr (Some x)" "stored M q1"
    "bq_items q1 = claim_item a (bq_items q)"
    "\<forall>k. k \<noteq> BACKLOG_KEY \<longrightarrow> mem_get (bq_memory q1) k =
      (if k = assignment_key a then Inr (Some (dumps (model_dump M x))) else mem_get (bq_memory q) k)"
    using assign_next_task_Some [OF assms(2,3)] .
  then have i: "item_id x \<in> item_id ` set (bq_items q1)"
    using claimed_in_items by fastforce
  have clear: "\<exists>q2. clear_record a q' = (q2, Inr ()) \<and> get_agent_assignment a q2 = Inr None" if "stored M q'" for q'
    using clear_record_open [OF that, of a] by (auto simp: get_agent_assignment_def)
  from mark_open(1) [OF q1(2), of now' "item_id x"] i clear
  have "\<exists>q2. handle_task_completed M now' a (item_id x) q1 = (q2, Inr ()) \<and> get_agent_assignment a q2 = Inr None"
    by (auto simp: handle_task_completed_def)
  moreover from mark_open(2) [OF q1(2), of now' "item_id x"] i clear
  have "\<exists>q2. handle_task_failed M now' a (item_id x) q1 = (q2, Inr ()) \<and> get_agent_assignment a q2 = Inr None"
    by (auto simp: handle_task_failed_def)
  ultimately show ?thesis
    using q1(4) by (simp add: get_agent_assignment_def loads_dumps [OF assms(1)])
qed

text \<open>
  Recovery leaves the record of the lost agent behind. When the item given to an
  agent is recovered by \<open>reassign_stale\<close>, the item is pending again, but the agent's record
  still shows it: the record to delete is named after the field that \<open>mark_pending\<close> has
  just cleared. (An agent called None is the exception.)
\<close>

theorem reassign_stale_leaves_record:
  assumes wf_dump: "\<And>x. wf_json (model_dump M x)" and "stored M q"
    and "distinct (map item_id (bq_items q))" and "a \<noteq> ''None''" and "a \<notin> A"
    and "assign_next_task M now a q = (q1, Inr (Some x))"
  shows "\<exists>q2 ids. reassign_stale M now' A q1 = (q2, Inr ids) \<and> item_id x \<in> set ids
    \<and> requeue x \<in> set (bq_items q2) \<and> get_agent_assignment a q2 = Inr (Some (model_dump M x))"
proof -
  have q1: "result_of (ClaimNext a) (bq_items q) = Inr (Some x)" "stored M q1"
    "bq_items q1 = claim_item a (bq_items q)"
    "mem_get (bq_memory q1) (assignment_key a) = Inr (Some (dumps (model_dump M x)))"
    using assign_next_task_Some [OF assms(2,6)] by (simp_all del: result_of.simps)
  have d: "distinct (map item_id (bq_items q1))" using assms(3) q1(3) by (simp add: map_item_id_claim)
  have x: "x \<in> set (bq_items q1)" "is_stale A x"
    using claimed_in_items [OF q1(1)] q1(3) assms(5) by (auto simp: is_stale_def)
  then obtain n where n: "n < length (bq_items q1)" "bq_items q1 ! n = x" by (auto simp: in_set_conv_nth)
  obtain q2 ids where q2: "reassign_stale M now' A q1 = (q2, Inr ids)" "length (bq_items q2) = length (bq_items q1)"
    "ids = map (\<lambda>n. item_id (bq_items q1 ! n)) (filter (\<lambda>n. is_stale A (bq_items q1 ! n)) [0..<length (bq_items q1)])"
    "\<forall>n < length (bq_items q1). bq_items q2 ! n
       = (if n \<in> set [0..<length (bq_items q1)] \<and> is_stale A (bq_items q1 ! n)
          then requeue (bq_items q1 ! n) else bq_items q1 ! n)"
    "\<forall>k. k \<noteq> BACKLOG_KEY \<and> k \<noteq> assignment_key ''None'' \<longrightarrow> mem_get (bq_memory q2) k = mem_get (bq_memory q1) k"
    using reassign_loop_open [OF q1(2) d, of "[0..<length (bq_items q1)]" now' A "[]"]
    by (auto simp: reassign_stale_def)
  have "item_id x \<in> set ids" using n x(2) by (force simp: q2(3))
  moreover have "requeue x \<in> set (bq_items q2)"
    using q2(2,4) n x(2) by (metis atLeastLessThan_iff le0 nth_mem set_upt)
  moreover have "get_agent_assignment a q2 = Inr (Some (model_dump M x))"
    using q2(5) q1(4) assms(4) by (simp add: get_agent_assignment_def loads_dumps [OF assms(1)])
  ultimately show ?thesis using q2(1) by blast
qed

lemma demo_assign:
  "assign_next_task backlog_item_model ''t1'' ''gsd-1'' demo_queue
     = (demo_assigned, Inr (Some ((demo_item ''a'')\<lparr>status := ASSIGNED, assigned_to := Some ''gsd-1''\<rparr>)))"
proof -
  obtain q' where "assign_next_task backlog_item_model ''t1'' ''gsd-1'' demo_queue
      = (q', result_of (ClaimNext ''gsd-1'') (bq_items demo_queue))"
    using assign_next_task_open [OF demo_queue_stored] by blast
  then show ?thesis by (simp add: demo_assigned_def demo_queue_def demo_item_def Let_def)
qed

theorem assignment_record_lifecycle_witness:
  "stored backlog_item_model demo_queue \<and>
   get_agent_assignment ''gsd-1'' demo_assigned
     = Inr (Some (item_dump ((demo_item ''a'')\<lparr>status := ASSIGNED, assigned_to := Some ''gsd-1''\<rparr>)))"
  using assignment_record_lifecycle [OF bi.wf_dump demo_queue_stored demo_assign] demo_queue_stored
  by (simp add: backlog_item_model_def)

theorem reassign_stale_leaves_record_witness:
  "\<exists>q2 ids. reassign_stale backlog_item_model ''t2'' {} demo_assigned = (q2, Inr ids) \<and> ''a'' \<in> set ids
     \<and> demo_item ''a'' \<in> set (bq_items q2) \<and> get_agent_assignment ''gsd-1'' q2 \<noteq> Inr None"
proof -
  have d: "distinct (map item_id (bq_items demo_queue))"
    by (simp add: demo_queue_def demo_item_def Let_def)
  have "\<exists>q2 ids. reassign_stale backlog_item_model ''t2'' {} demo_assigned = (q2, Inr ids)
      \<and> item_id ((demo_item ''a'')\<lparr>status := ASSIGNED, assigned_to := Some ''gsd-1''\<rparr>) \<in> set ids
      \<and> requeue ((demo_item ''a'')\<lparr>status := ASSIGNED, assigned_to := Some ''gsd-1''\<rparr>) \<in> set (bq_items q2)
      \<and> get_agent_assignment ''gsd-1'' q2
        = Inr (Some (model_dump backlog_item_model ((demo_item ''a'')\<lparr>status := ASSIGNED, assigned_to := Some ''gsd-1''\<rparr>)))"
    by (rule reassign_stale_leaves_record [OF bi.wf_dump demo_queue_stored d _ _ demo_assign]) simp_all
  moreover have "requeue ((demo_item ''a'')\<lparr>status := ASSIGNED, assigned_to := Some ''gsd-1''\<rparr>) = demo_item ''a''"
    "item_id ((demo_item ''a'')\<lparr>status := ASSIGNED, assigned_to := Some ''gsd-1''\<rparr>) = ''a''"
    by (simp_all add: requeue_def demo_item_def)
  ultimately show ?thesis by auto
qed

end
