(* ===== verification/Scheduler.thy ===== *)
theory Scheduler
  imports Memory_Store Py_Json
begin

text \<open>
  \<open>supervisor/scheduler.py\<close>: the wake schedules of continuous agents, kept in memory and
  written through to a store. The callback that finds an agent's container and the
  container itself belong to the caller; one pass of the check loop sees them through an
  environment that says, per agent, in which state the container is (or that there is
  none) and whether its \<open>wake\<close> returns. A timestamp text is modelled by what
  \<open>datetime.fromisoformat\<close> makes of it: the instant it denotes, or text on which the
  comparison with the current time raises. \<open>isoformat\<close> of an instant gives a text that
  denotes it. Instants are seconds; the range limit of \<open>datetime\<close> is not modelled.
\<close>

section \<open>Model\<close>

datatype iso_text = Iso seconds | Malformed string

record schedule_entry =
  se_agent_id :: agent_id
  se_interval_seconds :: int
  se_next_wake_utc :: iso_text

record scheduler =
  sc_memory :: memory_store
  sc_schedules :: "(agent_id, schedule_entry) dict"
  sc_woken :: "(agent_id \<times> seconds) list"

record wake_env =
  find_container :: "agent_id \<Rightarrow> string option"
  wake_returns :: "agent_id \<Rightarrow> bool"

definition new_scheduler :: "memory_store \<Rightarrow> scheduler" where
  "new_scheduler mem = \<lparr>sc_memory = mem, sc_schedules = [], sc_woken = []\<rparr>"

fun load_entries :: "schedule_entry model_class \<Rightarrow> json list \<Rightarrow> scheduler \<Rightarrow> (scheduler, unit) outcome" where
  "load_entries M [] s = (s, Inr ())"
| "load_entries M (d # ds) s =
     (case model_validate M d of
        None \<Rightarrow> (s, Inl ValidationError)
      | Some e \<Rightarrow> load_entries M ds (s\<lparr>sc_schedules := dict_set (sc_schedules s) (se_agent_id e) e\<rparr>))"

definition sc_load :: "schedule_entry model_class \<Rightarrow> scheduler \<Rightarrow> (scheduler, unit) outcome" where
  "sc_load M s =
     (case mem_get (sc_memory s) ''schedules'' of
        Inl e \<Rightarrow> (s, Inl e)
      | Inr None \<Rightarrow> (s, Inr ())
      | Inr (Some raw) \<Rightarrow>
          (case loads raw of
             None \<Rightarrow> (s, Inl (ValueError ''JSONDecodeError''))
           | Some j \<Rightarrow>
               (case json_iter j of
                  None \<Rightarrow> (s, Inl (TypeError ''not iterable''))
                | Some ds \<Rightarrow> load_entries M ds s)))"

definition sc_persist :: "schedule_entry model_class \<Rightarrow> string \<Rightarrow> scheduler \<Rightarrow> (scheduler, unit) outcome" where
  "sc_persist M stamp s =
     (case mem_set (sc_memory s) ''schedules'' (dump_models M (dict_values (sc_schedules s))) stamp of
        Inl e \<Rightarrow> (s, Inl e)
      | Inr mem \<Rightarrow> (s\<lparr>sc_memory := mem\<rparr>, Inr ()))"

definition add_schedule :: "schedule_entry model_class \<Rightarrow> string \<Rightarrow> seconds \<Rightarrow> agent_id \<Rightarrow> int \<Rightarrow> scheduler
    \<Rightarrow> (scheduler, schedule_entry) outcome" where
  "add_schedule M stamp now a interval s =
     (let entry = \<lparr>se_agent_id = a, se_interval_seconds = interval,
                   se_next_wake_utc = Iso (now + of_int interval)\<rparr> in
      (case sc_persist M stamp (s\<lparr>sc_schedules := dict_set (sc_schedules s) a entry\<rparr>) of
         (s', Inl e) \<Rightarrow> (s', Inl e)
       | (s', Inr _) \<Rightarrow> (s', Inr entry)))"

definition remove_schedule :: "schedule_entry model_class \<Rightarrow> string \<Rightarrow> agent_id \<Rightarrow> scheduler
    \<Rightarrow> (scheduler, unit) outcome" where
  "remove_schedule M stamp a s = sc_persist M stamp (s\<lparr>sc_schedules := dict_pop (sc_schedules s) a\<rparr>)"

definition get_schedule :: "agent_id \<Rightarrow> scheduler \<Rightarrow> schedule_entry option" where
  "get_schedule a s = dict_get (sc_schedules s) a"

text \<open>The next wake of an entry, written back and persisted.\<close>

definition reschedule :: "schedule_entry model_class \<Rightarrow> string \<Rightarrow> seconds \<Rightarrow> agent_id \<Rightarrow> schedule_entry
    \<Rightarrow> scheduler \<Rightarrow> (scheduler, unit) outcome" where
  "reschedule M stamp now a entry s =
     sc_persist M stamp (s\<lparr>sc_schedules := dict_set (sc_schedules s) a
       (entry\<lparr>se_next_wake_utc := Iso (now + of_int (se_interval_seconds entry))\<rparr>)\<rparr>)"

text \<open>
  The body of the loop for one entry. A failure to persist raises out of the loop when
  the agent was not sleeping and is logged when it was woken.
\<close>

definition check_entry :: "schedule_entry model_class \<Rightarrow> string \<Rightarrow> wake_env \<Rightarrow> seconds
    \<Rightarrow> agent_id \<times> schedule_entry \<Rightarrow> scheduler \<Rightarrow> (scheduler, unit) outcome" where
  "check_entry M stamp env now ae s =
     (let (a, entry) = ae in
      (case se_next_wake_utc entry of
         Malformed _ \<Rightarrow> (s, Inl (ValueError ''Invalid isoformat string''))
       | Iso next_wake \<Rightarrow>
           if now \<ge> next_wake then
             (case find_container env a of
                None \<Rightarrow> (s, Inr ())
              | Some state \<Rightarrow>
                  if state \<noteq> ''sleeping'' then reschedule M stamp now a entry s
                  else if wake_returns env a then
                    (case reschedule M stamp now a entry (s\<lparr>sc_woken := sc_woken s @ [(a, now)]\<rparr>) of
                       (s', _) \<Rightarrow> (s', Inr ()))
                  else (s, Inr ()))
           else (s, Inr ())))"

fun check_entries :: "schedule_entry model_class \<Rightarrow> string \<Rightarrow> wake_env \<Rightarrow> seconds
    \<Rightarrow> (agent_id \<times> schedule_entry) list \<Rightarrow> scheduler \<Rightarrow> (scheduler, unit) outcome" where
  "check_entries M stamp env now [] s = (s, Inr ())"
| "check_entries M stamp env now (ae # aes) s =
     (case check_entry M stamp env now ae s of
        (s', Inl e) \<Rightarrow> (s', Inl e)
      | (s', Inr _) \<Rightarrow> check_entries M stamp env now aes s')"

definition check_and_wake :: "schedule_entry model_class \<Rightarrow> string \<Rightarrow> wake_env \<Rightarrow> seconds \<Rightarrow> scheduler
    \<Rightarrow> (scheduler, unit) outcome" where
  "check_and_wake M stamp env now s = check_entries M stamp env now (sc_schedules s) s"

text \<open>The loop: every pass at its own time and in its own environment; exceptions are logged.\<close>

fun sc_run :: "schedule_entry model_class \<Rightarrow> (string \<times> wake_env \<times> seconds) list \<Rightarrow> scheduler \<Rightarrow> scheduler" where
  "sc_run M [] s = s"
| "sc_run M ((stamp, env, now) # ticks) s = sc_run M ticks (fst (check_and_wake M stamp env now s))"

section \<open>Persistence\<close>

text \<open>
  The schedules are on disk, filed under their own agent, and every time in them parses.
\<close>

definition sc_stored :: "schedule_entry model_class \<Rightarrow> scheduler \<Rightarrow> bool" where
  "sc_stored M s \<longleftrightarrow> ms_opened (sc_memory s) \<and>
     (mem_get (sc_memory s) ''schedules'' = Inr (Some (dump_models M (dict_values (sc_schedules s))))
      \<or> (mem_get (sc_memory s) ''schedules'' = Inr None \<and> sc_schedules s = []))"

definition sc_ok :: "(agent_id, schedule_entry) dict \<Rightarrow> bool" where
  "sc_ok d \<longleftrightarrow> dict_ok d \<and>
     (\<forall>(a, e) \<in> set d. se_agent_id e = a \<and> (case se_next_wake_utc e of Iso _ \<Rightarrow> True | Malformed _ \<Rightarrow> False))"

lemma sc_persist_open:
  assumes "ms_opened (sc_memory s)"
  shows "\<exists>s'. sc_persist M stamp s = (s', Inr ()) \<and> sc_stored M s'
    \<and> sc_schedules s' = sc_schedules s \<and> sc_woken s' = sc_woken s"
proof -
  obtain mem where mem: "mem_set (sc_memory s) ''schedules'' (dump_models M (dict_values (sc_schedules s))) stamp = Inr mem"
    using ms.put_open [OF assms] by blast
  with ms.put_opened [OF mem] ms.get_put [OF mem] show ?thesis
    by (simp add: sc_persist_def sc_stored_def)
qed

lemma reschedule_open:
  assumes "ms_opened (sc_memory s)"
  shows "\<exists>s'. reschedule M stamp now a e s = (s', Inr ()) \<and> sc_stored M s'
    \<and> sc_schedules s' = dict_set (sc_schedules s) a
        (e\<lparr>se_next_wake_utc := Iso (now + of_int (se_interval_seconds e))\<rparr>)
    \<and> sc_woken s' = sc_woken s"
  using sc_persist_open [of "s\<lparr>sc_schedules := dict_set (sc_schedules s) a
        (e\<lparr>se_next_wake_utc := Iso (now + of_int (se_interval_seconds e))\<rparr>)\<rparr>" M stamp] assms
  by (simp add: reschedule_def)

section \<open>One pass\<close>

definition due :: "seconds \<Rightarrow> schedule_entry \<Rightarrow> bool" where
  "due now e = (case se_next_wake_utc e of Iso t \<Rightarrow> t \<le> now | Malformed _ \<Rightarrow> False)"

definition wakes :: "wake_env \<Rightarrow> seconds \<Rightarrow> agent_id \<times> schedule_entry \<Rightarrow> bool" where
  "wakes env now ae \<longleftrightarrow>
     due now (snd ae) \<and> find_container env (fst ae) = Some ''sleeping'' \<and> wake_returns env (fst ae)"

definition moves :: "wake_env \<Rightarrow> seconds \<Rightarrow> agent_id \<times> schedule_entry \<Rightarrow> bool" where
  "moves env now ae \<longleftrightarrow>
     wakes env now ae
     \<or> (due now (snd ae) \<and> (case find_container env (fst ae) of None \<Rightarrow> False | Some st \<Rightarrow> st \<noteq> ''sleeping''))"

definition entry_after :: "wake_env \<Rightarrow> seconds \<Rightarrow> agent_id \<times> schedule_entry \<Rightarrow> agent_id \<times> schedule_entry" where
  "entry_after env now ae =
     (fst ae, if moves env now ae
        then (snd ae)\<lparr>se_next_wake_utc := Iso (now + of_int (se_interval_seconds (snd ae)))\<rparr> else snd ae)"

lemma dict_set_middle:
  "a \<notin> set (dict_keys pre) \<Longrightarrow> dict_set (pre @ (a, e) # post) a e' = pre @ (a, e') # post"
  by (induction pre) auto

lemma check_entry_open:
  assumes "sc_stored M s" "sc_schedules s = pre @ (a, e) # post" "a \<notin> set (dict_keys pre)"
    and "se_next_wake_utc e = Iso t"
  shows "\<exists>s'. check_entry M stamp env now (a, e) s = (s', Inr ()) \<and> sc_stored M s'
    \<and> sc_schedules s' = pre @ entry_after env now (a, e) # post
    \<and> sc_woken s' = sc_woken s @ (if wakes env now (a, e) then [(a, now)] else [])"
proof -
  note defs = check_entry_def entry_after_def moves_def wakes_def due_def
  have o: "ms_opened (sc_memory s)" using assms(1) by (simp add: sc_stored_def)
  then have o': "ms_opened (sc_memory (s\<lparr>sc_woken := sc_woken s @ [(a, now)]\<rparr>))" by simp
  show ?thesis
  proof (cases "moves env now (a, e)")
    case False
    then have "\<not> wakes env now (a, e)" by (simp add: moves_def)
    moreover have "check_entry M stamp env now (a, e) s = (s, Inr ())"
      using False assms(4) by (auto simp: defs split: option.splits)
    ultimately show ?thesis using assms False by (simp add: entry_after_def)
  next
    case True
    show ?thesis
    proof (cases "wakes env now (a, e)")
      case True
      with assms(4) reschedule_open [OF o', of M stamp now a e] \<open>moves env now (a, e)\<close> show ?thesis
        by (auto simp: check_entry_def wakes_def due_def entry_after_def assms(2) dict_set_middle [OF assms(3)])
    next
      case False
      with True have "check_entry M stamp env now (a, e) s = reschedule M stamp now a e s"
        using assms(4) by (auto simp: defs split: option.splits)
      with False True reschedule_open [OF o, of M stamp now a e] show ?thesis
        by (simp add: entry_after_def assms(2) dict_set_middle [OF assms(3)])
    qed
  qed
qed

lemma fst_entry_after [simp]: "fst (entry_after env now ae) = fst ae"
  by (simp add: entry_after_def)

lemma check_entries_open:
  assumes "sc_stored M s" "sc_schedules s = pre @ post" "sc_ok (pre @ post)"
  shows "\<exists>s'. check_entries M stamp env now post s = (s', Inr ()) \<and> sc_stored M s'
    \<and> sc_schedules s' = pre @ map (entry_after env now) post
    \<and> sc_woken s' = sc_woken s @ map (\<lambda>ae. (fst ae, now)) (filter (wakes env now) post)"
  using assms
proof (induction post arbitrary: s pre)
  case (Cons ae post)
  obtain a e where ae: "ae = (a, e)" by force
  obtain t where "se_next_wake_utc e = Iso t"
    using Cons.prems(3) ae by (auto simp: sc_ok_def split: iso_text.splits)
  moreover have "a \<notin> set (dict_keys pre)" using Cons.prems(3) ae by (auto simp: sc_ok_def)
  ultimately obtain s1 where s1: "check_entry M stamp env now (a, e) s = (s1, Inr ())" "sc_stored M s1"
    "sc_schedules s1 = pre @ entry_after env now (a, e) # post"
    "sc_woken s1 = sc_woken s @ (if wakes env now (a, e) then [(a, now)] else [])"
    using check_entry_open [OF Cons.prems(1)] Cons.prems(2) ae by blast
  have "sc_ok ((pre @ [entry_after env now (a, e)]) @ post)"
    using Cons.prems(3) ae by (auto simp: sc_ok_def entry_after_def)
  with Cons.IH [OF s1(2), of "pre @ [entry_after env now (a, e)]"] s1 ae show ?case by auto
qed simp

lemma check_and_wake_open:
  assumes "sc_stored M s" "sc_ok (sc_schedules s)"
  shows "\<exists>s'. check_and_wake M stamp env now s = (s', Inr ()) \<and> sc_stored M s'
    \<and> sc_schedules s' = map (entry_after env now) (sc_schedules s)
    \<and> sc_woken s' = sc_woken s @ map (\<lambda>ae. (fst ae, now)) (filter (wakes env now) (sc_schedules s))"
  using check_entries_open [of M s "[]" "sc_schedules s" stamp env now] assms
  by (simp add: check_and_wake_def)

lemma sc_ok_after: "sc_ok d \<Longrightarrow> sc_ok (map (entry_after env now) d)"
  by (auto simp: sc_ok_def entry_after_def comp_def)

text \<open>
  One pass of the scheduler, over schedules that are on disk and parse: it does not
  raise; it wakes, in schedule order, exactly the agents whose time has come, whose
  container is found sleeping and whose wake returns; an agent that was woken, or that
  was due and found in another state, is next due one interval from now; every other
  entry (not due, no container, failed wake) is unchanged; and the result is on disk.
\<close>

theorem check_and_wake_exact:
  assumes "sc_stored M s" and "sc_ok (sc_schedules s)"
  shows "\<exists>s'. check_and_wake M stamp env now s = (s', Inr ()) \<and> sc_stored M s'
    \<and> sc_woken s' = sc_woken s @ map (\<lambda>ae. (fst ae, now)) (filter (wakes env now) (sc_schedules s))
    \<and> dict_keys (sc_schedules s') = dict_keys (sc_schedules s)
    \<and> (\<forall>(a, e) \<in> set (sc_schedules s). get_schedule a s' = Some
         (if due now e \<and> (case find_container env a of None \<Rightarrow> False
              | Some st \<Rightarrow> if st = ''sleeping'' then wake_returns env a else True)
          then e\<lparr>se_next_wake_utc := Iso (now + of_int (se_interval_seconds e))\<rparr> else e))"
proof -
  obtain s' where s': "check_and_wake M stamp env now s = (s', Inr ())" "sc_stored M s'"
    "sc_schedules s' = map (entry_after env now) (sc_schedules s)"
    "sc_woken s' = sc_woken s @ map (\<lambda>ae. (fst ae, now)) (filter (wakes env now) (sc_schedules s))"
    using check_and_wake_open [OF assms] by blast
  have "get_schedule a s' = Some (snd (entry_after env now (a, e)))" if "(a, e) \<in> set (sc_schedules s)" for a e
  proof -
    have "(a, snd (entry_after env now (a, e))) \<in> set (sc_schedules s')"
      using that by (force simp: s'(3) image_iff entry_after_def)
    moreover have "dict_ok (sc_schedules s')"
      using sc_ok_after [OF assms(2)] by (simp add: s'(3) sc_ok_def)
    ultimately show ?thesis by (simp add: get_schedule_def)
  qed
  moreover have "snd (entry_after env now (a, e)) =
      (if due now e \<and> (case find_container env a of None \<Rightarrow> False
              | Some st \<Rightarrow> if st = ''sleeping'' then wake_returns env a else True)
       then e\<lparr>se_next_wake_utc := Iso (now + of_int (se_interval_seconds e))\<rparr> else e)" for a e
    by (auto simp: entry_after_def moves_def wakes_def split: option.splits)
  ultimately show ?thesis using s' by (auto simp: comp_def simp del: split_paired_All)
qed

section \<open>Wakes of one agent are an interval apart\<close>

definition wake_times :: "agent_id \<Rightarrow> scheduler \<Rightarrow> seconds list" where
  "wake_times a s = map snd (filter (\<lambda>w. fst w = a) (sc_woken s))"

definition paced :: "agent_id \<Rightarrow> int \<Rightarrow> scheduler \<Rightarrow> bool" where
  "paced a i s \<longleftrightarrow> sorted_wrt (\<lambda>t t'. t + of_int i \<le> t') (wake_times a s) \<and>
     (\<exists>e n. dict_get (sc_schedules s) a = Some e \<and> se_interval_seconds e = i \<and> se_next_wake_utc e = Iso n
        \<and> (\<forall>t \<in> set (wake_times a s). t + of_int i \<le> n))"

lemma dict_get_map_entry_after:
  "dict_get (map (entry_after env now) d) a = map_option (\<lambda>e. snd (entry_after env now (a, e))) (dict_get d a)"
  by (induction d) (auto simp: entry_after_def split: if_splits)

lemma filter_wakes_key:
  assumes "dict_ok d" "dict_get d a = Some e"
  shows "filter (\<lambda>w. fst w = a) (map (\<lambda>ae. (fst ae, now)) (filter (wakes env now) d))
    = (if wakes env now (a, e) then [(a, now)] else [])"
  using assms
proof (induction d)
  case (Cons p d)
  have none: "a \<notin> fst ` set d \<Longrightarrow> filter (\<lambda>w. fst w = a) (map (\<lambda>ae. (fst ae, now)) (filter (wakes env now) d)) = []"
    by (force simp: filter_empty_conv)
  obtain b f where p: "p = (b, f)" by force
  show ?case
  proof (cases "b = a")
    case True
    with Cons.prems p none show ?thesis by simp
  next
    case False
    with Cons p show ?thesis by simp
  qed
qed simp

lemma paced_tick:
  assumes "sc_stored M s" "sc_ok (sc_schedules s)" "0 \<le> i" "paced a i s"
  shows "paced a i (fst (check_and_wake M stamp env now s))"
proof -
  obtain s' where s': "check_and_wake M stamp env now s = (s', Inr ())"
    "sc_schedules s' = map (entry_after env now) (sc_schedules s)"
    "sc_woken s' = sc_woken s @ map (\<lambda>ae. (fst ae, now)) (filter (wakes env now) (sc_schedules s))"
    using check_and_wake_open [OF assms(1,2)] by blast
  obtain e n where e: "dict_get (sc_schedules s) a = Some e" "se_interval_seconds e = i"
    "se_next_wake_utc e = Iso n" "\<forall>t \<in> set (wake_times a s). t + of_int i \<le> n"
    "sorted_wrt (\<lambda>t t'. t + of_int i \<le> t') (wake_times a s)"
    using assms(4) by (auto simp: paced_def)
  have d: "dict_ok (sc_schedules s)" using assms(2) by (simp add: sc_ok_def)
  have wt: "wake_times a s' = wake_times a s @ (if wakes env now (a, e) then [now] else [])"
    by (simp only: wake_times_def s'(3) filter_append map_append filter_wakes_key [OF d e(1)]) simp
  have get: "dict_get (sc_schedules s') a = Some (snd (entry_after env now (a, e)))"
    by (simp add: s'(2) dict_get_map_entry_after e(1))
  have i: "(0 :: rat) \<le> of_int i" using assms(3) by simp
  have le: "t + of_int i \<le> now" if "n \<le> now" "t \<in> set (wake_times a s)" for t
    using e(4) that by (meson order_trans)
  have mv: "moves env now (a, e) \<Longrightarrow> n \<le> now" "wakes env now (a, e) \<Longrightarrow> moves env now (a, e)"
    using e(3) by (auto simp: moves_def wakes_def due_def)
  have "sorted_wrt (\<lambda>t t'. t + of_int i \<le> t') (wake_times a s')"
    using e(5) mv le by (auto simp: wt sorted_wrt_append)
  moreover have "\<exists>f m. dict_get (sc_schedules s') a = Some f \<and> se_interval_seconds f = i \<and> se_next_wake_utc f = Iso m
      \<and> (\<forall>t \<in> set (wake_times a s'). t + of_int i \<le> m)"
  proof (cases "moves env now (a, e)")
    case True
    have "t + of_int i \<le> now + of_int i" if "t \<in> set (wake_times a s')" for t
      using that le [OF mv(1) [OF True], of t] i by (fastforce simp: wt split: if_splits)
    with True e(2) show ?thesis by (simp add: get entry_after_def)
  next
    case False
    then have "\<not> wakes env now (a, e)" using mv(2) by blast
    with False e show ?thesis by (simp add: get entry_after_def wt)
  qed
  ultimately show ?thesis by (simp add: paced_def s'(1))
qed

lemma sc_run_paced:
  "sc_stored M s \<Longrightarrow> sc_ok (sc_schedules s) \<Longrightarrow> 0 \<le> i \<Longrightarrow> paced a i s \<Longrightarrow> paced a i (sc_run M ticks s)"
proof (induction ticks arbitrary: s)
  case (Cons tick ticks)
  obtain stamp env now where tick: "tick = (stamp, env, now)" by (cases tick)
  obtain s' where "check_and_wake M stamp env now s = (s', Inr ())" "sc_stored M s'"
    "sc_schedules s' = map (entry_after env now) (sc_schedules s)"
    using check_and_wake_open [OF Cons.prems(1,2)] by blast
  with Cons paced_tick [OF Cons.prems, of stamp env now] tick sc_ok_after show ?case by simp
qed simp

text \<open>
  C8. An agent is never woken more often than its interval. Start from schedules that
  are on disk and parse, with no wake made yet, and an agent scheduled every \<open>i \<ge> 0\<close>
  seconds. In any number of passes at any times, whatever state the container is found
  in and whichever wakes fail, each wake of the agent comes at least \<open>i\<close> seconds after
  every earlier one.
\<close>

theorem wakes_an_interval_apart:
  assumes "sc_stored M s" and "sc_ok (sc_schedules s)" and "sc_woken s = []"
    and "get_schedule a s = Some e" and "0 \<le> se_interval_seconds e"
  shows "sorted_wrt (\<lambda>t t'. t + of_int (se_interval_seconds e) \<le> t') (wake_times a (sc_run M ticks s))"
proof -
  have "(a, e) \<in> set (sc_schedules s)" using assms(4) by (simp add: get_schedule_def map_of_SomeD)
  then obtain n where "se_next_wake_utc e = Iso n"
    using assms(2) by (cases "se_next_wake_utc e") (auto simp: sc_ok_def)
  then have "paced a (se_interval_seconds e) s"
    using assms(3,4) by (simp add: paced_def wake_times_def get_schedule_def)
  from sc_run_paced [OF assms(1,2,5) this] show ?thesis by (simp add: paced_def)
qed

section \<open>Restart\<close>

datatype sc_op =
    AddSchedule seconds agent_id int
  | RemoveSchedule agent_id
  | Tick wake_env seconds

fun sc_step :: "schedule_entry model_class \<Rightarrow> string \<times> sc_op \<Rightarrow> scheduler \<Rightarrow> scheduler" where
  "sc_step M (stamp, AddSchedule now a i) s = fst (add_schedule M stamp now a i s)"
| "sc_step M (stamp, RemoveSchedule a) s = fst (remove_schedule M stamp a s)"
| "sc_step M (stamp, Tick env now) s = fst (check_and_wake M stamp env now s)"

lemma sc_ok_set: "sc_ok d \<Longrightarrow> se_agent_id e = a \<Longrightarrow> se_next_wake_utc e = Iso t \<Longrightarrow> sc_ok (dict_set d a e)"
  by (auto simp: sc_ok_def set_dict_set dict_simps)

lemma sc_ok_pop: "sc_ok d \<Longrightarrow> sc_ok (dict_pop d a)"
  by (auto simp: sc_ok_def dict_pop_filter distinct_map_filter)

lemma sc_step_stored:
  assumes "sc_stored M s" "sc_ok (sc_schedules s)"
  shows "sc_stored M (sc_step M sop s) \<and> sc_ok (sc_schedules (sc_step M sop s))"
proof -
  have o: "ms_opened (sc_memory s)" using assms(1) by (simp add: sc_stored_def)
  obtain stamp op where sop: "sop = (stamp, op)" by force
  show ?thesis
  proof (cases op)
    case (AddSchedule now a i)
    let ?e = "\<lparr>se_agent_id = a, se_interval_seconds = i, se_next_wake_utc = Iso (now + of_int i)\<rparr>"
    have "sc_ok (dict_set (sc_schedules s) a ?e)" using sc_ok_set [OF assms(2)] by simp
    with o sc_persist_open [of "s\<lparr>sc_schedules := dict_set (sc_schedules s) a ?e\<rparr>" M stamp] AddSchedule sop
    show ?thesis by (auto simp: add_schedule_def)
  next
    case (RemoveSchedule a)
    with o sop sc_persist_open [of "s\<lparr>sc_schedules := dict_pop (sc_schedules s) a\<rparr>" M stamp]
      sc_ok_pop [OF assms(2)]
    show ?thesis by (auto simp: remove_schedule_def)
  next
    case (Tick env now)
    with sop check_and_wake_open [OF assms, of stamp env now] sc_ok_after [OF assms(2)] show ?thesis by auto
  qed
qed

lemma sc_steps_stored:
  "sc_stored M s \<Longrightarrow> sc_ok (sc_schedules s) \<Longrightarrow>
     sc_stored M (fold (sc_step M) ops s) \<and> sc_ok (sc_schedules (fold (sc_step M) ops s))"
  by (induction ops arbitrary: s) (auto simp: sc_step_stored)

lemma load_entries_dump:
  assumes "\<And>x. model_validate M (model_dump M x) = Some x"
  shows "load_entries M (map (model_dump M) es) s
    = (s\<lparr>sc_schedules := foldl (\<lambda>d e. dict_set d (se_agent_id e) e) (sc_schedules s) es\<rparr>, Inr ())"
  by (induction es arbitrary: s) (simp_all add: assms)

lemma refile_entries:
  "sc_ok (acc @ d) \<Longrightarrow> foldl (\<lambda>d e. dict_set d (se_agent_id e) e) acc (dict_values d) = acc @ d"
  by (induction d arbitrary: acc) (auto simp: sc_ok_def dict_set_new)

text \<open>
  Schedules survive a restart. Suppose a dumped entry validates to itself. From
  schedules that are on disk and filed under their agents, after any sequence of added
  and removed schedules and passes of the loop, loading the store into a new scheduler
  gives the same schedules in the same order.
\<close>

theorem schedules_survive_restart:
  assumes validate_dump: "\<And>x. model_validate M (model_dump M x) = Some x"
    and wf_dump: "\<And>x. wf_json (model_dump M x)"
    and "sc_stored M s" and "sc_ok (sc_schedules s)"
  shows "sc_load M (new_scheduler (sc_memory (fold (sc_step M) ops s)))
    = (\<lparr>sc_memory = sc_memory (fold (sc_step M) ops s),
         sc_schedules = sc_schedules (fold (sc_step M) ops s), sc_woken = []\<rparr>, Inr ())"
proof -
  let ?s = "fold (sc_step M) ops s"
  have s: "sc_stored M ?s" "sc_ok (sc_schedules ?s)" using sc_steps_stored [OF assms(3,4)] by simp_all
  have "wf_json (JArr (map (model_dump M) es))" for es by (simp add: wf_items_iff wf_dump)
  then have "loads (dump_models M es) = Some (JArr (map (model_dump M) es))" for es
    by (simp add: dump_models_def loads_dumps del: dumps.simps)
  then show ?thesis
    using s refile_entries [of "[]" "sc_schedules ?s"]
    by (cases "mem_get (sc_memory ?s) ''schedules'' = Inr None")
      (auto simp: sc_load_def new_scheduler_def sc_stored_def load_entries_dump [OF validate_dump]
        simp del: map_map foldl_map)
qed

section \<open>Witnesses\<close>

text \<open>
  A model class for entries whose times are whole seconds written as integers, and text
  that does not parse otherwise: an instance on which the assumptions hold for the times
  the code writes.
\<close>

definition demo_entry :: "string \<Rightarrow> int \<Rightarrow> seconds \<Rightarrow> schedule_entry" where
  "demo_entry a i t = \<lparr>se_agent_id = a, se_interval_seconds = i, se_next_wake_utc = Iso t\<rparr>"

fun dump_iso :: "iso_text \<Rightarrow> json" where
  "dump_iso (Iso t) = JArr [JInt (fst (quotient_of t)), JInt (snd (quotient_of t))]"
| "dump_iso (Malformed s) = JStr s"

fun parse_iso :: "json \<Rightarrow> iso_text option" where
  "parse_iso (JArr [JInt p, JInt q]) = Some (Iso (Fract p q))"
| "parse_iso (JStr s) = Some (Malformed s)"
| "parse_iso _ = None"

lemma parse_dump_iso: "parse_iso (dump_iso x) = Some x"
proof (cases x)
  case (Iso t)
  obtain p q where "quotient_of t = (p, q)" by force
  then show ?thesis using Iso quotient_of_div [of t p q] by (simp add: Fract_of_int_quotient)
qed simp

definition entry_dump :: "schedule_entry \<Rightarrow> json" where
  "entry_dump e = JObj
     [(''agent_id'', JStr (se_agent_id e)), (''interval_seconds'', JInt (se_interval_seconds e)),
      (''next_wake_utc'', dump_iso (se_next_wake_utc e))]"

definition entry_validate :: "json \<Rightarrow> schedule_entry option" where
  "entry_validate j =
     (case (json_field j ''agent_id'' as_str, json_field j ''interval_seconds'' as_int,
            json_field j ''next_wake_utc'' parse_iso) of
        (Some a, Some i, Some t) \<Rightarrow>
          Some \<lparr>se_agent_id = a, se_interval_seconds = i, se_next_wake_utc = t\<rparr>
      | _ \<Rightarrow> None)"

definition schedule_entry_model :: "schedule_entry model_class" where
  "schedule_entry_model = \<lparr>model_dump = entry_dump, model_validate = entry_validate\<rparr>"

interpretation se: pydantic_model schedule_entry_model
proof (unfold_locales, goal_cases)
  case (1 x)
  then show ?case
    by (simp add: schedule_entry_model_def entry_dump_def entry_validate_def json_field_def parse_dump_iso)
next
  case (2 x)
  then show ?case
    by (cases "se_next_wake_utc x") (simp_all add: schedule_entry_model_def entry_dump_def)
qed

definition demo_scheduler :: scheduler where
  "demo_scheduler =
     (let d = [(''c'', demo_entry ''c'' 60 100), (''d'', demo_entry ''d'' 30 500)] in
      \<lparr>sc_memory = \<lparr>ms_opened = True,
          ms_kv = [(''schedules'', \<lparr>kv_value = dump_models schedule_entry_model (dict_values d), kv_updated_at = ''t0''\<rparr>)],
          ms_checkpoints = []\<rparr>,
       sc_schedules = d, sc_woken = []\<rparr>)"

definition all_sleeping :: wake_env where
  "all_sleeping = \<lparr>find_container = (\<lambda>a. Some ''sleeping''), wake_returns = (\<lambda>a. True)\<rparr>"

lemma demo_scheduler_ok:
  "sc_stored schedule_entry_model demo_scheduler" "sc_ok (sc_schedules demo_scheduler)"
  by (simp_all add: sc_stored_def sc_ok_def demo_scheduler_def demo_entry_def mem_get_def Let_def)

theorem check_and_wake_exact_witness:
  "\<exists>s'. check_and_wake schedule_entry_model ''t1'' all_sleeping 120 demo_scheduler = (s', Inr ())
     \<and> sc_woken s' = [(''c'', 120)] \<and> get_schedule ''c'' s' = Some (demo_entry ''c'' 60 180)"
  using check_and_wake_exact [OF demo_scheduler_ok, of "''t1''" all_sleeping 120]
  by (auto simp: demo_scheduler_def demo_entry_def all_sleeping_def wakes_def due_def Let_def)

theorem wakes_an_interval_apart_witness:
  "get_schedule ''c'' demo_scheduler = Some (demo_entry ''c'' 60 100) \<and>
   sorted_wrt (\<lambda>t t'. t + 60 \<le> t') (wake_times ''c''
     (sc_run schedule_entry_model [(''t1'', all_sleeping, 120), (''t2'', all_sleeping, 200)] demo_scheduler))"
proof -
  have g: "get_schedule ''c'' demo_scheduler = Some (demo_entry ''c'' 60 100)" "sc_woken demo_scheduler = []"
    "0 \<le> se_interval_seconds (demo_entry ''c'' 60 100)"
    by (simp_all add: get_schedule_def demo_scheduler_def demo_entry_def Let_def)
  from wakes_an_interval_apart [OF demo_scheduler_ok g(2,1,3)] g(1) show ?thesis
    by (simp add: demo_entry_def del: sc_run.simps)
qed

theorem schedules_survive_restart_witness:
  "snd (sc_load schedule_entry_model (new_scheduler (sc_memory
     (fold (sc_step schedule_entry_model) [(''t1'', AddSchedule 0 ''e'' 5)] demo_scheduler)))) = Inr ()"
  using schedules_survive_restart [OF se.validate_dump se.wf_dump demo_scheduler_ok,
      of "[(''t1'', AddSchedule 0 ''e'' 5)]"]
  by (simp del: fold_simps)

end
