(* ===== verification/Agent_Types.thy ===== *)
theory Agent_Types
  imports Py_Json
begin

text \<open>
  \<open>models/agent_types.py\<close>: the table of agent types with its built-in defaults.
  Reading \<open>agent-types.yaml\<close> (YAML and Pydantic) is not modelled.
\<close>

record agent_type_config =
  at_handler :: "string option"
  at_transport :: string
  at_docker_image :: "string option"
  at_container_class :: string
  at_capabilities :: "string list"
  at_gsd_command :: "string option"
  at_tweakcc_profile :: "string option"
  at_settings_json :: "string option"
  at_env :: "(string, string) dict"
  at_volumes :: "(string, string) dict"

type_synonym agent_types_config = "(string, agent_type_config) dict"

definition get_type :: "agent_types_config \<Rightarrow> string \<Rightarrow> py_error + agent_type_config" where
  "get_type cfg name =
     (case dict_get cfg name of
        None \<Rightarrow> Inl (KeyError (''Unknown agent type: '' @ py_repr name))
      | Some c \<Rightarrow> Inr c)"

definition has_capability :: "agent_types_config \<Rightarrow> string \<Rightarrow> string \<Rightarrow> py_error + bool" where
  "has_capability cfg name cap =
     (case get_type cfg name of Inl e \<Rightarrow> Inl e | Inr c \<Rightarrow> Inr (cap \<in> set (at_capabilities c)))"

definition builtin_type :: "string \<Rightarrow> string \<Rightarrow> string list \<Rightarrow> string option \<Rightarrow> agent_type_config" where
  "builtin_type handler cls caps cmd =
     \<lparr>at_handler = Some handler, at_transport = ''local'', at_docker_image = None,
      at_container_class = cls, at_capabilities = caps, at_gsd_command = cmd,
      at_tweakcc_profile = None, at_settings_json = None, at_env = [], at_volumes = []\<rparr>"

definition get_default_config :: agent_types_config where
  "get_default_config =
     [(''gsd'', builtin_type ''session'' ''GsdAgent'' [''gsd_driven'', ''uses_tmux''] (Some ''/gsd:discuss-phase 1'')),
      (''continuous'', builtin_type ''session'' ''ContinuousAgent'' [''uses_tmux''] None),
      (''fulltime'', builtin_type ''transient'' ''FulltimeAgent'' [''event_driven'', ''reviews_plans''] None),
      (''company'', builtin_type ''conversation'' ''CompanyAgent'' [''event_driven''] None),
      (''task'', builtin_type ''session'' ''TaskAgent'' [''uses_tmux''] None)]"

end
