(* ===== verification/Supervisor.thy ===== *)
theory Supervisor
  imports Restart_Tracker Bulk_Failure Delegation Agent_Types
begin

text \<open>
  The supervision tree below its root: \<open>supervisor/child_spec.py\<close>, \<open>strategies.py\<close>,
  \<open>health.py\<close>, \<open>supervisor.py\<close> and \<open>project_supervisor.py\<close>.

  The children of a supervisor are objects of a class that is not part of this
  repository any more (the container factory is gone): what the supervisor does with
  them goes through the record \<open>child_class\<close>, an argument of the definitions. The method
  \<open>_start_child\<close> is called through \<open>self\<close>; the definitions that call it take the method
  as their argument \<open>start\<close>, and \<open>start_child\<close> is the only one the repository has, which
  raises. Calls to the outside (stopping a child, escalations, notifications) are
  recorded in order in \<open>sup_out\<close>. Cancelling a monitor task and waiting for it is
  removing it from the table of tasks. Clock readings are arguments.
\<close>

section \<open>Child specifications, strategies and health\<close>

datatype restart_policy = PERMANENT | TEMPORARY | TRANSIENT

datatype restart_strategy = ONE_FOR_ONE | ALL_FOR_ONE | REST_FOR_ONE

text \<open>
  A container context is its attribute table: the delegation code sets attributes by
  name without validation.
\<close>

type_synonym container_context = "(string, json) dict"

definition opt_str :: "string option \<Rightarrow> json" where
  "opt_str s = (case s of None \<Rightarrow> JNull | Some t \<Rightarrow> JStr t)"

definition new_container_context :: "agent_id \<Rightarrow> string \<Rightarrow> string \<Rightarrow> json \<Rightarrow> bool \<Rightarrow> string option
    \<Rightarrow> container_context" where
  "new_container_context a ty parent project tmux cmd =
     [(''agent_id'', JStr a), (''agent_type'', JStr ty), (''parent_id'', JStr parent),
      (''project_id'', project), (''owned_dirs'', JArr []), (''gsd_mode'', JStr ''full''),
      (''system_prompt'', JStr []), (''gsd_command'', opt_str cmd), (''uses_tmux'', JBool tmux)]"

record child_spec =
  child_id :: agent_id
  cs_agent_type :: string
  cs_context :: container_context
  cs_restart_policy :: restart_policy
  cs_max_restarts :: int
  cs_restart_window_seconds :: int
  cs_transport :: string

type_synonym child_spec_registry = "(agent_id, child_spec) dict"

definition csr_register :: "child_spec \<Rightarrow> child_spec_registry \<Rightarrow> child_spec_registry" where
  "csr_register spec r = dict_set r (child_id spec) spec"

definition csr_unregister :: "agent_id \<Rightarrow> child_spec_registry \<Rightarrow> child_spec_registry" where
  "csr_unregister c r = dict_pop r c"

definition csr_get :: "agent_id \<Rightarrow> child_spec_registry \<Rightarrow> child_spec option" where
  "csr_get c r = dict_get r c"

definition csr_all_specs :: "child_spec_registry \<Rightarrow> child_spec list" where
  "csr_all_specs r = dict_values r"

record health_report =
  hr_agent_id :: agent_id
  hr_state :: string
  hr_inner_state :: "string option"
  hr_uptime :: seconds
  hr_last_heartbeat :: seconds
  hr_error_count :: int
  hr_last_activity :: seconds
  hr_blocked_reason :: "string option"
  hr_is_idle :: "bool option"
  hr_transport_type :: "string option"
  hr_docker_container_id :: "string option"
  hr_docker_image :: "string option"

record health_tree =
  ht_supervisor_id :: string
  ht_state :: string
  ht_children :: "health_report list"

section \<open>The supervisor\<close>

text \<open>What a supervisor uses of a child object.\<close>

record 'c child_class =
  ch_state :: "'c \<Rightarrow> string"
  ch_stop :: "'c \<Rightarrow> ('c, unit) outcome"
  ch_is_alive :: "('c \<Rightarrow> py_error + bool) option"
  ch_error :: "'c \<Rightarrow> ('c, unit) outcome"
  ch_health_report :: "'c \<Rightarrow> health_report"

datatype sup_action =
    StopChild agent_id
  | ErrorChild agent_id
  | SignalUnregister agent_id
  | EscalateToParent string
  | EscalationCallback string
  | OutageCallback string seconds
  | ScheduleReset seconds
  | NotifyHealth health_report

record 'c supervisor =
  supervisor_id :: string
  sup_strategy :: restart_strategy
  child_specs :: "child_spec list"
  has_parent :: bool
  has_on_escalation :: bool
  has_on_health_change :: bool
  has_signal_router :: bool
  children :: "(agent_id, 'c) dict"
  tasks :: "agent_id list"
  child_events :: "(agent_id, bool) dict"
  delegation_tracker_of :: "delegation_tracker option"
  delegated_children :: "(agent_id, agent_id) dict"
  sup_tracker :: restart_tracker
  bulk_detector_of :: "bulk_detector option"
  restarting :: bool
  sup_state :: string
  health_reports :: "(agent_id, health_report) dict"
  sup_out :: "sup_action list"

record sup_config =
  cfg_has_parent :: bool
  cfg_has_on_escalation :: bool
  cfg_has_on_health_change :: bool
  cfg_has_signal_router :: bool

definition new_supervisor :: "string \<Rightarrow> restart_strategy \<Rightarrow> child_spec list \<Rightarrow> int \<Rightarrow> int
    \<Rightarrow> sup_config \<Rightarrow> delegation_policy option \<Rightarrow> 'c supervisor" where
  "new_supervisor sid strat specs max_r window cfg policy =
     \<lparr>supervisor_id = sid, sup_strategy = strat, child_specs = specs,
      has_parent = cfg_has_parent cfg, has_on_escalation = cfg_has_on_escalation cfg,
      has_on_health_change = cfg_has_on_health_change cfg, has_signal_router = cfg_has_signal_router cfg,
      children = [], tasks = [], child_events = [],
      delegation_tracker_of = map_option new_delegation_tracker policy, delegated_children = [],
      sup_tracker = new_restart_tracker max_r window,
      bulk_detector_of = (if 2 \<le> length specs then Some (default_bulk_detector (int (length specs))) else None),
      restarting = False, sup_state = ''stopped'', health_reports = [], sup_out = []\<rparr>"

definition emit :: "sup_action \<Rightarrow> 'c supervisor \<Rightarrow> 'c supervisor" where
  "emit act s = s\<lparr>sup_out := sup_out s @ [act]\<rparr>"

definition sup_health_tree :: "'c child_class \<Rightarrow> 'c supervisor \<Rightarrow> health_tree" where
  "sup_health_tree C s =
     \<lparr>ht_supervisor_id = supervisor_id s, ht_state = sup_state s,
      ht_children = concat (map (\<lambda>spec.
        case dict_get (health_reports s) (child_id spec) of
          Some report \<Rightarrow> [report]
        | None \<Rightarrow> (case dict_get (children s) (child_id spec) of
                     None \<Rightarrow> [] | Some c \<Rightarrow> [ch_health_report C c])) (child_specs s))\<rparr>"

definition get_spec :: "agent_id \<Rightarrow> 'c supervisor \<Rightarrow> child_spec option" where
  "get_spec c s = find (\<lambda>spec. child_id spec = c) (child_specs s)"

definition start_child :: "child_spec \<Rightarrow> 'c supervisor \<Rightarrow> ('c supervisor, unit) outcome" where
  "start_child spec s =
     (s, Inl (NotImplementedError (''Container creation for '' @ child_id spec
        @ '' is no longer supported. Use CompanyRoot.hire() instead.'')))"

type_synonym 'c start_method = "child_spec \<Rightarrow> 'c supervisor \<Rightarrow> ('c supervisor, unit) outcome"

fun start_specs :: "'c start_method \<Rightarrow> child_spec list \<Rightarrow> 'c supervisor \<Rightarrow> ('c supervisor, unit) outcome" where
  "start_specs start [] s = (s, Inr ())"
| "start_specs start (spec # specs) s =
     (case start spec s of (s', Inl e) \<Rightarrow> (s', Inl e) | (s', Inr _) \<Rightarrow> start_specs start specs s')"

definition sup_start :: "'c start_method \<Rightarrow> 'c supervisor \<Rightarrow> ('c supervisor, unit) outcome" where
  "sup_start start s =
     (case start_specs start (child_specs s) s of
        (s', Inl e) \<Rightarrow> (s', Inl e)
      | (s', Inr _) \<Rightarrow> (s'\<lparr>sup_state := ''running''\<rparr>, Inr ()))"

definition inactive_states :: "string list" where
  "inactive_states = [''stopped'', ''destroyed'', ''stopping'']"

text \<open>Stopping one child unless it is already down; the call may raise.\<close>

definition stop_child :: "'c child_class \<Rightarrow> agent_id \<Rightarrow> 'c supervisor \<Rightarrow> ('c supervisor, unit) outcome" where
  "stop_child C c s =
     (case dict_get (children s) c of
        None \<Rightarrow> (s, Inr ())
      | Some child \<Rightarrow>
          if ch_state C child \<in> set inactive_states then (s, Inr ())
          else (case ch_stop C child of
                  (child', r) \<Rightarrow> (emit (StopChild c) (s\<lparr>children := dict_set (children s) c child'\<rparr>), r)))"

text \<open>The loops of \<open>stop\<close> and \<open>_escalate\<close>: an exception of one child is logged.\<close>

fun stop_all_quietly :: "'c child_class \<Rightarrow> bool \<Rightarrow> child_spec list \<Rightarrow> 'c supervisor \<Rightarrow> 'c supervisor" where
  "stop_all_quietly C unregister [] s = s"
| "stop_all_quietly C unregister (spec # specs) s =
     (let s = (if unregister \<and> has_signal_router s then emit (SignalUnregister (child_id spec)) s else s) in
      stop_all_quietly C unregister specs (fst (stop_child C (child_id spec) s)))"

definition sup_stop :: "'c child_class \<Rightarrow> 'c supervisor \<Rightarrow> 'c supervisor" where
  "sup_stop C s =
     (let s = s\<lparr>restarting := True, tasks := []\<rparr>;
          s = stop_all_quietly C True (rev (child_specs s)) s in
      s\<lparr>restarting := False, sup_state := ''stopped''\<rparr>)"

definition sup_escalate :: "'c child_class \<Rightarrow> 'c supervisor \<Rightarrow> 'c supervisor" where
  "sup_escalate C s =
     (let s = s\<lparr>restarting := True\<rparr>;
          s = stop_all_quietly C False (rev (child_specs s)) s;
          s = s\<lparr>tasks := [], restarting := False, sup_state := ''stopped''\<rparr> in
      if has_parent s then emit (EscalateToParent (supervisor_id s)) s
      else if has_on_escalation s then
        emit (EscalationCallback (''ESCALATION: Supervisor '' @ supervisor_id s
          @ '' exceeded restart limits. Manual intervention required.'')) s
      else s)"

section \<open>Restart strategies\<close>

definition restart_one :: "'c child_class \<Rightarrow> 'c start_method \<Rightarrow> agent_id \<Rightarrow> 'c supervisor
    \<Rightarrow> ('c supervisor, unit) outcome" where
  "restart_one C start failed s =
     (case get_spec failed s of
        None \<Rightarrow> (s, Inr ())
      | Some spec \<Rightarrow>
          (case stop_child C failed s of
             (s', Inl e) \<Rightarrow> (s', Inl e)
           | (s', Inr _) \<Rightarrow> start spec s'))"

fun stop_and_cancel :: "'c child_class \<Rightarrow> child_spec list \<Rightarrow> 'c supervisor \<Rightarrow> ('c supervisor, unit) outcome" where
  "stop_and_cancel C [] s = (s, Inr ())"
| "stop_and_cancel C (spec # specs) s =
     (case stop_child C (child_id spec) s of
        (s', Inl e) \<Rightarrow> (s', Inl e)
      | (s', Inr _) \<Rightarrow> stop_and_cancel C specs (s'\<lparr>tasks := removeAll (child_id spec) (tasks s')\<rparr>))"

text \<open>
  The body that \<open>_restart_all\<close> and \<open>_restart_rest\<close> share: stop in reverse order, start in
  forward order, and clear the flag whatever was raised.
\<close>

definition restart_specs :: "'c child_class \<Rightarrow> 'c start_method \<Rightarrow> child_spec list \<Rightarrow> 'c supervisor
    \<Rightarrow> ('c supervisor, unit) outcome" where
  "restart_specs C start specs s =
     (let (s', r) = (case stop_and_cancel C (rev specs) (s\<lparr>restarting := True\<rparr>) of
                       (s1, Inl e) \<Rightarrow> (s1, Inl e)
                     | (s1, Inr _) \<Rightarrow> start_specs start specs s1) in
      (s'\<lparr>restarting := False\<rparr>, r))"

definition restart_all :: "'c child_class \<Rightarrow> 'c start_method \<Rightarrow> agent_id \<Rightarrow> 'c supervisor
    \<Rightarrow> ('c supervisor, unit) outcome" where
  "restart_all C start failed s = restart_specs C start (child_specs s) s"

fun specs_from :: "agent_id \<Rightarrow> child_spec list \<Rightarrow> child_spec list option" where
  "specs_from c [] = None"
| "specs_from c (spec # specs) = (if child_id spec = c then Some (spec # specs) else specs_from c specs)"

definition restart_rest :: "'c child_class \<Rightarrow> 'c start_method \<Rightarrow> agent_id \<Rightarrow> 'c supervisor
    \<Rightarrow> ('c supervisor, unit) outcome" where
  "restart_rest C start failed s =
     (case specs_from failed (child_specs s) of
        None \<Rightarrow> (s, Inr ())
      | Some specs \<Rightarrow> restart_specs C start specs s)"

section \<open>Failure handling\<close>

definition enter_global_backoff :: "'c supervisor \<Rightarrow> 'c supervisor" where
  "enter_global_backoff s =
     (case bulk_detector_of s of
        None \<Rightarrow> s
      | Some d \<Rightarrow>
          (let backoff = current_backoff d;
               s = (if has_on_escalation s then emit (OutageCallback (supervisor_id s) backoff) s else s) in
           emit (ScheduleReset backoff) s))"

text \<open>The task that the previous definition schedules, after its sleep.\<close>

definition reset_after_backoff :: "'c supervisor \<Rightarrow> 'c supervisor" where
  "reset_after_backoff s =
     s\<lparr>bulk_detector_of := map_option (\<lambda>d. reset_backoff (escalate_backoff d)) (bulk_detector_of s)\<rparr>"

definition dispatch_strategy :: "'c child_class \<Rightarrow> 'c start_method \<Rightarrow> agent_id \<Rightarrow> 'c supervisor
    \<Rightarrow> ('c supervisor, unit) outcome" where
  "dispatch_strategy C start failed s =
     (case sup_strategy s of
        ONE_FOR_ONE \<Rightarrow> restart_one C start failed s
      | ALL_FOR_ONE \<Rightarrow> restart_all C start failed s
      | REST_FOR_ONE \<Rightarrow> restart_rest C start failed s)"

text \<open>The part of \<open>_handle_child_failure\<close> after the bulk-failure check.\<close>

definition apply_policy :: "'c child_class \<Rightarrow> 'c start_method \<Rightarrow> agent_id \<Rightarrow> seconds \<Rightarrow> seconds \<Rightarrow> 'c supervisor
    \<Rightarrow> ('c supervisor, unit) outcome" where
  "apply_policy C start failed t1 t2 s =
     (case get_spec failed s of
        None \<Rightarrow> (s, Inr ())
      | Some spec \<Rightarrow>
          (case dict_get (children s) failed of
             None \<Rightarrow> (s, Inr ())
           | Some child \<Rightarrow>
               if cs_restart_policy spec = TEMPORARY then (s, Inr ())
               else if cs_restart_policy spec = TRANSIENT \<and> ch_state C child \<noteq> ''errored'' then (s, Inr ())
               else (case allow_restart t1 t2 (sup_tracker s) of
                       (False, rt) \<Rightarrow> (sup_escalate C (s\<lparr>sup_tracker := rt\<rparr>), Inr ())
                     | (True, rt) \<Rightarrow> dispatch_strategy C start failed (s\<lparr>sup_tracker := rt\<rparr>))))"

definition handle_child_failure :: "'c child_class \<Rightarrow> 'c start_method \<Rightarrow> agent_id
    \<Rightarrow> seconds \<times> seconds \<Rightarrow> seconds \<times> seconds \<Rightarrow> 'c supervisor \<Rightarrow> ('c supervisor, unit) outcome" where
  "handle_child_failure C start failed bt rt s =
     (case bulk_detector_of s of
        None \<Rightarrow> apply_policy C start failed (fst rt) (snd rt) s
      | Some d \<Rightarrow>
          if is_in_backoff d then (s, Inr ())
          else (case record_failure failed (fst bt) (snd bt) d of
                  (outage, d') \<Rightarrow>
                    (let s = s\<lparr>bulk_detector_of := Some d'\<rparr> in
                     if outage then (enter_global_backoff s, Inr ())
                     else apply_policy C start failed (fst rt) (snd rt) s)))"

definition handle_child_escalation :: "'c child_class \<Rightarrow> 'c start_method \<Rightarrow> agent_id
    \<Rightarrow> seconds \<times> seconds \<Rightarrow> seconds \<times> seconds \<Rightarrow> 'c supervisor \<Rightarrow> ('c supervisor, unit) outcome" where
  "handle_child_escalation C start child bt rt s = handle_child_failure C start child bt rt s"

section \<open>State changes and monitoring\<close>

definition health_states :: "string list" where
  "health_states = [''errored'', ''running'', ''stopped'', ''blocked'', ''stopping'']"

text \<open>The callback of one child; the monitor's event is a flag in \<open>child_events\<close>.\<close>

definition state_change_callback :: "agent_id \<Rightarrow> health_report \<Rightarrow> 'c supervisor \<Rightarrow> 'c supervisor" where
  "state_change_callback c report s =
     (let s = s\<lparr>health_reports := dict_set (health_reports s) c report\<rparr>;
          s = (case dict_get (delegated_children s) c of
                 Some requester \<Rightarrow>
                   if hr_state report \<in> {''stopped'', ''destroyed''} then
                     s\<lparr>delegated_children := dict_pop (delegated_children s) c,
                       delegation_tracker_of := map_option (record_completion requester c) (delegation_tracker_of s)\<rparr>
                   else s
               | None \<Rightarrow> s) in
      if restarting s then s
      else
        (let s = (if hr_state report \<in> {''errored'', ''stopped'', ''stopping''}
                    \<and> dict_get (child_events s) c \<noteq> None
                  then s\<lparr>child_events := dict_set (child_events s) c True\<rparr> else s) in
         if has_on_health_change s \<and> hr_state report \<in> set health_states
         then emit (NotifyHealth report) s else s))"

datatype monitor_wake = EventSet | Timeout

datatype monitor_next = Continue | Break

text \<open>One turn of the monitor loop of a child, after its wait returned.\<close>

definition monitor_turn :: "'c child_class \<Rightarrow> 'c start_method \<Rightarrow> agent_id \<Rightarrow> monitor_wake
    \<Rightarrow> seconds \<times> seconds \<Rightarrow> seconds \<times> seconds \<Rightarrow> 'c supervisor \<Rightarrow> ('c supervisor, monitor_next) outcome" where
  "monitor_turn C start c wk bt rt s =
     (case wk of
        Timeout \<Rightarrow>
          (case dict_get (children s) c of
             None \<Rightarrow> (s, Inr Continue)
           | Some child \<Rightarrow>
               if ch_state C child \<noteq> ''running'' then (s, Inr Continue)
               else (case ch_is_alive C of
                       None \<Rightarrow> (s, Inr Continue)
                     | Some alive \<Rightarrow>
                         (case alive child of
                            Inl e \<Rightarrow> (s, Inl e)
                          | Inr True \<Rightarrow> (s, Inr Continue)
                          | Inr False \<Rightarrow>
                              (case ch_error C child of
                                 (child', r) \<Rightarrow>
                                   (emit (ErrorChild c) (s\<lparr>children := dict_set (children s) c child'\<rparr>),
                                    case r of Inl e \<Rightarrow> Inl e | Inr _ \<Rightarrow> Inr Continue)))))
      | EventSet \<Rightarrow>
          (let s = s\<lparr>child_events := dict_set (child_events s) c False\<rparr> in
           (case dict_get (children s) c of
              None \<Rightarrow> (s, Inr Break)
            | Some child \<Rightarrow>
                if ch_state C child = ''errored'' then
                  (case handle_child_failure C start c bt rt s of
                     (s', Inl e) \<Rightarrow> (s', Inl e)
                   | (s', Inr _) \<Rightarrow> (s', Inr Continue))
                else if ch_state C child \<in> {''stopped'', ''destroyed''} then (s, Inr Break)
                else (s, Inr Continue))))"

section \<open>Delegation\<close>

text \<open>
  Attributes of a Pydantic model other than its fields; setting one of them by name is
  possible as well, so which names exist is an argument.
\<close>

definition apply_overrides :: "(string \<Rightarrow> bool) \<Rightarrow> (string, string) dict \<Rightarrow> container_context \<Rightarrow> container_context" where
  "apply_overrides model_attr overrides ctx =
     foldl (\<lambda>ctx (k, v). if dict_get ctx k \<noteq> None \<or> model_attr k then dict_set ctx k (JStr v) else ctx)
       ctx overrides"

definition delegated_spec :: "(string \<Rightarrow> bool) \<Rightarrow> agent_id \<Rightarrow> delegation_request \<Rightarrow> agent_type_config option
    \<Rightarrow> 'c supervisor \<Rightarrow> child_spec" where
  "delegated_spec model_attr a req tc s =
     (let project = (case child_specs s of
                       [] \<Rightarrow> JNull
                     | spec # _ \<Rightarrow> (case dict_get (cs_context spec) ''project_id'' of None \<Rightarrow> JNull | Some p \<Rightarrow> p));
          ctx = new_container_context a (request_agent_type req) (supervisor_id s) project
                  (case tc of None \<Rightarrow> True | Some t \<Rightarrow> ''uses_tmux'' \<in> set (at_capabilities t))
                  (case tc of None \<Rightarrow> None | Some t \<Rightarrow> at_gsd_command t) in
      \<lparr>child_id = a, cs_agent_type = request_agent_type req,
       cs_context = apply_overrides model_attr (context_overrides req) ctx,
       cs_restart_policy = TEMPORARY, cs_max_restarts = 3, cs_restart_window_seconds = 600,
       cs_transport = (case tc of None \<Rightarrow> ''local'' | Some t \<Rightarrow> at_transport t)\<rparr>)"

definition delegated_id :: "agent_id \<Rightarrow> string \<Rightarrow> agent_id" where
  "delegated_id requester hex6 = ''delegated-'' @ requester @ ''-'' @ hex6"

definition rejected :: "reject_reason \<Rightarrow> delegation_result" where
  "rejected r = \<lparr>approved = False, result_agent_id = None, reason = r\<rparr>"

text \<open>
  The arguments are the six hexadecimal digits of the new identifier, the configured agent
  types if they were set, and the clock readings of the check and of the record. An agent
  type that the policy allows but the configuration lacks raises.
\<close>

definition handle_delegation_request :: "'c start_method \<Rightarrow> (string \<Rightarrow> bool) \<Rightarrow> agent_types_config option
    \<Rightarrow> string \<Rightarrow> seconds \<Rightarrow> seconds \<Rightarrow> delegation_request \<Rightarrow> 'c supervisor
    \<Rightarrow> ('c supervisor, delegation_result) outcome" where
  "handle_delegation_request start model_attr types hex6 t1 t2 req s =
     (case delegation_tracker_of s of
        None \<Rightarrow> (s, Inr (rejected DelegationNotEnabled))
      | Some tr \<Rightarrow>
          (case can_delegate (requester_id req) (request_agent_type req) t1 tr of
             (False, r) \<Rightarrow> (s, Inr (rejected r))
           | (True, _) \<Rightarrow>
               (let a = delegated_id (requester_id req) hex6 in
                (case (case types of None \<Rightarrow> Inr None
                       | Some cfg \<Rightarrow> (case get_type cfg (request_agent_type req) of
                                        Inl e \<Rightarrow> Inl e | Inr t \<Rightarrow> Inr (Some t))) of
                   Inl e \<Rightarrow> (s, Inl e)
                 | Inr tc \<Rightarrow>
                     (let spec = delegated_spec model_attr a req tc s in
                      (case start spec (s\<lparr>child_specs := child_specs s @ [spec]\<rparr>) of
                         (s', Inl e) \<Rightarrow> (s', Inl e)
                       | (s', Inr _) \<Rightarrow>
                           (s'\<lparr>delegation_tracker_of :=
                                 map_option (record_delegation (requester_id req) a t2) (delegation_tracker_of s'),
                               delegated_children := dict_set (delegated_children s') a (requester_id req)\<rparr>,
                            Inr \<lparr>approved = True, result_agent_id = Some a, reason = NoReason\<rparr>)))))))"

section \<open>Project supervisors\<close>

text \<open>
  The constructor has a \<open>delegation_policy\<close> parameter and does not pass it on.
\<close>

definition new_project_supervisor :: "string \<Rightarrow> child_spec list \<Rightarrow> restart_strategy \<Rightarrow> int \<Rightarrow> int
    \<Rightarrow> sup_config \<Rightarrow> delegation_policy option \<Rightarrow> 'c supervisor" where
  "new_project_supervisor project specs strat max_r window cfg policy =
     new_supervisor (''project-'' @ project) strat specs max_r window
       (cfg\<lparr>cfg_has_on_health_change := False\<rparr>) None"

definition add_child_spec :: "'c start_method \<Rightarrow> child_spec \<Rightarrow> 'c supervisor \<Rightarrow> ('c supervisor, unit) outcome" where
  "add_child_spec start spec s = start spec (s\<lparr>child_specs := child_specs s @ [spec]\<rparr>)"

definition remove_child :: "'c child_class \<Rightarrow> agent_id \<Rightarrow> 'c supervisor \<Rightarrow> ('c supervisor, unit) outcome" where
  "remove_child C c s =
     (case stop_child C c s of
        (s', Inl e) \<Rightarrow> (s', Inl e)
      | (s', Inr _) \<Rightarrow> (s'\<lparr>child_specs := filter (\<lambda>spec. child_id spec \<noteq> c) (child_specs s')\<rparr>, Inr ()))"

section \<open>Stopping\<close>

definition active_child :: "'c child_class \<Rightarrow> 'c supervisor \<Rightarrow> agent_id \<Rightarrow> bool" where
  "active_child C s c \<longleftrightarrow>
     (case dict_get (children s) c of None \<Rightarrow> False | Some child \<Rightarrow> ch_state C child \<notin> set inactive_states)"

definition stopped_child :: "'c child_class \<Rightarrow> 'c \<Rightarrow> 'c" where
  "stopped_child C child =
     (if ch_state C child \<in> set inactive_states then child else fst (ch_stop C child))"

definition stop_raises :: "'c child_class \<Rightarrow> 'c supervisor \<Rightarrow> agent_id \<Rightarrow> bool" where
  "stop_raises C s c \<longleftrightarrow> active_child C s c \<and> (\<exists>e. snd (ch_stop C (the (dict_get (children s) c))) = Inl e)"

text \<open>Everything of a supervisor that stopping children leaves alone.\<close>

definition same_but_children :: "'c supervisor \<Rightarrow> 'c supervisor \<Rightarrow> bool" where
  "same_but_children s s' \<longleftrightarrow>
     s'\<lparr>children := [], tasks := [], sup_out := []\<rparr> = s\<lparr>children := [], tasks := [], sup_out := []\<rparr>"

lemma same_but_children_cong:
  "same_but_children s s' \<Longrightarrow>
     f (s'\<lparr>children := [], tasks := [], sup_out := []\<rparr>) = f (s\<lparr>children := [], tasks := [], sup_out := []\<rparr>)"
  by (simp add: same_but_children_def)

lemma same_but_children_fields:
  assumes "same_but_children s s'"
  shows "supervisor_id s' = supervisor_id s" "sup_strategy s' = sup_strategy s" "child_specs s' = child_specs s"
    "has_parent s' = has_parent s" "has_on_escalation s' = has_on_escalation s"
    "sup_tracker s' = sup_tracker s" "bulk_detector_of s' = bulk_detector_of s" "restarting s' = restarting s"
    "sup_state s' = sup_state s" "has_signal_router s' = has_signal_router s"
    "delegation_tracker_of s' = delegation_tracker_of s" "delegated_children s' = delegated_children s"
  using same_but_children_cong [OF assms, of supervisor_id] same_but_children_cong [OF assms, of sup_strategy]
    same_but_children_cong [OF assms, of child_specs] same_but_children_cong [OF assms, of has_parent]
    same_but_children_cong [OF assms, of has_on_escalation] same_but_children_cong [OF assms, of sup_tracker]
    same_but_children_cong [OF assms, of bulk_detector_of] same_but_children_cong [OF assms, of restarting]
    same_but_children_cong [OF assms, of sup_state] same_but_children_cong [OF assms, of has_signal_router]
    same_but_children_cong [OF assms, of delegation_tracker_of]
    same_but_children_cong [OF assms, of delegated_children]
  by simp_all

lemma same_but_children_refl [simp]: "same_but_children s s"
  by (simp add: same_but_children_def)

lemma same_but_children_upd [simp]:
  "same_but_children s (s'\<lparr>tasks := ts\<rparr>) = same_but_children s s'"
  "same_but_children s (emit a s') = same_but_children s s'"
  "same_but_children s (s'\<lparr>children := ch\<rparr>) = same_but_children s s'"
  "same_but_children (s\<lparr>tasks := ts\<rparr>) s' = same_but_children s s'"
  by (simp_all add: same_but_children_def emit_def)

lemma same_but_children_trans:
  "same_but_children s s' \<Longrightarrow> same_but_children s' s'' \<Longrightarrow> same_but_children s s''"
  by (simp add: same_but_children_def)

lemma stop_child_result:
  "\<exists>s' r. stop_child C c s = (s', r) \<and> same_but_children s s' \<and> tasks s' = tasks s
    \<and> ((\<exists>e. r = Inl e) \<longleftrightarrow> stop_raises C s c)
    \<and> sup_out s' = sup_out s @ (if active_child C s c then [StopChild c] else [])
    \<and> dict_get (children s') = (dict_get (children s))(c := map_option (stopped_child C) (dict_get (children s) c))"
proof (cases "active_child C s c")
  case False
  then have "stop_child C c s = (s, Inr ())"
    by (auto simp: stop_child_def active_child_def split: option.splits)
  moreover have "map_option (stopped_child C) (dict_get (children s) c) = dict_get (children s) c"
    using False by (auto simp: active_child_def stopped_child_def split: option.splits)
  ultimately show ?thesis using False by (auto simp: stop_raises_def)
next
  case True
  then obtain child where child: "dict_get (children s) c = Some child" "ch_state C child \<notin> set inactive_states"
    by (auto simp: active_child_def split: option.splits)
  obtain child' r where r: "ch_stop C child = (child', r)" by force
  have "stop_child C c s = (emit (StopChild c) (s\<lparr>children := dict_set (children s) c child'\<rparr>), r)"
    using child r by (simp add: stop_child_def)
  with True child r show ?thesis
    by (auto simp: stop_raises_def stopped_child_def dict_get_set fun_eq_iff)
      (simp_all add: emit_def dict_get_set)
qed

text \<open>Stopping the children of a list of specifications with distinct identifiers, in order.\<close>

lemma stop_children_frame:
  assumes "\<forall>c \<in> set cs. dict_get (children s') c = dict_get (children s) c"
  shows "filter (active_child C s') cs = filter (active_child C s) cs"
    "(\<exists>c \<in> set cs. stop_raises C s' c) = (\<exists>c \<in> set cs. stop_raises C s c)"
  using assms by (auto simp: active_child_def stop_raises_def intro!: filter_cong)

lemma stop_and_cancel_result:
  assumes "distinct (map child_id specs)" "\<not> (\<exists>c \<in> child_id ` set specs. stop_raises C s c)"
  shows "\<exists>s'. stop_and_cancel C specs s = (s', Inr ()) \<and> same_but_children s s'
    \<and> tasks s' = filter (\<lambda>t. t \<notin> child_id ` set specs) (tasks s)
    \<and> sup_out s' = sup_out s @ map StopChild (filter (active_child C s) (map child_id specs))
    \<and> (\<forall>c. dict_get (children s') c = (if c \<in> child_id ` set specs
          then map_option (stopped_child C) (dict_get (children s) c) else dict_get (children s) c))"
  using assms
proof (induction specs arbitrary: s)
  case (Cons spec specs)
  let ?c = "child_id spec"
  obtain s1 r where s1: "stop_child C ?c s = (s1, r)" "same_but_children s s1" "tasks s1 = tasks s"
    "(\<exists>e. r = Inl e) \<longleftrightarrow> stop_raises C s ?c"
    "sup_out s1 = sup_out s @ (if active_child C s ?c then [StopChild ?c] else [])"
    "dict_get (children s1) = (dict_get (children s))(?c := map_option (stopped_child C) (dict_get (children s) ?c))"
    using stop_child_result [of C ?c s] by blast
  then have r: "r = Inr ()" using Cons.prems(2) by (cases r) auto
  let ?s1 = "s1\<lparr>tasks := removeAll ?c (tasks s1)\<rparr>"
  have "\<forall>c \<in> set (map child_id specs). dict_get (children ?s1) c = dict_get (children s) c"
    using Cons.prems(1) s1(6) by (auto simp: image_iff)
  from stop_children_frame [OF this, of C]
  have fr: "filter (active_child C ?s1) (map child_id specs) = filter (active_child C s) (map child_id specs)"
    "\<not> (\<exists>c \<in> child_id ` set specs. stop_raises C ?s1 c)"
    using Cons.prems(2) by auto
  obtain s' where s': "stop_and_cancel C specs ?s1 = (s', Inr ())" "same_but_children ?s1 s'"
    "tasks s' = filter (\<lambda>t. t \<notin> child_id ` set specs) (removeAll ?c (tasks s))"
    "sup_out s' = sup_out s1 @ map StopChild (filter (active_child C ?s1) (map child_id specs))"
    "\<forall>c. dict_get (children s') c = (if c \<in> child_id ` set specs
          then map_option (stopped_child C) (dict_get (children ?s1) c) else dict_get (children ?s1) c)"
    using Cons.IH [of ?s1] Cons.prems(1) fr(2) s1(3) by auto
  have sbc: "same_but_children s s'"
    using same_but_children_trans [OF s1(2)] s'(2) by simp
  have ts: "tasks s' = filter (\<lambda>t. t \<notin> child_id ` set (spec # specs)) (tasks s)"
    by (simp add: s'(3) removeAll_filter_not_eq conj_commute) (metis)
  have ch: "dict_get (children s') c = (if c \<in> child_id ` set (spec # specs)
      then map_option (stopped_child C) (dict_get (children s) c) else dict_get (children s) c)" for c
    using s'(5) s1(6) Cons.prems(1) by auto
  show ?case using s1(1,5) r s'(1,4) sbc ts ch fr(1) by simp
qed simp

lemma stop_all_quietly_result:
  assumes "distinct (map child_id specs)"
  shows "same_but_children s (stop_all_quietly C False specs s)
    \<and> sup_out (stop_all_quietly C False specs s)
        = sup_out s @ map StopChild (filter (active_child C s) (map child_id specs))
    \<and> (\<forall>c. dict_get (children (stop_all_quietly C False specs s)) c = (if c \<in> child_id ` set specs
          then map_option (stopped_child C) (dict_get (children s) c) else dict_get (children s) c))"
  using assms
proof (induction specs arbitrary: s)
  case (Cons spec specs)
  let ?c = "child_id spec"
  obtain s1 r where s1: "stop_child C ?c s = (s1, r)" "same_but_children s s1"
    "sup_out s1 = sup_out s @ (if active_child C s ?c then [StopChild ?c] else [])"
    "dict_get (children s1) = (dict_get (children s))(?c := map_option (stopped_child C) (dict_get (children s) ?c))"
    using stop_child_result [of C ?c s] by blast
  have "\<forall>c \<in> set (map child_id specs). dict_get (children s1) c = dict_get (children s) c"
    using Cons.prems s1(4) by (auto simp: image_iff)
  from stop_children_frame(1) [OF this, of C]
  have fr: "filter (active_child C s1) (map child_id specs) = filter (active_child C s) (map child_id specs)" .
  have IH: "same_but_children s1 (stop_all_quietly C False specs s1)"
    "sup_out (stop_all_quietly C False specs s1)
        = sup_out s1 @ map StopChild (filter (active_child C s1) (map child_id specs))"
    "\<forall>c. dict_get (children (stop_all_quietly C False specs s1)) c = (if c \<in> child_id ` set specs
          then map_option (stopped_child C) (dict_get (children s1) c) else dict_get (children s1) c)"
    using Cons.IH [of s1] Cons.prems by auto
  have "stop_all_quietly C False (spec # specs) s = stop_all_quietly C False specs s1"
    using s1(1) by simp
  with s1 fr IH same_but_children_trans [OF s1(2) IH(1)] Cons.prems show ?case by auto
qed simp

section \<open>What a restart strategy restarts\<close>

text \<open>The specifications a failure affects under each strategy, in specification order.\<close>

definition affected :: "agent_id \<Rightarrow> 'c supervisor \<Rightarrow> child_spec list" where
  "affected failed s =
     (case sup_strategy s of
        ONE_FOR_ONE \<Rightarrow> filter (\<lambda>spec. child_id spec = failed) (child_specs s)
      | ALL_FOR_ONE \<Rightarrow> child_specs s
      | REST_FOR_ONE \<Rightarrow> dropWhile (\<lambda>spec. child_id spec \<noteq> failed) (child_specs s))"

lemma specs_from_dropWhile:
  "c \<in> child_id ` set specs \<Longrightarrow> specs_from c specs = Some (dropWhile (\<lambda>spec. child_id spec \<noteq> c) specs)"
  by (induction specs) auto

lemma find_filter_distinct:
  "distinct (map child_id specs) \<Longrightarrow> c \<in> child_id ` set specs \<Longrightarrow>
     \<exists>spec. find (\<lambda>x. child_id x = c) specs = Some spec \<and> filter (\<lambda>x. child_id x = c) specs = [spec]
       \<and> child_id spec = c"
proof (induction specs)
  case (Cons x xs)
  then show ?case by (cases "child_id x = c") (auto simp: filter_empty_conv image_iff)
qed simp

lemma distinct_affected:
  "distinct (map child_id (child_specs s)) \<Longrightarrow> distinct (map child_id (affected failed s))"
  by (cases "sup_strategy s")
    (auto simp: affected_def distinct_map dest: set_dropWhileD elim!: inj_on_subset)

lemma restart_specs_result:
  assumes "distinct (map child_id specs)" "\<not> (\<exists>c \<in> child_id ` set specs. stop_raises C s c)"
  shows "\<exists>s1. restart_specs C start specs s
      = (let (s', r) = start_specs start specs s1 in (s'\<lparr>restarting := False\<rparr>, r))
    \<and> same_but_children (s\<lparr>restarting := True\<rparr>) s1
    \<and> sup_out s1 = sup_out s @ map StopChild (rev (filter (active_child C s) (map child_id specs)))
    \<and> (\<forall>c. dict_get (children s1) c = (if c \<in> child_id ` set specs
          then map_option (stopped_child C) (dict_get (children s) c) else dict_get (children s) c))"
proof -
  let ?s = "s\<lparr>restarting := True\<rparr>"
  have "active_child C ?s = active_child C s" "stop_raises C ?s = stop_raises C s"
    by (auto simp: active_child_def stop_raises_def fun_eq_iff)
  then show ?thesis
    using stop_and_cancel_result [of "rev specs" C ?s] assms
    by (fastforce simp: restart_specs_def Let_def rev_map [symmetric] rev_filter)
qed

text \<open>
  C6. Restart strategies. When a failure of a supervised child is to be handled by the
  strategy and none of the affected children refuses to stop, the supervisor first stops
  the affected children that are not down already, in reverse order of the
  specifications, and then starts the affected specifications in order: the failed one
  under one-for-one, all under all-for-one, the failed one and those after it under
  rest-for-one. No other child is stopped or changed, and everything else the supervisor
  knows is as before when the starting begins.
\<close>

theorem strategy_restarts_affected:
  assumes "distinct (map child_id (child_specs s))" and "failed \<in> child_id ` set (child_specs s)"
    and "\<not> (\<exists>c \<in> child_id ` set (affected failed s). stop_raises C s c)"
  shows "\<exists>s1. dispatch_strategy C start failed s
      = (if sup_strategy s = ONE_FOR_ONE then start_specs start (affected failed s) s1
         else let (s', r) = start_specs start (affected failed s) s1 in (s'\<lparr>restarting := False\<rparr>, r))
    \<and> same_but_children (s\<lparr>restarting := sup_strategy s \<noteq> ONE_FOR_ONE \<or> restarting s\<rparr>) s1
    \<and> sup_out s1 = sup_out s
        @ map StopChild (rev (filter (active_child C s) (map child_id (affected failed s))))
    \<and> (\<forall>c. dict_get (children s1) c = (if c \<in> child_id ` set (affected failed s)
          then map_option (stopped_child C) (dict_get (children s) c) else dict_get (children s) c))"
proof (cases "sup_strategy s")
  case ONE_FOR_ONE
  obtain spec where spec: "get_spec failed s = Some spec" "affected failed s = [spec]" "child_id spec = failed"
    using find_filter_distinct [OF assms(1,2)] ONE_FOR_ONE by (auto simp: get_spec_def affected_def)
  obtain s1 r where s1: "stop_child C failed s = (s1, r)" "same_but_children s s1"
    "(\<exists>e. r = Inl e) \<longleftrightarrow> stop_raises C s failed"
    "sup_out s1 = sup_out s @ (if active_child C s failed then [StopChild failed] else [])"
    "dict_get (children s1) = (dict_get (children s))(failed := map_option (stopped_child C) (dict_get (children s) failed))"
    using stop_child_result [of C failed s] by blast
  have "r = Inr ()" using assms(3) spec s1(3) by (cases r) auto
  then have "dispatch_strategy C start failed s = start_specs start [spec] s1"
    using ONE_FOR_ONE spec s1(1)
    by (cases "start spec s1") (auto simp: dispatch_strategy_def restart_one_def split: sum.splits)
  moreover have "same_but_children (s\<lparr>restarting := restarting s\<rparr>) s1" using s1(2) by simp
  moreover have "\<forall>c. dict_get (children s1) c = (if c = failed
      then map_option (stopped_child C) (dict_get (children s) c) else dict_get (children s) c)"
    using s1(5) by simp
  ultimately show ?thesis
    using s1(4) spec ONE_FOR_ONE by (intro exI [of _ s1] conjI) simp_all
next
  case ALL_FOR_ONE
  then show ?thesis
    using restart_specs_result [OF distinct_affected [OF assms(1)] assms(3), of start]
    by (simp add: dispatch_strategy_def restart_all_def affected_def)
next
  case REST_FOR_ONE
  then show ?thesis
    using restart_specs_result [OF distinct_affected [OF assms(1)] assms(3), of start]
      specs_from_dropWhile [OF assms(2)]
    by (simp add: dispatch_strategy_def restart_rest_def affected_def)
qed

section \<open>Restart intensity of a supervisor\<close>

text \<open>Whether a failure gets past the outage check and the policies to the restart budget.\<close>

definition reaches_budget :: "'c child_class \<Rightarrow> agent_id \<Rightarrow> seconds \<times> seconds \<Rightarrow> 'c supervisor \<Rightarrow> bool" where
  "reaches_budget C failed bt s \<longleftrightarrow>
     (case bulk_detector_of s of
        None \<Rightarrow> True
      | Some d \<Rightarrow> \<not> is_in_backoff d \<and> \<not> fst (record_failure failed (fst bt) (snd bt) d)) \<and>
     (case (get_spec failed s, dict_get (children s) failed) of
        (Some spec, Some child) \<Rightarrow>
          cs_restart_policy spec = PERMANENT
          \<or> (cs_restart_policy spec = TRANSIENT \<and> ch_state C child = ''errored'')
      | _ \<Rightarrow> False)"

text \<open>A failure as a request to restart: is a restart dispatched, and the supervisor afterwards.\<close>

definition restart_grant :: "'c child_class \<Rightarrow> 'c start_method \<Rightarrow> 'c supervisor \<Rightarrow> agent_id \<times> seconds \<times> seconds
    \<Rightarrow> seconds \<Rightarrow> seconds \<Rightarrow> bool \<times> 'c supervisor" where
  "restart_grant C start s e a b =
     (reaches_budget C (fst e) (snd e) s \<and> fst (allow_restart a b (sup_tracker s)),
      fst (handle_child_failure C start (fst e) (snd e) (a, b) s))"

text \<open>What a supervisor relies on in the method that starts a child.\<close>

locale child_starter =
  fixes start :: "'c start_method"
  assumes start_tracker: "sup_tracker (fst (start spec s)) = sup_tracker s"
    and start_bulk: "bulk_detector_of (fst (start spec s)) = bulk_detector_of s"
    and start_resets: "ScheduleReset b \<in> set (sup_out (fst (start spec s))) \<Longrightarrow> ScheduleReset b \<in> set (sup_out s)"
begin

lemma start_specs_keeps:
  "sup_tracker (fst (start_specs start specs s)) = sup_tracker s
   \<and> bulk_detector_of (fst (start_specs start specs s)) = bulk_detector_of s
   \<and> (\<forall>b. ScheduleReset b \<in> set (sup_out (fst (start_specs start specs s))) \<longrightarrow> ScheduleReset b \<in> set (sup_out s))"
proof (induction specs arbitrary: s)
  case (Cons spec specs)
  obtain s' r where r: "start spec s = (s', r)" by force
  have "sup_tracker s' = sup_tracker s" "bulk_detector_of s' = bulk_detector_of s"
    "\<And>b. ScheduleReset b \<in> set (sup_out s') \<Longrightarrow> ScheduleReset b \<in> set (sup_out s)"
    using start_tracker [of spec s] start_bulk [of spec s] start_resets [of _ spec s] r by auto
  with Cons.IH [of s'] r show ?case by (auto split: sum.splits)
qed simp

end

interpretation base: child_starter start_child
  by unfold_locales (simp_all add: start_child_def)

text \<open>
  The parts of a supervisor that stopping children cannot change, with the scheduled
  resets it has announced.
\<close>

definition keeps :: "'c supervisor \<Rightarrow> 'c supervisor \<Rightarrow> bool" where
  "keeps s s' \<longleftrightarrow> sup_tracker s' = sup_tracker s \<and> bulk_detector_of s' = bulk_detector_of s
     \<and> (\<forall>b. ScheduleReset b \<in> set (sup_out s') \<longrightarrow> ScheduleReset b \<in> set (sup_out s))"

lemma keeps_refl [simp]: "keeps s s"
  by (simp add: keeps_def)

lemma keeps_trans: "keeps s s' \<Longrightarrow> keeps s' s'' \<Longrightarrow> keeps s s''"
  by (auto simp: keeps_def)

lemma keeps_upd [simp]:
  "keeps s (s'\<lparr>tasks := ts\<rparr>) = keeps s s'" "keeps (s\<lparr>tasks := ts\<rparr>) s' = keeps s s'"
  "keeps s (s'\<lparr>restarting := v\<rparr>) = keeps s s'" "keeps (s\<lparr>restarting := v\<rparr>) s' = keeps s s'"
  "keeps s (s'\<lparr>sup_state := st\<rparr>) = keeps s s'"
  "keeps s (s'\<lparr>child_specs := specs\<rparr>) = keeps s s'" "keeps (s\<lparr>child_specs := specs\<rparr>) s' = keeps s s'"
  by (simp_all add: keeps_def)

lemma keeps_stop_child: "keeps s (fst (stop_child C c s))"
proof -
  obtain s' r where "stop_child C c s = (s', r)" "same_but_children s s'"
    "sup_out s' = sup_out s @ (if active_child C s c then [StopChild c] else [])"
    using stop_child_result [of C c s] by blast
  then show ?thesis by (auto simp: keeps_def same_but_children_fields)
qed

lemma keeps_stop_and_cancel: "keeps s (fst (stop_and_cancel C specs s))"
proof (induction specs arbitrary: s)
  case (Cons spec specs)
  obtain s' r where r: "stop_child C (child_id spec) s = (s', r)" by force
  with keeps_stop_child [of s C "child_id spec"] have "keeps s s'" by simp
  with Cons.IH [of "s'\<lparr>tasks := removeAll (child_id spec) (tasks s')\<rparr>"] keeps_trans r
  show ?case by (cases r) auto
qed simp

lemma keeps_emit [simp]: "(\<And>b. a \<noteq> ScheduleReset b) \<Longrightarrow> keeps s (emit a s') = keeps s s'"
  by (auto simp: keeps_def emit_def)

lemma keeps_stop_all_quietly: "keeps s (stop_all_quietly C u specs s)"
proof (induction specs arbitrary: s)
  case (Cons spec specs)
  let ?s = "if u \<and> has_signal_router s then emit (SignalUnregister (child_id spec)) s else s"
  have "keeps s ?s" by simp
  with keeps_stop_child [of ?s C "child_id spec"] Cons.IH keeps_trans show ?case
    by (metis stop_all_quietly.simps(2))
qed simp

lemma keeps_escalate: "keeps s (sup_escalate C s)"
proof -
  let ?s = "(stop_all_quietly C False (rev (child_specs s)) (s\<lparr>restarting := True\<rparr>))\<lparr>tasks := [],
      restarting := False, sup_state := ''stopped''\<rparr>"
  have "keeps s ?s"
    using keeps_stop_all_quietly [of "s\<lparr>restarting := True\<rparr>" C False "rev (child_specs s)"] by simp
  then show ?thesis by (simp add: sup_escalate_def Let_def)
qed

lemma enter_global_backoff_tracker [simp]: "sup_tracker (enter_global_backoff s) = sup_tracker s"
  by (simp add: enter_global_backoff_def emit_def Let_def split: option.splits)

context child_starter
begin

lemma keeps_start: "keeps s (fst (start spec s))"
  using start_tracker start_bulk start_resets by (auto simp: keeps_def)

lemma keeps_start_specs: "keeps s (fst (start_specs start specs s))"
  using start_specs_keeps [of specs s] by (simp add: keeps_def)

lemma keeps_restart_specs: "keeps s (fst (restart_specs C start specs s))"
proof -
  obtain s1 r where s1: "stop_and_cancel C (rev specs) (s\<lparr>restarting := True\<rparr>) = (s1, r)" by force
  then have k: "keeps s s1"
    using keeps_stop_and_cancel [of "s\<lparr>restarting := True\<rparr>" C "rev specs"] by simp
  then show ?thesis
    using s1 keeps_trans [OF k keeps_start_specs [of s1 specs]]
    by (cases r) (auto simp: restart_specs_def case_prod_beta)
qed

lemma keeps_dispatch: "keeps s (fst (dispatch_strategy C start failed s))"
proof -
  obtain s1 r where s1: "stop_child C failed s = (s1, r)" by force
  then have k: "keeps s s1" using keeps_stop_child [of s C failed] by simp
  then have "keeps s (fst (restart_one C start failed s))"
    using s1 keeps_trans [OF k keeps_start [of s1]]
    by (cases r) (auto simp: restart_one_def split: option.splits)
  then show ?thesis
    by (auto simp: dispatch_strategy_def restart_all_def restart_rest_def keeps_restart_specs
        split: restart_strategy.splits option.splits)
qed

lemma handle_failure_tracker:
  "sup_tracker (fst (handle_child_failure C start failed bt rt s))
    = (if reaches_budget C failed bt s then snd (allow_restart (fst rt) (snd rt) (sup_tracker s)) else sup_tracker s)"
proof -
  have ap: "sup_tracker (fst (apply_policy C start failed (fst rt) (snd rt) s'))
      = (if case (get_spec failed s', dict_get (children s') failed) of
            (Some spec, Some child) \<Rightarrow> cs_restart_policy spec = PERMANENT
              \<or> (cs_restart_policy spec = TRANSIENT \<and> ch_state C child = ''errored'') | _ \<Rightarrow> False
         then snd (allow_restart (fst rt) (snd rt) (sup_tracker s')) else sup_tracker s')" for s'
  proof -
    have "sup_tracker (sup_escalate C (s'\<lparr>sup_tracker := t\<rparr>)) = t"
      "sup_tracker (fst (dispatch_strategy C start failed (s'\<lparr>sup_tracker := t\<rparr>))) = t" for t
      using keeps_escalate [of "s'\<lparr>sup_tracker := t\<rparr>" C] keeps_dispatch [of "s'\<lparr>sup_tracker := t\<rparr>" C failed]
      by (simp_all add: keeps_def)
    then show ?thesis
      by (auto simp: apply_policy_def split: option.splits prod.splits bool.splits restart_policy.splits)
        (metis (full_types) restart_policy.exhaust)+
  qed
  show ?thesis
    by (auto simp: handle_child_failure_def reaches_budget_def ap get_spec_def case_prod_beta Let_def
        split: option.splits)
qed

end

sublocale child_starter \<subseteq> sv: window_limiter
  "restart_grant C start" "\<lambda>s. timestamps (sup_tracker s)" "\<lambda>c s. rt_ok m w c (sup_tracker s)"
  "in_window w" "nat m" for C m w
proof (unfold_locales, goal_cases)
  case (1 a a' u)
  then show ?case by simp
next
  case (2 u u' a)
  then show ?case by simp
next
  case (3 c s a b e s')
  then show ?case
    using rt.granted_below_limit [OF 3(1-3)] by (cases "allow_restart a b (sup_tracker s)") (auto simp: restart_grant_def)
next
  case (4 c s a b e s')
  then show ?case
    using rt.stamps_granted [OF 4(1-3)] handle_failure_tracker [of C "fst e" "snd e" "(a, b)" s]
    by (cases "allow_restart a b (sup_tracker s)") (auto simp: restart_grant_def)
next
  case (5 c s a b e s')
  then show ?case
    using rt.stamps_denied [OF 5(1-3)] handle_failure_tracker [of C "fst e" "snd e" "(a, b)" s]
    by (cases "allow_restart a b (sup_tracker s)") (auto simp: restart_grant_def)
next
  case (6 c s a b e r s')
  have "rt_ok m w b (sup_tracker s)" using 6(1-3) by (auto simp: rt_ok_def)
  then show ?case
    using 6(4) rt.ok_grant [OF 6(1-3)] handle_failure_tracker [of C "fst e" "snd e" "(a, b)" s]
    by (cases "allow_restart a b (sup_tracker s)") (auto simp: restart_grant_def)
qed

context child_starter
begin

lemma restarts_spaced:
  assumes "monotonic_from c evs" "sup_tracker s = new_restart_tracker m w"
  shows "spaced (in_window w) (nat m) (granted (restart_grant C start) s evs)"
  by (rule sv.granted_spaced [OF assms(1)]) (simp_all add: rt_ok_def new_restart_tracker_def assms(2))

end

text \<open>
  Restart intensity of a supervisor. Take any supervisor with no restart recorded
  and a restart budget of \<open>m\<close> in \<open>w\<close> seconds, and any sequence of child failures at
  times that never go back. Count a failure when the supervisor hands it to its restart
  strategy (not when it is held back by an outage, by the child's policy or by the
  budget). Of every \<open>m + 1\<close> consecutive ones, the last comes more than \<open>w\<close> seconds after
  the first. The method that starts children is only assumed to leave the budget, the
  outage detector and the announced resets alone.
\<close>

theorem supervisor_restart_intensity:
  assumes "\<And>spec s. sup_tracker (fst (start spec s)) = sup_tracker s"
    and "\<And>spec s. bulk_detector_of (fst (start spec s)) = bulk_detector_of s"
    and "\<And>b spec s. ScheduleReset b \<in> set (sup_out (fst (start spec s))) \<Longrightarrow> ScheduleReset b \<in> set (sup_out s)"
    and "sup_tracker s = new_restart_tracker m w" and "monotonic_from c evs"
    and "gs = granted (restart_grant C start) s evs" and "i + nat m < length gs"
  shows "gs ! i + of_int w < gs ! (i + nat m)"
proof -
  have cs: "child_starter start" by (unfold_locales) (fact assms)+
  have "spaced (in_window w) (nat m) gs"
    using child_starter.restarts_spaced [OF cs assms(5,4)] assms(6) by blast
  with assms(7) show ?thesis by (fastforce simp: spaced_def)
qed

section \<open>Escalation\<close>

lemma handle_failure_at_budget:
  assumes "reaches_budget C failed bt s"
  shows "\<exists>s0. (s0 = s \<or> (\<exists>d. s0 = s\<lparr>bulk_detector_of := d\<rparr>)) \<and> handle_child_failure C start failed bt (a, b) s =
    (case allow_restart a b (sup_tracker s) of
       (False, rt) \<Rightarrow> (sup_escalate C (s0\<lparr>sup_tracker := rt\<rparr>), Inr ())
     | (True, rt) \<Rightarrow> dispatch_strategy C start failed (s0\<lparr>sup_tracker := rt\<rparr>))"
proof -
  have ap: "apply_policy C start failed a b s' =
      (case allow_restart a b (sup_tracker s') of
         (False, rt) \<Rightarrow> (sup_escalate C (s'\<lparr>sup_tracker := rt\<rparr>), Inr ())
       | (True, rt) \<Rightarrow> dispatch_strategy C start failed (s'\<lparr>sup_tracker := rt\<rparr>))"
    if "s' = s \<or> (\<exists>d. s' = s\<lparr>bulk_detector_of := d\<rparr>)" for s'
    using assms that by (auto simp: apply_policy_def reaches_budget_def get_spec_def split: option.splits)
  show ?thesis
  proof (cases "bulk_detector_of s")
    case None
    with ap [of s] show ?thesis
      by (intro exI [of _ s]) (simp add: handle_child_failure_def)
  next
    case (Some d)
    obtain o' d' where "record_failure failed (fst bt) (snd bt) d = (o', d')" by force
    with Some assms ap [of "s\<lparr>bulk_detector_of := Some d'\<rparr>"] show ?thesis
      by (intro exI [of _ "s\<lparr>bulk_detector_of := Some d'\<rparr>"])
        (auto simp: handle_child_failure_def reaches_budget_def)
  qed
qed

text \<open>
  Escalation. When a failure reaches the restart budget and the budget is spent, the
  supervisor stops every child that is not down already, in reverse order and whatever
  their stops raise, drops its monitor tasks, is stopped, and escalates exactly once: to
  its parent if it has one, otherwise to its callback if it has one. It does not raise.
\<close>

theorem spent_budget_escalates:
  assumes "distinct (map child_id (child_specs s))" and "reaches_budget C failed bt s"
    and "allow_restart a b (sup_tracker s) = (False, rt)"
  shows "\<exists>s'. handle_child_failure C start failed bt (a, b) s = (s', Inr ())
    \<and> sup_state s' = ''stopped'' \<and> tasks s' = [] \<and> \<not> restarting s' \<and> sup_tracker s' = rt
    \<and> sup_out s' = sup_out s
        @ map StopChild (rev (filter (active_child C s) (map child_id (child_specs s))))
        @ (if has_parent s then [EscalateToParent (supervisor_id s)]
           else if has_on_escalation s then
             [EscalationCallback (''ESCALATION: Supervisor '' @ supervisor_id s
                @ '' exceeded restart limits. Manual intervention required.'')]
           else [])
    \<and> (\<forall>c \<in> child_id ` set (child_specs s).
         dict_get (children s') c = map_option (stopped_child C) (dict_get (children s) c))"
proof -
  obtain s0 where s0: "s0 = s \<or> (\<exists>d. s0 = s\<lparr>bulk_detector_of := d\<rparr>)"
    and h0: "handle_child_failure C start failed bt (a, b) s = (sup_escalate C (s0\<lparr>sup_tracker := rt\<rparr>), Inr ())"
    using handle_failure_at_budget [OF assms(2), of start a b] assms(3) by auto
  from s0 have "s0 = s\<lparr>bulk_detector_of := bulk_detector_of s0\<rparr>" by auto
  then obtain d where d: "s0 = s\<lparr>bulk_detector_of := d\<rparr>" by blast
  note h = h0 [unfolded d]
  let ?s = "s\<lparr>bulk_detector_of := d, sup_tracker := rt, restarting := True\<rparr>"
  let ?q = "stop_all_quietly C False (rev (child_specs s)) ?s"
  have ac: "active_child C ?s = active_child C s" by (simp add: active_child_def fun_eq_iff)
  have q: "same_but_children ?s ?q"
    "sup_out ?q = sup_out s @ map StopChild (rev (filter (active_child C s) (map child_id (child_specs s))))"
    "\<forall>c. dict_get (children ?q) c = (if c \<in> child_id ` set (child_specs s)
        then map_option (stopped_child C) (dict_get (children s) c) else dict_get (children s) c)"
    using stop_all_quietly_result [of "rev (child_specs s)" ?s C] assms(1)
    by (simp_all add: ac rev_map [symmetric] rev_filter)
  note f = same_but_children_fields [OF q(1)]
  show ?thesis
    using q f by (simp add: h sup_escalate_def emit_def)
qed

section \<open>Outages\<close>

definition fail_step :: "'c child_class \<Rightarrow> 'c start_method \<Rightarrow> agent_id \<times> (seconds \<times> seconds) \<times> (seconds \<times> seconds)
    \<Rightarrow> 'c supervisor \<Rightarrow> 'c supervisor" where
  "fail_step C start e s = (case e of (c, bt, rt) \<Rightarrow> fst (handle_child_failure C start c bt rt s))"

lemma record_failure_True_backoff: "fst (record_failure k a b d) \<Longrightarrow> in_backoff (snd (record_failure k a b d))"
  by (auto simp: record_failure_def Let_def split: if_splits)

lemma record_failure_backoffs [simp]:
  "current_backoff (snd (record_failure k a b d)) = current_backoff d"
  "backoff_seconds (snd (record_failure k a b d)) = backoff_seconds d"
  by (simp_all add: record_failure_def purge_old_def Let_def)

text \<open>
  An outage suspends restarts. When a failure makes the detector report an outage,
  the supervisor stops nobody and spends none of its restart budget: it tells its
  callback, if it has one, and schedules the end of the backoff; every failure before
  that end leaves the supervisor exactly as it is; and afterwards the backoff is over.
\<close>

theorem outage_suspends_restarts:
  assumes "bulk_detector_of s = Some d" and "\<not> is_in_backoff d"
    and "fst (record_failure failed (fst bt) (snd bt) d)"
  shows "\<exists>s1. handle_child_failure C start failed bt rt s = (s1, Inr ())
    \<and> children s1 = children s \<and> sup_tracker s1 = sup_tracker s
    \<and> sup_out s1 = sup_out s
        @ (if has_on_escalation s then [OutageCallback (supervisor_id s) (current_backoff d)] else [])
        @ [ScheduleReset (current_backoff d)]
    \<and> fold (fail_step C start) later s1 = s1
    \<and> (\<exists>d'. bulk_detector_of (reset_after_backoff s1) = Some d' \<and> \<not> is_in_backoff d')"
proof -
  let ?d = "snd (record_failure failed (fst bt) (snd bt) d)"
  let ?s1 = "enter_global_backoff (s\<lparr>bulk_detector_of := Some ?d\<rparr>)"
  have h: "handle_child_failure C start failed bt rt s = (?s1, Inr ())"
    using assms by (simp add: handle_child_failure_def case_prod_beta)
  have b: "bulk_detector_of ?s1 = Some ?d" by (simp add: enter_global_backoff_def emit_def Let_def)
  have bo: "is_in_backoff ?d" using record_failure_True_backoff [OF assms(3)] by (simp add: is_in_backoff_def)
  have "fold (fail_step C start) later ?s1 = ?s1"
  proof (induction later)
    case (Cons e later)
    have "fail_step C start e ?s1 = ?s1"
      using b bo by (cases e) (simp add: fail_step_def handle_child_failure_def)
    with Cons show ?case by simp
  qed simp
  with h b show ?thesis
    by (simp add: enter_global_backoff_def emit_def Let_def reset_after_backoff_def reset_backoff_def is_in_backoff_def)
qed

definition constant_backoff :: "'c supervisor \<Rightarrow> bool" where
  "constant_backoff s \<longleftrightarrow>
     (case bulk_detector_of s of None \<Rightarrow> True | Some d \<Rightarrow> current_backoff d = 120 \<and> backoff_seconds d = 120)
     \<and> (\<forall>b. ScheduleReset b \<in> set (sup_out s) \<longrightarrow> b = 120)"

datatype outage_event = ChildFails agent_id "seconds \<times> seconds" "seconds \<times> seconds" | BackoffEnds

fun outage_step :: "'c child_class \<Rightarrow> 'c start_method \<Rightarrow> 'c supervisor \<Rightarrow> outage_event \<Rightarrow> 'c supervisor" where
  "outage_step C start s (ChildFails c bt rt) = fst (handle_child_failure C start c bt rt s)"
| "outage_step C start s BackoffEnds = reset_after_backoff s"

lemma constant_backoff_keeps: "keeps s s' \<Longrightarrow> constant_backoff s \<Longrightarrow> constant_backoff s'"
  by (auto simp: keeps_def constant_backoff_def)

lemma constant_backoff_upd:
  "constant_backoff (s\<lparr>sup_tracker := t\<rparr>) = constant_backoff s"
  "constant_backoff s \<Longrightarrow> bulk_detector_of s = Some d \<Longrightarrow>
     constant_backoff (s\<lparr>bulk_detector_of := Some (snd (record_failure k a b d))\<rparr>)"
  by (simp_all add: constant_backoff_def)

lemma constant_backoff_enter: "constant_backoff s \<Longrightarrow> constant_backoff (enter_global_backoff s)"
  by (auto simp: constant_backoff_def enter_global_backoff_def emit_def Let_def split: option.splits)

lemma constant_backoff_reset: "constant_backoff s \<Longrightarrow> constant_backoff (reset_after_backoff s)"
  by (auto simp: constant_backoff_def reset_after_backoff_def reset_backoff_def escalate_backoff_def
      split: option.splits)

context child_starter
begin

lemma constant_backoff_policy:
  assumes "constant_backoff s"
  shows "constant_backoff (fst (apply_policy C start failed a b s))"
proof -
  have "constant_backoff (sup_escalate C (s\<lparr>sup_tracker := t\<rparr>))"
    "constant_backoff (fst (dispatch_strategy C start failed (s\<lparr>sup_tracker := t\<rparr>)))" for t
    using assms constant_backoff_upd(1)
    by (metis constant_backoff_keeps keeps_escalate, metis constant_backoff_keeps keeps_dispatch)
  with assms show ?thesis
    by (auto simp: apply_policy_def split: option.splits prod.splits bool.splits)
qed

lemma constant_backoff_step: "constant_backoff s \<Longrightarrow> constant_backoff (outage_step C start s e)"
proof (cases e)
  case (ChildFails c bt rt)
  assume s: "constant_backoff s"
  show ?thesis
  proof (cases "bulk_detector_of s")
    case (Some d)
    let ?s = "s\<lparr>bulk_detector_of := Some (snd (record_failure c (fst bt) (snd bt) d))\<rparr>"
    have "constant_backoff ?s" using constant_backoff_upd(2) [OF s Some] .
    with s Some ChildFails constant_backoff_enter constant_backoff_policy show ?thesis
      by (auto simp: handle_child_failure_def case_prod_beta Let_def)
  qed (use ChildFails s in \<open>simp add: handle_child_failure_def constant_backoff_policy\<close>)
qed (simp add: constant_backoff_reset)

end

text \<open>
  The outage backoff never grows. The end of a backoff doubles the detector's
  backoff and then resets it, so every outage of a supervisor, however often they recur,
  gets the same initial backoff of 120 seconds; the configured growth up to 600 seconds
  does not happen.
\<close>

theorem outage_backoff_never_grows:
  assumes "\<And>spec s. sup_tracker (fst (start spec s)) = sup_tracker s"
    and "\<And>spec s. bulk_detector_of (fst (start spec s)) = bulk_detector_of s"
    and "\<And>b spec s. ScheduleReset b \<in> set (sup_out (fst (start spec s))) \<Longrightarrow> ScheduleReset b \<in> set (sup_out s)"
    and "ScheduleReset b \<in> set (sup_out (foldl (outage_step C start) (new_supervisor sid strat specs m w cfg pol) evs))"
  shows "b = 120"
proof -
  have cs: "child_starter start" by (unfold_locales) (fact assms)+
  have "constant_backoff (foldl (outage_step C start) s evs)" if "constant_backoff s" for s
    using that by (induction evs arbitrary: s) (auto simp: child_starter.constant_backoff_step [OF cs] simp del: outage_step.simps)
  moreover have "constant_backoff (new_supervisor sid strat specs m w cfg pol)"
    by (simp add: constant_backoff_def new_supervisor_def default_bulk_detector_def new_bulk_detector_def)
  ultimately show ?thesis using assms(4) unfolding constant_backoff_def by blast
qed

section \<open>The supervisor as the repository has it\<close>

datatype sup_op =
    OpStart
  | OpStop
  | OpFailure agent_id "seconds \<times> seconds" "seconds \<times> seconds"
  | OpCallback agent_id health_report
  | OpMonitor agent_id monitor_wake "seconds \<times> seconds" "seconds \<times> seconds"
  | OpDelegate "string \<Rightarrow> bool" "agent_types_config option" string seconds seconds delegation_request
  | OpAddSpec child_spec
  | OpRemove agent_id
  | OpBackoffEnds

fun sup_exec :: "'c child_class \<Rightarrow> sup_op \<Rightarrow> 'c supervisor \<Rightarrow> 'c supervisor" where
  "sup_exec C OpStart s = fst (sup_start start_child s)"
| "sup_exec C OpStop s = sup_stop C s"
| "sup_exec C (OpFailure c bt rt) s = fst (handle_child_failure C start_child c bt rt s)"
| "sup_exec C (OpCallback c r) s = state_change_callback c r s"
| "sup_exec C (OpMonitor c wk bt rt) s = fst (monitor_turn C start_child c wk bt rt s)"
| "sup_exec C (OpDelegate ma types hex t1 t2 req) s =
     fst (handle_delegation_request start_child ma types hex t1 t2 req s)"
| "sup_exec C (OpAddSpec spec) s = fst (add_child_spec start_child spec s)"
| "sup_exec C (OpRemove c) s = fst (remove_child C c s)"
| "sup_exec C OpBackoffEnds s = reset_after_backoff s"

text \<open>
  No child exists, none was ever stopped, no restart was recorded, and the delegation
  tracker, if the policy gives one, is as it was made.
\<close>

definition inert :: "delegation_policy option \<Rightarrow> 'c supervisor \<Rightarrow> bool" where
  "inert pol s \<longleftrightarrow> children s = [] \<and> delegated_children s = [] \<and> timestamps (sup_tracker s) = []
     \<and> delegation_tracker_of s = map_option new_delegation_tracker pol
     \<and> (\<forall>c. StopChild c \<notin> set (sup_out s) \<and> ErrorChild c \<notin> set (sup_out s))"

lemma inert_stop_child: "inert pol s \<Longrightarrow> stop_child C c s = (s, Inr ())"
  by (simp add: inert_def stop_child_def)

lemma inert_upd:
  "inert pol s \<Longrightarrow> inert pol (s\<lparr>restarting := v\<rparr>)" "inert pol s \<Longrightarrow> inert pol (s\<lparr>tasks := ts\<rparr>)"
  "inert pol s \<Longrightarrow> inert pol (s\<lparr>sup_state := st\<rparr>)" "inert pol s \<Longrightarrow> inert pol (s\<lparr>child_specs := specs\<rparr>)"
  "inert pol s \<Longrightarrow> inert pol (s\<lparr>bulk_detector_of := d\<rparr>)" "inert pol s \<Longrightarrow> inert pol (s\<lparr>health_reports := hs\<rparr>)"
  "inert pol s \<Longrightarrow> inert pol (s\<lparr>child_events := evs\<rparr>)"
  by (simp_all add: inert_def)

lemma inert_emit: "inert pol s \<Longrightarrow> (\<And>c. a \<noteq> StopChild c \<and> a \<noteq> ErrorChild c) \<Longrightarrow> inert pol (emit a s)"
  by (auto simp: inert_def emit_def)

lemma inert_stop_all: "inert pol s \<Longrightarrow> inert pol (stop_all_quietly C u specs s)"
proof (induction specs arbitrary: s)
  case (Cons spec specs)
  let ?s = "if u \<and> has_signal_router s then emit (SignalUnregister (child_id spec)) s else s"
  have "inert pol ?s" using Cons.prems by (simp add: inert_emit)
  with Cons.IH inert_stop_child show ?case by (metis fst_conv stop_all_quietly.simps(2))
qed simp

lemma inert_failure: "inert pol s \<Longrightarrow> inert pol (fst (handle_child_failure C start_child c bt rt s))"
proof -
  assume s: "inert pol s"
  have "apply_policy C start_child c a b s' = (s', Inr ())" if "inert pol s'" for a b s'
    using that by (auto simp: apply_policy_def inert_def split: option.splits)
  then show ?thesis
    using s inert_upd(5) [OF s]
    by (auto simp: handle_child_failure_def case_prod_beta Let_def enter_global_backoff_def inert_emit
        split: option.splits)
qed

lemma inert_step: "inert pol s \<Longrightarrow> inert pol (sup_exec C op s)"
proof (cases op)
  case OpStart
  assume "inert pol s"
  with OpStart show ?thesis
    by (cases "child_specs s") (simp_all add: sup_start_def start_child_def inert_upd)
next
  case OpStop
  assume "inert pol s"
  with OpStop show ?thesis by (simp add: sup_stop_def Let_def inert_upd inert_stop_all)
next
  case (OpFailure c bt rt)
  assume "inert pol s"
  with OpFailure show ?thesis by (simp add: inert_failure)
next
  case (OpCallback c r)
  assume s: "inert pol s"
  then have "dict_get (delegated_children s) c = None" by (simp add: inert_def)
  with s OpCallback show ?thesis
    by (simp add: state_change_callback_def Let_def inert_upd inert_emit)
next
  case (OpMonitor c wk bt rt)
  assume s: "inert pol s"
  then have "dict_get (children s) c = None" by (simp add: inert_def)
  with s OpMonitor show ?thesis by (cases wk) (simp_all add: monitor_turn_def Let_def inert_upd)
next
  case (OpDelegate ma types hex t1 t2 req)
  assume "inert pol s"
  with OpDelegate show ?thesis
    by (auto simp: handle_delegation_request_def start_child_def Let_def inert_upd
        split: option.splits prod.splits bool.splits sum.splits)
next
  case (OpAddSpec spec)
  assume "inert pol s"
  with OpAddSpec show ?thesis by (simp add: add_child_spec_def start_child_def inert_upd)
next
  case (OpRemove c)
  assume s: "inert pol s"
  with OpRemove show ?thesis by (simp add: remove_child_def inert_stop_child [OF s] inert_upd)
next
  case OpBackoffEnds
  assume "inert pol s"
  with OpBackoffEnds show ?thesis by (simp add: reset_after_backoff_def inert_upd)
qed

text \<open>
  C18. Without a child factory the supervisor is inert. With the method \<open>_start_child\<close>
  the repository has, no sequence of calls on a new supervisor (starts, stops, failures,
  health callbacks, monitor turns, delegation requests, added and removed
  specifications) gives it a child, stops or errors one, spends any restart budget or
  records a delegation: the delegation tracker stays as the constructor made it. Starting it with at least one specification raises, and a
  delegation request is never approved.
\<close>

theorem supervision_is_inert:
  "(let s = fold (sup_exec C) ops (new_supervisor sid strat specs m w cfg pol) in
    children s = [] \<and> delegated_children s = [] \<and> timestamps (sup_tracker s) = []
    \<and> delegation_tracker_of s = map_option new_delegation_tracker pol
    \<and> (\<forall>c. StopChild c \<notin> set (sup_out s) \<and> ErrorChild c \<notin> set (sup_out s))
    \<and> ((\<exists>u. snd (sup_start start_child s) = Inr u) = (child_specs s = []))
    \<and> (case snd (handle_delegation_request start_child ma types hex t1 t2 req s) of
         Inl e \<Rightarrow> True | Inr r \<Rightarrow> approved r = False))"
proof -
  let ?s = "fold (sup_exec C) ops (new_supervisor sid strat specs m w cfg pol)"
  have "inert pol (new_supervisor sid strat specs m w cfg pol)"
    by (simp add: inert_def new_supervisor_def new_restart_tracker_def)
  moreover have "inert pol s \<Longrightarrow> inert pol (fold (sup_exec C) ops s)" for s
    by (induction ops arbitrary: s) (auto simp del: sup_exec.simps intro: inert_step)
  ultimately have "inert pol ?s" by blast
  moreover have "(\<exists>u. snd (sup_start start_child ?s) = Inr u) = (child_specs ?s = [])"
    by (cases "child_specs ?s") (simp_all add: sup_start_def start_child_def)
  moreover have "case snd (handle_delegation_request start_child ma types hex t1 t2 req ?s) of
      Inl e \<Rightarrow> True | Inr r \<Rightarrow> approved r = False"
    by (auto simp: handle_delegation_request_def start_child_def rejected_def Let_def
        split: option.splits prod.splits bool.splits sum.splits)
  ultimately show ?thesis by (simp add: inert_def Let_def)
qed

section \<open>Witnesses\<close>

text \<open>Children that are just their state; a stop succeeds unless the child is stuck.\<close>

definition demo_child_class :: "string child_class" where
  "demo_child_class =
     \<lparr>ch_state = (\<lambda>c. c),
      ch_stop = (\<lambda>c. if c = ''stuck'' then (c, Inl (RuntimeError ''stuck'')) else (''stopped'', Inr ())),
      ch_is_alive = None, ch_error = (\<lambda>c. (''errored'', Inr ())),
      ch_health_report = (\<lambda>c. \<lparr>hr_agent_id = '''', hr_state = c, hr_inner_state = None, hr_uptime = 0,
        hr_last_heartbeat = 0, hr_error_count = 0, hr_last_activity = 0, hr_blocked_reason = None,
        hr_is_idle = None, hr_transport_type = None, hr_docker_container_id = None, hr_docker_image = None\<rparr>)\<rparr>"

definition demo_spec :: "agent_id \<Rightarrow> child_spec" where
  "demo_spec c = \<lparr>child_id = c, cs_agent_type = ''gsd'', cs_context = [], cs_restart_policy = PERMANENT,
     cs_max_restarts = 3, cs_restart_window_seconds = 600, cs_transport = ''local''\<rparr>"

definition demo_cfg :: sup_config where
  "demo_cfg = \<lparr>cfg_has_parent = False, cfg_has_on_escalation = True, cfg_has_on_health_change = False,
     cfg_has_signal_router = False\<rparr>"

definition demo_sup :: "restart_strategy \<Rightarrow> string supervisor" where
  "demo_sup strat =
     (new_supervisor ''project-p'' strat (map demo_spec [''a'', ''b'', ''c'']) 1 600 demo_cfg None)
       \<lparr>children := [(''a'', ''running''), (''b'', ''errored''), (''c'', ''running'')], sup_state := ''running'',
        bulk_detector_of := None\<rparr>"

lemmas demo_defs = demo_sup_def demo_child_class_def demo_spec_def demo_cfg_def new_supervisor_def

theorem strategy_restarts_affected_witness:
  "\<exists>s1. dispatch_strategy demo_child_class start_child ''b'' (demo_sup REST_FOR_ONE)
      = (let (s', r) = start_specs start_child [demo_spec ''b'', demo_spec ''c''] s1 in (s'\<lparr>restarting := False\<rparr>, r))
    \<and> sup_out s1 = [StopChild ''c'', StopChild ''b'']"
proof -
  have aff: "affected ''b'' (demo_sup REST_FOR_ONE) = [demo_spec ''b'', demo_spec ''c'']"
    by (simp add: affected_def demo_defs)
  have "distinct (map child_id (child_specs (demo_sup REST_FOR_ONE)))"
    "''b'' \<in> child_id ` set (child_specs (demo_sup REST_FOR_ONE))"
    "\<not> (\<exists>c \<in> child_id ` set (affected ''b'' (demo_sup REST_FOR_ONE)). stop_raises demo_child_class (demo_sup REST_FOR_ONE) c)"
    unfolding aff by (simp_all add: demo_defs stop_raises_def)
  from strategy_restarts_affected [OF this, of start_child] show ?thesis
    unfolding aff by (auto simp: demo_defs active_child_def inactive_states_def new_restart_tracker_def)
qed

theorem spent_budget_escalates_witness:
  "\<exists>s'. handle_child_failure demo_child_class start_child ''b'' (0, 0) (5, 5)
        ((demo_sup ONE_FOR_ONE)\<lparr>sup_tracker := \<lparr>max_restarts = 1, window_seconds = 600, timestamps = [0]\<rparr>\<rparr>) = (s', Inr ())
    \<and> sup_out s' = [StopChild ''c'', StopChild ''b'', StopChild ''a'',
         EscalationCallback (''ESCALATION: Supervisor project-p exceeded restart limits. Manual intervention required.'')]"
proof -
  let ?s = "(demo_sup ONE_FOR_ONE)\<lparr>sup_tracker := \<lparr>max_restarts = 1, window_seconds = 600, timestamps = [0]\<rparr>\<rparr>"
  have h: "distinct (map child_id (child_specs ?s))" "reaches_budget demo_child_class ''b'' (0, 0) ?s"
    "allow_restart 5 5 (sup_tracker ?s) = (False, sup_tracker ?s)"
    by (simp_all add: demo_defs reaches_budget_def get_spec_def allow_restart_def rt_purge_def)
  from spent_budget_escalates [OF h, of start_child] show ?thesis
    by (auto simp: demo_defs active_child_def inactive_states_def)
qed

definition demo_detector :: bulk_detector where
  "demo_detector = (default_bulk_detector 3)\<lparr>recent_failures := [(''a'', 1)]\<rparr>"

theorem outage_suspends_restarts_witness:
  "\<exists>s1. handle_child_failure demo_child_class start_child ''b'' (2, 2) (2, 2)
        ((demo_sup ONE_FOR_ONE)\<lparr>bulk_detector_of := Some demo_detector\<rparr>) = (s1, Inr ())
    \<and> sup_out s1 = [OutageCallback ''project-p'' 120, ScheduleReset 120]
    \<and> fold (fail_step demo_child_class start_child) [(''c'', (3, 3), (3, 3))] s1 = s1"
proof -
  let ?s = "(demo_sup ONE_FOR_ONE)\<lparr>bulk_detector_of := Some demo_detector\<rparr>"
  have h: "bulk_detector_of ?s = Some demo_detector" "\<not> is_in_backoff demo_detector"
    "fst (record_failure ''b'' (fst (2, 2)) (snd (2, 2)) demo_detector)"
    by (simp_all add: demo_detector_def default_bulk_detector_def new_bulk_detector_def is_in_backoff_def
        record_failure_def purge_old_def bulk_threshold_def py_int_def Let_def)
  have "sup_out ?s = []" "has_on_escalation ?s" "supervisor_id ?s = ''project-p''" "current_backoff demo_detector = 120"
    by (simp_all add: demo_defs demo_detector_def default_bulk_detector_def new_bulk_detector_def)
  with outage_suspends_restarts [OF h, of demo_child_class start_child "(2, 2)" "[(''c'', (3, 3), (3, 3))]"]
  show ?thesis by auto
qed

lemma demo_outage:
  "ScheduleReset 120 \<in> set (sup_out (foldl (outage_step demo_child_class start_child)
     (new_supervisor ''project-p'' ONE_FOR_ONE (map demo_spec [''a'', ''b'', ''c'']) 1 600 demo_cfg None)
     [ChildFails ''a'' (1, 1) (1, 1), ChildFails ''b'' (2, 2) (2, 2)]))"
  by (simp add: demo_defs handle_child_failure_def default_bulk_detector_def new_bulk_detector_def is_in_backoff_def
        record_failure_def purge_old_def bulk_threshold_def py_int_def apply_policy_def get_spec_def
        enter_global_backoff_def emit_def Let_def)

theorem outage_backoff_never_grows_witness:
  "ScheduleReset 120 \<in> set (sup_out (foldl (outage_step demo_child_class start_child)
     (new_supervisor ''project-p'' ONE_FOR_ONE (map demo_spec [''a'', ''b'', ''c'']) 1 600 demo_cfg None)
     [ChildFails ''a'' (1, 1) (1, 1), ChildFails ''b'' (2, 2) (2, 2)])) \<and> (120 :: seconds) = 120"
  using outage_backoff_never_grows [OF base.start_tracker base.start_bulk base.start_resets demo_outage] demo_outage
  by blast

end
