(* ===== verification/Lifecycle.thy ===== *)
theory Lifecycle
  imports Vco_Prelude
begin

text \<open>
  The three lifecycle machines of the worker package: \<open>container/state_machine.py\<close>,
  \<open>agent/gsd_lifecycle.py\<close> and \<open>agent/event_driven_lifecycle.py\<close>. The source declares
  states and transitions in the notation of python-statemachine; a declaration is
  translated into a table of transitions, one row per \<open>source.to(target)\<close>, with the
  documented meaning of the notation: an event without a transition from the current
  configuration raises \<open>TransitionNotAllowed\<close>, entering the compound state through its
  own name enters its initial sub-state, leaving it remembers the sub-state, and entering
  it through its history state enters the remembered one. Which sub-state the library
  enters through a history state that has nothing to remember is the argument \<open>h0\<close>.
\<close>

section \<open>Machines\<close>

text \<open>
  A configuration lists the active states, outermost first, as the source reads it.
\<close>

datatype target = To string | ToHistory

record machine =
  mc_transitions :: "(string \<times> string \<times> target) list"
  mc_substates :: "string list"

record fsm =
  fsm_conf :: "string list"
  fsm_history :: "string option"

definition initial_fsm :: fsm where
  "initial_fsm = \<lparr>fsm_conf = [''creating''], fsm_history = None\<rparr>"

text \<open>The outer transitions; the machines with sub-states re-enter running through its history.\<close>

definition outer_transitions :: "target \<Rightarrow> (string \<times> string \<times> target) list" where
  "outer_transitions reenter =
     [(''start'', ''creating'', To ''running''),
      (''sleep'', ''running'', To ''sleeping''),
      (''wake'', ''sleeping'', reenter),
      (''error'', ''creating'', To ''errored''), (''error'', ''running'', To ''errored''),
      (''error'', ''sleeping'', To ''errored''), (''error'', ''blocked'', To ''errored''),
      (''recover'', ''errored'', reenter),
      (''block'', ''running'', To ''blocked''),
      (''unblock'', ''blocked'', reenter),
      (''begin_stop'', ''running'', To ''stopping''), (''begin_stop'', ''sleeping'', To ''stopping''),
      (''begin_stop'', ''errored'', To ''stopping''), (''begin_stop'', ''blocked'', To ''stopping''),
      (''finish_stop'', ''stopping'', To ''stopped''),
      (''destroy'', ''stopped'', To ''destroyed''), (''destroy'', ''errored'', To ''destroyed'')]"

definition container_lifecycle :: machine where
  "container_lifecycle = \<lparr>mc_transitions = outer_transitions (To ''running''), mc_substates = []\<rparr>"

definition gsd_lifecycle :: machine where
  "gsd_lifecycle =
     \<lparr>mc_transitions = outer_transitions ToHistory @
        [(''start_discuss'', ''idle'', To ''discuss''), (''start_plan'', ''discuss'', To ''plan''),
         (''start_execute'', ''plan'', To ''execute''), (''start_uat'', ''execute'', To ''uat''),
         (''start_ship'', ''uat'', To ''ship'')],
      mc_substates = [''idle'', ''discuss'', ''plan'', ''execute'', ''uat'', ''ship'']\<rparr>"

definition event_driven_lifecycle :: machine where
  "event_driven_lifecycle =
     \<lparr>mc_transitions = outer_transitions ToHistory @
        [(''start_processing'', ''listening'', To ''processing''),
         (''done_processing'', ''processing'', To ''listening'')],
      mc_substates = [''listening'', ''processing'']\<rparr>"

text \<open>
  What python-statemachine does with the declared states and transitions, of which the code uses: the first sub-state is the initial one
  of a compound state, a machine without sub-states enters none, a history state leads back to the sub-state that was left last, and an
  event without a transition from the current state raises.
\<close>

definition enter_running :: "machine \<Rightarrow> string list" where
  "enter_running m = (case mc_substates m of [] \<Rightarrow> [''running''] | i # _ \<Rightarrow> [''running'', i])"

definition fire :: "machine \<Rightarrow> string \<Rightarrow> string \<Rightarrow> fsm \<Rightarrow> py_error + fsm" where
  "fire m h0 ev f =
     (case find (\<lambda>(e, src, t). e = ev \<and> src \<in> set (fsm_conf f)) (mc_transitions m) of
        None \<Rightarrow>
          (if ev \<in> fst ` set (mc_transitions m) then Inl TransitionNotAllowed
           else Inl (AttributeError ev))
      | Some (_, src, t) \<Rightarrow>
          if src \<in> set (mc_substates m) then
            (case t of
               To s \<Rightarrow> Inr (f\<lparr>fsm_conf := [''running'', s]\<rparr>)
             | ToHistory \<Rightarrow> Inr f)
          else
            (let f = (if length (fsm_conf f) = 2 then f\<lparr>fsm_history := Some (fsm_conf f ! 1)\<rparr> else f) in
             (case t of
                To s \<Rightarrow> Inr (f\<lparr>fsm_conf := (if s = ''running'' then enter_running m else [s])\<rparr>)
              | ToHistory \<Rightarrow>
                  Inr (f\<lparr>fsm_conf := [''running'', case fsm_history f of None \<Rightarrow> h0 | Some s \<Rightarrow> s]\<rparr>))))"

text \<open>An event from outside: when it raises, the machine stays where it is.\<close>

definition fire_or_stay :: "machine \<Rightarrow> string \<Rightarrow> string \<Rightarrow> fsm \<Rightarrow> fsm" where
  "fire_or_stay m h0 ev f = (case fire m h0 ev f of Inl _ \<Rightarrow> f | Inr f' \<Rightarrow> f')"

definition outer_state :: "fsm \<Rightarrow> string" where
  "outer_state f = hd (fsm_conf f)"

definition inner_state_of :: "fsm \<Rightarrow> string option" where
  "inner_state_of f = (if 2 \<le> length (fsm_conf f) then Some (fsm_conf f ! 1) else None)"

section \<open>The contract of a lifecycle\<close>

definition outer_states :: "string list" where
  "outer_states = [''creating'', ''running'', ''sleeping'', ''blocked'', ''stopping'', ''errored'', ''stopped'', ''destroyed'']"

definition outer_events :: "string list" where
  "outer_events = [''start'', ''sleep'', ''wake'', ''error'', ''recover'', ''block'', ''unblock'', ''begin_stop'',
     ''finish_stop'', ''destroy'']"

definition well_formed :: "machine \<Rightarrow> fsm \<Rightarrow> bool" where
  "well_formed m f \<longleftrightarrow>
     (\<exists>s. s \<in> set outer_states \<and> s \<noteq> ''running'' \<and> fsm_conf f = [s])
     \<or> (if mc_substates m = [] then fsm_conf f = [''running'']
        else \<exists>i. i \<in> set (mc_substates m) \<and> fsm_conf f = [''running'', i])"

definition history_ok :: "machine \<Rightarrow> fsm \<Rightarrow> bool" where
  "history_ok m f \<longleftrightarrow> (case fsm_history f of None \<Rightarrow> True | Some i \<Rightarrow> i \<in> set (mc_substates m))"

text \<open>The rows of the outer table, by what the proofs need of them.\<close>

lemma row_target:
  "(ev, st, t) \<in> set (outer_transitions b) \<Longrightarrow> t = b \<or> (\<exists>s \<in> set outer_states. s \<noteq> ''creating'' \<and> t = To s)"
  by (simp add: outer_transitions_def outer_states_def) (elim disjE conjE; simp)

lemma row_ended:
  "(ev, st, t) \<in> set (outer_transitions b) \<Longrightarrow> st \<in> {''stopping'', ''stopped'', ''destroyed''} \<Longrightarrow>
     (ev, st, t) \<in> {(''finish_stop'', ''stopping'', To ''stopped''), (''destroy'', ''stopped'', To ''destroyed'')}"
  by (simp add: outer_transitions_def) (elim disjE conjE; simp)

lemma row_stopped:
  "(ev, st, To ''stopped'') \<in> set (outer_transitions b) \<Longrightarrow> b \<noteq> To ''stopped'' \<Longrightarrow>
     ev = ''finish_stop'' \<and> st = ''stopping''"
  by (simp add: outer_transitions_def)

lemma row_running:
  "(ev, st, To ''running'') \<in> set (outer_transitions ToHistory) \<Longrightarrow> st = ''creating''"
  by (simp add: outer_transitions_def)

text \<open>
  A lifecycle: a table whose rows lead from known states to known states, in which the
  outer events are those of the container and re-entering goes through the history
  exactly when there are sub-states.
\<close>

locale lifecycle =
  fixes m :: machine and h0 :: string
  assumes outer_rows: "\<exists>inner. mc_transitions m = outer_transitions (if mc_substates m = [] then To ''running'' else ToHistory) @ inner
      \<and> (\<forall>(e, s, t) \<in> set inner. e \<notin> set outer_events \<and> s \<in> set (mc_substates m) \<and> (\<exists>u \<in> set (mc_substates m). t = To u))"
    and sub_names: "set (mc_substates m) \<inter> set outer_states = {}"
    and h0_sub: "mc_substates m \<noteq> [] \<Longrightarrow> h0 \<in> set (mc_substates m)"
begin

abbreviation reenter :: target where
  "reenter \<equiv> (if mc_substates m = [] then To ''running'' else ToHistory)"

definition outer_row :: "string \<Rightarrow> string \<Rightarrow> target option" where
  "outer_row ev st = map_option (\<lambda>(e, s, t). t) (find (\<lambda>(e, s, t). e = ev \<and> s = st) (outer_transitions reenter))"

text \<open>Following a row of the outer table from a state with the given remembered sub-state.\<close>

definition go :: "target \<Rightarrow> fsm \<Rightarrow> fsm" where
  "go t f =
     (let f = f\<lparr>fsm_history := (case inner_state_of f of None \<Rightarrow> fsm_history f | Some i \<Rightarrow> Some i)\<rparr> in
      (case t of
         To s \<Rightarrow> f\<lparr>fsm_conf := (if s = ''running'' then enter_running m else [s])\<rparr>
       | ToHistory \<Rightarrow> f\<lparr>fsm_conf := [''running'', case fsm_history f of None \<Rightarrow> h0 | Some s \<Rightarrow> s]\<rparr>))"

lemma outer_row_Some: "outer_row ev st = Some t \<Longrightarrow> (ev, st, t) \<in> set (outer_transitions reenter)"
  by (auto simp: outer_row_def find_Some_iff simp del: set_simps dest: nth_mem)

lemma outer_row_events: "(e, s, t) \<in> set (outer_transitions b) \<Longrightarrow> e \<in> set outer_events \<and> s \<in> set outer_states"
  by (auto simp: outer_transitions_def outer_events_def outer_states_def)

lemma outer_event_rows: "ev \<in> set outer_events \<Longrightarrow> ev \<in> fst ` set (outer_transitions b)"
  by (auto simp: outer_transitions_def outer_events_def)

lemma conf_outer: "well_formed m f \<Longrightarrow> s \<in> set outer_states \<Longrightarrow> s \<in> set (fsm_conf f) \<longleftrightarrow> s = outer_state f"
  using sub_names by (auto simp: well_formed_def outer_state_def split: if_splits)

lemma fire_outer:
  assumes wf: "well_formed m f" and ev: "ev \<in> set outer_events"
  shows "fire m h0 ev f =
    (case outer_row ev (outer_state f) of None \<Rightarrow> Inl TransitionNotAllowed | Some t \<Rightarrow> Inr (go t f))"
proof -
  obtain inner where inner: "mc_transitions m = outer_transitions reenter @ inner"
    "\<forall>(e, s, t) \<in> set inner. e \<notin> set outer_events \<and> s \<in> set (mc_substates m) \<and> (\<exists>u \<in> set (mc_substates m). t = To u)"
    using outer_rows by blast
  have no: "find (\<lambda>(e, s, t). e = ev \<and> s \<in> set (fsm_conf f)) inner = None"
    using inner(2) ev by (auto simp: find_None_iff)
  have eq: "find (\<lambda>(e, s, t). e = ev \<and> s \<in> set (fsm_conf f)) (outer_transitions reenter)
      = find (\<lambda>(e, s, t). e = ev \<and> s = outer_state f) (outer_transitions reenter)"
  proof (rule find_cong [OF refl])
    fix r
    assume r: "r \<in> set (outer_transitions reenter)"
    obtain e s t where "r = (e, s, t)" by (rule prod_cases3)
    with r show "(case r of (e, s, t) \<Rightarrow> e = ev \<and> s \<in> set (fsm_conf f)) = (case r of (e, s, t) \<Rightarrow> e = ev \<and> s = outer_state f)"
      using conf_outer [OF wf, of s] outer_row_events [of e s t reenter] by simp
  qed
  have two: "(length (fsm_conf f) = 2) = (\<exists>i. inner_state_of f = Some i)" "inner_state_of f = (if length (fsm_conf f) = 2 then Some (fsm_conf f ! 1) else None)"
    using wf by (auto simp: well_formed_def inner_state_of_def split: if_splits)
  show ?thesis
  proof (cases "find (\<lambda>(e, s, t). e = ev \<and> s = outer_state f) (outer_transitions reenter)")
    case None
    then have "find (\<lambda>(e, s, t). e = ev \<and> s \<in> set (fsm_conf f)) (mc_transitions m) = None"
      using no eq by (simp only: inner(1) find_append option.case)
    moreover have "ev \<in> fst ` set (mc_transitions m)"
      using outer_event_rows [OF ev, of reenter] by (simp only: inner(1) set_append image_Un UnI1)
    ultimately show ?thesis using None by (simp add: fire_def outer_row_def)
  next
    case (Some r)
    obtain e s t where r: "r = (e, s, t)" by (cases r)
    have "find (\<lambda>(e, s, t). e = ev \<and> s \<in> set (fsm_conf f)) (mc_transitions m) = Some r"
      using Some eq by (simp only: inner(1) find_append option.case)
    moreover have "s \<notin> set (mc_substates m)"
    proof -
      have "r \<in> set (outer_transitions reenter)" using Some by (rule find_mem)
      then show ?thesis using outer_row_events [of e s t reenter] r sub_names by auto
    qed
    moreover have "(if length (fsm_conf f) = 2 then f\<lparr>fsm_history := Some (fsm_conf f ! 1)\<rparr> else f)
        = f\<lparr>fsm_history := (case inner_state_of f of None \<Rightarrow> fsm_history f | Some i \<Rightarrow> Some i)\<rparr>"
      using two(2) by simp
    ultimately show ?thesis
      using Some by (simp add: fire_def r outer_row_def go_def Let_def split: target.splits)
  qed
qed

lemma fire_inner:
  assumes wf: "well_formed m f" and ev: "ev \<notin> set outer_events" and ok: "fire m h0 ev f = Inr f'"
  shows "outer_state f = ''running'' \<and> fsm_history f' = fsm_history f \<and>
    (\<exists>i u. (ev, i, To u) \<in> set (mc_transitions m) \<and> i \<in> set (mc_substates m) \<and> u \<in> set (mc_substates m)
      \<and> fsm_conf f = [''running'', i] \<and> fsm_conf f' = [''running'', u])"
proof -
  obtain inner where inner: "mc_transitions m = outer_transitions reenter @ inner"
    "\<forall>(e, s, t) \<in> set inner. e \<notin> set outer_events \<and> s \<in> set (mc_substates m) \<and> (\<exists>u \<in> set (mc_substates m). t = To u)"
    using outer_rows by blast
  obtain e s t where r: "find (\<lambda>(e, src, t). e = ev \<and> src \<in> set (fsm_conf f)) (mc_transitions m) = Some (e, s, t)"
    using ok by (auto simp: fire_def split: option.splits if_splits)
  then have es: "e = ev" "s \<in> set (fsm_conf f)" "(e, s, t) \<in> set (mc_transitions m)"
    by (auto simp: find_Some_iff dest: nth_mem)
  with ev outer_row_events [of e s t reenter] have "(e, s, t) \<in> set inner" by (auto simp: inner(1))
  then obtain u where u: "s \<in> set (mc_substates m)" "u \<in> set (mc_substates m)" "t = To u"
    using inner(2) by blast
  have "fsm_conf f = [''running'', s]"
    using wf es(2) u(1) sub_names by (auto simp: well_formed_def outer_states_def split: if_splits)
  with ok r es u show ?thesis by (auto simp: fire_def outer_state_def)
qed

end

context lifecycle
begin

lemma go_well_formed:
  assumes wf: "well_formed m f" and h: "history_ok m f" and r: "outer_row ev st = Some t"
  shows "well_formed m (go t f) \<and> history_ok m (go t f)"
proof -
  have "t = reenter \<or> (\<exists>s \<in> set outer_states. s \<noteq> ''creating'' \<and> t = To s)"
    using row_target [OF outer_row_Some [OF r]] .
  moreover have "inner_state_of f = Some i \<Longrightarrow> i \<in> set (mc_substates m)" for i
    using wf by (auto simp: well_formed_def inner_state_of_def split: if_splits)
  ultimately show ?thesis
    using h h0_sub
    by (auto simp: go_def Let_def well_formed_def history_ok_def enter_running_def
        split: option.splits list.splits if_splits)
qed

lemma fire_well_formed:
  assumes "well_formed m f" "history_ok m f" "fire m h0 ev f = Inr f'"
  shows "well_formed m f' \<and> history_ok m f'"
proof (cases "ev \<in> set outer_events")
  case True
  with assms fire_outer [OF assms(1) True] go_well_formed [OF assms(1,2)] show ?thesis
    by (auto split: option.splits)
next
  case False
  from fire_inner [OF assms(1) False assms(3)] assms(2) show ?thesis
    by (auto simp: well_formed_def history_ok_def)
qed

lemma run_well_formed:
  "well_formed m f \<Longrightarrow> history_ok m f \<Longrightarrow>
     well_formed m (fold (fire_or_stay m h0) evs f) \<and> history_ok m (fold (fire_or_stay m h0) evs f)"
proof (induction evs arbitrary: f)
  case (Cons ev evs)
  have "well_formed m (fire_or_stay m h0 ev f) \<and> history_ok m (fire_or_stay m h0 ev f)"
    using Cons.prems fire_well_formed [of f ev] by (auto simp: fire_or_stay_def split: sum.splits)
  with Cons.IH show ?case by simp
qed simp

lemma initial_well_formed: "well_formed m initial_fsm \<and> history_ok m initial_fsm"
  by (simp add: initial_fsm_def well_formed_def history_ok_def outer_states_def)

text \<open>Once a machine is stopping it only moves on to stopped and destroyed.\<close>

lemma ended_step:
  assumes "well_formed m f" "outer_state f \<in> {''stopping'', ''stopped'', ''destroyed''}" "fire m h0 ev f = Inr f'"
  shows "(outer_state f, ev, outer_state f') \<in> {(''stopping'', ''finish_stop'', ''stopped''), (''stopped'', ''destroy'', ''destroyed'')}"
proof (cases "ev \<in> set outer_events")
  case True
  then obtain t where t: "outer_row ev (outer_state f) = Some t" "f' = go t f"
    using assms(3) fire_outer [OF assms(1) True] by (auto split: option.splits)
  from row_ended [OF outer_row_Some [OF t(1)] assms(2)] t(2) show ?thesis
    by (auto simp: go_def outer_state_def)
next
  case False
  from fire_inner [OF assms(1) False assms(3)] assms(2) show ?thesis by auto
qed

text \<open>Entering stopped takes the stopping state.\<close>

lemma stopped_from:
  assumes "well_formed m f" "outer_state f \<noteq> ''stopped''" "fire m h0 ev f = Inr f'" "outer_state f' = ''stopped''"
  shows "outer_state f = ''stopping'' \<and> ev = ''finish_stop''"
proof (cases "ev \<in> set outer_events")
  case True
  then obtain t where t: "outer_row ev (outer_state f) = Some t" "f' = go t f"
    using assms(3) fire_outer [OF assms(1) True] by (auto split: option.splits)
  have "t = To ''stopped''"
    using t(2) assms(4)
    by (cases t) (auto simp: go_def outer_state_def enter_running_def split: if_splits list.splits)
  moreover have "reenter \<noteq> To ''stopped''" by simp
  ultimately show ?thesis using row_stopped outer_row_Some [OF t(1)] by blast
next
  case False
  from fire_inner [OF assms(1) False assms(3)] assms(4) show ?thesis by (auto simp: outer_state_def)
qed

text \<open>The sub-state an interrupted machine resumes in.\<close>

definition remembers :: "string \<Rightarrow> fsm \<Rightarrow> bool" where
  "remembers i f \<longleftrightarrow> fsm_conf f = [''running'', i]
     \<or> (\<exists>s \<in> set outer_states. s \<noteq> ''running'' \<and> s \<noteq> ''creating'' \<and> fsm_conf f = [s] \<and> fsm_history f = Some i)"

lemma remembers_well_formed: "i \<in> set (mc_substates m) \<Longrightarrow> remembers i f \<Longrightarrow> well_formed m f"
  by (auto simp: remembers_def well_formed_def)

lemma remembers_step:
  assumes "i \<in> set (mc_substates m)" "remembers i f" "ev \<in> set outer_events"
  shows "remembers i (fire_or_stay m h0 ev f)"
proof -
  have ne: "mc_substates m \<noteq> []" using assms(1) by auto
  have "remembers i (go t f)" if t: "outer_row ev (outer_state f) = Some t" for t
  proof -
    have row: "(ev, outer_state f, t) \<in> set (outer_transitions ToHistory)"
      using outer_row_Some [OF t] ne by simp
    have "outer_state f \<noteq> ''creating''" using assms(2) by (auto simp: remembers_def outer_state_def)
    then have nr: "t \<noteq> To ''running''" using row_running row by metis
    have h: "(case inner_state_of f of None \<Rightarrow> fsm_history f | Some i \<Rightarrow> Some i) = Some i"
      using assms(2) by (auto simp: remembers_def inner_state_of_def)
    consider "t = ToHistory" | s where "s \<in> set outer_states" "s \<noteq> ''creating''" "s \<noteq> ''running''" "t = To s"
      using row_target [OF row] nr by (elim disjE bexE) auto
    then show ?thesis
    proof cases
      case 1
      then show ?thesis by (simp add: remembers_def go_def h)
    next
      case (2 s)
      then have "fsm_conf (go t f) = [s]" "fsm_history (go t f) = Some i" by (simp_all add: go_def h)
      with 2(1-3) show ?thesis unfolding remembers_def by blast
    qed
  qed
  with assms(2) fire_outer [OF remembers_well_formed [OF assms(1,2)] assms(3)] show ?thesis
    by (auto simp: fire_or_stay_def split: option.splits)
qed

lemma remembers_run:
  "i \<in> set (mc_substates m) \<Longrightarrow> remembers i f \<Longrightarrow> set evs \<subseteq> set outer_events \<Longrightarrow>
     remembers i (fold (fire_or_stay m h0) evs f)"
  by (induction evs arbitrary: f) (auto simp: remembers_step)

lemma resumes_running:
  assumes "i \<in> set (mc_substates m)" "fsm_conf f = [''running'', i]" "set evs \<subseteq> set outer_events"
    and "outer_state (fold (fire_or_stay m h0) evs f) = ''running''"
  shows "fsm_conf (fold (fire_or_stay m h0) evs f) = [''running'', i]"
proof -
  have "remembers i f" using assms(2) by (simp add: remembers_def)
  from remembers_run [OF assms(1) this assms(3)] assms(4) show ?thesis
    by (auto simp: remembers_def outer_state_def)
qed

end

interpretation cl: lifecycle container_lifecycle h0 for h0
  by unfold_locales (auto simp: container_lifecycle_def)

lemma gsd_is_lifecycle: "h0 \<in> set (mc_substates gsd_lifecycle) \<Longrightarrow> lifecycle gsd_lifecycle h0"
  by unfold_locales (auto simp: gsd_lifecycle_def outer_events_def outer_states_def)

lemma event_driven_is_lifecycle:
  "h0 \<in> set (mc_substates event_driven_lifecycle) \<Longrightarrow> lifecycle event_driven_lifecycle h0"
  by unfold_locales (auto simp: event_driven_lifecycle_def outer_events_def outer_states_def)

interpretation gl: lifecycle gsd_lifecycle "''idle''"
  by (rule gsd_is_lifecycle) (simp add: gsd_lifecycle_def)

interpretation el: lifecycle event_driven_lifecycle "''listening''"
  by (rule event_driven_is_lifecycle) (simp add: event_driven_lifecycle_def)

section \<open>Properties\<close>

text \<open>
  Interrupted work resumes where it was. A phase-driven or event-driven agent is
  running in some sub-state. After any sequence of outer lifecycle events (sleep, wake,
  error, recover, block, unblock and the rest, those that are not allowed included), if
  it is running again, it is in the same sub-state.
\<close>

theorem interrupted_work_resumes:
  assumes "m = gsd_lifecycle \<or> m = event_driven_lifecycle" and "h0 \<in> set (mc_substates m)"
    and "i \<in> set (mc_substates m)" and "fsm_conf f = [''running'', i]"
    and "set evs \<subseteq> set outer_events"
    and "outer_state (fold (fire_or_stay m h0) evs f) = ''running''"
  shows "fsm_conf (fold (fire_or_stay m h0) evs f) = [''running'', i]"
proof -
  have "lifecycle m h0" using assms(1,2) gsd_is_lifecycle event_driven_is_lifecycle by blast
  from lifecycle.resumes_running [OF this assms(3-6)] show ?thesis .
qed

theorem interrupted_work_resumes_witness:
  "fsm_conf (fold (fire_or_stay gsd_lifecycle ''idle'')
     [''sleep'', ''error'', ''wake'', ''recover'', ''block'', ''unblock'']
     \<lparr>fsm_conf = [''running'', ''plan''], fsm_history = None\<rparr>) = [''running'', ''plan'']"
  by (rule interrupted_work_resumes [OF disjI1 [OF refl]])
    (simp_all add: gsd_lifecycle_def outer_events_def outer_state_def fire_or_stay_def fire_def outer_transitions_def)

definition ended :: "fsm \<Rightarrow> bool" where
  "ended f \<longleftrightarrow> outer_state f \<in> {''stopping'', ''stopped'', ''destroyed''}"

lemma ended_run:
  assumes "lifecycle m h0"
  shows "well_formed m f \<Longrightarrow> history_ok m f \<Longrightarrow> ended f \<Longrightarrow> ended (fold (fire_or_stay m h0) evs f)"
proof (induction evs arbitrary: f)
  case (Cons ev evs)
  show ?case
  proof (cases "fire m h0 ev f")
    case (Inl e)
    with Cons show ?thesis by (simp add: fire_or_stay_def)
  next
    case (Inr f')
    have "ended f'"
      using lifecycle.ended_step [OF assms Cons.prems(1) _ Inr] Cons.prems(3) by (auto simp: ended_def)
    with Cons.IH [of f'] lifecycle.fire_well_formed [OF assms Cons.prems(1,2) Inr] Inr
    show ?thesis by (simp add: fire_or_stay_def)
  qed
qed simp

text \<open>
  Stopping is final. In each of the three lifecycles, after any events from the
  initial state, allowed or not: the machine is in one of the eight states, with a
  sub-state exactly when it is running and the lifecycle has sub-states; once it is
  stopping it never runs, sleeps, blocks or errs again, whatever events follow; and the
  only way into the stopped state is to finish a stop from the stopping state.
\<close>

theorem stopping_is_final:
  assumes "m \<in> {container_lifecycle, gsd_lifecycle, event_driven_lifecycle}"
    and "mc_substates m = [] \<or> h0 \<in> set (mc_substates m)"
    and "f = fold (fire_or_stay m h0) evs initial_fsm"
  shows "well_formed m f \<and> (ended f \<longrightarrow> ended (fold (fire_or_stay m h0) later f))
    \<and> (fire m h0 ev f = Inr f' \<and> outer_state f' = ''stopped''
       \<longrightarrow> outer_state f = ''stopping'' \<and> ev = ''finish_stop'')"
proof -
  have "mc_substates gsd_lifecycle \<noteq> []" "mc_substates event_driven_lifecycle \<noteq> []"
    by (simp_all add: gsd_lifecycle_def event_driven_lifecycle_def)
  then have L: "lifecycle m h0"
    using assms(1,2) cl.lifecycle_axioms gsd_is_lifecycle event_driven_is_lifecycle by blast
  have wf: "well_formed m f" "history_ok m f"
    using lifecycle.run_well_formed [OF L] lifecycle.initial_well_formed [OF L] assms(3) by blast+
  have "outer_state f = ''stopping'' \<and> ev = ''finish_stop''"
    if "fire m h0 ev f = Inr f'" "outer_state f' = ''stopped''"
  proof (cases "outer_state f = ''stopped''")
    case True
    with lifecycle.ended_step [OF L wf(1) _ that(1)] that(2) show ?thesis by auto
  next
    case False
    from lifecycle.stopped_from [OF L wf(1) False that] show ?thesis .
  qed
  with wf ended_run [OF L wf] show ?thesis by blast
qed

theorem stopping_is_final_witness:
  "ended (fold (fire_or_stay gsd_lifecycle ''idle'') [''wake'', ''recover'', ''start'']
     (fold (fire_or_stay gsd_lifecycle ''idle'') [''start'', ''begin_stop''] initial_fsm))"
proof -
  have "ended (fold (fire_or_stay gsd_lifecycle ''idle'') [''start'', ''begin_stop''] initial_fsm)"
    by (simp add: ended_def gsd_lifecycle_def outer_state_def fire_or_stay_def fire_def outer_transitions_def
        initial_fsm_def enter_running_def)
  moreover have "mc_substates gsd_lifecycle = [] \<or> ''idle'' \<in> set (mc_substates gsd_lifecycle)"
    by (simp add: gsd_lifecycle_def)
  ultimately show ?thesis
    using stopping_is_final [of gsd_lifecycle "''idle''" _ "[''start'', ''begin_stop'']" "[''wake'', ''recover'', ''start'']"]
    by blast
qed

text \<open>The phase an agent is in or would resume in.\<close>

definition phase :: "fsm \<Rightarrow> string option" where
  "phase f = (case inner_state_of f of Some i \<Rightarrow> Some i | None \<Rightarrow> fsm_history f)"

lemma gsd_inner_row:
  assumes "(ev, i, To u) \<in> set (mc_transitions gsd_lifecycle)" "i \<in> set (mc_substates gsd_lifecycle)"
  shows "\<exists>n. Suc n < length (mc_substates gsd_lifecycle) \<and> mc_substates gsd_lifecycle ! n = i
    \<and> mc_substates gsd_lifecycle ! Suc n = u"
proof -
  have "(i, u) \<in> set (zip (mc_substates gsd_lifecycle) (tl (mc_substates gsd_lifecycle)))"
    using assms by (simp add: gsd_lifecycle_def outer_transitions_def) (elim disjE conjE; simp)
  then obtain n where "i = mc_substates gsd_lifecycle ! n" "u = mc_substates gsd_lifecycle ! Suc n"
    "n < length (mc_substates gsd_lifecycle) - 1"
    by (auto simp: in_set_zip nth_tl)
  then show ?thesis by (intro exI [of _ n]) auto
qed


definition fresh_history :: "fsm \<Rightarrow> bool" where
  "fresh_history f \<longleftrightarrow> (outer_state f = ''creating'' \<longrightarrow> fsm_history f = None)"

context lifecycle
begin

lemma never_creating:
  assumes "well_formed m f" "fire m h0 ev f = Inr f'"
  shows "outer_state f' \<noteq> ''creating''"
proof (cases "ev \<in> set outer_events")
  case True
  then obtain t where t: "outer_row ev (outer_state f) = Some t" "f' = go t f"
    using assms(2) fire_outer [OF assms(1) True] by (auto split: option.splits)
  from row_target [OF outer_row_Some [OF t(1)]] t(2) show ?thesis
    by (elim disjE bexE) (auto simp: go_def outer_state_def enter_running_def split: list.splits if_splits)
next
  case False
  from fire_inner [OF assms(1) False assms(2)] show ?thesis by (auto simp: outer_state_def)
qed

lemma fresh_history_run:
  "well_formed m f \<Longrightarrow> history_ok m f \<Longrightarrow> fresh_history f \<Longrightarrow> fresh_history (fold (fire_or_stay m h0) evs f)"
proof (induction evs arbitrary: f)
  case (Cons ev evs)
  show ?case
  proof (cases "fire m h0 ev f")
    case (Inr f')
    with Cons never_creating [OF Cons.prems(1) Inr] fire_well_formed [OF Cons.prems(1,2) Inr] show ?thesis
      by (simp add: fire_or_stay_def fresh_history_def)
  qed (use Cons in \<open>simp add: fire_or_stay_def\<close>)
qed simp

lemma remembers_phase:
  assumes "well_formed m f" "fresh_history f" "mc_substates m \<noteq> []" "phase f = Some i"
  shows "remembers i f"
proof -
  consider s where "s \<in> set outer_states" "s \<noteq> ''running''" "fsm_conf f = [s]"
    | j where "fsm_conf f = [''running'', j]"
    using assms(1,3) unfolding well_formed_def by (metis (full_types))
  then show ?thesis
  proof cases
    case (1 s)
    then have h: "fsm_history f = Some i" using assms(4) by (simp add: phase_def inner_state_of_def)
    then have "s \<noteq> ''creating''" using assms(2) 1(3) by (auto simp: fresh_history_def outer_state_def)
    with 1 h show ?thesis unfolding remembers_def by blast
  next
    case (2 j)
    with assms(4) show ?thesis by (simp add: remembers_def phase_def inner_state_of_def)
  qed
qed

lemma phase_outer_step:
  assumes "well_formed m f" "history_ok m f" "fresh_history f" "mc_substates m \<noteq> []"
    and "phase f = Some i" "ev \<in> set outer_events" "fire m h0 ev f = Inr f'"
  shows "phase f' = Some i"
proof -
  have r: "remembers i f" using remembers_phase [OF assms(1,3,4,5)] .
  have "i \<in> set (mc_substates m)"
    using assms(1,2,5) by (auto simp: phase_def inner_state_of_def well_formed_def history_ok_def split: if_splits)
  from remembers_step [OF this r assms(6)] assms(7) have "remembers i f'" by (simp add: fire_or_stay_def)
  then show ?thesis by (auto simp: remembers_def phase_def inner_state_of_def)
qed

end

text \<open>
  C20. GSD phases advance one at a time and are never lost. In every configuration an
  agent can reach, in which it is in a phase or would resume in one, any allowed event
  leaves the phase as it is or moves it to the next of idle, discuss, plan, execute, uat
  and ship. In particular no event leads back to idle.
\<close>

theorem gsd_phase_advances_by_one:
  assumes "h0 \<in> set (mc_substates gsd_lifecycle)"
    and "f = fold (fire_or_stay gsd_lifecycle h0) evs initial_fsm"
    and "phase f = Some i" and "fire gsd_lifecycle h0 ev f = Inr f'"
  shows "phase f' = Some i \<or>
    (\<exists>n. Suc n < length (mc_substates gsd_lifecycle) \<and> mc_substates gsd_lifecycle ! n = i
      \<and> phase f' = Some (mc_substates gsd_lifecycle ! Suc n))"
proof -
  note L = gsd_is_lifecycle [OF assms(1)]
  have wf: "well_formed gsd_lifecycle f" "history_ok gsd_lifecycle f"
    using lifecycle.run_well_formed [OF L] lifecycle.initial_well_formed [OF L] assms(2) by blast+
  have "fresh_history initial_fsm" by (simp add: fresh_history_def initial_fsm_def)
  then have fr: "fresh_history f"
    using lifecycle.fresh_history_run [OF L] lifecycle.initial_well_formed [OF L] assms(2) by blast
  show ?thesis
  proof (cases "ev \<in> set outer_events")
    case True
    have "mc_substates gsd_lifecycle \<noteq> []" using assms(1) by auto
    from lifecycle.phase_outer_step [OF L wf fr this assms(3) True assms(4)] show ?thesis ..
  next
    case False
    from lifecycle.fire_inner [OF L wf(1) False assms(4)] obtain j u where
      "(ev, j, To u) \<in> set (mc_transitions gsd_lifecycle)" "j \<in> set (mc_substates gsd_lifecycle)"
      "fsm_conf f = [''running'', j]" "fsm_conf f' = [''running'', u]" by blast
    with gsd_inner_row [of ev j u] assms(3) show ?thesis by (auto simp: phase_def inner_state_of_def)
  qed
qed

theorem gsd_phase_advances_by_one_witness:
  "phase (fold (fire_or_stay gsd_lifecycle ''idle'') [''start'', ''sleep''] initial_fsm) = Some ''idle''
   \<and> phase (fire_or_stay gsd_lifecycle ''idle'' ''wake''
       (fold (fire_or_stay gsd_lifecycle ''idle'') [''start'', ''sleep''] initial_fsm)) \<in> {Some ''idle'', Some ''discuss''}"
proof -
  let ?f = "fold (fire_or_stay gsd_lifecycle ''idle'') [''start'', ''sleep''] initial_fsm"
  note defs = gsd_lifecycle_def outer_state_def fire_or_stay_def fire_def outer_transitions_def
    initial_fsm_def enter_running_def phase_def inner_state_of_def
  have p: "phase ?f = Some ''idle''" by (simp add: defs)
  have w: "fire gsd_lifecycle ''idle'' ''wake'' ?f = Inr (fire_or_stay gsd_lifecycle ''idle'' ''wake'' ?f)"
    by (simp add: defs)
  have h: "''idle'' \<in> set (mc_substates gsd_lifecycle)" by (simp add: gsd_lifecycle_def)
  have nxt: "mc_substates gsd_lifecycle ! n = ''idle'' \<Longrightarrow> Suc n < length (mc_substates gsd_lifecycle) \<Longrightarrow>
      mc_substates gsd_lifecycle ! Suc n = ''discuss''" for n
    by (simp add: gsd_lifecycle_def nth_Cons' split: if_splits)
  from gsd_phase_advances_by_one [OF h refl p w] p nxt show ?thesis by auto
qed

end
