(* ===== verification/Py_String.thy ===== *)
theory Py_String
  imports Vco_Prelude
begin

text \<open>
  The methods of Python's \<open>str\<close> and \<open>bytes\<close> that the message handlers use, on strings of
  8-bit code points: \<open>strip\<close>, \<open>rstrip\<close>, \<open>lower\<close>, \<open>split\<close> with and without a separator,
  \<open>replace\<close> and the substring test.
\<close>

section \<open>Definitions\<close>

definition py_space :: "char \<Rightarrow> bool" where
  "py_space c \<longleftrightarrow> of_char c \<in> {9, 10, 11, 12, 13, 28, 29, 30, 31, 32, 133, 160 :: nat}"

definition ascii_space :: "char \<Rightarrow> bool" where
  "ascii_space c \<longleftrightarrow> of_char c \<in> {9, 10, 11, 12, 13, 32 :: nat}"

definition strip_with :: "(char \<Rightarrow> bool) \<Rightarrow> string \<Rightarrow> string" where
  "strip_with P s = rev (dropWhile P (rev (dropWhile P s)))"

abbreviation py_strip :: "string \<Rightarrow> string" where
  "py_strip s \<equiv> strip_with py_space s"

abbreviation bytes_strip :: "string \<Rightarrow> string" where
  "bytes_strip s \<equiv> strip_with ascii_space s"

definition py_rstrip_char :: "char \<Rightarrow> string \<Rightarrow> string" where
  "py_rstrip_char c s = rev (dropWhile (\<lambda>d. d = c) (rev s))"

definition lower_char :: "char \<Rightarrow> char" where
  "lower_char c =
     (let n = of_char c :: nat in
      if (65 \<le> n \<and> n \<le> 90) \<or> (192 \<le> n \<and> n \<le> 222 \<and> n \<noteq> 215) then char_of (n + 32) else c)"

definition py_lower :: "string \<Rightarrow> string" where
  "py_lower s = map lower_char s"

text \<open>\<open>s.split()\<close>: the maximal runs without white space.\<close>

fun split_ws :: "string \<Rightarrow> string \<Rightarrow> string list" where
  "split_ws acc [] = (if acc = [] then [] else [rev acc])"
| "split_ws acc (c # s) =
     (if py_space c then (if acc = [] then [] else [rev acc]) @ split_ws [] s
      else split_ws (c # acc) s)"

definition py_split :: "string \<Rightarrow> string list" where
  "py_split s = split_ws [] s"

text \<open>\<open>s.split(sep)\<close> for a separator that is not empty.\<close>

function split_on :: "string \<Rightarrow> string \<Rightarrow> string \<Rightarrow> string list" where
  "split_on sep acc [] = [rev acc]"
| "split_on sep acc (c # s) =
     (if sep \<noteq> [] \<and> startswith (c # s) sep
      then rev acc # split_on sep [] (drop (length sep) (c # s))
      else split_on sep (c # acc) s)"
  by pat_completeness auto
termination
  by (relation "measure (\<lambda>(sep, acc, s). length s)") (auto simp: not_less_eq Suc_diff_le)

definition py_split_on :: "string \<Rightarrow> string \<Rightarrow> string list" where
  "py_split_on sep s = split_on sep [] s"

fun py_contains :: "string \<Rightarrow> string \<Rightarrow> bool" where
  "py_contains sub [] = (sub = [])"
| "py_contains sub (c # s) = (startswith (c # s) sub \<or> py_contains sub s)"

fun intercalate :: "string \<Rightarrow> string list \<Rightarrow> string" where
  "intercalate sep [] = []"
| "intercalate sep [x] = x"
| "intercalate sep (x # y # xs) = x @ sep @ intercalate sep (y # xs)"

definition py_replace :: "string \<Rightarrow> string \<Rightarrow> string \<Rightarrow> string" where
  "py_replace old new s = intercalate new (py_split_on old s)"

text \<open>\<open>str.splitlines\<close>; a carriage return and the line feed after it end one line.\<close>

definition line_break :: "char \<Rightarrow> bool" where
  "line_break c \<longleftrightarrow> of_char c \<in> {10, 11, 12, 13, 28, 29, 30, 133 :: nat}"

fun split_lines :: "string \<Rightarrow> string \<Rightarrow> string list" where
  "split_lines acc [] = (if acc = [] then [] else [rev acc])"
| "split_lines acc [c] = (if line_break c then [rev acc] else [rev (c # acc)])"
| "split_lines acc (c # d # s) =
     (if c = CHR 0x0D \<and> d = CHR 0x0A then rev acc # split_lines [] s
      else if line_break c then rev acc # split_lines [] (d # s)
      else split_lines (c # acc) (d # s))"

definition py_splitlines :: "string \<Rightarrow> string list" where
  "py_splitlines s = split_lines [] s"

text \<open>
  Reading a text file in Python's default mode translates the line ends CR LF and CR to
  LF. Writing on a system whose line end is LF changes nothing.
\<close>

fun universal_newlines :: "string \<Rightarrow> string" where
  "universal_newlines [] = []"
| "universal_newlines [c] = [if c = CHR 0x0D then CHR 0x0A else c]"
| "universal_newlines (c # d # s) =
     (if c = CHR 0x0D \<and> d = CHR 0x0A then CHR 0x0A # universal_newlines s
      else (if c = CHR 0x0D then CHR 0x0A else c) # universal_newlines (d # s))"

text \<open>The text before the first occurrence of a pattern, and the text after it.\<close>

fun before_sub :: "string \<Rightarrow> string \<Rightarrow> string option" where
  "before_sub p [] = (if p = [] then Some [] else None)"
| "before_sub p (c # s) = (if startswith (c # s) p then Some [] else map_option (\<lambda>t. c # t) (before_sub p s))"

fun after_sub :: "string \<Rightarrow> string \<Rightarrow> string option" where
  "after_sub p [] = (if p = [] then Some [] else None)"
| "after_sub p (c # s) = (if startswith (c # s) p then Some (drop (length p) (c # s)) else after_sub p s)"

section \<open>Lemmas\<close>

lemma split_ws_word:
  "w \<noteq> [] \<Longrightarrow> \<forall>c \<in> set w. \<not> py_space c \<Longrightarrow> py_space d \<Longrightarrow>
     split_ws acc (w @ d # s) = (rev acc @ w) # split_ws [] s"
proof (induction w arbitrary: acc)
  case (Cons c w)
  then show ?case by (cases w) auto
qed simp

lemma split_ws_last:
  "\<forall>c \<in> set w. \<not> py_space c \<Longrightarrow> split_ws acc w = (if rev acc @ w = [] then [] else [rev acc @ w])"
  by (induction w arbitrary: acc) auto

lemma py_split_word:
  "w \<noteq> [] \<Longrightarrow> \<forall>c \<in> set w. \<not> py_space c \<Longrightarrow> py_split (w @ CHR '' '' # s) = w # py_split s"
  by (simp add: py_split_def split_ws_word py_space_def)

lemma py_split_single: "w \<noteq> [] \<Longrightarrow> \<forall>c \<in> set w. \<not> py_space c \<Longrightarrow> py_split w = [w]"
  by (simp add: py_split_def split_ws_last)

text \<open>
  A separator whose first character does not occur again in it cannot straddle the end
  of a text: splitting \<open>p @ sep @ r\<close> when \<open>sep\<close> is not in \<open>p\<close> gives \<open>p\<close> first.
\<close>

lemma no_straddle:
  assumes "sep = c # t" "c \<notin> set t" "x \<noteq> []" "startswith (x @ sep @ r) sep"
  shows "startswith x sep"
proof (rule ccontr)
  assume n: "\<not> startswith x sep"
  have tk: "take (length sep) (x @ sep @ r) = sep" using assms(4) by (simp add: startswith_def)
  have short: "length x < length sep"
  proof (rule ccontr)
    assume "\<not> length x < length sep"
    with tk have "take (length sep) x = sep" by simp
    with n show False by (simp add: startswith_def)
  qed
  have pos: "0 < length x" using assms(3) by simp
  have "sep ! length x = (x @ sep @ r) ! length x"
    using tk short by (metis nth_take)
  also have "\<dots> = c" using assms(1) by (simp add: nth_append)
  finally have "sep ! length x = c" .
  moreover have "sep ! length x = t ! (length x - 1)" using pos assms(1) by (simp add: nth_Cons')
  moreover have "length x - 1 < length t" using short pos assms(1) by (cases x) auto
  ultimately show False using assms(2) by (metis nth_mem)
qed

lemma split_on_prefix:
  assumes "sep = c # t" "c \<notin> set t"
  shows "\<not> py_contains sep p \<Longrightarrow> split_on sep acc (p @ sep @ r) = (rev acc @ p) # split_on sep [] r"
proof (induction p arbitrary: acc)
  case Nil
  then show ?case using assms(1) by (simp add: startswith_def)
next
  case (Cons d p)
  have "\<not> startswith ((d # p) @ sep @ r) sep"
    using no_straddle [OF assms, of "d # p" r] Cons.prems by auto
  with Cons show ?case by simp
qed

lemma split_on_none: "\<not> py_contains sep s \<Longrightarrow> split_on sep acc s = [rev acc @ s]"
  by (induction s arbitrary: acc) auto

lemma py_split_on_prefix:
  assumes "sep = c # t" "c \<notin> set t" "\<not> py_contains sep p"
  shows "py_split_on sep (p @ sep @ r) = p # py_split_on sep r"
  using split_on_prefix [OF assms(1,2,3), of "[]" r] by (simp add: py_split_on_def)

lemma py_contains_append: "py_contains sub (p @ sub @ r)"
proof (induction p)
  case Nil
  have "startswith (sub @ r) sub" by simp
  then show ?case by (cases "sub @ r") (auto simp: startswith_def simp del: startswith_append)
qed auto

lemma rstrip_char_last:
  "s = [] \<or> last s \<noteq> c \<Longrightarrow> py_rstrip_char c (s @ [c]) = s"
proof -
  assume "s = [] \<or> last s \<noteq> c"
  then have "dropWhile (\<lambda>d. d = c) (rev s) = rev s"
    by (cases s rule: rev_cases) auto
  then show ?thesis by (simp add: py_rstrip_char_def)
qed

lemma strip_with_id:
  "s \<noteq> [] \<Longrightarrow> \<not> P (hd s) \<Longrightarrow> \<not> P (last s) \<Longrightarrow> strip_with P s = s"
proof -
  assume s: "s \<noteq> []" "\<not> P (hd s)" "\<not> P (last s)"
  have "dropWhile P s = s" using s by (cases s) auto
  moreover have "dropWhile P (rev s) = rev s" using s by (cases s rule: rev_cases) auto
  ultimately show ?thesis by (simp add: strip_with_def)
qed

lemma split_lines_line:
  "\<forall>c \<in> set l. \<not> line_break c \<Longrightarrow> split_lines acc (l @ CHR 0x0A # s) = (rev acc @ l) # split_lines [] s"
proof (induction l arbitrary: acc)
  case Nil
  then show ?case by (cases s) (simp_all add: line_break_def)
next
  case (Cons c l)
  then have c: "\<not> line_break c" "c \<noteq> CHR 0x0D" by (auto simp: line_break_def)
  obtain d t where dt: "l @ CHR 0x0A # s = d # t" by (cases l) auto
  show ?case using Cons c dt by simp
qed

lemma split_lines_append:
  assumes "l \<noteq> []" "\<not> line_break (last l)" "CHR 0x0D \<notin> set l"
  shows "split_lines acc (l @ CHR 0x0A # s) = split_lines acc l @ split_lines [] s"
  using assms
proof (induction acc l rule: split_lines.induct)
  case (2 acc c)
  have "split_lines (c # acc) (CHR 0x0A # s) = rev (c # acc) # split_lines [] s"
    by (cases s) (simp_all add: line_break_def)
  with 2 show ?case by auto
qed auto

lemma split_lines_unbroken: "\<forall>c \<in> set l. \<not> line_break c \<Longrightarrow> acc @ l \<noteq> [] \<Longrightarrow> split_lines acc l = [rev acc @ l]"
  by (induction acc l rule: split_lines.induct) (auto simp: line_break_def)

lemma universal_newlines_id: "CHR 0x0D \<notin> set s \<Longrightarrow> universal_newlines s = s"
  by (induction s rule: universal_newlines.induct) auto

lemma universal_newlines_no_cr: "CHR 0x0D \<notin> set (universal_newlines s)"
  by (induction s rule: universal_newlines.induct) auto

lemma universal_newlines_idem [simp]: "universal_newlines (universal_newlines s) = universal_newlines s"
  by (rule universal_newlines_id [OF universal_newlines_no_cr])

end
