(* ===== verification/Channel.thy ===== *)
theory Channel
  imports Py_String Py_Json
begin

text \<open>
  The head-worker channel: \<open>transport/channel/messages.py\<close> and \<open>framing.py\<close> (the worker
  package has the same two files). A message is one line of JSON; Pydantic's
  \<open>model_dump_json\<close> and the validation of the discriminated unions are the argument of the
  framing functions; texts on the wire are the UTF-8 bytes. A stream is read line by line,
  as \<open>async for line in reader\<close> does on an \<open>asyncio.StreamReader\<close> of the default limit
  (\<open>open_unix_connection\<close> in transport/native.py, \<open>StreamReader()\<close> in the worker's main.py),
  and a line that does not decode is skipped, as both ends do.
\<close>

section \<open>Messages\<close>

datatype head_message =
    StartMessage (hm_agent_id: string) (hm_config: json)
  | GiveTaskMessage (hm_task_id: string) (hm_description: string) (hm_context: json)
  | InboundMessage (hm_sender: string) (hm_channel: string) (hm_content: string) (hm_message_id: "string option")
  | StopMessage (hm_reason: string) (hm_graceful: bool)
  | HealthCheckMessage
  | ReconnectMessage (hm_reconnect_id: string)

datatype worker_message =
    SignalMessage (wm_signal: string) (wm_detail: string)
  | is_ReportMessage: ReportMessage (wm_channel: string) (wm_content: string) (wm_task_id: "string option")
  | AskMessage (wm_ask_channel: string) (wm_question: string) (wm_context: json)
  | SendFileMessage (wm_file_channel: string) (wm_filename: string) (wm_content_b64: string) (wm_description: string)
  | is_HealthReport: HealthReportMessage (wm_status: string) (wm_agent_state: string) (wm_uptime_seconds: seconds) (wm_health_detail: json)

fun head_type :: "head_message \<Rightarrow> string" where
  "head_type (StartMessage _ _) = ''start''"
| "head_type (GiveTaskMessage _ _ _) = ''give-task''"
| "head_type (InboundMessage _ _ _ _) = ''message''"
| "head_type (StopMessage _ _) = ''stop''"
| "head_type HealthCheckMessage = ''health-check''"
| "head_type (ReconnectMessage _) = ''reconnect''"

fun worker_type :: "worker_message \<Rightarrow> string" where
  "worker_type (SignalMessage _ _) = ''signal''"
| "worker_type (ReportMessage _ _ _) = ''report''"
| "worker_type (AskMessage _ _ _) = ''ask''"
| "worker_type (SendFileMessage _ _ _ _) = ''send-file''"
| "worker_type (HealthReportMessage _ _ _ _) = ''health-report''"

section \<open>Framing\<close>

record 'm json_codec =
  dump_json :: "'m \<Rightarrow> string"
  validate_json :: "string \<Rightarrow> 'm option"

abbreviation newline :: char where
  "newline \<equiv> CHR 0x0A"

definition encode :: "'m json_codec \<Rightarrow> 'm \<Rightarrow> string" where
  "encode C msg = dump_json C msg @ [newline]"

definition decode :: "'m json_codec \<Rightarrow> string \<Rightarrow> py_error + 'm" where
  "decode C data =
     (case validate_json C (bytes_strip data) of None \<Rightarrow> Inl ValidationError | Some m \<Rightarrow> Inr m)"

text \<open>
  The lines of a stream, each with its newline; the last one may lack it. \<open>readline\<close> raises
  a \<open>ValueError\<close> as soon as more than \<open>2 ^ 16\<close> bytes come before the newline, whether or not
  the newline has arrived, which ends the iteration: the second component says so.
\<close>

definition line_limit :: nat where
  "line_limit = 65536"

fun stream_lines :: "string \<Rightarrow> string \<Rightarrow> string list \<times> bool" where
  "stream_lines acc [] =
     (if acc = [] then ([], False) else if line_limit < length acc then ([], True) else ([rev acc], False))"
| "stream_lines acc (c # s) =
     (if c = newline then
        if line_limit < length acc then ([], True)
        else (case stream_lines [] s of (ls, overrun) \<Rightarrow> (rev (c # acc) # ls, overrun))
      else stream_lines (c # acc) s)"

text \<open>What one line contributes: nothing when it is blank or does not decode.\<close>

definition line_message :: "'m json_codec \<Rightarrow> string \<Rightarrow> 'm list" where
  "line_message C line =
     (let stripped = bytes_strip line in
      if stripped = [] then []
      else (case decode C stripped of Inl _ \<Rightarrow> [] | Inr m \<Rightarrow> [m]))"

text \<open>The messages read, and whether reading ended in the \<open>ValueError\<close>.\<close>

definition read_stream :: "'m json_codec \<Rightarrow> string \<Rightarrow> 'm list \<times> bool" where
  "read_stream C s = (case stream_lines [] s of (ls, overrun) \<Rightarrow> (concat (map (line_message C) ls), overrun))"

section \<open>Round trip\<close>

lemma stream_lines_line:
  "newline \<notin> set l \<Longrightarrow> stream_lines acc (l @ newline # s) =
     (if length acc + length l \<le> line_limit
      then (case stream_lines [] s of (ls, overrun) \<Rightarrow> ((rev acc @ l @ [newline]) # ls, overrun)) else ([], True))"
  by (induction l arbitrary: acc) (auto split: prod.splits)

lemma read_stream_line:
  assumes "newline \<notin> set l"
  shows "read_stream C (l @ newline # s) =
     (if length l \<le> line_limit
      then (case read_stream C s of (ms, overrun) \<Rightarrow> (line_message C (l @ [newline]) @ ms, overrun)) else ([], True))"
  using stream_lines_line [OF assms, of "[]" s] by (auto simp: read_stream_def split: prod.splits)

lemma strip_with_idem: "strip_with P (strip_with P s) = strip_with P s"
proof -
  define u where "u = rev (dropWhile P s)"
  have "dropWhile P (rev (dropWhile P u)) = rev (dropWhile P u)"
  proof (cases "dropWhile P u")
    case (Cons c v)
    have "last (dropWhile P u) = last u \<and> u \<noteq> []"
      using Cons by (metis append_is_Nil_conv last_appendR list.discI takeWhile_dropWhile_id)
    moreover have "u \<noteq> [] \<Longrightarrow> \<not> P (last u)"
      by (simp add: u_def last_rev hd_dropWhile)
    ultimately show ?thesis by (metis dropWhile_eq_self_iff hd_rev)
  next
    case Nil
    then show ?thesis by (simp only: list.simps rev.simps dropWhile.simps)
  qed
  then show ?thesis by (simp add: strip_with_def u_def)
qed

lemma strip_with_snoc: "P c \<Longrightarrow> s \<noteq> [] \<Longrightarrow> \<not> P (hd s) \<Longrightarrow> \<not> P (last s) \<Longrightarrow> strip_with P (s @ [c]) = s"
proof -
  assume h: "P c" "s \<noteq> []" "\<not> P (hd s)" "\<not> P (last s)"
  have "dropWhile P (s @ [c]) = s @ [c]" using h(2,3) by (cases s) auto
  moreover have "dropWhile P (rev s) = rev s" using h(2,4) by (cases s rule: rev_cases) auto
  ultimately show ?thesis using h(1) by (simp add: strip_with_def)
qed

text \<open>What the framing relies on in the JSON text of a message.\<close>

locale ndjson_codec =
  fixes C :: "'m json_codec" and ok :: "'m \<Rightarrow> bool"
  assumes validate_dump: "ok m \<Longrightarrow> validate_json C (dump_json C m) = Some m"
    and one_line: "ok m \<Longrightarrow> newline \<notin> set (dump_json C m)"
    and no_margin: "ok m \<Longrightarrow> dump_json C m \<noteq> [] \<and> \<not> ascii_space (hd (dump_json C m)) \<and> \<not> ascii_space (last (dump_json C m))"
begin

lemma strip_encode: "ok m \<Longrightarrow> bytes_strip (encode C m) = dump_json C m"
  using no_margin [of m] by (simp add: encode_def strip_with_snoc ascii_space_def)

theorem decode_encode: "ok m \<Longrightarrow> decode C (encode C m) = Inr m"
  by (simp add: decode_def strip_encode validate_dump)

lemma line_message_encode: "ok m \<Longrightarrow> line_message C (encode C m) = [m]"
  using no_margin [of m]
  by (simp add: line_message_def strip_encode decode_def strip_with_id validate_dump Let_def)

end

text \<open>
  A line on the wire: the encoding of a message, or any other text that does not validate.
\<close>

definition garbage :: "'m json_codec \<Rightarrow> string \<Rightarrow> bool" where
  "garbage C g \<longleftrightarrow> newline \<notin> set g \<and> validate_json C (bytes_strip (g @ [newline])) = None"

definition wire_line :: "'m json_codec \<Rightarrow> string + 'm \<Rightarrow> string" where
  "wire_line C x = (case x of Inl g \<Rightarrow> g @ [newline] | Inr m \<Rightarrow> encode C m)"

text \<open>A line within the reader's limit.\<close>

definition fits :: "'m json_codec \<Rightarrow> string + 'm \<Rightarrow> bool" where
  "fits C x \<longleftrightarrow> length (wire_line C x) \<le> line_limit + 1"

lemma line_message_garbage: "garbage C g \<Longrightarrow> line_message C (g @ [newline]) = []"
  by (simp add: line_message_def garbage_def decode_def strip_with_idem Let_def)

context ndjson_codec
begin

lemma read_wire:
  assumes "\<forall>x \<in> set xs. case x of Inl g \<Rightarrow> garbage C g | Inr m \<Rightarrow> ok m"
  shows "read_stream C (concat (map (wire_line C) xs)) =
    (concat (map (case_sum (\<lambda>_. []) (\<lambda>m. [m])) (takeWhile (fits C) xs)), \<not> list_all (fits C) xs)"
  using assms
proof (induction xs)
  case (Cons x xs)
  let ?s = "concat (map (wire_line C) xs)"
  obtain l where l: "wire_line C x = l @ [newline]" "newline \<notin> set l"
    "line_message C (l @ [newline]) = case_sum (\<lambda>_. []) (\<lambda>m. [m]) x"
    using Cons.prems line_message_encode one_line
    by (cases x) (auto simp: wire_line_def encode_def garbage_def line_message_garbage)
  have "length l \<le> line_limit \<longleftrightarrow> fits C x" by (simp add: fits_def l(1))
  with Cons read_stream_line [OF l(2), of C ?s] show ?case by (auto simp: l(1,3))
qed (simp add: read_stream_def)

end

section \<open>A concrete codec for the head's messages\<close>

fun head_fields :: "head_message \<Rightarrow> (string \<times> json) list" where
  "head_fields (StartMessage a c) = [(''agent_id'', JStr a), (''config'', c)]"
| "head_fields (GiveTaskMessage t d c) = [(''task_id'', JStr t), (''description'', JStr d), (''context'', c)]"
| "head_fields (InboundMessage s ch c i) =
     [(''sender'', JStr s), (''channel'', JStr ch), (''content'', JStr c),
      (''message_id'', case i of None \<Rightarrow> JNull | Some x \<Rightarrow> JStr x)]"
| "head_fields (StopMessage r g) = [(''reason'', JStr r), (''graceful'', JBool g)]"
| "head_fields HealthCheckMessage = []"
| "head_fields (ReconnectMessage a) = [(''agent_id'', JStr a)]"

definition head_json :: "head_message \<Rightarrow> json" where
  "head_json m = JObj ((''type'', JStr (head_type m)) # head_fields m)"

fun as_bool :: "json \<Rightarrow> bool option" where
  "as_bool (JBool b) = Some b"
| "as_bool _ = None"

definition head_validate :: "json \<Rightarrow> head_message option" where
  "head_validate j =
     (case json_field j ''type'' as_str of
        None \<Rightarrow> None
      | Some t \<Rightarrow>
          if t = ''start'' then
            (case (json_field j ''agent_id'' as_str, json_field j ''config'' Some) of
               (Some a, Some c) \<Rightarrow> Some (StartMessage a c) | _ \<Rightarrow> None)
          else if t = ''give-task'' then
            (case (json_field j ''task_id'' as_str, json_field j ''description'' as_str, json_field j ''context'' Some) of
               (Some i, Some d, Some c) \<Rightarrow> Some (GiveTaskMessage i d c) | _ \<Rightarrow> None)
          else if t = ''message'' then
            (case (json_field j ''sender'' as_str, json_field j ''channel'' as_str, json_field j ''content'' as_str,
                   json_field j ''message_id'' as_optional_str) of
               (Some s, Some ch, Some c, Some i) \<Rightarrow> Some (InboundMessage s ch c i) | _ \<Rightarrow> None)
          else if t = ''stop'' then
            (case (json_field j ''reason'' as_str, json_field j ''graceful'' as_bool) of
               (Some r, Some g) \<Rightarrow> Some (StopMessage r g) | _ \<Rightarrow> None)
          else if t = ''health-check'' then Some HealthCheckMessage
          else if t = ''reconnect'' then map_option ReconnectMessage (json_field j ''agent_id'' as_str)
          else None)"

definition head_codec :: "head_message json_codec" where
  "head_codec = \<lparr>dump_json = (\<lambda>m. dumps (head_json m)), validate_json = (\<lambda>s. Option.bind (loads s) head_validate)\<rparr>"

fun wf_head :: "head_message \<Rightarrow> bool" where
  "wf_head (StartMessage a c) = wf_json c"
| "wf_head (GiveTaskMessage t d c) = wf_json c"
| "wf_head _ = True"

lemma head_validate_json: "head_validate (head_json m) = Some m"
  by (cases m) (auto simp: head_validate_def head_json_def json_field_def split: option.splits)

lemma wf_head_json: "wf_head m \<Longrightarrow> wf_json (head_json m)"
  by (cases m) (auto simp: head_json_def split: option.splits)

lemma esc_char_no_newline: "newline \<notin> set (esc_char c)"
proof -
  have "newline \<noteq> hex_char d" if "d < 16" for d
    using that by (auto simp: hex_char_def char_eq_code)
  from this [of "of_char c div 16"] this [of "of_char c mod 16"]
  have "newline \<noteq> hex_char (of_char c div 16)" "newline \<noteq> hex_char (of_char c mod 16)"
    by (simp_all add: less_mult_imp_div_less)
  moreover have "(of_char c :: nat) \<noteq> 10 \<Longrightarrow> newline \<noteq> c" by auto
  ultimately show ?thesis
    by (auto simp: esc_char_def Let_def)
qed

lemma show_str_no_newline: "newline \<notin> set (show_str s)"
  using esc_char_no_newline by (auto simp: show_str_def)

lemma show_int_no_newline: "newline \<notin> set (show_int i)"
proof -
  have "newline \<notin> set (show_nat n)" for n
    using show_nat_digits [of n] by (auto simp: is_digit_def)
  then show ?thesis by (simp add: show_int_def)
qed

lemma dumps_no_newline:
  "newline \<notin> set (dumps j)" "newline \<notin> set (dumps_items xs)" "newline \<notin> set (dumps_fields kvs)"
  by (induction j and xs and kvs rule: dumps_dumps_items_dumps_fields.induct)
    (auto simp: show_int_no_newline show_str_no_newline)

interpretation hc: ndjson_codec head_codec wf_head
proof (unfold_locales, goal_cases)
  case (1 m)
  then show ?case
    by (simp add: head_codec_def loads_dumps wf_head_json head_validate_json)
next
  case (2 m)
  then show ?case by (simp add: head_codec_def dumps_no_newline)
next
  case (3 m)
  then show ?case by (simp add: head_codec_def head_json_def ascii_space_def)
qed

text \<open>
  C19. The channel delivers every message up to the first line that is too long, in order,
  whatever else is on the line. Suppose the JSON text of a message validates to it, is one
  line and has no space around it. Then reading a stream made of encoded messages, with
  any lines that do not validate (blank ones included) in between, gives exactly the
  messages before the first line of more than 65536 bytes, and reading ends in an error
  exactly when there is such a line: the messages after it are not read.
\<close>

theorem channel_stream_roundtrip:
  assumes validate_dump: "\<And>m. ok m \<Longrightarrow> validate_json C (dump_json C m) = Some m"
    and one_line: "\<And>m. ok m \<Longrightarrow> newline \<notin> set (dump_json C m)"
    and no_margin: "\<And>m. ok m \<Longrightarrow> dump_json C m \<noteq> [] \<and> \<not> ascii_space (hd (dump_json C m)) \<and> \<not> ascii_space (last (dump_json C m))"
    and "\<forall>x \<in> set xs. case x of Inl g \<Rightarrow> garbage C g | Inr m \<Rightarrow> ok m"
  shows "read_stream C (concat (map (wire_line C) xs)) =
    (concat (map (case_sum (\<lambda>_. []) (\<lambda>m. [m])) (takeWhile (fits C) xs)), \<not> list_all (fits C) xs)"
  by (rule ndjson_codec.read_wire [OF ndjson_codec.intro, OF assms])

lemma loads_x: "loads (CHR ''x'' # s) = None"
  by (simp add: loads_def skip_ws_def is_ws_def startswith_def parse_int_def parse_digits_def is_digit_def)

lemma garbage_long: "garbage head_codec (replicate (Suc n) (CHR ''x''))"
proof -
  have "bytes_strip (replicate (Suc n) (CHR ''x'') @ [newline]) = replicate (Suc n) (CHR ''x'')"
    by (rule strip_with_snoc) (simp_all add: ascii_space_def)
  then show ?thesis by (simp add: garbage_def head_codec_def loads_x)
qed

theorem channel_stream_roundtrip_witness:
  "read_stream head_codec (concat (map (wire_line head_codec)
     [Inr (StartMessage ''a'' (JObj [])), Inl ''not json'', Inr HealthCheckMessage,
      Inl (replicate (Suc line_limit) (CHR ''x'')), Inr (StopMessage ''x'' True)]))
   = ([StartMessage ''a'' (JObj []), HealthCheckMessage], True)"
proof -
  let ?xs = "[Inr (StartMessage ''a'' (JObj [])), Inl ''not json'', Inr HealthCheckMessage,
      Inl (replicate (Suc line_limit) (CHR ''x'')), Inr (StopMessage ''x'' True)]"
  have g: "garbage head_codec ''not json''"
    by (simp add: garbage_def head_codec_def loads_def strip_with_def ascii_space_def skip_ws_def is_ws_def
        startswith_def parse_int_def parse_digits_def is_digit_def)
  have f: "fits head_codec (Inr (StartMessage ''a'' (JObj [])))" "fits head_codec (Inl ''not json'')"
    "fits head_codec (Inr HealthCheckMessage)" "\<not> fits head_codec (Inl (replicate (Suc line_limit) (CHR ''x'')))"
    by (simp_all add: fits_def wire_line_def encode_def head_codec_def head_json_def line_limit_def
        show_str_def esc_char_def)
  show ?thesis
    using channel_stream_roundtrip [OF hc.validate_dump hc.one_line hc.no_margin, of wf_head ?xs]
      garbage_long [of line_limit] g f by simp
qed

section \<open>A concrete codec for the worker's messages\<close>

text \<open>Uptimes are written as the two integers of their fraction.\<close>

fun worker_fields :: "worker_message \<Rightarrow> (string \<times> json) list" where
  "worker_fields (SignalMessage s d) = [(''signal'', JStr s), (''detail'', JStr d)]"
| "worker_fields (ReportMessage ch c t) =
     [(''channel'', JStr ch), (''content'', JStr c), (''task_id'', case t of None \<Rightarrow> JNull | Some x \<Rightarrow> JStr x)]"
| "worker_fields (AskMessage ch q c) = [(''channel'', JStr ch), (''question'', JStr q), (''context'', c)]"
| "worker_fields (SendFileMessage ch f b d) =
     [(''channel'', JStr ch), (''filename'', JStr f), (''content_b64'', JStr b), (''description'', JStr d)]"
| "worker_fields (HealthReportMessage st ag up d) =
     [(''status'', JStr st), (''agent_state'', JStr ag), (''uptime_num'', JInt (fst (quotient_of up))),
      (''uptime_den'', JInt (snd (quotient_of up))), (''detail'', d)]"

definition worker_json :: "worker_message \<Rightarrow> json" where
  "worker_json m = JObj ((''type'', JStr (worker_type m)) # worker_fields m)"

definition worker_validate :: "json \<Rightarrow> worker_message option" where
  "worker_validate j =
     (case json_field j ''type'' as_str of
        None \<Rightarrow> None
      | Some t \<Rightarrow>
          if t = ''signal'' then
            (case (json_field j ''signal'' as_str, json_field j ''detail'' as_str) of
               (Some s, Some d) \<Rightarrow> Some (SignalMessage s d) | _ \<Rightarrow> None)
          else if t = ''report'' then
            (case (json_field j ''channel'' as_str, json_field j ''content'' as_str, json_field j ''task_id'' as_optional_str) of
               (Some ch, Some c, Some i) \<Rightarrow> Some (ReportMessage ch c i) | _ \<Rightarrow> None)
          else if t = ''ask'' then
            (case (json_field j ''channel'' as_str, json_field j ''question'' as_str, json_field j ''context'' Some) of
               (Some ch, Some q, Some c) \<Rightarrow> Some (AskMessage ch q c) | _ \<Rightarrow> None)
          else if t = ''send-file'' then
            (case (json_field j ''channel'' as_str, json_field j ''filename'' as_str, json_field j ''content_b64'' as_str,
                   json_field j ''description'' as_str) of
               (Some ch, Some f, Some b, Some d) \<Rightarrow> Some (SendFileMessage ch f b d) | _ \<Rightarrow> None)
          else if t = ''health-report'' then
            (case (json_field j ''status'' as_str, json_field j ''agent_state'' as_str, json_field j ''uptime_num'' as_int,
                   json_field j ''uptime_den'' as_int, json_field j ''detail'' Some) of
               (Some st, Some ag, Some n, Some d, Some x) \<Rightarrow> Some (HealthReportMessage st ag (of_int n / of_int d) x) | _ \<Rightarrow> None)
          else None)"

definition worker_codec :: "worker_message json_codec" where
  "worker_codec = \<lparr>dump_json = (\<lambda>m. dumps (worker_json m)), validate_json = (\<lambda>s. Option.bind (loads s) worker_validate)\<rparr>"

fun wf_worker :: "worker_message \<Rightarrow> bool" where
  "wf_worker (AskMessage ch q c) = wf_json c"
| "wf_worker (HealthReportMessage st ag up d) = wf_json d"
| "wf_worker _ = True"

lemma quotient_of_value: "of_int (fst (quotient_of u)) / of_int (snd (quotient_of u)) = u"
  by (metis prod.collapse quotient_of_div)

lemma worker_validate_json: "worker_validate (worker_json m) = Some m"
  by (cases m) (auto simp: worker_validate_def worker_json_def json_field_def quotient_of_value split: option.splits)

lemma wf_worker_json: "wf_worker m \<Longrightarrow> wf_json (worker_json m)"
  by (cases m) (auto simp: worker_json_def split: option.splits)

interpretation wc: ndjson_codec worker_codec wf_worker
proof (unfold_locales, goal_cases)
  case (1 m)
  then show ?case
    by (simp add: worker_codec_def loads_dumps wf_worker_json worker_validate_json)
next
  case (2 m)
  then show ?case by (simp add: worker_codec_def dumps_no_newline)
next
  case (3 m)
  then show ?case by (simp add: worker_codec_def worker_json_def ascii_space_def)
qed

end
