(* ===== verification/Worker.thy ===== *)
theory Worker
  imports Lifecycle Channel Project_State
begin

text \<open>
  The worker process of an agent (package vco-worker): \<open>container/container.py\<close>, the
  handlers \<open>handler/session.py\<close>, \<open>handler/conversation.py\<close>, \<open>handler/transient.py\<close> and
  \<open>handler/registry.py\<close>, the Claude session \<open>conversation.py\<close> and the main loop of
  \<open>main.py\<close>. What a worker writes to its channel is the list \<open>wc_out\<close>. Clock readings,
  the results of the Claude command line, Pydantic's JSON of a checkpoint, and the
  project state's model class are arguments. The manager's project state is an optional
  backlog, as in the daemon package.
\<close>

section \<open>Configuration and container\<close>

record worker_config =
  cfg_handler_type :: string
  cfg_agent_type :: string
  cfg_capabilities :: "string list"
  cfg_gsd_command :: "string option"
  cfg_persona :: "string option"
  cfg_project_id :: "string option"
  cfg_uses_tmux :: bool

datatype handler = GsdSessionHandler | WorkerConversationHandler | PMTransientHandler

text \<open>A review future: waiting for its decision, or done.\<close>

datatype review = PendingReview | ReviewDone string

record conversation_session =
  cv_persona :: string
  cv_session_id :: string
  cv_allowed_tools :: string
  cv_model :: string
  cv_initialized :: bool
  cv_message_count :: int
  cv_reinject_every :: int
  cv_style_reminder :: "string option"

record worker_container =
  wc_config :: worker_config
  wc_agent_id :: agent_id
  wc_gsd_command :: "string option"
  wc_fsm :: fsm
  wc_memory :: memory_store
  wc_has_writer :: bool
  wc_created_at :: seconds
  wc_error_count :: int
  wc_last_activity :: seconds
  wc_is_idle :: bool
  wc_task_queue :: "string list"
  wc_handler :: "handler option"
  wc_blocked_reason :: "string option"
  wc_pending_review :: "review option"
  wc_current_assignment :: "json option"
  wc_state_timestamps :: "(agent_id, string \<times> seconds) dict"
  wc_stuck_detected :: "agent_id list"
  wc_stuck_threshold :: seconds
  wc_project_state :: "backlog_queue option"
  wc_stuck_task :: bool
  wc_conversation :: "conversation_session option"
  wc_out :: "worker_message list"

definition create_lifecycle :: "string \<Rightarrow> machine" where
  "create_lifecycle agent_type =
     (if agent_type = ''gsd'' then gsd_lifecycle
      else if agent_type \<in> {''fulltime'', ''company''} then event_driven_lifecycle
      else container_lifecycle)"

definition new_worker_container :: "worker_config \<Rightarrow> agent_id \<Rightarrow> bool \<Rightarrow> memory_store \<Rightarrow> seconds \<Rightarrow> worker_container" where
  "new_worker_container cfg a has_writer mem now =
     \<lparr>wc_config = cfg, wc_agent_id = a, wc_gsd_command = cfg_gsd_command cfg, wc_fsm = initial_fsm,
      wc_memory = mem, wc_has_writer = has_writer, wc_created_at = now, wc_error_count = 0,
      wc_last_activity = now, wc_is_idle = False, wc_task_queue = [], wc_handler = None,
      wc_blocked_reason = None, wc_pending_review = None, wc_current_assignment = None,
      wc_state_timestamps = [], wc_stuck_detected = [], wc_stuck_threshold = 600,
      wc_project_state = None, wc_stuck_task = False, wc_conversation = None, wc_out = []\<rparr>"

definition wc_machine :: "worker_container \<Rightarrow> machine" where
  "wc_machine c = create_lifecycle (cfg_agent_type (wc_config c))"

text \<open>The outermost state; an empty configuration has none and raises.\<close>

definition wc_state :: "worker_container \<Rightarrow> py_error + string" where
  "wc_state c = (case fsm_conf (wc_fsm c) of [] \<Rightarrow> Inl IndexError | s # _ \<Rightarrow> Inr s)"

definition wc_inner_state :: "worker_container \<Rightarrow> string option" where
  "wc_inner_state c = inner_state_of (wc_fsm c)"

text \<open>A lifecycle event; after a transition the activity time is refreshed.\<close>

definition wc_fire :: "string \<Rightarrow> string \<Rightarrow> seconds \<Rightarrow> worker_container \<Rightarrow> (worker_container, unit) outcome" where
  "wc_fire h0 ev now c =
     (case fire (wc_machine c) h0 ev (wc_fsm c) of
        Inl e \<Rightarrow> (c, Inl e)
      | Inr f \<Rightarrow> (c\<lparr>wc_fsm := f, wc_last_activity := now\<rparr>, Inr ()))"

definition write_message :: "worker_message \<Rightarrow> worker_container \<Rightarrow> worker_container" where
  "write_message msg c = (if wc_has_writer c then c\<lparr>wc_out := wc_out c @ [msg]\<rparr> else c)"

definition send_report :: "string \<Rightarrow> string \<Rightarrow> worker_container \<Rightarrow> worker_container" where
  "send_report ch content c = write_message (ReportMessage ch content None) c"

definition send_signal :: "string \<Rightarrow> string \<Rightarrow> worker_container \<Rightarrow> worker_container" where
  "send_signal sig detail c = write_message (SignalMessage sig detail) c"

definition drain_task_queue :: "worker_container \<Rightarrow> worker_container" where
  "drain_task_queue c =
     (case wc_task_queue c of
        [] \<Rightarrow> c
      | task # rest \<Rightarrow> c\<lparr>wc_task_queue := rest, wc_is_idle := False\<rparr>)"

definition handle_signal :: "string \<Rightarrow> seconds \<Rightarrow> worker_container \<Rightarrow> worker_container" where
  "handle_signal sig now c =
     (if sig \<in> {''ready'', ''idle''} then
        (let c = c\<lparr>wc_is_idle := (sig = ''idle''), wc_last_activity := now\<rparr> in
         if wc_is_idle c \<and> wc_task_queue c \<noteq> [] then drain_task_queue c else c)
      else c)"

definition give_task :: "string \<Rightarrow> worker_container \<Rightarrow> worker_container" where
  "give_task task c =
     (let c = c\<lparr>wc_task_queue := wc_task_queue c @ [task]\<rparr> in
      if wc_is_idle c then drain_task_queue c else c)"

record worker_health =
  wh_agent_id :: agent_id
  wh_state :: string
  wh_inner_state :: "string option"
  wh_uptime :: seconds
  wh_last_heartbeat :: seconds
  wh_error_count :: int
  wh_last_activity :: seconds
  wh_blocked_reason :: "string option"
  wh_is_idle :: "bool option"

definition wc_health_report :: "seconds \<Rightarrow> worker_container \<Rightarrow> py_error + worker_health" where
  "wc_health_report now c =
     (case wc_state c of
        Inl e \<Rightarrow> Inl e
      | Inr st \<Rightarrow> Inr
          \<lparr>wh_agent_id = wc_agent_id c, wh_state = st, wh_inner_state = wc_inner_state c,
           wh_uptime = now - wc_created_at c, wh_last_heartbeat = now, wh_error_count = wc_error_count c,
           wh_last_activity = wc_last_activity c, wh_blocked_reason = wc_blocked_reason c,
           wh_is_idle = (if cfg_uses_tmux (wc_config c) then Some (wc_is_idle c) else None)\<rparr>)"

definition wc_error :: "string \<Rightarrow> seconds \<Rightarrow> worker_container \<Rightarrow> (worker_container, unit) outcome" where
  "wc_error h0 now c = wc_fire h0 ''error'' now (c\<lparr>wc_error_count := wc_error_count c + 1\<rparr>)"

definition wc_recover :: "string \<Rightarrow> seconds \<Rightarrow> worker_container \<Rightarrow> (worker_container, unit) outcome" where
  "wc_recover h0 now c = wc_fire h0 ''recover'' now c"

definition wc_block :: "string \<Rightarrow> string \<Rightarrow> seconds \<Rightarrow> worker_container \<Rightarrow> (worker_container, unit) outcome" where
  "wc_block h0 reason now c = wc_fire h0 ''block'' now (c\<lparr>wc_blocked_reason := Some (take 200 reason)\<rparr>)"

definition wc_unblock :: "string \<Rightarrow> seconds \<Rightarrow> worker_container \<Rightarrow> (worker_container, unit) outcome" where
  "wc_unblock h0 now c = wc_fire h0 ''unblock'' now (c\<lparr>wc_blocked_reason := None\<rparr>)"

definition set_handler :: "handler \<Rightarrow> worker_container \<Rightarrow> worker_container" where
  "set_handler h c = c\<lparr>wc_handler := Some h\<rparr>"

section \<open>The session handler\<close>

record checkpoint_data =
  ck_configuration :: "string list"
  ck_phase :: string
  ck_timestamp :: string

definition valid_states :: "string list" where
  "valid_states = [''creating'', ''running'', ''idle'', ''discuss'', ''plan'', ''execute'', ''uat'', ''ship'',
     ''sleeping'', ''errored'', ''stopped'', ''destroyed'', ''blocked'', ''stopping'']"

definition phase_resume_commands :: "(string, string) dict" where
  "phase_resume_commands =
     [(''discuss'', ''/gsd:discuss-phase 1''), (''plan'', ''/gsd:plan-phase 1''),
      (''execute'', ''/gsd:execute-phase 1''), (''uat'', ''/gsd:verify-work''), (''ship'', ''/gsd:ship'')]"

text \<open>
  What becomes of a call of the Claude command line: its output after exit code 0, no
  answer in time, another exit code, or no process.
\<close>

datatype cli_result = CleanExit string | TimedOut | FailedExit | CouldNotRun

text \<open>What the worker reads from its surroundings in one call.\<close>

record worker_env =
  env_h0 :: string
  env_now :: seconds
  env_stamp :: string
  env_loop_time :: seconds
  env_checkpoints :: "checkpoint_data json_codec"
  env_items :: "backlog_item model_class"
  env_cli :: "nat \<Rightarrow> string list \<Rightarrow> string \<Rightarrow> cli_result"

definition session_review :: "string \<Rightarrow> worker_container \<Rightarrow> (worker_container, unit) outcome" where
  "session_review content c =
     (case py_split (py_strip (py_replace ''[Review Decision]'' [] content)) of
        [] \<Rightarrow> (c, Inl IndexError)
      | d # _ \<Rightarrow>
          (case wc_pending_review c of
             Some PendingReview \<Rightarrow> (c\<lparr>wc_pending_review := Some (ReviewDone (py_lower d))\<rparr>, Inr ())
           | _ \<Rightarrow> (c, Inr ())))"

definition parse_item_id :: "string \<Rightarrow> string option" where
  "parse_item_id content =
     (if py_contains ''(item: '' content
      then Some (py_rstrip_char (CHR '')'') (py_split_on ''(item: '' content ! 1)) else None)"

definition assignment_json :: "string \<Rightarrow> string \<Rightarrow> json" where
  "assignment_json content stamp = JObj
     ([(''raw'', JStr content), (''assigned_at'', JStr stamp)]
      @ (case parse_item_id content of None \<Rightarrow> [] | Some i \<Rightarrow> [(''item_id'', JStr i)]))"

definition session_handle_message :: "worker_env \<Rightarrow> string \<Rightarrow> worker_container \<Rightarrow> (worker_container, unit) outcome" where
  "session_handle_message env content c =
     (if startswith content ''[Review Decision]'' then session_review content c
      else if startswith content ''[Task Assigned]'' then
        (let j = assignment_json content (env_stamp env);
             c = c\<lparr>wc_current_assignment := Some j\<rparr> in
         (case mem_set (wc_memory c) ''current_assignment'' (dumps j) (env_stamp env) of
            Inl e \<Rightarrow> (c, Inl e)
          | Inr mem \<Rightarrow> (c\<lparr>wc_memory := mem\<rparr>, Inr ())))
      else (c, Inr ()))"

definition ordered_set :: "string list \<Rightarrow> string list" where
  "ordered_set xs = rev (remdups (rev xs))"

text \<open>Every exception of the restore is logged and leaves the container as it was.\<close>

definition restore_from_checkpoint :: "worker_env \<Rightarrow> worker_container \<Rightarrow> worker_container" where
  "restore_from_checkpoint env c =
     (case mem_get_latest_checkpoint (wc_memory c) ''gsd_phase'' of
        Inl _ \<Rightarrow> c
      | Inr None \<Rightarrow> c
      | Inr (Some data) \<Rightarrow>
          (case validate_json (env_checkpoints env) data of
             None \<Rightarrow> c
           | Some ck \<Rightarrow>
               if set (ck_configuration ck) \<subseteq> set valid_states
               then c\<lparr>wc_fsm := (wc_fsm c)\<lparr>fsm_conf := ordered_set (ck_configuration ck)\<rparr>\<rparr>
               else c))"

definition resolve_gsd_command :: "worker_container \<Rightarrow> string option" where
  "resolve_gsd_command c =
     (case wc_inner_state c of
        None \<Rightarrow> wc_gsd_command c
      | Some p \<Rightarrow>
          (case dict_get phase_resume_commands p of
             Some cmd \<Rightarrow> Some cmd
           | None \<Rightarrow> wc_gsd_command c))"

definition session_on_start :: "worker_env \<Rightarrow> worker_container \<Rightarrow> (worker_container, unit) outcome" where
  "session_on_start env c =
     (let c = restore_from_checkpoint env c;
          c = c\<lparr>wc_gsd_command := resolve_gsd_command c\<rparr> in
      (case mem_get (wc_memory c) ''current_assignment'' of
         Inl e \<Rightarrow> (c, Inl e)
       | Inr None \<Rightarrow> (c, Inr ())
       | Inr (Some raw) \<Rightarrow>
           (case loads raw of
              None \<Rightarrow> (c, Inr ())
            | Some j \<Rightarrow> (c\<lparr>wc_current_assignment := Some j\<rparr>, Inr ()))))"

definition checkpoint_phase :: "worker_env \<Rightarrow> worker_container \<Rightarrow> (worker_container, unit) outcome" where
  "checkpoint_phase env c =
     (let phase = (case wc_inner_state c of Some p \<Rightarrow> if p = [] then ''idle'' else p | None \<Rightarrow> ''idle'');
          ck = \<lparr>ck_configuration = fsm_conf (wc_fsm c), ck_phase = phase, ck_timestamp = env_stamp env\<rparr> in
      (case mem_checkpoint (wc_memory c) ''gsd_phase'' (dump_json (env_checkpoints env) ck) (env_stamp env) of
         Inl e \<Rightarrow> (c, Inl e)
       | Inr mem \<Rightarrow>
           (case mem_set mem ''current_phase'' phase (env_stamp env) of
              Inl e \<Rightarrow> (c\<lparr>wc_memory := mem\<rparr>, Inl e)
            | Inr mem' \<Rightarrow> (c\<lparr>wc_memory := mem'\<rparr>, Inr ()))))"

section \<open>The Claude session\<close>

text \<open>
  \<open>exec_claude\<close> turns what became of one call of the command line into the answer; the
  commands are the argument lists of the source.
\<close>

definition resume_command :: "conversation_session \<Rightarrow> string list" where
  "resume_command v = [''claude'', ''-p'', ''--model'', cv_model v, ''--output-format'', ''text'',
     ''--allowedTools'', cv_allowed_tools v, ''--resume'', cv_session_id v]"

definition create_command :: "conversation_session \<Rightarrow> string list" where
  "create_command v = [''claude'', ''-p'', ''--model'', cv_model v, ''--output-format'', ''text'',
     ''--allowedTools'', cv_allowed_tools v, ''--session-id'', cv_session_id v]"

definition exec_claude :: "cli_result \<Rightarrow> bool \<Rightarrow> string option" where
  "exec_claude res allow_failure =
     (case res of
        CleanExit out \<Rightarrow>
          let r = py_strip out in
          Some (if r = [] then ''I don'' @ [CHR 0x27] @ ''t have a response for that.'' else r)
      | TimedOut \<Rightarrow>
          if allow_failure then None else Some ''I need more time to think about that. Could you rephrase?''
      | FailedExit \<Rightarrow> if allow_failure then None else Some ''I hit a snag. Try asking again?''
      | CouldNotRun \<Rightarrow> if allow_failure then None else Some ''Something went wrong on my end. Try again?'')"

text \<open>
  The result and the prompts given to the command line, in order; \<open>cli n\<close> is the
  outcome of the \<open>n\<close>-th call.
\<close>

definition cv_send :: "(nat \<Rightarrow> string list \<Rightarrow> string \<Rightarrow> cli_result) \<Rightarrow> string \<Rightarrow> conversation_session
    \<Rightarrow> conversation_session \<times> string \<times> (string list \<times> string) list" where
  "cv_send cli content v =
     (if cv_initialized v then
        (let v = v\<lparr>cv_message_count := cv_message_count v + 1\<rparr>;
             content = (case cv_style_reminder v of
                          Some r \<Rightarrow> if r \<noteq> [] \<and> cv_message_count v mod cv_reinject_every v = 0
                                    then r @ [newline, newline] @ content else content
                        | None \<Rightarrow> content) in
         (v, the (exec_claude (cli 0 (resume_command v) content) False), [(resume_command v, content)]))
      else
        (case exec_claude (cli 0 (resume_command v) content) True of
           Some r \<Rightarrow> (v\<lparr>cv_initialized := True\<rparr>, r, [(resume_command v, content)])
         | None \<Rightarrow>
             (case exec_claude (cli 1 (create_command v) (cv_persona v)) False of
                None \<Rightarrow> (v, ''Failed to initialize conversation session.'',
                          [(resume_command v, content), (create_command v, cv_persona v)])
              | Some _ \<Rightarrow>
                  (v\<lparr>cv_initialized := True\<rparr>, the (exec_claude (cli 2 (resume_command v) content) False),
                   [(resume_command v, content), (create_command v, cv_persona v), (resume_command v, content)]))))"

section \<open>The conversation and manager handlers\<close>

text \<open>
  The lifecycle bracket that both handlers put around a message: \<open>start_processing\<close>
  before, \<open>done_processing\<close> in a \<open>finally\<close>, whose own exception wins.
\<close>

definition processing :: "worker_env \<Rightarrow> (worker_container \<Rightarrow> (worker_container, unit) outcome) \<Rightarrow> worker_container
    \<Rightarrow> (worker_container, unit) outcome" where
  "processing env body c =
     (case wc_fire (env_h0 env) ''start_processing'' (env_now env) c of
        (c1, Inl e) \<Rightarrow> (c1, Inl e)
      | (c1, Inr _) \<Rightarrow>
          (case body c1 of
             (c2, r) \<Rightarrow>
               (case wc_fire (env_h0 env) ''done_processing'' (env_now env) c2 of
                  (c3, Inl e) \<Rightarrow> (c3, Inl e)
                | (c3, Inr _) \<Rightarrow> (c3, r))))"

definition conversation_body :: "worker_env \<Rightarrow> string \<Rightarrow> string \<Rightarrow> worker_container \<Rightarrow> (worker_container, unit) outcome" where
  "conversation_body env ch content c =
     (case wc_conversation c of
        None \<Rightarrow> (send_report ch (''[Relay] '' @ content) c, Inr ())
      | Some v \<Rightarrow>
          (case cv_send (env_cli env) content v of
             (v', response, _) \<Rightarrow> (send_report ch response (c\<lparr>wc_conversation := Some v'\<rparr>), Inr ())))"

definition extract_field :: "string \<Rightarrow> string \<Rightarrow> string \<Rightarrow> string" where
  "extract_field content field dflt =
     (case find (\<lambda>part. startswith part field) (py_split content) of
        None \<Rightarrow> dflt
      | Some part \<Rightarrow> drop (length field) part)"

text \<open>The calls of the manager on its project state.\<close>

definition on_project :: "(backlog_queue \<Rightarrow> (backlog_queue, 'a) outcome) \<Rightarrow> backlog_queue \<Rightarrow> worker_container
    \<Rightarrow> (worker_container, 'a) outcome" where
  "on_project f q c = (case f q of (q', r) \<Rightarrow> (c\<lparr>wc_project_state := Some q'\<rparr>, r))"

definition task_assigned_message :: "agent_id \<Rightarrow> backlog_item \<Rightarrow> string" where
  "task_assigned_message a item = ''[Task Assigned] @'' @ a @ '': '' @ title item @ '' (item: '' @ item_id item @ '')''"

definition auto_assign_next :: "worker_env \<Rightarrow> agent_id \<Rightarrow> worker_container \<Rightarrow> (worker_container, unit) outcome" where
  "auto_assign_next env a c =
     (case wc_project_state c of
        None \<Rightarrow> (c, Inr ())
      | Some q \<Rightarrow>
          (case on_project (assign_next_task (env_items env) (env_stamp env) a) q c of
             (c', Inl e) \<Rightarrow> (c', Inl e)
           | (c', Inr None) \<Rightarrow> (c', Inr ())
           | (c', Inr (Some item)) \<Rightarrow> (send_report (''agent-'' @ a) (task_assigned_message a item) c', Inr ())))"

definition entering_phase :: "string \<Rightarrow> string" where
  "entering_phase content =
     (if py_contains (''entering '' @ [CHR 0x27]) content
      then py_split_on [CHR 0x27] (py_split_on (''entering '' @ [CHR 0x27]) content ! 1) ! 0 else [])"

definition pm_body :: "worker_env \<Rightarrow> string \<Rightarrow> string \<Rightarrow> worker_container \<Rightarrow> (worker_container, unit) outcome" where
  "pm_body env sender content c =
     (if startswith content ''[Phase Complete]'' then
        (let parts = py_split content;
             a = (if 2 < length parts then parts ! 2 else sender) in
         (c\<lparr>wc_state_timestamps := dict_set (wc_state_timestamps c) a (entering_phase content, env_loop_time env),
            wc_stuck_detected := removeAll a (wc_stuck_detected c)\<rparr>, Inr ()))
      else if startswith content ''[Task Completed]'' then
        (let a = extract_field content ''agent='' sender; i = extract_field content ''item='' [] in
         (case wc_project_state c of
            Some q \<Rightarrow>
              if i \<noteq> [] then
                (case on_project (handle_task_completed (env_items env) (env_stamp env) a i) q c of
                   (c', Inl e) \<Rightarrow> (c', Inl e)
                 | (c', Inr _) \<Rightarrow> auto_assign_next env a c')
              else (c, Inr ())
          | None \<Rightarrow> (c, Inr ())))
      else if startswith content ''[Task Failed]'' then
        (let a = extract_field content ''agent='' sender; i = extract_field content ''item='' [] in
         (case wc_project_state c of
            Some q \<Rightarrow>
              if i \<noteq> [] then on_project (handle_task_failed (env_items env) (env_stamp env) a i) q c else (c, Inr ())
          | None \<Rightarrow> (c, Inr ())))
      else if startswith content ''[Request Assignment]'' then
        (let a = extract_field content ''agent='' sender in
         (case wc_project_state c of
            Some q \<Rightarrow>
              (case on_project (assign_next_task (env_items env) (env_stamp env) a) q c of
                 (c', Inl e) \<Rightarrow> (c', Inl e) | (c', Inr _) \<Rightarrow> (c', Inr ()))
          | None \<Rightarrow> (c, Inr ())))
      else if startswith content ''[Health Change]'' then
        (let a = extract_field content ''agent='' sender; inner = extract_field content ''inner='' [] in
         (if inner \<noteq> [] then
            c\<lparr>wc_state_timestamps := dict_set (wc_state_timestamps c) a (inner, env_loop_time env)\<rparr> else c, Inr ()))
      else (c, Inr ()))"

text \<open>One round of the stuck detector.\<close>

definition intervention :: "agent_id \<Rightarrow> string \<Rightarrow> seconds \<Rightarrow> seconds \<Rightarrow> string" where
  "intervention a st elapsed threshold =
     ''[Intervention] Agent '' @ a @ '' stuck in state '' @ [CHR 0x27] @ st @ [CHR 0x27] @ '' for ''
     @ show_int (py_int elapsed) @ ''s (threshold: '' @ show_int (py_int threshold) @ ''s)''"

fun stuck_round :: "seconds \<Rightarrow> (agent_id \<times> string \<times> seconds) list \<Rightarrow> worker_container \<Rightarrow> worker_container" where
  "stuck_round now [] c = c"
| "stuck_round now ((a, st, ts) # rest) c =
     stuck_round now rest
       (if now - ts > wc_stuck_threshold c \<and> a \<notin> set (wc_stuck_detected c)
        then send_report (''agent-'' @ a) (intervention a st (now - ts) (wc_stuck_threshold c))
               (c\<lparr>wc_stuck_detected := a # wc_stuck_detected c\<rparr>)
        else c)"

definition run_stuck_detector :: "seconds \<Rightarrow> worker_container \<Rightarrow> worker_container" where
  "run_stuck_detector now c = stuck_round now (wc_state_timestamps c) c"

section \<open>Dispatch to the handler\<close>

definition handle_message :: "worker_env \<Rightarrow> handler \<Rightarrow> string \<Rightarrow> string \<Rightarrow> string \<Rightarrow> worker_container
    \<Rightarrow> (worker_container, unit) outcome" where
  "handle_message env h sender ch content c =
     (case h of
        GsdSessionHandler \<Rightarrow> session_handle_message env content c
      | WorkerConversationHandler \<Rightarrow> processing env (conversation_body env ch content) c
      | PMTransientHandler \<Rightarrow> processing env (pm_body env sender content) c)"

definition handle_inbound :: "worker_env \<Rightarrow> string \<Rightarrow> string \<Rightarrow> string \<Rightarrow> worker_container
    \<Rightarrow> (worker_container, unit) outcome" where
  "handle_inbound env sender ch content c =
     (case wc_handler c of
        None \<Rightarrow> (c, Inr ())
      | Some h \<Rightarrow> handle_message env h sender ch content c)"

definition handler_on_start :: "worker_env \<Rightarrow> handler \<Rightarrow> worker_container \<Rightarrow> (worker_container, unit) outcome" where
  "handler_on_start env h c =
     (case h of
        GsdSessionHandler \<Rightarrow> session_on_start env c
      | WorkerConversationHandler \<Rightarrow> (c, Inr ())
      | PMTransientHandler \<Rightarrow> (c\<lparr>wc_stuck_task := True\<rparr>, Inr ()))"

definition handler_on_stop :: "worker_env \<Rightarrow> handler \<Rightarrow> worker_container \<Rightarrow> (worker_container, unit) outcome" where
  "handler_on_stop env h c =
     (case h of
        GsdSessionHandler \<Rightarrow> checkpoint_phase env c
      | WorkerConversationHandler \<Rightarrow> (c, Inr ())
      | PMTransientHandler \<Rightarrow> (c\<lparr>wc_stuck_task := False\<rparr>, Inr ()))"

definition wc_start :: "worker_env \<Rightarrow> worker_container \<Rightarrow> (worker_container, unit) outcome" where
  "wc_start env c =
     (case wc_fire (env_h0 env) ''start'' (env_now env) c of
        (c1, Inl e) \<Rightarrow> (c1, Inl e)
      | (c1, Inr _) \<Rightarrow>
          (let c2 = c1\<lparr>wc_memory := mem_open (wc_memory c1)\<rparr> in
           (case wc_handler c2 of None \<Rightarrow> (c2, Inr ()) | Some h \<Rightarrow> handler_on_start env h c2)))"

definition wc_stop :: "worker_env \<Rightarrow> worker_container \<Rightarrow> (worker_container, unit) outcome" where
  "wc_stop env c =
     (case (case wc_handler c of None \<Rightarrow> (c, Inr ()) | Some h \<Rightarrow> handler_on_stop env h c) of
        (c1, Inl e) \<Rightarrow> (c1, Inl e)
      | (c1, Inr _) \<Rightarrow>
          (case wc_fire (env_h0 env) ''begin_stop'' (env_now env) c1 of
             (c2, Inl e) \<Rightarrow> (c2, Inl e)
           | (c2, Inr _) \<Rightarrow>
               (case wc_fire (env_h0 env) ''finish_stop'' (env_now env) c2 of
                  (c3, Inl e) \<Rightarrow> (c3, Inl e)
                | (c3, Inr _) \<Rightarrow> (c3\<lparr>wc_memory := mem_close (wc_memory c3)\<rparr>, Inr ()))))"

section \<open>Handler registry and main loop\<close>

definition handler_registry :: "(string, handler) dict" where
  "handler_registry = [(''session'', GsdSessionHandler), (''conversation'', WorkerConversationHandler),
     (''transient'', PMTransientHandler)]"

definition get_handler :: "string \<Rightarrow> py_error + handler" where
  "get_handler ty =
     (case dict_get handler_registry ty of
        None \<Rightarrow> Inl (ValueError (''Unknown handler type: '' @ py_repr ty @ ''. Valid: ''
                  @ ''['' @ py_repr ''session'' @ '', '' @ py_repr ''conversation'' @ '', '' @ py_repr ''transient'' @ '']''))
      | Some h \<Rightarrow> Inr h)"

definition new_conversation_session :: "string \<Rightarrow> string \<Rightarrow> conversation_session" where
  "new_conversation_session persona sid =
     \<lparr>cv_persona = persona, cv_session_id = sid, cv_allowed_tools = ''Bash Read Write'', cv_model = ''opus'',
      cv_initialized = False, cv_message_count = 0, cv_reinject_every = 10, cv_style_reminder = None\<rparr>"

text \<open>
  Creating and starting a container from the configuration in a start message: Pydantic's
  validation of the configuration is the argument \<open>validate\<close>, the memory file that the
  agent's directory holds is \<open>mem\<close>, the default session identifier is \<open>sid\<close>. The
  container's channel is the worker's.
\<close>

definition bootstrap_container :: "worker_env \<Rightarrow> (json \<Rightarrow> worker_config option) \<Rightarrow> memory_store \<Rightarrow> string
    \<Rightarrow> agent_id \<Rightarrow> json \<Rightarrow> py_error + worker_container" where
  "bootstrap_container env validate mem sid a cfg_json =
     (case validate cfg_json of
        None \<Rightarrow> Inl ValidationError
      | Some cfg \<Rightarrow>
          (let c = new_worker_container cfg a True mem (env_now env) in
           (case get_handler (cfg_handler_type cfg) of
              Inl e \<Rightarrow> Inl e
            | Inr h \<Rightarrow>
                (let c = set_handler h c;
                     c = (case cfg_persona cfg of
                            Some p \<Rightarrow> if cfg_handler_type cfg = ''conversation'' \<and> p \<noteq> []
                                      then c\<lparr>wc_conversation := Some (new_conversation_session p sid)\<rparr> else c
                          | None \<Rightarrow> c) in
                 (case wc_start env c of (c', Inl e) \<Rightarrow> Inl e | (c', Inr _) \<Rightarrow> Inr c')))))"

text \<open>The state of the loop: the container, if started, and what was written before it.\<close>

record worker =
  wk_container :: "worker_container option"
  wk_early :: "worker_message list"

definition wk_out :: "worker \<Rightarrow> worker_message list" where
  "wk_out w = wk_early w @ (case wk_container w of None \<Rightarrow> [] | Some c \<Rightarrow> wc_out c)"

datatype loop_next = GoOn | Leave

text \<open>Health as the loop reports it.\<close>

definition report_health :: "seconds \<Rightarrow> worker_container \<Rightarrow> (worker_container, unit) outcome" where
  "report_health now c =
     (case wc_health_report now c of
        Inl e \<Rightarrow> (c, Inl e)
      | Inr h \<Rightarrow> (write_message (HealthReportMessage (wh_state h)
                   (case wh_inner_state h of None \<Rightarrow> [] | Some i \<Rightarrow> i) (wh_uptime h) (JObj [])) c, Inr ()))"

text \<open>One decoded message; an exception leaves the loop with what was done before it.\<close>

definition with_container :: "worker \<Rightarrow> (worker_container \<Rightarrow> (worker_container, unit) outcome) \<Rightarrow> (worker, loop_next) outcome" where
  "with_container w f =
     (case wk_container w of
        None \<Rightarrow> (w, Inr GoOn)
      | Some c \<Rightarrow> (case f c of (c', r) \<Rightarrow>
          (w\<lparr>wk_container := Some c'\<rparr>, case r of Inl e \<Rightarrow> Inl e | Inr _ \<Rightarrow> Inr GoOn)))"

fun worker_turn :: "(json \<Rightarrow> worker_config option) \<Rightarrow> memory_store \<Rightarrow> string \<Rightarrow> worker_env \<times> head_message \<Rightarrow> worker
    \<Rightarrow> (worker, loop_next) outcome" where
  "worker_turn validate mem sid (env, StartMessage a cfg) w =
     (case wk_container w of
        Some _ \<Rightarrow> (w, Inr GoOn)
      | None \<Rightarrow>
          (case bootstrap_container env validate mem sid a cfg of
             Inl e \<Rightarrow> (w, Inl e)
           | Inr c \<Rightarrow> (w\<lparr>wk_container := Some (write_message (SignalMessage ''ready'' []) c)\<rparr>, Inr GoOn)))"
| "worker_turn validate mem sid (env, ReconnectMessage a) w =
     (case wk_container w of
        None \<Rightarrow> (w\<lparr>wk_early := wk_early w @ [HealthReportMessage ''unknown'' [] 0 (JObj [])]\<rparr>, Inr GoOn)
      | Some _ \<Rightarrow> with_container w (report_health (env_now env)))"
| "worker_turn validate mem sid (env, GiveTaskMessage t d ctx) w = with_container w (\<lambda>c. (give_task d c, Inr ()))"
| "worker_turn validate mem sid (env, InboundMessage s ch content i) w = with_container w (handle_inbound env s ch content)"
| "worker_turn validate mem sid (env, HealthCheckMessage) w = with_container w (report_health (env_now env))"
| "worker_turn validate mem sid (env, StopMessage reason graceful) w =
     (case wk_container w of
        None \<Rightarrow> (w, Inr Leave)
      | Some c \<Rightarrow>
          (case wc_stop env c of
             (c', Inl e) \<Rightarrow> (w\<lparr>wk_container := Some c'\<rparr>, Inl e)
           | (c', Inr _) \<Rightarrow> (w\<lparr>wk_container := Some (write_message (SignalMessage ''stopped'' []) c')\<rparr>, Inr Leave)))"

fun worker_loop :: "(json \<Rightarrow> worker_config option) \<Rightarrow> memory_store \<Rightarrow> string \<Rightarrow> (worker_env \<times> head_message) list \<Rightarrow> worker
    \<Rightarrow> (worker, unit) outcome" where
  "worker_loop validate mem sid [] w = (w, Inr ())"
| "worker_loop validate mem sid (m # ms) w =
     (case worker_turn validate mem sid m w of
        (w', Inl e) \<Rightarrow> (w', Inl e)
      | (w', Inr Leave) \<Rightarrow> (w', Inr ())
      | (w', Inr GoOn) \<Rightarrow> worker_loop validate mem sid ms w')"

definition run_worker :: "(json \<Rightarrow> worker_config option) \<Rightarrow> memory_store \<Rightarrow> string \<Rightarrow> worker_env \<Rightarrow>
    (worker_env \<times> head_message) list \<Rightarrow> (worker, unit) outcome" where
  "run_worker validate mem sid final ms =
     (case worker_loop validate mem sid ms \<lparr>wk_container = None, wk_early = []\<rparr> of
        (w, Inl e) \<Rightarrow> (w, Inl e)
      | (w, Inr _) \<Rightarrow>
          (case wk_container w of
             None \<Rightarrow> (w, Inr ())
           | Some c \<Rightarrow>
               (case wc_state c of
                  Inl e \<Rightarrow> (w, Inl e)
                | Inr st \<Rightarrow>
                    if st \<noteq> ''stopped''
                    then (case wc_stop final c of (c', r) \<Rightarrow> (w\<lparr>wk_container := Some c'\<rparr>, r))
                    else (w, Inr ()))))"

section \<open>Restarting a worker\<close>

lemmas fire_gsd = fire_def gsd_lifecycle_def outer_transitions_def create_lifecycle_def wc_machine_def

lemma gsd_stop_fires:
  assumes "cfg_agent_type (wc_config c) = ''gsd''" "fsm_conf (wc_fsm c) = [''running'', p]"
  shows "\<exists>c1. wc_fire h0 ''begin_stop'' now c = (c1, Inr ()) \<and> fsm_conf (wc_fsm c1) = [''stopping'']
    \<and> wc_config c1 = wc_config c \<and> wc_memory c1 = wc_memory c"
  using assms by (simp add: wc_fire_def fire_gsd)

lemma gsd_finish_fires:
  assumes "cfg_agent_type (wc_config c) = ''gsd''" "fsm_conf (wc_fsm c) = [''stopping'']"
  shows "\<exists>c1. wc_fire h0 ''finish_stop'' now c = (c1, Inr ()) \<and> fsm_conf (wc_fsm c1) = [''stopped'']
    \<and> wc_memory c1 = wc_memory c"
  using assms by (simp add: wc_fire_def fire_gsd)

lemma gsd_start_fires:
  assumes "cfg_agent_type cfg = ''gsd''"
  shows "\<exists>f. wc_fire h0 ''start'' now (set_handler h (new_worker_container cfg a w mem t))
      = ((set_handler h (new_worker_container cfg a w mem t))\<lparr>wc_fsm := f, wc_last_activity := now\<rparr>, Inr ())
    \<and> fsm_conf f = [''running'', ''idle'']"
  using assms
  by (simp add: wc_fire_def fire_gsd new_worker_container_def set_handler_def initial_fsm_def enter_running_def)

text \<open>What a stopped worker leaves on disk for the next one.\<close>

definition left_behind :: "worker_env \<Rightarrow> worker_container \<Rightarrow> memory_store \<Rightarrow> bool" where
  "left_behind env c mem \<longleftrightarrow>
     (\<exists>ck. ck_configuration ck = fsm_conf (wc_fsm c) \<and>
        mem_get_latest_checkpoint (mem_open mem) ''gsd_phase'' = Inr (Some (dump_json (env_checkpoints env) ck)))
     \<and> mem_get (mem_open mem) ''current_assignment'' = mem_get (wc_memory c) ''current_assignment''"

lemma checkpoint_phase_open:
  assumes "ms_opened (wc_memory c)"
  shows "\<exists>mem. checkpoint_phase env c = (c\<lparr>wc_memory := mem\<rparr>, Inr ()) \<and> left_behind env c (mem_close mem)"
proof -
  let ?phase = "case wc_inner_state c of Some p \<Rightarrow> if p = [] then ''idle'' else p | None \<Rightarrow> ''idle''"
  let ?ck = "\<lparr>ck_configuration = fsm_conf (wc_fsm c), ck_phase = ?phase, ck_timestamp = env_stamp env\<rparr>"
  obtain mem where mem: "mem_checkpoint (wc_memory c) ''gsd_phase'' (dump_json (env_checkpoints env) ?ck) (env_stamp env) = Inr mem"
    using assms by (simp add: mem_checkpoint_def)
  have m1: "ms_opened mem" "ms_kv mem = ms_kv (wc_memory c)"
    "mem_get_latest_checkpoint mem ''gsd_phase'' = Inr (Some (dump_json (env_checkpoints env) ?ck))"
    using mem assms by (auto simp: mem_checkpoint_def mem_get_latest_checkpoint_def split: if_splits)
  obtain mem' where mem': "mem_set mem ''current_phase'' ?phase (env_stamp env) = Inr mem'"
    using m1(1) by (simp add: mem_set_def)
  have m2: "ms_opened mem'" "mem_get mem' ''current_assignment'' = mem_get (wc_memory c) ''current_assignment''"
    "ms_checkpoints mem' = ms_checkpoints mem"
    using ms.put_opened [OF mem'] ms.get_put [OF mem'] m1(1,2) mem' assms
    by (auto simp: mem_get_def mem_set_def split: if_splits)
  have "mem_open (mem_close mem') = mem'" using m2(1) by (simp add: mem_open_def mem_close_def)
  then have "left_behind env c (mem_close mem')"
    using m1 m2 by (auto simp: left_behind_def mem_get_latest_checkpoint_def intro!: exI [of _ ?ck])
  then show ?thesis using mem mem' by (intro exI [of _ mem']) (simp add: checkpoint_phase_def Let_def)
qed

lemma left_behind_fsm:
  "fsm_conf (wc_fsm c') = fsm_conf (wc_fsm c) \<Longrightarrow> wc_memory c' = wc_memory c \<Longrightarrow>
     left_behind env c' mem = left_behind env c mem"
  by (simp add: left_behind_def)

text \<open>
  C7. A phase survives the restart of its worker. Suppose the JSON of a checkpoint
  validates to it. A GSD agent runs in some phase with its memory open. Stopping its
  container succeeds; and a new container of the same configuration, started on the same
  memory file, runs in that same phase, will give Claude the command that resumes it
  (the configured one when the phase is idle), and holds the assignment that was stored.
\<close>

theorem phase_survives_restart:
  assumes codec: "\<And>ck. validate_json (env_checkpoints env') (dump_json (env_checkpoints env) ck) = Some ck"
    and "wc_handler c = Some GsdSessionHandler" and "wc_config c = cfg" and "cfg_agent_type cfg = ''gsd''"
    and "p \<in> set (mc_substates gsd_lifecycle)" and "fsm_conf (wc_fsm c) = [''running'', p]"
    and "ms_opened (wc_memory c)"
  shows "\<exists>c1. wc_stop env c = (c1, Inr ()) \<and> fsm_conf (wc_fsm c1) = [''stopped''] \<and> \<not> ms_opened (wc_memory c1)
    \<and> (\<exists>c2. wc_start env' (set_handler GsdSessionHandler (new_worker_container cfg a True (wc_memory c1) now)) = (c2, Inr ())
        \<and> fsm_conf (wc_fsm c2) = [''running'', p]
        \<and> wc_gsd_command c2 = (case dict_get phase_resume_commands p of Some cmd \<Rightarrow> Some cmd | None \<Rightarrow> cfg_gsd_command cfg)
        \<and> (\<forall>j. wf_json j \<and> mem_get (wc_memory c) ''current_assignment'' = Inr (Some (dumps j))
             \<longrightarrow> wc_current_assignment c2 = Some j))"
proof -
  obtain mem where mem: "checkpoint_phase env c = (c\<lparr>wc_memory := mem\<rparr>, Inr ())" "left_behind env c (mem_close mem)"
    using checkpoint_phase_open [OF assms(7)] by blast
  obtain ca where ca: "wc_fire (env_h0 env) ''begin_stop'' (env_now env) (c\<lparr>wc_memory := mem\<rparr>) = (ca, Inr ())"
    "fsm_conf (wc_fsm ca) = [''stopping'']" "wc_config ca = cfg" "wc_memory ca = mem"
    using gsd_stop_fires [of "c\<lparr>wc_memory := mem\<rparr>" p] assms(3,4,6) by auto
  obtain cb where cb: "wc_fire (env_h0 env) ''finish_stop'' (env_now env) ca = (cb, Inr ())"
    "fsm_conf (wc_fsm cb) = [''stopped'']" "wc_memory cb = mem"
    using gsd_finish_fires [of ca] ca assms(4) by auto
  let ?c1 = "cb\<lparr>wc_memory := mem_close mem\<rparr>"
  have stop: "wc_stop env c = (?c1, Inr ())"
    using assms(2) mem(1) ca(1) cb(1,3) by (simp add: wc_stop_def handler_on_stop_def)
  let ?n = "set_handler GsdSessionHandler (new_worker_container cfg a True (mem_close mem) now)"
  obtain f where f: "wc_fire (env_h0 env') ''start'' (env_now env') ?n
      = (?n\<lparr>wc_fsm := f, wc_last_activity := env_now env'\<rparr>, Inr ())"
    using gsd_start_fires [OF assms(4)] by blast
  let ?d = "?n\<lparr>wc_fsm := f, wc_last_activity := env_now env', wc_memory := mem_open (mem_close mem)\<rparr>"
  have d_mem: "wc_memory ?d = mem_open (mem_close mem)" "wc_gsd_command ?d = cfg_gsd_command cfg"
    by (simp_all add: set_handler_def new_worker_container_def)
  have start: "wc_start env' ?n = session_on_start env' ?d"
    using f by (simp add: wc_start_def handler_on_start_def set_handler_def new_worker_container_def)
  obtain ck where ck: "ck_configuration ck = [''running'', p]"
    "mem_get_latest_checkpoint (mem_open (mem_close mem)) ''gsd_phase'' = Inr (Some (dump_json (env_checkpoints env) ck))"
    using mem(2) assms(6) by (auto simp: left_behind_def)
  have valid: "set [''running'', p] \<subseteq> set valid_states" "ordered_set [''running'', p] = [''running'', p]"
    using assms(5) by (auto simp: gsd_lifecycle_def valid_states_def ordered_set_def)
  have restored: "restore_from_checkpoint env' ?d = ?d\<lparr>wc_fsm := f\<lparr>fsm_conf := [''running'', p]\<rparr>\<rparr>"
    using ck valid codec d_mem by (simp add: restore_from_checkpoint_def del: set_simps)
  let ?e = "?d\<lparr>wc_fsm := f\<lparr>fsm_conf := [''running'', p]\<rparr>,
      wc_gsd_command := (case dict_get phase_resume_commands p of Some cmd \<Rightarrow> Some cmd | None \<Rightarrow> cfg_gsd_command cfg)\<rparr>"
  have "resolve_gsd_command (?d\<lparr>wc_fsm := f\<lparr>fsm_conf := [''running'', p]\<rparr>\<rparr>)
      = (case dict_get phase_resume_commands p of Some cmd \<Rightarrow> Some cmd | None \<Rightarrow> cfg_gsd_command cfg)"
    by (simp add: resolve_gsd_command_def wc_inner_state_def inner_state_of_def set_handler_def
        new_worker_container_def split: option.split)
  then have e: "(let c = restore_from_checkpoint env' ?d in c\<lparr>wc_gsd_command := resolve_gsd_command c\<rparr>) = ?e"
    by (simp only: restored Let_def worker_container.update_convs)
  have as: "mem_get (wc_memory ?e) ''current_assignment'' = mem_get (wc_memory c) ''current_assignment''"
    using mem(2) d_mem(1) by (simp add: left_behind_def)
  have get: "\<exists>r. mem_get (wc_memory c) ''current_assignment'' = Inr r"
    using assms(7) by (simp add: mem_get_def)
  have s: "session_on_start env' ?d =
    (case mem_get (wc_memory c) ''current_assignment'' of
       Inl x \<Rightarrow> (?e, Inl x) | Inr None \<Rightarrow> (?e, Inr ())
     | Inr (Some raw) \<Rightarrow> (case loads raw of None \<Rightarrow> (?e, Inr ()) | Some j \<Rightarrow> (?e\<lparr>wc_current_assignment := Some j\<rparr>, Inr ())))"
    unfolding session_on_start_def as [symmetric] e [symmetric] by (simp only: Let_def)
  have "\<exists>c2. session_on_start env' ?d = (c2, Inr ()) \<and> fsm_conf (wc_fsm c2) = [''running'', p]
      \<and> wc_gsd_command c2 = (case dict_get phase_resume_commands p of Some cmd \<Rightarrow> Some cmd | None \<Rightarrow> cfg_gsd_command cfg)
      \<and> (\<forall>j. wf_json j \<and> mem_get (wc_memory c) ''current_assignment'' = Inr (Some (dumps j))
           \<longrightarrow> wc_current_assignment c2 = Some j)"
    using get by (auto simp: s loads_dumps split: option.splits)
  then show ?thesis
    using stop cb(2) start by (intro exI [of _ ?c1]) (simp add: mem_close_def)
qed

text \<open>A codec of checkpoints, and a container in the middle of its work, for the witnesses.\<close>

definition checkpoint_json :: "checkpoint_data \<Rightarrow> json" where
  "checkpoint_json ck = JObj [(''configuration'', JArr (map JStr (ck_configuration ck))),
     (''phase'', JStr (ck_phase ck)), (''timestamp'', JStr (ck_timestamp ck))]"

definition checkpoint_codec :: "checkpoint_data json_codec" where
  "checkpoint_codec =
     \<lparr>dump_json = (\<lambda>ck. dumps (checkpoint_json ck)),
      validate_json = (\<lambda>s. case loads s of
         Some (JObj [(_, JArr conf), (_, JStr p), (_, JStr t)]) \<Rightarrow>
           Some \<lparr>ck_configuration = map (\<lambda>j. case j of JStr x \<Rightarrow> x | _ \<Rightarrow> []) conf, ck_phase = p, ck_timestamp = t\<rparr>
       | _ \<Rightarrow> None)\<rparr>"

lemma checkpoint_codec_roundtrip: "validate_json checkpoint_codec (dump_json checkpoint_codec ck) = Some ck"
proof -
  have "wf_json (checkpoint_json ck)" by (simp add: checkpoint_json_def wf_items_iff)
  then have "loads (dumps (checkpoint_json ck)) = Some (checkpoint_json ck)" by (rule loads_dumps)
  then show ?thesis by (simp add: checkpoint_codec_def) (simp add: checkpoint_json_def comp_def)
qed

definition demo_env :: worker_env where
  "demo_env = \<lparr>env_h0 = ''idle'', env_now = 5, env_stamp = ''t'', env_loop_time = 7, env_checkpoints = checkpoint_codec,
     env_items = backlog_item_model, env_cli = (\<lambda>_ _ _. CleanExit ''ok'')\<rparr>"

definition demo_config :: "string \<Rightarrow> string \<Rightarrow> worker_config" where
  "demo_config h ty = \<lparr>cfg_handler_type = h, cfg_agent_type = ty, cfg_capabilities = [], cfg_gsd_command = Some ''/gsd:new'',
     cfg_persona = None, cfg_project_id = None, cfg_uses_tmux = True\<rparr>"

definition demo_worker :: "handler \<Rightarrow> string \<Rightarrow> string \<Rightarrow> string \<Rightarrow> worker_container" where
  "demo_worker h hty ty inner =
     (set_handler h (new_worker_container (demo_config hty ty) ''gsd-1'' True (mem_open new_memory_store) 0))
       \<lparr>wc_fsm := \<lparr>fsm_conf = [''running'', inner], fsm_history = None\<rparr>\<rparr>"

theorem phase_survives_restart_witness:
  "\<exists>c1 c2. wc_stop demo_env (demo_worker GsdSessionHandler ''session'' ''gsd'' ''execute'') = (c1, Inr ())
     \<and> wc_start demo_env (set_handler GsdSessionHandler
         (new_worker_container (demo_config ''session'' ''gsd'') ''gsd-1'' True (wc_memory c1) 9)) = (c2, Inr ())
     \<and> fsm_conf (wc_fsm c2) = [''running'', ''execute''] \<and> wc_gsd_command c2 = Some ''/gsd:execute-phase 1''"
proof -
  let ?c = "demo_worker GsdSessionHandler ''session'' ''gsd'' ''execute''"
  have "wc_handler ?c = Some GsdSessionHandler" "wc_config ?c = demo_config ''session'' ''gsd''"
    "cfg_agent_type (demo_config ''session'' ''gsd'') = ''gsd''" "''execute'' \<in> set (mc_substates gsd_lifecycle)"
    "fsm_conf (wc_fsm ?c) = [''running'', ''execute'']" "ms_opened (wc_memory ?c)"
    by (simp_all add: demo_worker_def demo_config_def set_handler_def new_worker_container_def gsd_lifecycle_def
        mem_open_def)
  moreover have "validate_json (env_checkpoints demo_env) (dump_json (env_checkpoints demo_env) ck) = Some ck" for ck
    by (simp add: demo_env_def checkpoint_codec_roundtrip)
  moreover have "dict_get phase_resume_commands ''execute'' = Some ''/gsd:execute-phase 1''"
    by (simp add: phase_resume_commands_def)
  ultimately show ?thesis
    using phase_survives_restart [of demo_env demo_env ?c "demo_config ''session'' ''gsd''" "''execute''" "''gsd-1''" 9]
    by auto
qed

section \<open>The message bracket and the assignment message\<close>

text \<open>
  A relation between a container before and after a piece of work that every effect of a
  handler's body respects: then it holds across the bodies.
\<close>

locale container_frame =
  fixes R :: "worker_container \<Rightarrow> worker_container \<Rightarrow> bool"
  assumes refl: "R c c"
    and trans: "R c d \<Longrightarrow> R d e \<Longrightarrow> R c e"
    and report: "R c d \<Longrightarrow> R c (send_report ch s d)"
    and project: "R c (c\<lparr>wc_project_state := q\<rparr>)"
    and stamps: "R c (c\<lparr>wc_state_timestamps := ts\<rparr>)" "R c (c\<lparr>wc_state_timestamps := ts, wc_stuck_detected := ds\<rparr>)"
    and talk: "R c (c\<lparr>wc_conversation := v\<rparr>)"
begin

lemma conversation_body_frame: "R c (fst (conversation_body env ch content c))"
  by (simp add: conversation_body_def report refl talk split: option.split prod.split)

lemma on_project_frame: "R c (fst (on_project f q c))"
  by (simp add: on_project_def project split: prod.splits)

lemma auto_assign_frame: "R c (fst (auto_assign_next env a c))"
proof (cases "wc_project_state c")
  case (Some q)
  then show ?thesis
    using on_project_frame [of c "assign_next_task (env_items env) (env_stamp env) a" q]
    by (auto simp: auto_assign_next_def report split: prod.splits sum.splits option.splits)
qed (simp add: auto_assign_next_def refl)

lemma pm_completed_frame:
  "R c (fst (case on_project f q c of (c', Inl e) \<Rightarrow> (c', Inl e) | (c', Inr _) \<Rightarrow> auto_assign_next env a c'))"
  using on_project_frame [of c f q] trans [OF _ auto_assign_frame] by (auto split: prod.splits sum.splits)

lemma pm_request_frame:
  "R c (fst (case on_project f q c of (c', Inl e) \<Rightarrow> (c', Inl e) | (c', Inr _) \<Rightarrow> (c', Inr ())))"
  using on_project_frame [of c f q] by (auto split: prod.splits sum.splits)

lemma pm_body_frame: "R c (fst (pm_body env sender content c))"
  unfolding pm_body_def Let_def
  by (simp add: stamps refl pm_completed_frame pm_request_frame on_project_frame split: option.split)

end

text \<open>The bodies of the handlers leave the lifecycle and the configuration alone.\<close>

definition same_lifecycle :: "worker_container \<Rightarrow> worker_container \<Rightarrow> bool" where
  "same_lifecycle c c' \<longleftrightarrow> wc_fsm c' = wc_fsm c \<and> wc_config c' = wc_config c"

interpretation lf: container_frame same_lifecycle
  by unfold_locales (simp_all add: same_lifecycle_def send_report_def write_message_def)

lemma processing_bracket:
  assumes "cfg_agent_type (wc_config c) \<in> {''fulltime'', ''company''}" "fsm_conf (wc_fsm c) = [''running'', ''listening'']"
    and body: "\<And>d. same_lifecycle d (fst (body d))"
  shows "\<exists>d c'. fsm_conf (wc_fsm d) = [''running'', ''processing''] \<and> processing env body c = (c', snd (body d))
    \<and> fsm_conf (wc_fsm c') = [''running'', ''listening'']"
proof -
  have m: "create_lifecycle (cfg_agent_type (wc_config c)) = event_driven_lifecycle"
    using assms(1) by (auto simp: create_lifecycle_def)
  obtain c1 where c1: "wc_fire (env_h0 env) ''start_processing'' (env_now env) c = (c1, Inr ())"
    "fsm_conf (wc_fsm c1) = [''running'', ''processing'']" "wc_config c1 = wc_config c"
    using assms(2) by (simp add: wc_fire_def wc_machine_def m fire_def event_driven_lifecycle_def outer_transitions_def)
  obtain c2 r where b: "body c1 = (c2, r)" by force
  then have s: "wc_fsm c2 = wc_fsm c1" "wc_config c2 = wc_config c"
    using body [of c1] c1(3) by (simp_all add: same_lifecycle_def)
  obtain c3 where "wc_fire (env_h0 env) ''done_processing'' (env_now env) c2 = (c3, Inr ())"
    "fsm_conf (wc_fsm c3) = [''running'', ''listening'']"
    using c1(2) by (simp add: wc_fire_def wc_machine_def m s fire_def event_driven_lifecycle_def outer_transitions_def)
  then show ?thesis using c1 b by (intro exI [of _ c1] exI [of _ c3]) (simp add: processing_def)
qed

lemma no_processing_event:
  assumes "cfg_agent_type (wc_config c) \<notin> {''fulltime'', ''company''}"
  shows "processing env body c = (c, Inl (AttributeError ''start_processing''))"
proof -
  have "''start_processing'' \<notin> fst ` set (mc_transitions (wc_machine c))"
    using assms by (auto simp: wc_machine_def create_lifecycle_def gsd_lifecycle_def container_lifecycle_def
        outer_transitions_def split: if_splits)
  moreover from this have "find (\<lambda>(e, src, t). e = ''start_processing'' \<and> src \<in> set (fsm_conf (wc_fsm c)))
      (mc_transitions (wc_machine c)) = None"
    by (force simp: find_None_iff)
  ultimately show ?thesis by (simp add: processing_def wc_fire_def fire_def)
qed

text \<open>
  A conversation or manager agent is listening again after every message. On an
  event-driven container that is listening, handling a message ends listening, whatever
  the body of the handler does (a failing store included, whose exception is passed on);
  on a container of any other agent type the same handlers raise before anything changes.
\<close>

theorem listening_after_message:
  assumes "h \<in> {WorkerConversationHandler, PMTransientHandler}"
    and "cfg_agent_type (wc_config c) \<in> {''fulltime'', ''company''} \<Longrightarrow> fsm_conf (wc_fsm c) = [''running'', ''listening'']"
  shows "if cfg_agent_type (wc_config c) \<in> {''fulltime'', ''company''}
    then fsm_conf (wc_fsm (fst (handle_message env h sender ch content c))) = [''running'', ''listening'']
      \<and> (\<exists>d. fsm_conf (wc_fsm d) = [''running'', ''processing''] \<and> snd (handle_message env h sender ch content c) =
          snd (if h = PMTransientHandler then pm_body env sender content d else conversation_body env ch content d))
    else handle_message env h sender ch content c = (c, Inl (AttributeError ''start_processing''))"
proof (cases "cfg_agent_type (wc_config c) \<in> {''fulltime'', ''company''}")
  case True
  note p = processing_bracket [OF True assms(2) [OF True]]
  consider "h = WorkerConversationHandler" | "h = PMTransientHandler" using assms(1) by auto
  then show ?thesis
  proof cases
    case 1
    with p [OF lf.conversation_body_frame [of _ env ch content], of env] True show ?thesis
      by (auto simp: handle_message_def)
  next
    case 2
    with p [OF lf.pm_body_frame [of _ env sender content], of env] True show ?thesis
      by (auto simp: handle_message_def)
  qed
next
  case False
  then show ?thesis using assms(1) no_processing_event [OF False] by (auto simp: handle_message_def)
qed

theorem listening_after_message_witness:
  "fsm_conf (wc_fsm (fst (handle_message demo_env PMTransientHandler ''pm'' ''c'' ''[Task Failed] agent=a item=b''
     (demo_worker PMTransientHandler ''transient'' ''company'' ''listening'')))) = [''running'', ''listening'']
   \<and> handle_message demo_env WorkerConversationHandler ''pm'' ''c'' ''hi''
       (demo_worker WorkerConversationHandler ''conversation'' ''gsd'' ''idle'')
     = (demo_worker WorkerConversationHandler ''conversation'' ''gsd'' ''idle'', Inl (AttributeError ''start_processing''))"
proof -
  have d: "cfg_agent_type (wc_config (demo_worker h hty ty i)) = ty" "fsm_conf (wc_fsm (demo_worker h hty ty i)) = [''running'', i]"
    for h hty ty i
    by (simp_all add: demo_worker_def demo_config_def set_handler_def new_worker_container_def)
  show ?thesis
    using listening_after_message [of PMTransientHandler "demo_worker PMTransientHandler ''transient'' ''company'' ''listening''"
        demo_env "''pm''" "''c''" "''[Task Failed] agent=a item=b''"]
      listening_after_message [of WorkerConversationHandler "demo_worker WorkerConversationHandler ''conversation'' ''gsd'' ''idle''"
        demo_env "''pm''" "''c''" "''hi''"]
    by (simp add: d)
qed

lemma py_contains_skip: "c \<notin> set q \<Longrightarrow> py_contains (c # t) (q @ x) = py_contains (c # t) x"
  by (induction q) (auto simp: startswith_def)

lemma py_split_on_none: "\<not> py_contains sep s \<Longrightarrow> py_split_on sep s = [s]"
  by (simp add: py_split_on_def split_on_none)

text \<open>
  The agent understands the manager's assignment message. The manager announces an
  item with a text that names it at the end; when neither the agent's name and the title nor the
  item's identifier contain the marker of the identifier, and the identifier does not end in a
  closing parenthesis, a session that receives the text takes over exactly that item: it is
  its current assignment and, read back from its memory, its stored one.
\<close>

theorem assignment_message_understood:
  assumes "\<not> py_contains ''(item: '' (a @ '': '' @ title item @ '' '')" "\<not> py_contains ''(item: '' (item_id item @ '')'')"
    and "item_id item \<noteq> [] \<Longrightarrow> last (item_id item) \<noteq> CHR '')''" and "ms_opened (wc_memory c)"
  shows "\<exists>c'. session_handle_message env (task_assigned_message a item) c = (c', Inr ())
    \<and> wc_current_assignment c' = Some (JObj [(''raw'', JStr (task_assigned_message a item)),
         (''assigned_at'', JStr (env_stamp env)), (''item_id'', JStr (item_id item))])
    \<and> (\<exists>raw. mem_get (wc_memory c') ''current_assignment'' = Inr (Some raw) \<and> loads raw = wc_current_assignment c')"
proof -
  let ?p = "''[Task Assigned] @'' @ a @ '': '' @ title item @ '' ''"
  let ?m = "task_assigned_message a item"
  have m: "?m = ?p @ ''(item: '' @ item_id item @ '')''" by (simp add: task_assigned_message_def)
  have "py_contains (CHR ''('' # ''item: '') ?p = py_contains (CHR ''('' # ''item: '') (a @ '': '' @ title item @ '' '')"
    by (rule py_contains_skip) simp
  then have np: "\<not> py_contains ''(item: '' ?p" using assms(1) by simp
  have "py_split_on ''(item: '' ?m = ?p # py_split_on ''(item: '' (item_id item @ '')'')"
    unfolding m by (rule py_split_on_prefix [OF refl _ np]) simp
  then have "py_split_on ''(item: '' ?m ! 1 = item_id item @ '')''"
    by (simp add: py_split_on_none assms(2))
  moreover have "py_contains ''(item: '' ?m" unfolding m by (rule py_contains_append)
  ultimately have i: "parse_item_id ?m = Some (item_id item)"
    using rstrip_char_last [of "item_id item" "CHR '')''"] assms(3) by (auto simp: parse_item_id_def)
  let ?j = "JObj [(''raw'', JStr ?m), (''assigned_at'', JStr (env_stamp env)), (''item_id'', JStr (item_id item))]"
  have j: "assignment_json ?m (env_stamp env) = ?j" by (simp add: assignment_json_def i)
  obtain mem where mem: "mem_set (wc_memory c) ''current_assignment'' (dumps ?j) (env_stamp env) = Inr mem"
    using assms(4) by (simp add: mem_set_def)
  then have get: "mem_get mem ''current_assignment'' = Inr (Some (dumps ?j))"
    using ms.get_put [OF mem] by simp
  have "startswith ?m ''[Task Assigned]''" "\<not> startswith ?m ''[Review Decision]''"
    by (simp_all add: task_assigned_message_def startswith_def)
  moreover have "loads (dumps ?j) = Some ?j" by (rule loads_dumps) simp
  ultimately show ?thesis
    using mem get by (simp add: session_handle_message_def j Let_def del: dumps.simps)
qed

theorem assignment_message_understood_witness:
  "\<exists>c'. session_handle_message demo_env (task_assigned_message ''gsd-1'' (demo_item ''a''))
       (demo_worker GsdSessionHandler ''session'' ''gsd'' ''idle'') = (c', Inr ())
    \<and> wc_current_assignment c' = Some (JObj [(''raw'', JStr (task_assigned_message ''gsd-1'' (demo_item ''a''))),
         (''assigned_at'', JStr ''t''), (''item_id'', JStr ''a'')])"
proof -
  have "ms_opened (wc_memory (demo_worker GsdSessionHandler ''session'' ''gsd'' ''idle''))" "env_stamp demo_env = ''t''"
    "item_id (demo_item ''a'') = ''a''"
    by (simp_all add: demo_worker_def set_handler_def new_worker_container_def mem_open_def demo_env_def demo_item_def)
  moreover have "\<not> py_contains ''(item: '' (''gsd-1'' @ '': '' @ title (demo_item ''a'') @ '' '')"
    "\<not> py_contains ''(item: '' (''a'' @ '')'')"
    by (simp_all add: demo_item_def startswith_def)
  ultimately show ?thesis
    using assignment_message_understood [of "''gsd-1''" "demo_item ''a''" "demo_worker GsdSessionHandler ''session'' ''gsd'' ''idle''"
        demo_env]
    by auto
qed

section \<open>The stuck detector\<close>

definition overdue :: "seconds \<Rightarrow> worker_container \<Rightarrow> (agent_id \<times> string \<times> seconds) list \<Rightarrow> (agent_id \<times> string \<times> seconds) list" where
  "overdue now c xs = filter (\<lambda>(a, st, ts). now - ts > wc_stuck_threshold c \<and> a \<notin> set (wc_stuck_detected c)) xs"

definition intervene :: "seconds \<Rightarrow> worker_container \<Rightarrow> agent_id \<times> string \<times> seconds \<Rightarrow> worker_message" where
  "intervene now c = (\<lambda>(a, st, ts). ReportMessage (''agent-'' @ a) (intervention a st (now - ts) (wc_stuck_threshold c)) None)"

lemma stuck_round_spec:
  assumes "distinct (map fst xs)" "wc_has_writer c"
  shows "stuck_round now xs c = c\<lparr>wc_stuck_detected := rev (map fst (overdue now c xs)) @ wc_stuck_detected c,
      wc_out := wc_out c @ map (intervene now c) (overdue now c xs)\<rparr>"
  using assms unfolding overdue_def
proof (induction xs arbitrary: c)
  case (Cons x xs)
  obtain a st ts where x: "x = (a, st, ts)" by (rule prod_cases3)
  show ?case
  proof (cases "now - ts > wc_stuck_threshold c \<and> a \<notin> set (wc_stuck_detected c)")
    case True
    let ?d = "c\<lparr>wc_stuck_detected := a # wc_stuck_detected c, wc_out := wc_out c @ [intervene now c x]\<rparr>"
    have d: "stuck_round now (x # xs) c = stuck_round now xs ?d"
      using Cons.prems(2) True by (simp add: send_report_def write_message_def intervene_def x)
    have f: "filter (\<lambda>(b, st, ts). now - ts > wc_stuck_threshold c \<and> b \<notin> set (a # wc_stuck_detected c)) xs
        = filter (\<lambda>(b, st, ts). now - ts > wc_stuck_threshold c \<and> b \<notin> set (wc_stuck_detected c)) xs"
      using Cons.prems(1) x by (intro filter_cong) force+
    have i: "intervene now ?d = intervene now c" by (simp add: intervene_def)
    show ?thesis
      using Cons.IH [of ?d] Cons.prems True f unfolding d i by (simp add: x)
  next
    case False
    then show ?thesis using Cons.IH [of c] Cons.prems by (auto simp: x)
  qed
qed simp

text \<open>The agents that some round of the detector finds overdue and that were not reported before.\<close>

definition overdue_agents :: "seconds list \<Rightarrow> worker_container \<Rightarrow> agent_id set" where
  "overdue_agents rounds c =
     {a. \<exists>now st ts. now \<in> set rounds \<and> (a, st, ts) \<in> set (wc_state_timestamps c) \<and> now - ts > wc_stuck_threshold c}
     - set (wc_stuck_detected c)"

lemma overdue_agents_Cons:
  "overdue_agents (now # rounds) c = fst ` set (overdue now c (wc_state_timestamps c)) \<union>
     overdue_agents rounds (c\<lparr>wc_stuck_detected := rev (map fst (overdue now c (wc_state_timestamps c))) @ wc_stuck_detected c, wc_out := m\<rparr>)"
  by (force simp: overdue_agents_def overdue_def)

text \<open>
  The stuck detector intervenes once per agent. Over any number of rounds between
  two changes of what the manager knows about its agents, the messages the detector posts
  go to distinct agents, and these are exactly the agents whose last phase change is
  more than the threshold ago at one of the rounds and that have not been reported yet.
\<close>

theorem stuck_agents_reported_once:
  assumes "dict_ok (wc_state_timestamps c)" "wc_has_writer c"
  shows "\<exists>posts agents. wc_out (fold run_stuck_detector rounds c) = wc_out c @ posts
    \<and> map wm_channel posts = map (\<lambda>a. ''agent-'' @ a) agents \<and> distinct agents \<and> set agents = overdue_agents rounds c"
  using assms
proof (induction rounds arbitrary: c)
  case Nil
  show ?case by (intro exI [of _ "[]"]) (simp add: overdue_agents_def)
next
  case (Cons now rounds)
  let ?new = "overdue now c (wc_state_timestamps c)"
  let ?d = "c\<lparr>wc_stuck_detected := rev (map fst ?new) @ wc_stuck_detected c, wc_out := wc_out c @ map (intervene now c) ?new\<rparr>"
  have d: "run_stuck_detector now c = ?d"
    using stuck_round_spec [OF Cons.prems] by (simp add: run_stuck_detector_def)
  obtain posts agents where p: "wc_out (fold run_stuck_detector rounds ?d) = wc_out ?d @ posts"
    "map wm_channel posts = map (\<lambda>a. ''agent-'' @ a) agents" "distinct agents" "set agents = overdue_agents rounds ?d"
    using Cons.IH [of ?d] Cons.prems by auto
  have "map wm_channel (map (intervene now c) ?new) = map (\<lambda>a. ''agent-'' @ a) (map fst ?new)"
    by (auto simp: intervene_def)
  moreover have "distinct (map fst ?new)" using Cons.prems(1) by (simp add: overdue_def distinct_map_filter)
  moreover have "set (map fst ?new) \<inter> set agents = {}" unfolding p(4) by (auto simp: overdue_agents_def)
  ultimately show ?case
    using p by (intro exI [of _ "map (intervene now c) ?new @ posts"] exI [of _ "map fst ?new @ agents"])
      (simp add: d overdue_agents_Cons [of now rounds c "wc_out c @ map (intervene now c) ?new"])
qed

theorem stuck_agents_reported_once_witness:
  "\<exists>posts. wc_out (fold run_stuck_detector [600, 650, 700]
      ((demo_worker PMTransientHandler ''transient'' ''company'' ''listening'')
        \<lparr>wc_state_timestamps := [(''a'', ''plan'', 20), (''b'', ''ship'', 200)]\<rparr>)) = posts
     \<and> map wm_channel posts = [''agent-a'']"
proof -
  let ?c = "(demo_worker PMTransientHandler ''transient'' ''company'' ''listening'')
        \<lparr>wc_state_timestamps := [(''a'', ''plan'', 20), (''b'', ''ship'', 200)]\<rparr>"
  have c: "dict_ok (wc_state_timestamps ?c)" "wc_has_writer ?c" "wc_out ?c = []" "overdue_agents [600, 650, 700] ?c = {''a''}"
    by (auto simp: demo_worker_def set_handler_def new_worker_container_def overdue_agents_def)
  obtain posts agents where p: "wc_out (fold run_stuck_detector [600, 650, 700] ?c) = wc_out ?c @ posts"
    "map wm_channel posts = map (\<lambda>a. ''agent-'' @ a) agents" "distinct agents" "set agents = overdue_agents [600, 650, 700] ?c"
    using stuck_agents_reported_once [OF c(1,2), of "[600, 650, 700]"] by blast
  have "agents = [''a'']"
  proof (cases agents)
    case (Cons x xs)
    then have "xs = []" using p(3,4) c(4) by (cases xs) auto
    then show ?thesis using Cons p(4) c(4) by simp
  qed (use p(4) c(4) in simp)
  then show ?thesis using p(1,2) c(3) by simp
qed

section \<open>The protocol of the main loop\<close>

text \<open>A step that writes nothing but reports, on the same channel.\<close>

definition reports_only :: "worker_container \<Rightarrow> worker_container \<Rightarrow> bool" where
  "reports_only c c' \<longleftrightarrow> wc_has_writer c' = wc_has_writer c
     \<and> (\<exists>rs. wc_out c' = wc_out c @ rs \<and> (\<forall>r \<in> set rs. is_ReportMessage r))"

lemma reports_only_same: "wc_out c' = wc_out c \<Longrightarrow> wc_has_writer c' = wc_has_writer c \<Longrightarrow> reports_only c c'"
  by (simp add: reports_only_def)

interpretation ro: container_frame reports_only
proof (unfold_locales, goal_cases)
  case (2 c d e)
  then show ?case by (force simp: reports_only_def)
next
  case (3 c d ch s)
  then show ?case by (force simp: reports_only_def send_report_def write_message_def)
qed (simp_all add: reports_only_same)

lemma reports_only_fire: "reports_only c (fst (wc_fire h0 ev now c))"
  by (simp add: wc_fire_def reports_only_same split: sum.splits)

lemma reports_only_processing:
  assumes "\<And>d. reports_only d (fst (body d))"
  shows "reports_only c (fst (processing env body c))"
proof -
  obtain c1 r1 where 1: "wc_fire (env_h0 env) ''start_processing'' (env_now env) c = (c1, r1)" by force
  obtain c2 r2 where 2: "body c1 = (c2, r2)" by force
  obtain c3 r3 where 3: "wc_fire (env_h0 env) ''done_processing'' (env_now env) c2 = (c3, r3)" by force
  have "reports_only c c1" "reports_only c1 c2" "reports_only c2 c3"
    using reports_only_fire [of c] assms [of c1] reports_only_fire [of c2] 1 2 3 by (metis fst_conv)+
  note s = this
  have "reports_only c c2" by (rule ro.trans [OF s(1,2)])
  moreover from this have "reports_only c c3" by (rule ro.trans [OF _ s(3)])
  ultimately show ?thesis using s(1) by (simp add: processing_def 1 2 3 split: sum.split)
qed

lemma reports_only_session: "reports_only c (fst (session_handle_message env content c))"
  by (simp add: session_handle_message_def session_review_def Let_def reports_only_same
      split: list.split option.split review.split sum.split)

lemma reports_only_inbound: "reports_only c (fst (handle_inbound env sender ch content c))"
  using reports_only_processing [OF ro.conversation_body_frame] reports_only_processing [OF ro.pm_body_frame]
    reports_only_session
  by (simp add: handle_inbound_def handle_message_def reports_only_same split: option.split handler.split)

lemma reports_only_session_start: "reports_only c (fst (session_on_start env c))"
  by (simp add: session_on_start_def restore_from_checkpoint_def Let_def reports_only_same split: sum.split option.split)

lemma reports_only_checkpoint: "reports_only c (fst (checkpoint_phase env c))"
  by (simp add: checkpoint_phase_def Let_def reports_only_same split: sum.split)

lemma reports_only_start: "reports_only c (fst (wc_start env c))"
proof -
  obtain c1 r1 where 1: "wc_fire (env_h0 env) ''start'' (env_now env) c = (c1, r1)" by force
  have a: "reports_only c c1" using reports_only_fire [of c] 1 by (metis fst_conv)
  let ?c2 = "c1\<lparr>wc_memory := mem_open (wc_memory c1)\<rparr>"
  have b: "reports_only c ?c2" by (rule ro.trans [OF a]) (simp add: reports_only_same)
  have "reports_only ?c2 (fst (handler_on_start env h ?c2))" for h
    using reports_only_session_start by (simp add: handler_on_start_def reports_only_same split: handler.split)
  then have "reports_only c (fst (handler_on_start env h ?c2))" for h
    using b ro.trans by blast
  then show ?thesis using a b by (auto simp: wc_start_def 1 Let_def split: sum.split option.split)
qed

lemma reports_only_stop: "reports_only c (fst (wc_stop env c))"
proof -
  obtain c1 r1 where 1: "(case wc_handler c of None \<Rightarrow> (c, Inr ()) | Some h \<Rightarrow> handler_on_stop env h c) = (c1, r1)" by force
  obtain c2 r2 where 2: "wc_fire (env_h0 env) ''begin_stop'' (env_now env) c1 = (c2, r2)" by force
  obtain c3 r3 where 3: "wc_fire (env_h0 env) ''finish_stop'' (env_now env) c2 = (c3, r3)" by force
  have "reports_only c (fst (case wc_handler c of None \<Rightarrow> (c, Inr ()) | Some h \<Rightarrow> handler_on_stop env h c))"
    using reports_only_checkpoint by (simp add: handler_on_stop_def reports_only_same split: option.split handler.split)
  then have a: "reports_only c c1" using 1 by simp
  have b: "reports_only c c2" using ro.trans [OF a, of c2] reports_only_fire [of c1] 2 by (metis fst_conv)
  have d: "reports_only c c3" using ro.trans [OF b, of c3] reports_only_fire [of c2] 3 by (metis fst_conv)
  have "reports_only c (c3\<lparr>wc_memory := mem_close (wc_memory c3)\<rparr>)" by (rule ro.trans [OF d]) (simp add: reports_only_same)
  then show ?thesis using a b d by (auto simp: wc_stop_def 1 2 3 split: sum.split)
qed

lemma wc_fire_finish:
  assumes "wc_fire h0 ''finish_stop'' now c = (c', Inr ())"
  shows "fsm_conf (wc_fsm c') = [''stopped'']"
proof -
  have "wc_machine c \<in> {gsd_lifecycle, event_driven_lifecycle, container_lifecycle}"
    by (simp add: wc_machine_def create_lifecycle_def)
  then show ?thesis
    using assms
    by (elim insertE emptyE)
      (simp_all add: wc_fire_def fire_def gsd_lifecycle_def event_driven_lifecycle_def container_lifecycle_def
        outer_transitions_def split: if_splits, auto)
qed

lemma wc_stop_stops: "wc_stop env c = (c', Inr ()) \<Longrightarrow> wc_state c' = Inr ''stopped''"
  by (auto simp: wc_stop_def wc_state_def dest!: wc_fire_finish split: prod.splits sum.splits)

text \<open>
  What the head can tell from the messages it sent: the requests the worker has answered
  with a health report, up to the stop. Before the start a reconnect is answered, a health
  check is not.
\<close>

fun is_stop :: "head_message \<Rightarrow> bool" where
  "is_stop (StopMessage _ _) = True"
| "is_stop _ = False"

fun is_start :: "head_message \<Rightarrow> bool" where
  "is_start (StartMessage _ _) = True"
| "is_start _ = False"

fun health_requests :: "bool \<Rightarrow> head_message list \<Rightarrow> nat" where
  "health_requests started [] = 0"
| "health_requests started (m # ms) =
     (case m of
        StopMessage _ _ \<Rightarrow> 0
      | StartMessage _ _ \<Rightarrow> health_requests True ms
      | ReconnectMessage _ \<Rightarrow> Suc (health_requests started ms)
      | HealthCheckMessage \<Rightarrow> (if started then 1 else 0) + health_requests started ms
      | _ \<Rightarrow> health_requests started ms)"

abbreviation n_health :: "worker_message list \<Rightarrow> nat" where
  "n_health ms \<equiv> length (filter is_HealthReport ms)"

abbreviation n_ready :: "worker_message list \<Rightarrow> nat" where
  "n_ready ms \<equiv> length (filter (\<lambda>m. m = SignalMessage ''ready'' []) ms)"

lemma reports_only_counts:
  assumes "reports_only c c'"
  shows "n_health (wc_out c') = n_health (wc_out c)" "n_ready (wc_out c') = n_ready (wc_out c)"
    "wc_has_writer c' = wc_has_writer c"
proof -
  obtain rs where rs: "wc_out c' = wc_out c @ rs" "\<forall>r \<in> set rs. is_ReportMessage r"
    using assms by (auto simp: reports_only_def)
  have "filter is_HealthReport rs = []" using rs(2) by (induction rs) (auto simp: is_ReportMessage_def)
  moreover have "filter (\<lambda>m. m = SignalMessage ''ready'' []) rs = []"
    using rs(2) by (induction rs) (auto simp: is_ReportMessage_def)
  ultimately show "n_health (wc_out c') = n_health (wc_out c)" "n_ready (wc_out c') = n_ready (wc_out c)"
    "wc_has_writer c' = wc_has_writer c"
    using rs(1) assms by (simp_all add: reports_only_def)
qed

definition channel_ok :: "worker \<Rightarrow> bool" where
  "channel_ok w \<longleftrightarrow> (case wk_container w of None \<Rightarrow> True | Some c \<Rightarrow> wc_has_writer c)"

lemma wc_health_counts:
  assumes "report_health now c = (c', Inr ())" "wc_has_writer c"
  shows "n_health (wc_out c') = Suc (n_health (wc_out c)) \<and> n_ready (wc_out c') = n_ready (wc_out c) \<and> wc_has_writer c'"
  using assms by (auto simp: report_health_def write_message_def split: sum.splits)

lemma bootstrap_counts:
  assumes "bootstrap_container env validate mem sid a j = Inr c"
  shows "n_health (wc_out c) = 0 \<and> n_ready (wc_out c) = 0 \<and> wc_has_writer c"
proof -
  obtain c0 where c0: "wc_start env c0 = (c, Inr ())" "wc_out c0 = []" "wc_has_writer c0"
    using assms
    by (auto simp: bootstrap_container_def Let_def set_handler_def new_worker_container_def
        split: option.splits sum.splits prod.splits if_splits)
  then show ?thesis
    using reports_only_counts [OF reports_only_start [of c0 env]] by simp
qed

definition answered :: "worker \<Rightarrow> worker \<Rightarrow> head_message list \<Rightarrow> bool" where
  "answered w w' ms \<longleftrightarrow> channel_ok w'
     \<and> n_health (wk_out w') = n_health (wk_out w) + health_requests (wk_container w \<noteq> None) ms
     \<and> n_ready (wk_out w') = n_ready (wk_out w)
         + (if wk_container w = None \<and> (\<exists>m \<in> set (takeWhile (\<lambda>m. \<not> is_stop m) ms). is_start m) then 1 else 0)
     \<and> (wk_container w' \<noteq> None \<longleftrightarrow> wk_container w \<noteq> None \<or> (\<exists>m \<in> set (takeWhile (\<lambda>m. \<not> is_stop m) ms). is_start m))"

lemma answered_report:
  assumes "wk_container w = Some c" "wc_has_writer c" "reports_only c c'" "w' = w\<lparr>wk_container := Some c'\<rparr>"
    "health_requests True [m] = 0"
  shows "answered w w' [m]"
  using assms reports_only_counts [OF assms(3)] by (simp add: answered_def channel_ok_def wk_out_def)

lemma answered_health:
  assumes "wk_container w = Some c" "wc_has_writer c" "report_health now c = (c', Inr ())" "w' = w\<lparr>wk_container := Some c'\<rparr>"
    "health_requests True [m] = 1"
  shows "answered w w' [m]"
  using assms wc_health_counts [OF assms(3,2)] by (simp add: answered_def channel_ok_def wk_out_def)

lemma with_container_None: "wk_container w = None \<Longrightarrow> with_container w f = (w, Inr GoOn)"
  by (simp add: with_container_def)

lemma with_container_Some:
  "wk_container w = Some c \<Longrightarrow> with_container w f = (w', Inr nx) \<Longrightarrow>
     \<exists>c'. f c = (c', Inr ()) \<and> w' = w\<lparr>wk_container := Some c'\<rparr> \<and> nx = GoOn"
  by (auto simp: with_container_def split: prod.splits sum.splits)

lemma give_task_reports: "reports_only c (give_task d c)"
  by (simp add: give_task_def drain_task_queue_def Let_def reports_only_same split: list.split)

lemma worker_turn_spec:
  assumes "worker_turn validate mem sid (env, m) w = (w', Inr nx)" "channel_ok w" "\<not> is_stop m"
  shows "answered w w' [m] \<and> nx = GoOn"
proof (cases "wk_container w")
  case None
  show ?thesis
  proof (cases m)
    case (StartMessage a j)
    then obtain c where "bootstrap_container env validate mem sid a j = Inr c"
      "w' = w\<lparr>wk_container := Some (write_message (SignalMessage ''ready'' []) c)\<rparr>" "nx = GoOn"
      using assms(1) None by (auto split: sum.splits)
    then show ?thesis
      using bootstrap_counts [of env validate mem sid a j c] None StartMessage
      by (simp add: answered_def channel_ok_def wk_out_def write_message_def)
  qed (use assms None in \<open>auto simp: answered_def channel_ok_def wk_out_def with_container_None\<close>)
next
  case (Some c)
  then have wr: "wc_has_writer c" using assms(2) by (simp add: channel_ok_def)
  show ?thesis
  proof (cases m)
    case (StartMessage a j)
    then show ?thesis using assms(1,2) Some by (simp add: answered_def)
  next
    case (GiveTaskMessage t d j)
    then show ?thesis
      using assms(1) with_container_Some [OF Some] answered_report [OF Some wr give_task_reports] by fastforce
  next
    case (InboundMessage s ch content i)
    then obtain c' where "handle_inbound env s ch content c = (c', Inr ())" "w' = w\<lparr>wk_container := Some c'\<rparr>" "nx = GoOn"
      using assms(1) with_container_Some [OF Some] by fastforce
    then show ?thesis
      using answered_report [OF Some wr, of c'] reports_only_inbound [of c env s ch content] InboundMessage by simp
  next
    case HealthCheckMessage
    then obtain c' where "report_health (env_now env) c = (c', Inr ())" "w' = w\<lparr>wk_container := Some c'\<rparr>" "nx = GoOn"
      using assms(1) with_container_Some [OF Some] by fastforce
    then show ?thesis using answered_health [OF Some wr] HealthCheckMessage by simp
  next
    case (ReconnectMessage a)
    then obtain c' where "report_health (env_now env) c = (c', Inr ())" "w' = w\<lparr>wk_container := Some c'\<rparr>" "nx = GoOn"
      using assms(1) Some with_container_Some [OF Some] by fastforce
    then show ?thesis using answered_health [OF Some wr] ReconnectMessage by simp
  qed (use assms(3) in simp)
qed

lemma worker_turn_stop:
  assumes "worker_turn validate mem sid (env, m) w = (w', Inr nx)" "channel_ok w" "is_stop m"
  shows "answered w w' [m] \<and> nx = Leave \<and> (case wk_container w' of None \<Rightarrow> True | Some c \<Rightarrow> wc_state c = Inr ''stopped'')"
proof (cases "wk_container w")
  case None
  with assms show ?thesis by (cases m) (auto simp: answered_def)
next
  case (Some c)
  then obtain c' where c': "wc_stop env c = (c', Inr ())"
    "w' = w\<lparr>wk_container := Some (write_message (SignalMessage ''stopped'' []) c')\<rparr>" "nx = Leave"
    using assms(1,3) by (cases m) (auto split: prod.splits sum.splits)
  have "wc_state (write_message (SignalMessage ''stopped'' []) c') = Inr ''stopped''"
    using wc_stop_stops [OF c'(1)] by (simp add: write_message_def wc_state_def)
  moreover have "answered w w' [m]"
    using reports_only_counts [OF reports_only_stop [of c env]] c' Some assms(2,3)
    by (cases m) (auto simp: answered_def channel_ok_def wk_out_def write_message_def)
  ultimately show ?thesis using c' by simp
qed

lemma health_requests_append:
  "\<not> is_stop m \<Longrightarrow> health_requests b (m # ms) = health_requests b [m] + health_requests (b \<or> is_start m) ms"
  by (cases m) auto

lemma answered_trans:
  assumes "answered w w1 [m]" "answered w1 w2 ms" "\<not> is_stop m"
  shows "answered w w2 (m # ms)"
  using assms health_requests_append [OF assms(3), of "wk_container w \<noteq> None" ms]
  by (auto simp: answered_def)

lemma worker_loop_spec:
  assumes "worker_loop validate mem sid ms w = (w', Inr ())" "channel_ok w"
  shows "answered w w' (map snd ms)"
  using assms
proof (induction ms arbitrary: w)
  case Nil
  then show ?case by (simp add: answered_def)
next
  case (Cons em ms)
  obtain env m where em: "em = (env, m)" by force
  obtain w1 nx where t: "worker_turn validate mem sid (env, m) w = (w1, Inr nx)"
    using Cons.prems(1) em by (auto split: prod.splits sum.splits)
  show ?case
  proof (cases "is_stop m")
    case True
    then have "w' = w1" "answered w w1 [m]"
      using worker_turn_stop [OF t Cons.prems(2)] Cons.prems(1) t by (auto simp: em)
    then show ?thesis using True by (cases m) (simp_all add: em answered_def)
  next
    case False
    then have s: "answered w w1 [m]" "nx = GoOn" using worker_turn_spec [OF t Cons.prems(2)] by auto
    then have "worker_loop validate mem sid ms w1 = (w', Inr ())" using Cons.prems(1) t by (simp add: em)
    then have "answered w1 w' (map snd ms)" using Cons.IH s(1) by (simp add: answered_def)
    then show ?thesis using answered_trans [OF s(1) _ False] by (simp add: em)
  qed
qed

text \<open>
  C21. The protocol of a worker process. When the main loop ends without an exception, the
  container, if there is one, is in the state stopped; the worker has signalled that it is
  ready exactly once when a start message came before the stop, and never otherwise; and it
  has written one health report for each reconnect and, once started, for each health
  check before the stop.
\<close>

theorem worker_protocol:
  assumes "run_worker validate mem sid final ms = (w, Inr ())"
  shows "(case wk_container w of None \<Rightarrow> True | Some c \<Rightarrow> wc_state c = Inr ''stopped'')
    \<and> n_ready (wk_out w) = (if \<exists>m \<in> set (takeWhile (\<lambda>m. \<not> is_stop m) (map snd ms)). is_start m then 1 else 0)
    \<and> n_health (wk_out w) = health_requests False (map snd ms)"
proof -
  let ?w0 = "\<lparr>wk_container = None, wk_early = []\<rparr>"
  obtain w1 where l: "worker_loop validate mem sid ms ?w0 = (w1, Inr ())"
    using assms by (auto simp: run_worker_def split: prod.splits sum.splits)
  then have a: "answered ?w0 w1 (map snd ms)" by (rule worker_loop_spec) (simp add: channel_ok_def)
  then have counts: "n_ready (wk_out w1) = (if \<exists>m \<in> set (takeWhile (\<lambda>m. \<not> is_stop m) (map snd ms)). is_start m then 1 else 0)"
    "n_health (wk_out w1) = health_requests False (map snd ms)"
    by (simp_all add: answered_def wk_out_def)
  show ?thesis
  proof (cases "wk_container w1")
    case None
    then have "w = w1" using assms l by (simp add: run_worker_def)
    then show ?thesis using None counts by simp
  next
    case (Some c)
    show ?thesis
    proof (cases "wc_state c = Inr ''stopped''")
      case True
      then have "w = w1" using assms l Some by (simp add: run_worker_def)
      then show ?thesis using Some True counts by simp
    next
      case False
      then obtain c' where c': "wc_stop final c = (c', Inr ())" "w = w1\<lparr>wk_container := Some c'\<rparr>"
        using assms l Some by (auto simp: run_worker_def split: sum.splits prod.splits if_splits)
      then show ?thesis
        using reports_only_counts [OF reports_only_stop [of c final]] counts Some wc_stop_stops [OF c'(1)]
        by (simp add: wk_out_def)
    qed
  qed
qed

lemmas evaluate_worker = run_worker_def bootstrap_container_def get_handler_def handler_registry_def demo_config_def
  new_worker_container_def set_handler_def wc_start_def wc_stop_def handler_on_start_def handler_on_stop_def
  wc_fire_def wc_machine_def create_lifecycle_def event_driven_lifecycle_def fire_def outer_transitions_def
  initial_fsm_def enter_running_def write_message_def with_container_def report_health_def wc_health_report_def
  wc_state_def wc_inner_state_def inner_state_of_def Let_def

theorem worker_protocol_witness:
  "\<exists>w. run_worker (\<lambda>_. Some (demo_config ''conversation'' ''fulltime'')) new_memory_store ''s'' demo_env
       [(demo_env, ReconnectMessage ''a''), (demo_env, HealthCheckMessage), (demo_env, StartMessage ''a'' (JObj [])),
        (demo_env, HealthCheckMessage), (demo_env, StopMessage ''bye'' True)] = (w, Inr ())
     \<and> n_ready (wk_out w) = 1 \<and> n_health (wk_out w) = 2"
proof -
  let ?ms = "[(demo_env, ReconnectMessage ''a''), (demo_env, HealthCheckMessage), (demo_env, StartMessage ''a'' (JObj [])),
        (demo_env, HealthCheckMessage), (demo_env, StopMessage ''bye'' True)]"
  obtain w where w: "run_worker (\<lambda>_. Some (demo_config ''conversation'' ''fulltime'')) new_memory_store ''s'' demo_env ?ms = (w, Inr ())"
    by (simp add: evaluate_worker)
  show ?thesis using w worker_protocol [OF w] by simp
qed

end
