(* ===== verification/Agent_Handle.thy ===== *)
theory Agent_Handle
  imports Supervisor Channel
begin

text \<open>
  The daemon's side of an agent: \<open>daemon/agent_handle.py\<close> and the routing table of
  \<open>daemon/routing_state.py\<close>.

  A connection is the list of messages written to it. Whether it still holds is an argument
  of the operations that send: the drain of a lost connection raises an \<open>OSError\<close>, after
  the message was written to the buffer. How long a process takes to exit is an argument of
  the operation that waits for it.
\<close>

section \<open>Handles\<close>

record socket =
  so_written :: "head_message list"
  so_closing :: bool

datatype proc_signal = SIGTERM | SIGKILL

record process =
  pr_stdin :: "head_message list"
  pr_has_stdout :: bool
  pr_returncode :: "int option"
  pr_signals :: "proc_signal list"

record cached_health =
  lh_status :: string
  lh_agent_state :: string
  lh_uptime_seconds :: seconds

record agent_handle =
  ah_agent_id :: agent_id
  ah_agent_type :: string
  ah_capabilities :: "string list"
  ah_channel_id :: "string option"
  ah_handler_type :: string
  ah_config :: json
  ah_process :: "process option"
  ah_socket :: "socket option"
  ah_reader_task :: bool
  ah_last_health :: "cached_health option"
  ah_last_health_time :: "seconds option"

definition STALENESS_THRESHOLD_SECONDS :: seconds where
  "STALENESS_THRESHOLD_SECONDS = 120"

definition new_agent_handle :: "agent_id \<Rightarrow> string \<Rightarrow> string list \<Rightarrow> string option \<Rightarrow> string \<Rightarrow> json \<Rightarrow> agent_handle" where
  "new_agent_handle a ty caps chan hty cfg =
     \<lparr>ah_agent_id = a, ah_agent_type = ty, ah_capabilities = caps, ah_channel_id = chan, ah_handler_type = hty,
      ah_config = cfg, ah_process = None, ah_socket = None, ah_reader_task = False, ah_last_health = None,
      ah_last_health_time = None\<rparr>"

definition attach_process :: "process \<Rightarrow> agent_handle \<Rightarrow> agent_handle" where
  "attach_process p h = h\<lparr>ah_process := Some p\<rparr>"

definition attach_socket :: "socket \<Rightarrow> agent_handle \<Rightarrow> agent_handle" where
  "attach_socket so h = h\<lparr>ah_socket := Some so\<rparr>"

definition ah_send :: "bool \<Rightarrow> head_message \<Rightarrow> agent_handle \<Rightarrow> (agent_handle, unit) outcome" where
  "ah_send up msg h =
     (let drained = (if up then Inr () else Inl OSError) in
      (case ah_socket h of
         Some so \<Rightarrow> (h\<lparr>ah_socket := Some (so\<lparr>so_written := so_written so @ [msg]\<rparr>)\<rparr>, drained)
       | None \<Rightarrow>
           (case ah_process h of
              Some p \<Rightarrow> (h\<lparr>ah_process := Some (p\<lparr>pr_stdin := pr_stdin p @ [msg]\<rparr>)\<rparr>, drained)
            | None \<Rightarrow> (h, Inl (RuntimeError (''No connection to agent '' @ ah_agent_id h))))))"

datatype reader = SocketReader | ProcessStdout

definition ah_reader :: "agent_handle \<Rightarrow> reader option" where
  "ah_reader h =
     (if ah_socket h \<noteq> None then Some SocketReader
      else (case ah_process h of
              Some p \<Rightarrow> if pr_has_stdout p then Some ProcessStdout else None
            | None \<Rightarrow> None))"

definition update_health :: "seconds \<Rightarrow> cached_health \<Rightarrow> agent_handle \<Rightarrow> agent_handle" where
  "update_health now report h = h\<lparr>ah_last_health := Some report, ah_last_health_time := Some now\<rparr>"

definition ah_state :: "agent_handle \<Rightarrow> string" where
  "ah_state h = (case ah_last_health h of None \<Rightarrow> ''unknown'' | Some r \<Rightarrow> lh_status r)"

definition basic_report :: "agent_id \<Rightarrow> string \<Rightarrow> string option \<Rightarrow> seconds \<Rightarrow> seconds \<Rightarrow> health_report" where
  "basic_report a st inner up beat =
     \<lparr>hr_agent_id = a, hr_state = st, hr_inner_state = inner, hr_uptime = up, hr_last_heartbeat = beat,
      hr_error_count = 0, hr_last_activity = beat, hr_blocked_reason = None, hr_is_idle = None,
      hr_transport_type = None, hr_docker_container_id = None, hr_docker_image = None\<rparr>"

definition ah_health_report :: "seconds \<Rightarrow> agent_handle \<Rightarrow> health_report" where
  "ah_health_report now h =
     (case ah_last_health h of
        None \<Rightarrow> basic_report (ah_agent_id h) ''unknown'' None 0 now
      | Some r \<Rightarrow>
          (let stale = (case ah_last_health_time h of
                          None \<Rightarrow> False | Some t \<Rightarrow> now - t > STALENESS_THRESHOLD_SECONDS);
               beat = (case ah_last_health_time h of None \<Rightarrow> now | Some t \<Rightarrow> t) in
           basic_report (ah_agent_id h) (if stale then ''unreachable'' else lh_status r)
             (if lh_agent_state r = [] then None else Some (lh_agent_state r)) (lh_uptime_seconds r) beat))"

definition ah_is_alive :: "agent_handle \<Rightarrow> bool" where
  "ah_is_alive h =
     ((case ah_socket h of Some so \<Rightarrow> \<not> so_closing so | None \<Rightarrow> False)
      \<or> (case ah_process h of Some p \<Rightarrow> pr_returncode p = None | None \<Rightarrow> False))"

text \<open>
  The two waits for a process: the return code when it exits in time. Terminating and
  killing are recorded.
\<close>

definition await_exit :: "int option \<Rightarrow> int option \<Rightarrow> process \<Rightarrow> process" where
  "await_exit first second p =
     (case first of
        Some rc \<Rightarrow> p\<lparr>pr_returncode := Some rc\<rparr>
      | None \<Rightarrow>
          (let p = p\<lparr>pr_signals := pr_signals p @ [SIGTERM]\<rparr> in
           (case second of
              Some rc \<Rightarrow> p\<lparr>pr_returncode := Some rc\<rparr>
            | None \<Rightarrow> p\<lparr>pr_signals := pr_signals p @ [SIGKILL]\<rparr>)))"

definition stop_process :: "bool \<Rightarrow> int option \<Rightarrow> int option \<Rightarrow> agent_handle \<Rightarrow> agent_handle" where
  "stop_process up first second h =
     (if \<not> ah_is_alive h then h
      else
        (let h = fst (ah_send up (StopMessage ''daemon shutdown'' True) h);
             h = h\<lparr>ah_socket := None\<rparr> in
         (case ah_process h of
            Some p \<Rightarrow> if pr_returncode p = None then h\<lparr>ah_process := Some (await_exit first second p)\<rparr> else h
          | None \<Rightarrow> h)))"

section \<open>The routing table\<close>

record agent_routing =
  ar_agent_id :: agent_id
  ar_channel_id :: "string option"
  ar_category_id :: "string option"
  ar_agent_type :: string
  ar_handler_type :: string
  ar_config :: json
  ar_capabilities :: "string list"
  ar_transport_type :: string

type_synonym routing_state = "(agent_id, agent_routing) dict"

definition add_agent :: "agent_routing \<Rightarrow> routing_state \<Rightarrow> routing_state" where
  "add_agent r s = dict_set s (ar_agent_id r) r"

definition remove_agent :: "agent_id \<Rightarrow> routing_state \<Rightarrow> routing_state \<times> agent_routing option" where
  "remove_agent a s = (dict_pop s a, dict_get s a)"

definition get_agent :: "agent_id \<Rightarrow> routing_state \<Rightarrow> agent_routing option" where
  "get_agent a s = dict_get s a"

text \<open>The file holds what was last saved; a missing file is an empty table.\<close>

definition rs_save :: "routing_state json_codec \<Rightarrow> routing_state \<Rightarrow> string option" where
  "rs_save C s = Some (dump_json C s)"

definition rs_load :: "routing_state json_codec \<Rightarrow> string option \<Rightarrow> py_error + routing_state" where
  "rs_load C file =
     (case file of
        None \<Rightarrow> Inr []
      | Some text \<Rightarrow> (case validate_json C text of None \<Rightarrow> Inl ValidationError | Some s \<Rightarrow> Inr s))"

section \<open>Lemmas\<close>

lemma ah_send_fields:
  "fst (ah_send up msg h) = h\<lparr>ah_socket := map_option (\<lambda>so. so\<lparr>so_written := so_written so @ [msg]\<rparr>) (ah_socket h),
     ah_process := (if ah_socket h = None then map_option (\<lambda>p. p\<lparr>pr_stdin := pr_stdin p @ [msg]\<rparr>) (ah_process h) else ah_process h)\<rparr>"
  by (cases "ah_socket h"; cases "ah_process h") (simp_all add: ah_send_def Let_def)

text \<open>
  After a stop no socket is left, and a process that has not exited has been sent the
  signal to be killed.
\<close>

lemma stop_process_down:
  assumes "ah_is_alive h"
  shows "ah_socket (stop_process up first second h) = None
    \<and> (case ah_process (stop_process up first second h) of
         None \<Rightarrow> True | Some p \<Rightarrow> pr_returncode p \<noteq> None \<or> SIGKILL \<in> set (pr_signals p))"
  using assms
  by (auto simp: stop_process_def ah_send_fields await_exit_def Let_def split: option.splits)

end
