(* ===== verification/Company_Root.thy ===== *)
theory Company_Root
  imports Agent_Handle Scheduler Degraded_Mode
begin

text \<open>
  The root of the supervision tree, \<open>supervisor/company_root.py\<close>: hiring, dismissing and
  reconnecting company agents, the routing file, the reader of a worker's channel, projects
  and their escalations, the scheduler and degraded mode.

  The root is a supervisor without specifications (\<open>cr_sup\<close>) with its own tables. The
  scheduler's memory file is \<open>cr_scheduler_memory\<close>; a running scheduler works on the same
  store, so both are written together. Messages posted to the communication port, files
  deployed and the handles of agents that were stopped are recorded in order; a post is taken to return. Templates, the file system, the
  transports, Pydantic's JSON of the routing table and clock readings are arguments. The
  three background tasks are flags; what one round of the health poll or one message does
  is a definition of its own.
\<close>

section \<open>State\<close>

datatype fs_op = MakeDir string | WriteFile string string | CopyFile string string

record 'c company_root =
  cr_sup :: "'c supervisor"
  cr_projects :: "(string, 'c supervisor) dict"
  cr_agents :: "(agent_id, agent_handle) dict"
  cr_transports :: "string list"
  cr_has_routing_path :: bool
  cr_routing_file :: "string option"
  cr_routing :: routing_state
  cr_degraded :: "degraded_mode option"
  cr_health_poll :: bool
  cr_scheduler :: "scheduler option"
  cr_scheduler_task :: bool
  cr_scheduler_memory :: "memory_store option"
  cr_posted :: "(string \<times> string) list"
  cr_deployed :: "fs_op list"
  cr_retired :: "agent_handle list"

text \<open>What the root reads from its surroundings.\<close>

record root_env =
  re_routing :: "routing_state json_codec"
  re_schedules :: "schedule_entry model_class"
  re_connect :: "agent_id \<Rightarrow> py_error + socket"
  re_up :: "agent_id \<Rightarrow> bool"
  re_exit :: "agent_id \<Rightarrow> int option \<times> int option"

text \<open>
  A root is constructed with or without a data directory (its routing file and scheduler
  memory) and a health check.
\<close>

definition new_company_root :: "root_env \<Rightarrow> int \<Rightarrow> int \<Rightarrow> sup_config \<Rightarrow> (string option \<times> memory_store) option
    \<Rightarrow> degraded_mode option \<Rightarrow> py_error + 'c company_root" where
  "new_company_root env max_r window cfg data health =
     (case (case data of None \<Rightarrow> Inr [] | Some (file, _) \<Rightarrow> rs_load (re_routing env) file) of
        Inl e \<Rightarrow> Inl e
      | Inr table \<Rightarrow> Inr
          \<lparr>cr_sup = new_supervisor ''company-root'' ONE_FOR_ONE [] max_r window (cfg\<lparr>cfg_has_parent := False\<rparr>) None,
           cr_projects = [], cr_agents = [], cr_transports = [],
           cr_has_routing_path = (data \<noteq> None), cr_routing_file = Option.bind data fst, cr_routing = table,
           cr_degraded = health, cr_health_poll = False, cr_scheduler = None, cr_scheduler_task = False,
           cr_scheduler_memory = map_option snd data, cr_posted = [], cr_deployed = [], cr_retired = []\<rparr>)"

definition cr_is_degraded :: "'c company_root \<Rightarrow> bool" where
  "cr_is_degraded r = (case cr_degraded r of None \<Rightarrow> False | Some m \<Rightarrow> is_degraded m)"

record company_health_tree =
  cht_supervisor_id :: string
  cht_state :: string
  cht_projects :: "health_tree list"
  cht_company_agents :: "health_report list"

definition cr_health_tree :: "'c child_class \<Rightarrow> seconds \<Rightarrow> 'c company_root \<Rightarrow> company_health_tree" where
  "cr_health_tree C now r =
     \<lparr>cht_supervisor_id = supervisor_id (cr_sup r), cht_state = sup_state (cr_sup r),
      cht_projects = map (sup_health_tree C) (dict_values (cr_projects r)),
      cht_company_agents = map (ah_health_report now) (dict_values (cr_agents r))\<rparr>"

section \<open>Routing file\<close>

definition cr_get_transport :: "string \<Rightarrow> 'c company_root \<Rightarrow> ('c company_root, unit) outcome" where
  "cr_get_transport name r =
     (if name \<in> set (cr_transports r) then (r, Inr ())
      else if name \<in> {''native'', ''docker'', ''network''} then (r\<lparr>cr_transports := cr_transports r @ [name]\<rparr>, Inr ())
      else (r, Inl (ValueError (''Unknown transport: '' @ name @ ''. Use '' @ py_repr ''native'' @ '', '' @ py_repr ''docker''
        @ '', or '' @ py_repr ''network'' @ ''.''))))"

definition routing_of :: "agent_handle \<Rightarrow> string \<Rightarrow> agent_routing" where
  "routing_of h transport =
     \<lparr>ar_agent_id = ah_agent_id h, ar_channel_id = ah_channel_id h, ar_category_id = None, ar_agent_type = ah_agent_type h,
      ar_handler_type = ah_handler_type h, ar_config = ah_config h, ar_capabilities = ah_capabilities h,
      ar_transport_type = transport\<rparr>"

definition save_routing :: "root_env \<Rightarrow> agent_handle \<Rightarrow> string \<Rightarrow> 'c company_root \<Rightarrow> 'c company_root" where
  "save_routing env h transport r =
     (if \<not> cr_has_routing_path r then r
      else
        (let table = add_agent (routing_of h transport) (cr_routing r) in
         r\<lparr>cr_routing := table, cr_routing_file := rs_save (re_routing env) table\<rparr>))"

definition remove_routing :: "root_env \<Rightarrow> agent_id \<Rightarrow> 'c company_root \<Rightarrow> 'c company_root" where
  "remove_routing env a r =
     (if \<not> cr_has_routing_path r then r
      else
        (let table = fst (remove_agent a (cr_routing r)) in
         r\<lparr>cr_routing := table, cr_routing_file := rs_save (re_routing env) table\<rparr>))"

section \<open>Hiring and dismissing\<close>

text \<open>
  What a call of \<open>hire\<close> finds: the home directory and the repository, templates and
  existing files, the first file operation that fails (if any), the configured agent types
  (none when they are not set), the outcome of the spawn and whether the new connection
  takes the first message.
\<close>

record hire_env =
  he_home :: string
  he_repo :: string
  he_render :: "string \<Rightarrow> (string \<times> string) list \<Rightarrow> string"
  he_exists :: "string \<Rightarrow> bool"
  he_is_dir :: "string \<Rightarrow> bool"
  he_files :: "string \<Rightarrow> string list"
  he_fails_at :: "nat option"
  he_types :: "agent_types_config option"
  he_spawn :: "py_error + socket"
  he_up :: bool

definition agent_templates :: "(string, string \<times> string list) dict" where
  "agent_templates =
     [(''generic'', (''task_claude_md.md.j2'', [])),
      (''researcher'', (''research_claude_md.md.j2'', [''scripts'', ''reference'']))]"

definition path_join :: "string \<Rightarrow> string \<Rightarrow> string" where
  "path_join d f = d @ ''/'' @ f"

definition deploy_ops :: "hire_env \<Rightarrow> agent_id \<Rightarrow> string \<Rightarrow> fs_op list" where
  "deploy_ops env a template =
     (let (claude_md, extras) = (case dict_get agent_templates template of
                                   Some t \<Rightarrow> t | None \<Rightarrow> the (dict_get agent_templates ''generic''));
          working = path_join (path_join (he_home env) ''vco-tasks'') a;
          claude = path_join working ''.claude'';
          commands = path_join (path_join claude ''commands'') ''vco'';
          source = path_join (path_join (he_repo env) ''commands'') ''vco'' in
      [MakeDir working, MakeDir claude,
       WriteFile (path_join claude ''settings.json'') (he_render env ''settings.json.j2'' []),
       WriteFile (path_join working ''CLAUDE.md'') (he_render env claude_md
         [(''task_id'', a), (''task_prompt'', ''Awaiting task assignment from the Strategist.'')]),
       MakeDir commands]
      @ concat (map (\<lambda>f. if he_exists env (path_join source f) then [CopyFile (path_join source f) (path_join commands f)] else [])
          [''send.md'', ''finish.md''])
      @ concat (map (\<lambda>x.
          let dir = path_join (path_join (he_repo env) ''tools'') (''research_'' @ x) in
          if he_is_dir env dir
          then MakeDir (path_join working x)
               # map (\<lambda>f. CopyFile (path_join dir f) (path_join (path_join working x) f)) (he_files env dir)
          else []) extras))"

definition run_deploy :: "hire_env \<Rightarrow> fs_op list \<Rightarrow> 'c company_root \<Rightarrow> ('c company_root, unit) outcome" where
  "run_deploy env ops r =
     (case he_fails_at env of
        None \<Rightarrow> (r\<lparr>cr_deployed := cr_deployed r @ ops\<rparr>, Inr ())
      | Some n \<Rightarrow>
          if n < length ops then (r\<lparr>cr_deployed := cr_deployed r @ take n ops\<rparr>, Inl OSError)
          else (r\<lparr>cr_deployed := cr_deployed r @ ops\<rparr>, Inr ()))"

definition hire_type :: "hire_env \<Rightarrow> string \<Rightarrow> agent_type_config option" where
  "hire_type env ty =
     (case he_types env of
        None \<Rightarrow> None
      | Some cfg \<Rightarrow> (case get_type cfg ty of Inl _ \<Rightarrow> None | Inr c \<Rightarrow> Some c))"

definition hire_handler :: "agent_type_config option \<Rightarrow> string" where
  "hire_handler tc =
     (case tc of
        None \<Rightarrow> ''session''
      | Some c \<Rightarrow> (case at_handler c of Some h \<Rightarrow> if h = [] then ''session'' else h | None \<Rightarrow> ''session''))"

definition hire_caps :: "agent_type_config option \<Rightarrow> string list" where
  "hire_caps tc = (case tc of None \<Rightarrow> [] | Some c \<Rightarrow> at_capabilities c)"

definition hire_config :: "agent_type_config option \<Rightarrow> string \<Rightarrow> string option \<Rightarrow> json" where
  "hire_config tc ty persona = JObj
     ([(''handler_type'', JStr (hire_handler tc)), (''agent_type'', JStr ty), (''capabilities'', JArr (map JStr (hire_caps tc))),
       (''gsd_command'', opt_str (Option.bind tc at_gsd_command)),
       (''uses_tmux'', JBool (case tc of None \<Rightarrow> True | Some c \<Rightarrow> ''uses_tmux'' \<in> set (at_capabilities c)))]
      @ (case persona of Some p \<Rightarrow> if p = [] then [] else [(''persona'', JStr p)] | None \<Rightarrow> []))"

definition effective_type :: "string option \<Rightarrow> string" where
  "effective_type ty = (case ty of Some t \<Rightarrow> if t = [] then ''task'' else t | None \<Rightarrow> ''task'')"

text \<open>The handle a hire creates, before its connection.\<close>

definition hired_handle :: "hire_env \<Rightarrow> agent_id \<Rightarrow> string option \<Rightarrow> string option \<Rightarrow> string option \<Rightarrow> agent_handle" where
  "hired_handle henv a ty chan persona =
     (let ety = effective_type ty; tc = hire_type henv ety in
      new_agent_handle a ety (hire_caps tc) chan (hire_handler tc) (hire_config tc ety persona))"

definition hire :: "root_env \<Rightarrow> hire_env \<Rightarrow> agent_id \<Rightarrow> string \<Rightarrow> string option \<Rightarrow> string option \<Rightarrow> string \<Rightarrow> string option
    \<Rightarrow> 'c company_root \<Rightarrow> ('c company_root, agent_handle) outcome" where
  "hire env henv a template ty chan transport persona r =
     (case run_deploy henv (deploy_ops henv a template) r of
        (r1, Inl e) \<Rightarrow> (r1, Inl e)
      | (r1, Inr _) \<Rightarrow>
          (let h = hired_handle henv a ty chan persona in
           (case cr_get_transport transport r1 of
              (r2, Inl e) \<Rightarrow> (r2, Inl e)
            | (r2, Inr _) \<Rightarrow>
                (case he_spawn henv of
                   Inl e \<Rightarrow> (r2, Inl e)
                 | Inr so \<Rightarrow>
                     (case ah_send (he_up henv) (StartMessage a (ah_config h)) (attach_socket so h) of
                        (h', Inl e) \<Rightarrow> (r2, Inl e)
                      | (h', Inr _) \<Rightarrow>
                          (let h' = h'\<lparr>ah_reader_task := True\<rparr>;
                               r3 = r2\<lparr>cr_agents := dict_set (cr_agents r2) a h'\<rparr> in
                           (save_routing env h' transport r3, Inr h')))))))"

text \<open>Stopping an agent for good: its process is told to stop and its reader is cancelled.\<close>

definition retire :: "root_env \<Rightarrow> agent_id \<Rightarrow> agent_handle \<Rightarrow> agent_handle" where
  "retire env a h =
     (stop_process (re_up env a) (fst (re_exit env a)) (snd (re_exit env a)) h)\<lparr>ah_reader_task := False\<rparr>"

definition dismiss :: "root_env \<Rightarrow> agent_id \<Rightarrow> 'c company_root \<Rightarrow> ('c company_root, unit) outcome" where
  "dismiss env a r =
     (case dict_get (cr_agents r) a of
        None \<Rightarrow> (r, Inl (KeyError a))
      | Some h \<Rightarrow>
          (remove_routing env a (r\<lparr>cr_agents := dict_pop (cr_agents r) a, cr_retired := cr_retired r @ [retire env a h]\<rparr>),
           Inr ()))"

definition dispatch_task_agent :: "root_env \<Rightarrow> hire_env \<Rightarrow> agent_id \<Rightarrow> string \<Rightarrow> string
    \<Rightarrow> 'c company_root \<Rightarrow> ('c company_root, agent_handle) outcome" where
  "dispatch_task_agent env henv task prompt template r =
     (case hire env henv task template None None ''native'' None r of
        (r1, Inl e) \<Rightarrow> (r1, Inl e)
      | (r1, Inr h) \<Rightarrow>
          (case ah_send (re_up env task) (GiveTaskMessage task prompt (JObj [])) h of
             (h', res) \<Rightarrow> (r1\<lparr>cr_agents := dict_set (cr_agents r1) task h'\<rparr>,
                           case res of Inl e \<Rightarrow> Inl e | Inr _ \<Rightarrow> Inr h')))"

definition find_handle :: "agent_id \<Rightarrow> 'c company_root \<Rightarrow> agent_handle option" where
  "find_handle a r = dict_get (cr_agents r) a"

section \<open>Reading a worker's channel\<close>

text \<open>
  What one decoded message does to the handle, and what it posts: a channel and a text.
  An empty channel identifier counts as none.
\<close>

definition route :: "agent_handle \<Rightarrow> string \<Rightarrow> (string \<times> string) list" where
  "route h content =
     (case ah_channel_id h of Some ch \<Rightarrow> if ch = [] then [] else [(ch, content)] | None \<Rightarrow> [])"

definition route_report :: "agent_handle \<Rightarrow> string \<Rightarrow> (string \<times> string) list" where
  "route_report h content = route h content"

definition route_ask :: "agent_handle \<Rightarrow> string \<Rightarrow> (string \<times> string) list" where
  "route_ask h question = route h (''**Question:** '' @ question)"

definition ready_text :: "agent_id \<Rightarrow> string \<Rightarrow> string" where
  "ready_text a detail = ''[system] **'' @ a @ ''** is ready'' @ (if detail = [] then [] else '' ('' @ detail @ '')'') @ ''.''"

fun reader_step :: "seconds \<Rightarrow> worker_message \<Rightarrow> agent_handle \<Rightarrow> agent_handle \<times> (string \<times> string) list" where
  "reader_step now (HealthReportMessage st ag up d) h =
     (update_health now \<lparr>lh_status = st, lh_agent_state = ag, lh_uptime_seconds = up\<rparr> h, [])"
| "reader_step now (SignalMessage sig detail) h =
     (h, if sig = ''ready'' then route_report h (ready_text (ah_agent_id h) detail) else [])"
| "reader_step now (ReportMessage ch content t) h = (h, route_report h content)"
| "reader_step now (AskMessage ch q ctx) h = (h, route_ask h q)"
| "reader_step now (SendFileMessage ch f b d) h = (h, [])"

fun reader_steps :: "(seconds \<times> worker_message) list \<Rightarrow> agent_handle \<Rightarrow> agent_handle \<times> (string \<times> string) list" where
  "reader_steps [] h = (h, [])"
| "reader_steps ((now, m) # ms) h =
     (case reader_step now m h of (h1, ps) \<Rightarrow>
        (case reader_steps ms h1 of (h2, qs) \<Rightarrow> (h2, ps @ qs)))"

text \<open>
  The reader on what a registered agent's connection delivers until it ends: the lines of
  the stream that decode, each handled at its own time. A line over the reader's limit
  raises, which is logged and ends the reader. Without a connection there is nothing to
  read.
\<close>

definition channel_reader :: "worker_message json_codec \<Rightarrow> (nat \<Rightarrow> seconds) \<Rightarrow> agent_id \<Rightarrow> string
    \<Rightarrow> 'c company_root \<Rightarrow> 'c company_root" where
  "channel_reader C clock a stream r =
     (case dict_get (cr_agents r) a of
        None \<Rightarrow> r
      | Some h \<Rightarrow>
          (case ah_reader h of
             None \<Rightarrow> r
           | Some _ \<Rightarrow>
               (let ms = fst (read_stream C stream) in
                (case reader_steps (zip (map clock [0..<length ms]) ms) h of
                   (h', ps) \<Rightarrow> r\<lparr>cr_agents := dict_set (cr_agents r) a h', cr_posted := cr_posted r @ ps\<rparr>))))"

text \<open>One round of the health poll: a failing send is logged.\<close>

definition health_poll_round :: "root_env \<Rightarrow> 'c company_root \<Rightarrow> 'c company_root" where
  "health_poll_round env r =
     r\<lparr>cr_agents := map (\<lambda>(a, h). (a, if ah_is_alive h then fst (ah_send (re_up env a) HealthCheckMessage h) else h))
        (cr_agents r)\<rparr>"

section \<open>Projects\<close>

definition cr_project_config :: "'c company_root \<Rightarrow> sup_config" where
  "cr_project_config r = \<lparr>cfg_has_parent = True, cfg_has_on_escalation = False, cfg_has_on_health_change = False,
     cfg_has_signal_router = has_signal_router (cr_sup r)\<rparr>"

definition degraded_text :: "string \<Rightarrow> string" where
  "degraded_text project = ''System in degraded mode (Claude unreachable). Cannot add project '' @ project
     @ ''. Will auto-recover.''"

definition add_project :: "'c start_method \<Rightarrow> string \<Rightarrow> child_spec list \<Rightarrow> restart_strategy \<Rightarrow> int \<Rightarrow> int
    \<Rightarrow> 'c company_root \<Rightarrow> ('c company_root, 'c supervisor) outcome" where
  "add_project start project specs strat max_r window r =
     (if cr_is_degraded r then (r, Inl (RuntimeError (degraded_text project)))
      else
        (case sup_start start (new_project_supervisor project specs strat max_r window (cr_project_config r)
                (Some default_delegation_policy)) of
           (ps, Inl e) \<Rightarrow> (r, Inl e)
         | (ps, Inr _) \<Rightarrow> (r\<lparr>cr_projects := dict_set (cr_projects r) project ps\<rparr>, Inr ps)))"

definition remove_project :: "'c child_class \<Rightarrow> string \<Rightarrow> 'c company_root \<Rightarrow> ('c company_root, 'c supervisor) outcome" where
  "remove_project C project r =
     (case dict_get (cr_projects r) project of
        None \<Rightarrow> (r, Inl (KeyError project))
      | Some ps \<Rightarrow>
          (r\<lparr>cr_projects := dict_pop (cr_projects r) project\<rparr>,
           Inr (if sup_state ps \<noteq> ''stopped'' then sup_stop C ps else ps)))"

definition budget_text :: "string \<Rightarrow> string \<Rightarrow> string" where
  "budget_text sid child = ''ESCALATION: Supervisor '' @ sid @ '' exceeded restart limits for child '' @ child
     @ ''. Manual intervention required.''"

definition unknown_text :: "string \<Rightarrow> string \<Rightarrow> string" where
  "unknown_text sid child = ''ESCALATION: Supervisor '' @ sid @ '' received escalation from unknown child '' @ child
     @ ''. Manual intervention required.''"

definition cr_alert :: "string \<Rightarrow> 'c company_root \<Rightarrow> 'c company_root" where
  "cr_alert msg r =
     (if has_on_escalation (cr_sup r) then r\<lparr>cr_sup := emit (EscalationCallback msg) (cr_sup r)\<rparr> else r)"

definition root_child_escalation :: "'c start_method \<Rightarrow> string \<Rightarrow> seconds \<Rightarrow> seconds
    \<Rightarrow> 'c company_root \<Rightarrow> ('c company_root, unit) outcome" where
  "root_child_escalation start child t1 t2 r =
     (case allow_restart t1 t2 (sup_tracker (cr_sup r)) of
        (False, tr) \<Rightarrow>
          (cr_alert (budget_text (supervisor_id (cr_sup r)) child) (r\<lparr>cr_sup := (cr_sup r)\<lparr>sup_tracker := tr\<rparr>\<rparr>), Inr ())
      | (True, tr) \<Rightarrow>
          (let r = r\<lparr>cr_sup := (cr_sup r)\<lparr>sup_tracker := tr\<rparr>\<rparr> in
           (case find (\<lambda>(p, ps). supervisor_id ps = child) (cr_projects r) of
              None \<Rightarrow> (cr_alert (unknown_text (supervisor_id (cr_sup r)) child) r, Inr ())
            | Some (p, old) \<Rightarrow>
                (case sup_start start (new_project_supervisor p (child_specs old) (sup_strategy old)
                        (max_restarts (sup_tracker old)) (window_seconds (sup_tracker old)) (cr_project_config r)
                        (Some default_delegation_policy)) of
                   (ps, Inl e) \<Rightarrow> (r, Inl e)
                 | (ps, Inr _) \<Rightarrow> (r\<lparr>cr_projects := dict_set (cr_projects r) p ps\<rparr>, Inr ())))))"

section \<open>Reconnection, start and stop\<close>

definition reconnected_handle :: "agent_routing \<Rightarrow> agent_handle" where
  "reconnected_handle rt =
     new_agent_handle (ar_agent_id rt) (ar_agent_type rt) (ar_capabilities rt) (ar_channel_id rt) (ar_handler_type rt)
       (ar_config rt)"

text \<open>
  One entry of the table: the agent is back, or its entry is stale. Whether its transport, of whatever type, reaches the agent's worker is
  an argument.
\<close>

definition reconnect_one :: "root_env \<Rightarrow> agent_id \<times> agent_routing \<Rightarrow> 'c company_root \<times> agent_id list
    \<Rightarrow> 'c company_root \<times> agent_id list" where
  "reconnect_one env = (\<lambda>(a, rt) (r, stale).
     (case cr_get_transport (ar_transport_type rt) r of
        (r1, Inl _) \<Rightarrow> (r1, stale @ [a])
      | (r1, Inr _) \<Rightarrow>
          (case re_connect env a of
             Inl _ \<Rightarrow> (r1, stale @ [a])
           | Inr so \<Rightarrow>
               (case ah_send (re_up env a) (ReconnectMessage a) (attach_socket so (reconnected_handle rt)) of
                  (h, Inl _) \<Rightarrow> (r1, stale @ [a])
                | (h, Inr _) \<Rightarrow>
                    (r1\<lparr>cr_agents := dict_set (cr_agents r1) a (h\<lparr>ah_reader_task := True\<rparr>)\<rparr>, stale)))))"

definition reconnect_agents :: "root_env \<Rightarrow> 'c company_root \<Rightarrow> 'c company_root" where
  "reconnect_agents env r =
     (if cr_routing r = [] then r
      else
        (let (r1, stale) = fold (reconnect_one env) (cr_routing r) (r, []);
             table = fold (\<lambda>a t. fst (remove_agent a t)) stale (cr_routing r1);
             r2 = r1\<lparr>cr_routing := table\<rparr> in
         if stale \<noteq> [] \<and> cr_has_routing_path r2 then r2\<lparr>cr_routing_file := rs_save (re_routing env) table\<rparr> else r2))"

definition with_scheduler :: "(scheduler \<Rightarrow> (scheduler, 'a) outcome) \<Rightarrow> 'c company_root \<Rightarrow> ('c company_root, unit) outcome" where
  "with_scheduler f r =
     (case cr_scheduler r of
        None \<Rightarrow> (r, Inr ())
      | Some s \<Rightarrow>
          (case f s of (s', res) \<Rightarrow>
             (r\<lparr>cr_scheduler := Some s', cr_scheduler_memory := Some (sc_memory s')\<rparr>,
              case res of Inl e \<Rightarrow> Inl e | Inr _ \<Rightarrow> Inr ())))"

definition cr_add_schedule :: "root_env \<Rightarrow> string \<Rightarrow> seconds \<Rightarrow> agent_id \<Rightarrow> int \<Rightarrow> 'c company_root
    \<Rightarrow> ('c company_root, unit) outcome" where
  "cr_add_schedule env stamp now a interval = with_scheduler (add_schedule (re_schedules env) stamp now a interval)"

definition cr_remove_schedule :: "root_env \<Rightarrow> string \<Rightarrow> agent_id \<Rightarrow> 'c company_root \<Rightarrow> ('c company_root, unit) outcome" where
  "cr_remove_schedule env stamp a = with_scheduler (remove_schedule (re_schedules env) stamp a)"

definition start_scheduler :: "root_env \<Rightarrow> 'c company_root \<Rightarrow> ('c company_root, unit) outcome" where
  "start_scheduler env r =
     (case cr_scheduler_memory r of
        None \<Rightarrow> (r, Inr ())
      | Some mem \<Rightarrow>
          (let mem = mem_open mem in
           (case with_scheduler (sc_load (re_schedules env))
                   (r\<lparr>cr_scheduler := Some (new_scheduler mem), cr_scheduler_memory := Some mem\<rparr>) of
              (r', Inl e) \<Rightarrow> (r', Inl e)
            | (r', Inr _) \<Rightarrow> (r'\<lparr>cr_scheduler_task := True\<rparr>, Inr ()))))"

definition cr_start :: "root_env \<Rightarrow> 'c start_method \<Rightarrow> 'c company_root \<Rightarrow> ('c company_root, unit) outcome" where
  "cr_start env start r =
     (case sup_start start (cr_sup r) of
        (s, Inl e) \<Rightarrow> (r\<lparr>cr_sup := s\<rparr>, Inl e)
      | (s, Inr _) \<Rightarrow>
          (let r = r\<lparr>cr_sup := s\<rparr> in
           (case (if cr_has_routing_path r then rs_load (re_routing env) (cr_routing_file r) else Inr (cr_routing r)) of
              Inl e \<Rightarrow> (r, Inl e)
            | Inr table \<Rightarrow>
                (let r = reconnect_agents env (r\<lparr>cr_routing := table\<rparr>);
                     r = r\<lparr>cr_degraded := map_option dm_start (cr_degraded r), cr_health_poll := True\<rparr> in
                 start_scheduler env r))))"

text \<open>
  The stop leaves the health poll running and keeps the routing file; the projects stay in
  the table.
\<close>

definition cr_stop :: "root_env \<Rightarrow> 'c child_class \<Rightarrow> 'c company_root \<Rightarrow> 'c company_root" where
  "cr_stop env C r =
     (let r = r\<lparr>cr_degraded := map_option dm_stop (cr_degraded r), cr_scheduler_task := False,
            cr_scheduler := map_option (\<lambda>s. s\<lparr>sc_memory := mem_close (sc_memory s)\<rparr>) (cr_scheduler r),
            cr_scheduler_memory := map_option mem_close (cr_scheduler_memory r)\<rparr> in
      r\<lparr>cr_agents := [], cr_retired := cr_retired r @ map (\<lambda>(a, h). retire env a h) (cr_agents r),
        cr_projects := map (\<lambda>(p, ps). (p, if sup_state ps \<noteq> ''stopped'' then sup_stop C ps else ps)) (cr_projects r),
        cr_sup := sup_stop C (cr_sup r)\<rparr>)"

section \<open>The routing file follows the agents\<close>

definition same_agent :: "agent_handle \<Rightarrow> agent_handle \<Rightarrow> bool" where
  "same_agent h h' \<longleftrightarrow> ah_agent_id h' = ah_agent_id h \<and> ah_agent_type h' = ah_agent_type h
     \<and> ah_capabilities h' = ah_capabilities h \<and> ah_channel_id h' = ah_channel_id h
     \<and> ah_handler_type h' = ah_handler_type h \<and> ah_config h' = ah_config h"

lemma same_agent_refl [simp]: "same_agent h h"
  by (simp add: same_agent_def)

lemma same_agent_routing: "same_agent h h' \<Longrightarrow> routing_of h' t = routing_of h t"
  by (simp add: same_agent_def routing_of_def)

lemma same_agent_send: "same_agent h (fst (ah_send up m h))"
  by (simp add: ah_send_fields same_agent_def)

lemma same_agent_step: "same_agent h (fst (reader_step now m h))"
  by (cases m) (simp_all add: same_agent_def update_health_def)

lemma same_agent_trans: "same_agent a b \<Longrightarrow> same_agent b c \<Longrightarrow> same_agent a c"
  by (simp add: same_agent_def)

lemma same_agent_steps: "same_agent h (fst (reader_steps ms h))"
proof (induction ms arbitrary: h)
  case (Cons x ms)
  obtain now m where x: "x = (now, m)" by force
  have "same_agent h (fst (reader_step now m h))" by (rule same_agent_step)
  then show ?case using Cons.IH same_agent_trans by (fastforce simp: x split: prod.splits)
qed simp

text \<open>A table that the JSON file can hold: distinct agents with proper configurations.\<close>

definition routing_ok :: "routing_state \<Rightarrow> bool" where
  "routing_ok t \<longleftrightarrow> dict_ok t \<and> (\<forall>(a, rt) \<in> set t. ar_agent_id rt = a \<and> wf_json (ar_config rt))"

definition known_transports :: "string list" where
  "known_transports = [''native'', ''docker'', ''network'']"

definition routed :: "'c company_root \<Rightarrow> agent_id \<Rightarrow> bool" where
  "routed r a \<longleftrightarrow>
     (case dict_get (cr_agents r) a of
        None \<Rightarrow> dict_get (cr_routing r) a = None
      | Some h \<Rightarrow> ah_agent_id h = a \<and> wf_json (ah_config h)
                  \<and> (\<exists>t \<in> set known_transports. dict_get (cr_routing r) a = Some (routing_of h t)))"

definition follows :: "routing_state json_codec \<Rightarrow> 'c company_root \<Rightarrow> bool" where
  "follows C r \<longleftrightarrow> (\<forall>a. routed r a) \<and> dict_ok (cr_agents r) \<and> routing_ok (cr_routing r) \<and> cr_has_routing_path r
     \<and> rs_load C (cr_routing_file r) = Inr (cr_routing r) \<and> set (cr_transports r) \<subseteq> set known_transports"

lemma routed_None: "dict_get (cr_agents r) a = None \<Longrightarrow> routed r a \<longleftrightarrow> dict_get (cr_routing r) a = None"
  by (simp add: routed_def)

lemma routed_Some:
  "dict_get (cr_agents r) a = Some h \<Longrightarrow> routed r a \<longleftrightarrow> ah_agent_id h = a \<and> wf_json (ah_config h)
     \<and> (\<exists>t \<in> set known_transports. dict_get (cr_routing r) a = Some (routing_of h t))"
  by (simp add: routed_def)

lemma routed_cong:
  "dict_get (cr_agents r') a = dict_get (cr_agents r) a \<Longrightarrow> dict_get (cr_routing r') a = dict_get (cr_routing r) a \<Longrightarrow>
     routed r' a = routed r a"
  by (simp add: routed_def split: option.split)

lemma follows_cong:
  "follows C r \<Longrightarrow> cr_agents r' = cr_agents r \<Longrightarrow> cr_routing r' = cr_routing r \<Longrightarrow> cr_routing_file r' = cr_routing_file r \<Longrightarrow>
     cr_has_routing_path r' = cr_has_routing_path r \<Longrightarrow> set (cr_transports r') \<subseteq> set known_transports \<Longrightarrow> follows C r'"
  using routed_cong [of r' _ r] by (simp add: follows_def)

text \<open>The operations on agents, as the daemon's interface offers them, with what they meet.\<close>

datatype agent_op =
    Hire hire_env agent_id string "string option" "string option" string "string option"
  | Dispatch hire_env agent_id string string
  | Dismiss agent_id
  | PollHealth
  | ReadChannel "worker_message json_codec" "nat \<Rightarrow> seconds" agent_id string

fun agent_exec :: "root_env \<times> agent_op \<Rightarrow> 'c company_root \<Rightarrow> 'c company_root" where
  "agent_exec (env, Hire henv a template ty chan transport persona) r =
     fst (hire env henv a template ty chan transport persona r)"
| "agent_exec (env, Dispatch henv task prompt template) r = fst (dispatch_task_agent env henv task prompt template r)"
| "agent_exec (env, Dismiss a) r = fst (dismiss env a r)"
| "agent_exec (env, PollHealth) r = health_poll_round env r"
| "agent_exec (env, ReadChannel W clock a stream) r = channel_reader W clock a stream r"

lemma routing_ok_set: "routing_ok t \<Longrightarrow> ar_agent_id rt = a \<Longrightarrow> wf_json (ar_config rt) \<Longrightarrow> routing_ok (dict_set t a rt)"
  by (auto simp: routing_ok_def distinct_update set_dict_set)

lemma routing_ok_pop: "routing_ok t \<Longrightarrow> routing_ok (dict_pop t a)"
  by (auto simp: routing_ok_def distinct_delete dict_pop_filter intro: distinct_map_filter)

lemma hire_config_wf: "wf_json (hire_config tc ty persona)"
  by (auto simp: hire_config_def wf_items_iff opt_str_def split: option.split)

lemma hired_handle_simps:
  "ah_agent_id (hired_handle henv a ty chan persona) = a" "wf_json (ah_config (hired_handle henv a ty chan persona))"
  by (simp_all add: hired_handle_def new_agent_handle_def hire_config_wf Let_def)

lemma get_transport_result:
  "cr_get_transport name r = (r', res) \<Longrightarrow> \<exists>t. r' = r\<lparr>cr_transports := t\<rparr> \<and>
     set t \<subseteq> set (cr_transports r) \<union> set known_transports \<and> (res = Inr () \<longrightarrow> name \<in> set t)"
proof (cases "name \<in> set (cr_transports r) \<or> name \<notin> set known_transports")
  case True
  moreover assume "cr_get_transport name r = (r', res)"
  ultimately show ?thesis
    by (intro exI [of _ "cr_transports r"]) (auto simp: cr_get_transport_def known_transports_def split: if_splits)
next
  case False
  moreover assume "cr_get_transport name r = (r', res)"
  ultimately show ?thesis
    by (intro exI [of _ "cr_transports r @ [name]"]) (auto simp: cr_get_transport_def known_transports_def)
qed

lemma run_deploy_result: "run_deploy env ops r = (r', res) \<Longrightarrow> \<exists>d. r' = r\<lparr>cr_deployed := d\<rparr>"
  by (auto simp: run_deploy_def split: option.splits if_splits)

text \<open>A hire either registers the new agent in both tables or leaves both as they were.\<close>

lemma hire_cases:
  assumes "hire env henv a template ty chan transport persona r = (r', res)"
  obtains (failed) e d t where "res = Inl e" "r' = r\<lparr>cr_deployed := d, cr_transports := t\<rparr>"
      "set t \<subseteq> set (cr_transports r) \<union> set known_transports"
  | (hired) h d t where "res = Inr h" "same_agent (hired_handle henv a ty chan persona) h"
      "r' = save_routing env h transport (r\<lparr>cr_deployed := d, cr_transports := t, cr_agents := dict_set (cr_agents r) a h\<rparr>)"
      "set t \<subseteq> set (cr_transports r) \<union> set known_transports" "transport \<in> set t"
proof -
  let ?h = "hired_handle henv a ty chan persona"
  obtain r1 q1 where 1: "run_deploy henv (deploy_ops henv a template) r = (r1, q1)" by force
  obtain d where d: "r1 = r\<lparr>cr_deployed := d\<rparr>" using run_deploy_result [OF 1] by blast
  obtain r2 q2 where 2: "cr_get_transport transport r1 = (r2, q2)" by force
  obtain t where t: "r2 = r1\<lparr>cr_transports := t\<rparr>" "set t \<subseteq> set (cr_transports r1) \<union> set known_transports"
    "q2 = Inr () \<longrightarrow> transport \<in> set t"
    using get_transport_result [OF 2] by blast
  have r1: "r1 = r\<lparr>cr_deployed := d, cr_transports := cr_transports r\<rparr>" using d by simp
  show thesis
  proof (cases "\<exists>h. res = Inr h")
    case False
    then obtain e where e: "res = Inl e" by (cases res) auto
    then have "r' = r1 \<or> r' = r2"
      using assms 1 2 by (auto simp: hire_def Let_def split: sum.splits prod.splits)
    then show thesis
    proof
      assume "r' = r1"
      then show thesis by (intro failed [OF e, of "cr_transports r" d]) (use r1 in simp_all)
    next
      assume "r' = r2"
      then show thesis by (intro failed [OF e, of t d]) (use t(1,2) d in simp_all)
    qed
  next
    case True
    then obtain h where h: "res = Inr h" by blast
    obtain so h0 where so: "ah_send (he_up henv) (StartMessage a (ah_config ?h)) (attach_socket so ?h) = (h0, Inr ())"
      and q: "q2 = Inr ()" and hh: "h = h0\<lparr>ah_reader_task := True\<rparr>"
      and r': "r' = save_routing env h transport (r2\<lparr>cr_agents := dict_set (cr_agents r2) a h\<rparr>)"
      using assms 1 2 h by (auto simp: hire_def Let_def split: sum.splits prod.splits)
    have "same_agent ?h (attach_socket so ?h)" by (simp add: same_agent_def attach_socket_def)
    then have "same_agent ?h h0" using same_agent_trans same_agent_send so by (metis fst_conv)
    then have "same_agent ?h h" by (simp add: hh same_agent_def)
    then show thesis by (intro hired [OF h, of t d]) (use r' t q d in simp_all)
  qed
qed

text \<open>The handle of an agent that answers the reconnection.\<close>

definition back_online :: "root_env \<Rightarrow> agent_id \<Rightarrow> agent_routing \<Rightarrow> agent_handle option" where
  "back_online env a rt =
     (case re_connect env a of
        Inl _ \<Rightarrow> None
      | Inr so \<Rightarrow>
          (case ah_send (re_up env a) (ReconnectMessage a) (attach_socket so (reconnected_handle rt)) of
             (h, Inl _) \<Rightarrow> None
           | (h, Inr _) \<Rightarrow> Some (h\<lparr>ah_reader_task := True\<rparr>)))"

text \<open>What reading back a saved table promises.\<close>

locale routing_codec =
  fixes RC :: "routing_state json_codec"
  assumes validate_dump: "routing_ok t \<Longrightarrow> validate_json RC (dump_json RC t) = Some t"
begin

lemma load_save: "routing_ok t \<Longrightarrow> rs_load RC (rs_save RC t) = Inr t"
  by (simp add: rs_load_def rs_save_def validate_dump)

lemma follows_agents:
  assumes "follows RC r" "\<And>a. dict_get ags a = None \<longleftrightarrow> dict_get (cr_agents r) a = None"
    and "\<And>a h h'. dict_get (cr_agents r) a = Some h \<Longrightarrow> dict_get ags a = Some h' \<Longrightarrow> same_agent h h'"
    and "dict_ok ags"
  shows "follows RC (r\<lparr>cr_agents := ags\<rparr>)"
proof -
  have r: "routed r a" for a using assms(1) by (simp add: follows_def)
  have "routed (r\<lparr>cr_agents := ags\<rparr>) a" for a
  proof (cases "dict_get (cr_agents r) a")
    case None
    then show ?thesis using r [of a] assms(2) [of a] by (simp add: routed_None)
  next
    case (Some h)
    then obtain h' where h': "dict_get ags a = Some h'" using assms(2) [of a] by auto
    have s: "same_agent h h'" by (rule assms(3) [OF Some h'])
    obtain t where t: "t \<in> set known_transports" "dict_get (cr_routing r) a = Some (routing_of h t)"
      "ah_agent_id h = a" "wf_json (ah_config h)"
      using r [of a] routed_Some [OF Some] by auto
    have "ah_agent_id h' = a" "wf_json (ah_config h')" using s t(3,4) by (simp_all add: same_agent_def)
    then show ?thesis using routed_Some [of "r\<lparr>cr_agents := ags\<rparr>" a h'] h' t(1,2) same_agent_routing [OF s] by auto
  qed
  then show ?thesis using assms(1,4) by (simp add: follows_def)
qed

lemma follows_save:
  assumes "follows RC r" "ah_agent_id h = a" "wf_json (ah_config h)" "transport \<in> set t" "set t \<subseteq> set known_transports"
    and "re_routing env = RC"
  shows "follows RC (save_routing env h transport
    (r\<lparr>cr_deployed := d, cr_transports := t, cr_agents := dict_set (cr_agents r) a h\<rparr>))" (is "follows RC ?r'")
proof -
  let ?t = "dict_set (cr_routing r) a (routing_of h transport)"
  have ok: "routing_ok ?t"
    using assms(1,2,3) by (intro routing_ok_set) (simp_all add: follows_def routing_of_def)
  have path: "cr_has_routing_path r" using assms(1) by (simp add: follows_def)
  have id: "ar_agent_id (routing_of h transport) = a" using assms(2) by (simp add: routing_of_def)
  have f: "cr_agents ?r' = dict_set (cr_agents r) a h" "cr_routing ?r' = ?t" "cr_routing_file ?r' = rs_save RC ?t"
    "cr_has_routing_path ?r'" "cr_transports ?r' = t"
    using path assms(6) id by (simp_all add: save_routing_def add_agent_def Let_def)
  have "routed ?r' b" for b
  proof (cases "b = a")
    case True
    then show ?thesis
      using routed_Some [of ?r' a h] assms(2-5) f by (auto simp: dict_get_set)
  next
    case False
    then show ?thesis using routed_cong [of ?r' b r] assms(1) f by (simp add: dict_get_set follows_def)
  qed
  then show ?thesis
    using assms(1,5) f ok load_save [OF ok] by (simp add: follows_def distinct_update)
qed

lemma follows_hire:
  assumes "follows RC r" "re_routing env = RC" "hire env henv a template ty chan transport persona r = (r', res)"
  shows "follows RC r' \<and> (\<forall>h. res = Inr h \<longrightarrow> dict_get (cr_agents r') a = Some h)"
  using assms(3)
proof (cases rule: hire_cases)
  case (failed e d t)
  moreover from this have "set t \<subseteq> set known_transports" using assms(1) by (auto simp: follows_def)
  ultimately show ?thesis using follows_cong [OF assms(1), of r'] by simp
next
  case (hired h d t)
  then have "ah_agent_id h = a" "wf_json (ah_config h)"
    using hired_handle_simps [of henv a ty chan persona] by (simp_all add: same_agent_def)
  moreover have "set t \<subseteq> set known_transports" using hired(4) assms(1) by (auto simp: follows_def)
  ultimately show ?thesis
    using follows_save [OF assms(1) _ _ hired(5) _ assms(2)] hired(1,3)
    by (auto simp: save_routing_def dict_get_set Let_def)
qed

lemma follows_set:
  assumes "follows RC r" "dict_get (cr_agents r) a = Some h" "same_agent h h'"
  shows "follows RC (r\<lparr>cr_agents := dict_set (cr_agents r) a h'\<rparr>)"
proof (rule follows_agents [OF assms(1)])
  show "dict_ok (dict_set (cr_agents r) a h')" using assms(1) by (simp add: follows_def distinct_update)
qed (use assms(2,3) in \<open>auto simp: dict_get_set split: if_splits\<close>)

lemma follows_dispatch:
  assumes "follows RC r" "re_routing env = RC"
  shows "follows RC (fst (dispatch_task_agent env henv task prompt template r))"
proof -
  obtain r1 res where h: "hire env henv task template None None ''native'' None r = (r1, res)" by force
  show ?thesis
  proof (cases res)
    case (Inl e)
    then show ?thesis using follows_hire [OF assms h] h by (simp add: dispatch_task_agent_def)
  next
    case (Inr hd)
    obtain h' q where s: "ah_send (re_up env task) (GiveTaskMessage task prompt (JObj [])) hd = (h', q)" by force
    then have "same_agent hd h'" using same_agent_send by (metis fst_conv)
    then have "follows RC (r1\<lparr>cr_agents := dict_set (cr_agents r1) task h'\<rparr>)"
      using follows_hire [OF assms h] Inr follows_set by blast
    then show ?thesis using h Inr s by (simp add: dispatch_task_agent_def)
  qed
qed

lemma follows_dismiss:
  assumes "follows RC r" "re_routing env = RC"
  shows "follows RC (fst (dismiss env a r))"
proof (cases "dict_get (cr_agents r) a")
  case None
  then show ?thesis using assms by (simp add: dismiss_def)
next
  case (Some h)
  have ok: "routing_ok (dict_pop (cr_routing r) a)" using assms(1) routing_ok_pop by (simp add: follows_def)
  let ?r' = "fst (dismiss env a r)"
  have path: "cr_has_routing_path r" using assms(1) by (simp add: follows_def)
  then have f: "cr_agents ?r' = dict_pop (cr_agents r) a" "cr_routing ?r' = dict_pop (cr_routing r) a"
    "cr_routing_file ?r' = rs_save RC (dict_pop (cr_routing r) a)" "cr_has_routing_path ?r'" "cr_transports ?r' = cr_transports r"
    using Some assms(2) by (simp_all add: dismiss_def remove_routing_def remove_agent_def Let_def)
  have "routed ?r' b" for b
  proof (cases "b = a")
    case True
    then show ?thesis using routed_None [of ?r' a] f by (simp add: dict_get_pop)
  next
    case False
    then show ?thesis using routed_cong [of ?r' b r] assms(1) f by (simp add: dict_get_pop follows_def)
  qed
  then show ?thesis using assms(1) f ok load_save [OF ok] by (simp add: follows_def distinct_delete)
qed

lemma follows_poll:
  assumes "follows RC r"
  shows "follows RC (health_poll_round env r)"
proof -
  let ?f = "\<lambda>a h. if ah_is_alive h then fst (ah_send (re_up env a) HealthCheckMessage h) else h"
  have g: "dict_get (map (\<lambda>(a, h). (a, ?f a h)) ags) a = map_option (?f a) (dict_get ags a)" for ags a
    by (induction ags) auto
  have "follows RC (r\<lparr>cr_agents := map (\<lambda>(a, h). (a, ?f a h)) (cr_agents r)\<rparr>)"
  proof (rule follows_agents [OF assms])
    show "dict_ok (map (\<lambda>(a, h). (a, ?f a h)) (cr_agents r))"
      using assms by (simp add: follows_def comp_def case_prod_beta)
  qed (auto simp: g same_agent_send)
  then show ?thesis by (simp add: health_poll_round_def)
qed

lemma follows_read:
  assumes "follows RC r"
  shows "follows RC (channel_reader W clock a stream r)"
proof (cases "dict_get (cr_agents r) a")
  case (Some h)
  let ?ms = "fst (read_stream W stream)"
  obtain h' ps where s: "reader_steps (zip (map clock [0..<length ?ms]) ?ms) h = (h', ps)" by force
  then have "same_agent h h'" using same_agent_steps by (metis fst_conv)
  then have "follows RC (r\<lparr>cr_agents := dict_set (cr_agents r) a h'\<rparr>)" using follows_set assms Some by blast
  then have "follows RC (r\<lparr>cr_agents := dict_set (cr_agents r) a h', cr_posted := cr_posted r @ ps\<rparr>)"
    by (rule follows_cong) (use assms in \<open>simp_all add: follows_def\<close>)
  then show ?thesis using assms Some s by (simp add: channel_reader_def Let_def split: option.split)
qed (use assms in \<open>simp add: channel_reader_def\<close>)

lemma follows_exec:
  assumes "follows RC r" "re_routing (fst eo) = RC"
  shows "follows RC (agent_exec eo r)"
proof -
  obtain env op where eo: "eo = (env, op)" by force
  then have e: "re_routing env = RC" using assms(2) by simp
  show ?thesis
  proof (cases op)
    case (Hire henv a template ty chan transport persona)
    then show ?thesis using follows_hire [OF assms(1) e prod.collapse [symmetric]] by (simp add: eo)
  qed (simp_all add: eo follows_dispatch [OF assms(1) e] follows_dismiss [OF assms(1) e] follows_poll [OF assms(1)]
      follows_read [OF assms(1)])
qed

lemma follows_run:
  "follows RC r \<Longrightarrow> \<forall>eo \<in> set ops. re_routing (fst eo) = RC \<Longrightarrow> follows RC (fold agent_exec ops r)"
  by (induction ops arbitrary: r) (simp_all add: follows_exec)

text \<open>Reconnecting: every entry of the table is either back, or found stale.\<close>

lemma reconnect_one_spec:
  assumes "ar_transport_type rt \<in> set known_transports" "set (cr_transports r) \<subseteq> set known_transports"
  shows "\<exists>t. reconnect_one env (a, rt) (r, stale) =
      (case back_online env a rt of
         None \<Rightarrow> (r\<lparr>cr_transports := t\<rparr>, stale @ [a])
       | Some h \<Rightarrow> (r\<lparr>cr_transports := t, cr_agents := dict_set (cr_agents r) a h\<rparr>, stale))
    \<and> set t \<subseteq> set known_transports"
proof -
  obtain r1 q where g: "cr_get_transport (ar_transport_type rt) r = (r1, q)" by force
  obtain t where t: "r1 = r\<lparr>cr_transports := t\<rparr>" "set t \<subseteq> set known_transports"
    using get_transport_result [OF g] assms(2) by auto
  have "q = Inr ()" using g assms(1) by (auto simp: cr_get_transport_def known_transports_def split: if_splits)
  then show ?thesis
    using g t by (intro exI [of _ t])
      (auto simp: reconnect_one_def back_online_def split: sum.split prod.split)
qed

lemma reconnect_fold:
  assumes "routing_ok table" "\<forall>(a, rt) \<in> set table. ar_transport_type rt \<in> set known_transports"
    and "set (cr_transports r) \<subseteq> set known_transports"
  shows "\<exists>t ags. fold (reconnect_one env) table (r, stale) =
      (r\<lparr>cr_transports := t, cr_agents := ags\<rparr>, stale @ map fst (filter (\<lambda>(a, rt). back_online env a rt = None) table))
    \<and> set t \<subseteq> set known_transports
    \<and> (\<forall>a. dict_get ags a = (case Option.bind (dict_get table a) (back_online env a) of
          None \<Rightarrow> dict_get (cr_agents r) a | Some h \<Rightarrow> Some h))
    \<and> (dict_ok (cr_agents r) \<longrightarrow> dict_ok ags)"
  using assms
proof (induction table arbitrary: r stale)
  case Nil
  show ?case
    by (rule exI [of _ "cr_transports r"], rule exI [of _ "cr_agents r"]) (use Nil in simp)
next
  case (Cons x table)
  obtain a rt where x: "x = (a, rt)" by force
  have ok: "routing_ok table" "\<forall>(a, rt) \<in> set table. ar_transport_type rt \<in> set known_transports"
    "ar_transport_type rt \<in> set known_transports" "dict_get table a = None"
    using Cons.prems(1,2) x by (auto simp: routing_ok_def map_of_eq_None_iff)
  obtain t1 where one: "reconnect_one env (a, rt) (r, stale) =
      (case back_online env a rt of
         None \<Rightarrow> (r\<lparr>cr_transports := t1\<rparr>, stale @ [a])
       | Some h \<Rightarrow> (r\<lparr>cr_transports := t1, cr_agents := dict_set (cr_agents r) a h\<rparr>, stale))"
    and t1: "set t1 \<subseteq> set known_transports"
    using reconnect_one_spec [OF ok(3) Cons.prems(3)] by blast
  define r1 where "r1 = fst (reconnect_one env (a, rt) (r, stale))"
  define stale1 where "stale1 = stale @ (if back_online env a rt = None then [a] else [])"
  have r1: "reconnect_one env (a, rt) (r, stale) = (r1, stale1)" "set (cr_transports r1) \<subseteq> set known_transports"
    "r\<lparr>cr_transports := t, cr_agents := g\<rparr> = r1\<lparr>cr_transports := t, cr_agents := g\<rparr>"
    "dict_get (cr_agents r1) b = (if b = a then (case back_online env a rt of None \<Rightarrow> dict_get (cr_agents r) a | Some h \<Rightarrow> Some h)
       else dict_get (cr_agents r) b)"
    "dict_ok (cr_agents r) \<longrightarrow> dict_ok (cr_agents r1)" for t g b
    using one t1 by (auto simp: r1_def stale1_def dict_get_set distinct_update split: option.split)
  obtain t ags where ih: "fold (reconnect_one env) table (r1, stale1) = (r1\<lparr>cr_transports := t, cr_agents := ags\<rparr>,
        stale1 @ map fst (filter (\<lambda>(a, rt). back_online env a rt = None) table))" "set t \<subseteq> set known_transports"
    "\<And>b. dict_get ags b = (case Option.bind (dict_get table b) (back_online env b) of
          None \<Rightarrow> dict_get (cr_agents r1) b | Some h \<Rightarrow> Some h)" "dict_ok (cr_agents r1) \<longrightarrow> dict_ok ags"
    using Cons.IH [OF ok(1,2) r1(2), of stale1] by blast
  have "dict_get ags b = (case Option.bind (dict_get (x # table) b) (back_online env b) of
      None \<Rightarrow> dict_get (cr_agents r) b | Some h \<Rightarrow> Some h)" for b
    using ih(3) [of b] r1(4) [of b] ok(4) by (cases "b = a") (simp_all add: x split: option.split)
  then show ?case
    using ih r1(1,5) by (intro exI [of _ t] exI [of _ ags]) (simp add: x r1(3) stale1_def)
qed

lemma reconnect_spec:
  assumes "routing_ok (cr_routing r)" "\<forall>(a, rt) \<in> set (cr_routing r). ar_transport_type rt \<in> set known_transports"
    and "set (cr_transports r) \<subseteq> set known_transports" "cr_agents r = []" "cr_has_routing_path r"
    and "rs_load RC (cr_routing_file r) = Inr (cr_routing r)" "re_routing env = RC"
  defines "r' \<equiv> reconnect_agents env r"
  shows "dict_get (cr_agents r') a = Option.bind (dict_get (cr_routing r) a) (back_online env a)"
    and "dict_get (cr_routing r') a =
      (case dict_get (cr_agents r') a of None \<Rightarrow> None | Some _ \<Rightarrow> dict_get (cr_routing r) a)"
    and "rs_load RC (cr_routing_file r') = Inr (cr_routing r')"
proof -
  let ?stale = "map fst (filter (\<lambda>(a, rt). back_online env a rt = None) (cr_routing r))"
  let ?table = "fold (\<lambda>a t. fst (remove_agent a t)) ?stale (cr_routing r)"
  obtain t ags where f: "fold (reconnect_one env) (cr_routing r) (r, []) =
      (r\<lparr>cr_transports := t, cr_agents := ags\<rparr>, ?stale)"
    "\<And>a. dict_get ags a = Option.bind (dict_get (cr_routing r) a) (back_online env a)"
  proof -
    have none: "(case x of None \<Rightarrow> dict_get (cr_agents r) a | Some h \<Rightarrow> Some h) = x" for x a
      by (cases x) (simp_all add: assms(4))
    show ?thesis using that reconnect_fold [OF assms(1-3), of env "[]"] unfolding none append_Nil by blast
  qed
  have pops: "dict_get (fold (\<lambda>a t. fst (remove_agent a t)) as t) a = (if a \<in> set as then None else dict_get t a)"
    "routing_ok t \<longrightarrow> routing_ok (fold (\<lambda>a t. fst (remove_agent a t)) as t)" for as t a
    by (induction as arbitrary: t) (simp_all add: remove_agent_def dict_get_pop routing_ok_pop)
  have stale: "a \<in> set ?stale \<longleftrightarrow> (\<exists>rt. dict_get (cr_routing r) a = Some rt \<and> back_online env a rt = None)" for a
  proof -
    have "dict_ok (cr_routing r)" using assms(1) by (simp add: routing_ok_def)
    note m = map_of_eq_Some_iff [OF this, of a]
    have "a \<in> set ?stale \<longleftrightarrow> (\<exists>rt. (a, rt) \<in> set (cr_routing r) \<and> back_online env a rt = None)"
      by (simp add: image_iff Bex_def)
    then show ?thesis by (simp only: m)
  qed
  have agents: "cr_agents r' = ags" "cr_routing r' = ?table"
  proof -
    have "cr_routing r = [] \<Longrightarrow> ags = []"
    proof -
      assume "cr_routing r = []"
      then have "dict_get ags = Map.empty" using f(2) by (simp add: fun_eq_iff)
      then show "ags = []" by simp
    qed
    then show "cr_agents r' = ags" "cr_routing r' = ?table"
      using f(1) assms(4) by (auto simp: r'_def reconnect_agents_def Let_def)
  qed
  show "dict_get (cr_agents r') a = Option.bind (dict_get (cr_routing r) a) (back_online env a)"
    using agents f(2) by simp
  show "dict_get (cr_routing r') a = (case dict_get (cr_agents r') a of None \<Rightarrow> None | Some _ \<Rightarrow> dict_get (cr_routing r) a)"
    using agents f(2) [of a] pops(1) [of ?stale "cr_routing r" a] stale [of a]
    by (cases "dict_get (cr_routing r) a"; cases "a \<in> set ?stale") (simp_all del: set_map set_filter split: option.split)
  show "rs_load RC (cr_routing_file r') = Inr (cr_routing r')"
  proof (cases "?stale = []")
    case True
    then show ?thesis using f(1) assms(5,6) by (simp add: r'_def reconnect_agents_def Let_def)
  next
    case False
    then have "cr_routing r \<noteq> []" by auto
    then have "cr_routing_file r' = rs_save RC ?table"
      using False f(1) assms(5,7) by (simp add: r'_def reconnect_agents_def Let_def)
    then show ?thesis using agents(2) load_save pops(2) assms(1) by simp
  qed
qed

end

section \<open>Restart of the daemon\<close>

definition reachable :: "root_env \<Rightarrow> agent_id \<Rightarrow> bool" where
  "reachable env a \<longleftrightarrow> (\<exists>so. re_connect env a = Inr so) \<and> re_up env a"

lemma back_online_reachable: "back_online env a rt \<noteq> None \<longleftrightarrow> reachable env a"
  by (auto simp: back_online_def reachable_def ah_send_def attach_socket_def Let_def split: sum.splits)

lemma back_online_Some:
  assumes "back_online env a rt = Some h"
  shows "same_agent (reconnected_handle rt) h" "\<exists>so. re_connect env a = Inr so \<and> ah_reader_task h
    \<and> ah_socket h = Some (so\<lparr>so_written := so_written so @ [ReconnectMessage a]\<rparr>)"
  using assms
  by (auto simp: back_online_def same_agent_def ah_send_def attach_socket_def Let_def split: sum.splits if_splits)

lemma reconnected_same: "same_agent h (reconnected_handle (routing_of h t))"
  by (simp add: same_agent_def reconnected_handle_def routing_of_def new_agent_handle_def)

lemma start_scheduler_fields:
  "cr_agents (fst (start_scheduler env r)) = cr_agents r" "cr_routing (fst (start_scheduler env r)) = cr_routing r"
  "cr_routing_file (fst (start_scheduler env r)) = cr_routing_file r"
  by (auto simp: start_scheduler_def with_scheduler_def Let_def split: option.split prod.split sum.split)

text \<open>
  C2. Agents survive a restart of the daemon. Suppose a saved routing table reads back as
  it was. After any sequence of hires, dispatches, dismissals, health polls and messages
  read, with whatever failures of files, spawns and connections, a new root is constructed
  from the routing file that is left, and started. Then it has a handle for exactly the
  agents the old root had and that can be reached again, of the same type, capabilities,
  channel, handler and configuration, each of which has been sent one reconnect message and
  is being read; and the file has exactly the agents that are back.
\<close>

theorem agents_survive_daemon_restart:
  fixes start :: "'c start_method"
  assumes codec: "\<And>t. routing_ok t \<Longrightarrow> validate_json RC (dump_json RC t) = Some t"
    and fresh: "new_company_root env0 m w cfg (Some (None, mem)) health = Inr r0"
    and envs: "\<forall>eo \<in> set ops. re_routing (fst eo) = RC" "re_routing env' = RC"
    and r: "r = fold agent_exec ops r0"
  shows "\<exists>r1. new_company_root env' m' w' cfg' (Some (cr_routing_file r, mem')) health' = Inr r1 \<and>
    (let r2 = fst (cr_start env' start r1) in
      (\<forall>a. dict_get (cr_agents r2) a \<noteq> None \<longleftrightarrow> dict_get (cr_agents r) a \<noteq> None \<and> reachable env' a)
      \<and> (\<forall>a h h2. dict_get (cr_agents r) a = Some h \<and> dict_get (cr_agents r2) a = Some h2 \<longrightarrow>
           same_agent h h2 \<and> ah_reader_task h2
           \<and> (\<exists>so. re_connect env' a = Inr so \<and> ah_socket h2 = Some (so\<lparr>so_written := so_written so @ [ReconnectMessage a]\<rparr>)))
      \<and> (\<exists>table. rs_load RC (cr_routing_file r2) = Inr table
           \<and> (\<forall>a. dict_get table a \<noteq> None \<longleftrightarrow> dict_get (cr_agents r2) a \<noteq> None)))"
proof -
  have c: "routing_codec RC" using codec by (rule routing_codec.intro)
  have "follows RC r0"
    using fresh by (auto simp: new_company_root_def rs_load_def follows_def routed_def routing_ok_def)
  then have f: "follows RC r" using routing_codec.follows_run [OF c _ envs(1)] r by simp
  let ?table = "cr_routing r"
  have load: "rs_load RC (cr_routing_file r) = Inr ?table" and ok: "routing_ok ?table" and routed: "\<And>a. routed r a"
    using f by (simp_all add: follows_def)
  obtain r1 :: "'c company_root" where r1: "new_company_root env' m' w' cfg' (Some (cr_routing_file r, mem')) health' = Inr r1"
    "cr_has_routing_path r1" "cr_routing_file r1 = cr_routing_file r" "cr_agents r1 = []" "cr_transports r1 = []"
    "child_specs (cr_sup r1) = []"
    using load envs(2) by (simp add: new_company_root_def new_supervisor_def)
  define rs where "rs = (r1\<lparr>cr_sup := fst (sup_start start (cr_sup r1)), cr_routing := ?table\<rparr>)"
  let ?rc = "reconnect_agents env' rs"
  let ?r2 = "fst (cr_start env' start r1)"
  have "sup_start start (cr_sup r1) = ((cr_sup r1)\<lparr>sup_state := ''running''\<rparr>, Inr ())"
    using r1(6) by (simp add: sup_start_def)
  then have r2: "cr_agents ?r2 = cr_agents ?rc" "cr_routing ?r2 = cr_routing ?rc" "cr_routing_file ?r2 = cr_routing_file ?rc"
    using r1(2,3) load envs(2) by (simp_all add: cr_start_def Let_def rs_def start_scheduler_fields)
  have tr: "\<forall>(a, rt) \<in> set ?table. ar_transport_type rt \<in> set known_transports"
  proof (clarify)
    fix a rt assume "(a, rt) \<in> set ?table"
    then have g: "dict_get ?table a = Some rt" using ok by (simp add: routing_ok_def)
    show "ar_transport_type rt \<in> set known_transports"
      using routed [of a] g by (auto simp: routed_def routing_of_def split: option.splits)
  qed
  have rs: "cr_routing rs = ?table" by (simp add: rs_def)
  note spec = routing_codec.reconnect_spec [OF c, of rs env', unfolded rs]
  have s1: "dict_get (cr_agents ?rc) a = Option.bind (dict_get ?table a) (back_online env' a)"
    and s2: "dict_get (cr_routing ?rc) a = (case dict_get (cr_agents ?rc) a of None \<Rightarrow> None | Some _ \<Rightarrow> dict_get ?table a)"
    and s3: "rs_load RC (cr_routing_file ?rc) = Inr (cr_routing ?rc)" for a
    using spec ok tr r1 load envs(2) by (simp_all add: rs_def)
  have on: "dict_get (cr_agents ?r2) a \<noteq> None \<longleftrightarrow> dict_get (cr_agents r) a \<noteq> None \<and> reachable env' a" for a
  proof (cases "dict_get (cr_agents r) a")
    case None
    then show ?thesis using routed [of a] s1 [of a] by (simp add: r2 routed_None)
  next
    case (Some h)
    then obtain t where "dict_get ?table a = Some (routing_of h t)" using routed [of a] routed_Some [OF Some] by auto
    then show ?thesis using Some s1 [of a] back_online_reachable [of env' a "routing_of h t"] by (simp add: r2)
  qed
  have same: "same_agent h h2 \<and> ah_reader_task h2
      \<and> (\<exists>so. re_connect env' a = Inr so \<and> ah_socket h2 = Some (so\<lparr>so_written := so_written so @ [ReconnectMessage a]\<rparr>))"
    if h: "dict_get (cr_agents r) a = Some h" and h2: "dict_get (cr_agents ?r2) a = Some h2" for a h h2
  proof -
    obtain t where "dict_get ?table a = Some (routing_of h t)" using routed [of a] routed_Some [OF h] by auto
    then have b: "back_online env' a (routing_of h t) = Some h2" using h2 s1 [of a] by (simp add: r2)
    then show ?thesis using back_online_Some [OF b] same_agent_trans [OF reconnected_same] by blast
  qed
  have disk: "dict_get (cr_routing ?rc) a \<noteq> None \<longleftrightarrow> dict_get (cr_agents ?r2) a \<noteq> None" for a
    using s1 [of a] s2 [of a] by (cases "dict_get ?table a") (auto simp: r2 split: option.splits)
  have table: "\<exists>table. rs_load RC (cr_routing_file ?r2) = Inr table
      \<and> (\<forall>a. dict_get table a \<noteq> None \<longleftrightarrow> dict_get (cr_agents ?r2) a \<noteq> None)"
    by (intro exI [of _ "cr_routing ?rc"] conjI allI disk) (use s3 r2(3) in simp)
  show ?thesis unfolding Let_def
    by (intro exI [of _ r1] conjI allI impI r1(1) on table) (use same in \<open>blast+\<close>)
qed

text \<open>A routing file in JSON, for the witnesses.\<close>

fun as_list :: "(json \<Rightarrow> 'a option) \<Rightarrow> json \<Rightarrow> 'a list option" where
  "as_list g (JArr js) = those (map g js)"
| "as_list g _ = None"

lemma those_map_Some: "(\<And>x. x \<in> set xs \<Longrightarrow> g (f x) = Some x) \<Longrightarrow> those (map (\<lambda>x. g (f x)) xs) = Some xs"
  by (induction xs) auto

definition routing_json :: "agent_routing \<Rightarrow> json" where
  "routing_json rt = JObj
     [(''agent_id'', JStr (ar_agent_id rt)), (''channel_id'', opt_str (ar_channel_id rt)), (''category_id'', opt_str (ar_category_id rt)),
      (''agent_type'', JStr (ar_agent_type rt)), (''handler_type'', JStr (ar_handler_type rt)), (''config'', ar_config rt),
      (''capabilities'', JArr (map JStr (ar_capabilities rt))), (''transport_type'', JStr (ar_transport_type rt))]"

definition routing_validate :: "json \<Rightarrow> agent_routing option" where
  "routing_validate j =
     (case (json_field j ''agent_id'' as_str, json_field j ''channel_id'' as_optional_str, json_field j ''category_id'' as_optional_str,
            json_field j ''agent_type'' as_str, json_field j ''handler_type'' as_str, json_field j ''config'' Some,
            json_field j ''capabilities'' (as_list as_str), json_field j ''transport_type'' as_str) of
        (Some a, Some ch, Some cat, Some ty, Some h, Some cfg, Some caps, Some tr) \<Rightarrow>
          Some \<lparr>ar_agent_id = a, ar_channel_id = ch, ar_category_id = cat, ar_agent_type = ty, ar_handler_type = h,
                ar_config = cfg, ar_capabilities = caps, ar_transport_type = tr\<rparr>
      | _ \<Rightarrow> None)"

definition routing_file_codec :: "routing_state json_codec" where
  "routing_file_codec =
     \<lparr>dump_json = (\<lambda>t. dumps (JObj (map (\<lambda>(a, rt). (a, routing_json rt)) t))),
      validate_json = (\<lambda>s. Option.bind (loads s) (\<lambda>j.
        those (map (\<lambda>(a, x). map_option (Pair a) (routing_validate x)) (json_fields j))))\<rparr>"

lemma as_optional_opt_str: "as_optional_str (opt_str x) = Some x"
  by (cases x) (simp_all add: opt_str_def)

lemma routing_validate_json: "routing_validate (routing_json rt) = Some rt"
proof -
  have "those (map (\<lambda>x. as_str (JStr x)) (ar_capabilities rt)) = Some (ar_capabilities rt)"
    by (rule those_map_Some) simp
  then show ?thesis
    by (simp add: routing_validate_def routing_json_def json_field_def as_optional_opt_str comp_def)
qed

lemma wf_fields_iff: "wf_fields kvs \<longleftrightarrow> (\<forall>(k, v) \<in> set kvs. wf_json v)"
  by (induction kvs) auto

lemma those_routing:
  "those (map ((\<lambda>(a, x). map_option (Pair a) (routing_validate x)) \<circ> (\<lambda>(a, rt). (a, routing_json rt))) t) = Some t"
  by (induction t) (auto simp: routing_validate_json)

interpretation rc: routing_codec routing_file_codec
proof
  fix t
  assume t: "routing_ok t"
  let ?j = "JObj (map (\<lambda>(a, rt). (a, routing_json rt)) t)"
  have "wf_json (routing_json rt)" if "(a, rt) \<in> set t" for a rt
    using t that by (auto simp: routing_ok_def routing_json_def wf_items_iff opt_str_def split: option.split)
  then have "wf_json ?j"
    using t by (auto simp: routing_ok_def wf_fields_iff comp_def case_prod_beta)
  then have "loads (dumps ?j) = Some ?j" by (rule loads_dumps)
  then show "validate_json routing_file_codec (dump_json routing_file_codec t) = Some t"
    using t those_routing [of t] by (simp add: routing_file_codec_def routing_ok_def del: dumps.simps)
qed

definition demo_root_env :: "agent_id list \<Rightarrow> root_env" where
  "demo_root_env up = \<lparr>re_routing = routing_file_codec, re_schedules = schedule_entry_model,
     re_connect = (\<lambda>a. if a \<in> set up then Inr \<lparr>so_written = [], so_closing = False\<rparr> else Inl OSError),
     re_up = (\<lambda>_. True), re_exit = (\<lambda>_. (Some 0, None))\<rparr>"

definition demo_hire_env :: hire_env where
  "demo_hire_env = \<lparr>he_home = ''/h'', he_repo = ''/r'', he_render = (\<lambda>t _. t), he_exists = (\<lambda>_. True), he_is_dir = (\<lambda>_. False),
     he_files = (\<lambda>_. []), he_fails_at = None, he_types = Some get_default_config,
     he_spawn = Inr \<lparr>so_written = [], so_closing = False\<rparr>, he_up = True\<rparr>"

definition demo_agent_ops :: "(root_env \<times> agent_op) list" where
  "demo_agent_ops =
     [(demo_root_env [], Hire demo_hire_env ''a'' ''generic'' (Some ''gsd'') (Some ''11'') ''native'' None),
      (demo_root_env [], Hire demo_hire_env ''b'' ''generic'' None None ''docker'' None),
      (demo_root_env [], Hire demo_hire_env ''c'' ''generic'' None None ''native'' None),
      (demo_root_env [], Dismiss ''c'')]"

definition demo_sup_config :: sup_config where
  "demo_sup_config = \<lparr>cfg_has_parent = False, cfg_has_on_escalation = True, cfg_has_on_health_change = False,
     cfg_has_signal_router = False\<rparr>"

definition demo_root :: "string company_root" where
  "demo_root = projr (new_company_root (demo_root_env []) 3 600 demo_sup_config (Some (None, new_memory_store)) None)"

lemma demo_root_new:
  "new_company_root (demo_root_env []) 3 600 demo_sup_config (Some (None, new_memory_store)) None = Inr demo_root"
  by (simp add: demo_root_def new_company_root_def rs_load_def)

lemma demo_agents:
  "dict_get (cr_agents (fold agent_exec demo_agent_ops demo_root)) x \<noteq> None \<longleftrightarrow> x \<in> {''a'', ''b''}"
  by (simp add: demo_agent_ops_def demo_root_def new_company_root_def rs_load_def hire_def run_deploy_def
      demo_hire_env_def cr_get_transport_def ah_send_def attach_socket_def save_routing_def dismiss_def
      remove_routing_def demo_root_env_def Let_def hired_handle_def new_agent_handle_def)

theorem agents_survive_daemon_restart_witness:
  "\<exists>r1 :: string company_root. new_company_root (demo_root_env [''a'']) 3 600 demo_sup_config
       (Some (cr_routing_file (fold agent_exec demo_agent_ops demo_root), new_memory_store)) None = Inr r1
     \<and> dict_get (cr_agents (fst (cr_start (demo_root_env [''a'']) start_child r1))) ''a'' \<noteq> None
     \<and> dict_get (cr_agents (fst (cr_start (demo_root_env [''a'']) start_child r1))) ''b'' = None
     \<and> dict_get (cr_agents (fst (cr_start (demo_root_env [''a'']) start_child r1))) ''c'' = None"
proof -
  let ?env = "demo_root_env [''a'']"
  have envs: "\<forall>eo \<in> set demo_agent_ops. re_routing (fst eo) = routing_file_codec" "re_routing ?env = routing_file_codec"
    by (simp_all add: demo_agent_ops_def demo_root_env_def)
  have reach: "reachable ?env x \<longleftrightarrow> x = ''a''" for x by (simp add: reachable_def demo_root_env_def)
  obtain r1 :: "string company_root" where r1: "new_company_root ?env 3 600 demo_sup_config
       (Some (cr_routing_file (fold agent_exec demo_agent_ops demo_root), new_memory_store)) None = Inr r1"
    and on: "\<forall>a. dict_get (cr_agents (fst (cr_start ?env start_child r1))) a \<noteq> None \<longleftrightarrow>
      dict_get (cr_agents (fold agent_exec demo_agent_ops demo_root)) a \<noteq> None \<and> reachable ?env a"
    using agents_survive_daemon_restart [OF rc.validate_dump demo_root_new envs refl,
        of 3 600 demo_sup_config new_memory_store None start_child] unfolding Let_def by blast
  from on have "dict_get (cr_agents (fst (cr_start ?env start_child r1))) x \<noteq> None \<longleftrightarrow> x = ''a''" for x
    unfolding demo_agents reach by auto
  from r1 this [of "''a''"] this [of "''b''"] this [of "''c''"] show ?thesis by (intro exI [of _ r1]) simp
qed

section \<open>What a worker says reaches its channel\<close>

fun announcement :: "agent_id \<Rightarrow> worker_message \<Rightarrow> string option" where
  "announcement a (SignalMessage sig detail) = (if sig = ''ready'' then Some (ready_text a detail) else None)"
| "announcement a (ReportMessage ch content t) = Some content"
| "announcement a (AskMessage ch q ctx) = Some (''**Question:** '' @ q)"
| "announcement a _ = None"

fun health_of :: "worker_message \<Rightarrow> cached_health option" where
  "health_of (HealthReportMessage st ag up d) = Some \<lparr>lh_status = st, lh_agent_state = ag, lh_uptime_seconds = up\<rparr>"
| "health_of _ = None"

lemma reader_step_spec:
  assumes "ah_channel_id h = Some ch" "ch \<noteq> []"
  shows "snd (reader_step now m h) = map (Pair ch) (case announcement (ah_agent_id h) m of None \<Rightarrow> [] | Some s \<Rightarrow> [s])"
    and "fst (reader_step now m h) = (case health_of m of None \<Rightarrow> h | Some r \<Rightarrow> update_health now r h)"
  using assms by (cases m; simp add: route_report_def route_ask_def route_def)+

lemma reader_steps_spec:
  assumes "ah_channel_id h = Some ch" "ch \<noteq> []"
  shows "snd (reader_steps tms h) = map (Pair ch) (List.map_filter (announcement (ah_agent_id h)) (map snd tms))
    \<and> same_agent h (fst (reader_steps tms h))
    \<and> ah_last_health (fst (reader_steps tms h)) =
        (case rev (List.map_filter health_of (map snd tms)) of [] \<Rightarrow> ah_last_health h | r # _ \<Rightarrow> Some r)"
  using assms
proof (induction tms arbitrary: h)
  case Nil
  then show ?case by (simp add: List.map_filter_def)
next
  case (Cons x tms)
  obtain now m where x: "x = (now, m)" by force
  let ?h = "fst (reader_step now m h)"
  note st = reader_step_spec [OF Cons.prems, of now m]
  have s: "same_agent h ?h" by (rule same_agent_step)
  then have ch: "ah_channel_id ?h = Some ch" "ah_agent_id ?h = ah_agent_id h" using Cons.prems by (simp_all add: same_agent_def)
  have eq: "reader_steps (x # tms) h = (fst (reader_steps tms ?h), snd (reader_step now m h) @ snd (reader_steps tms ?h))"
    by (simp add: x split: prod.split)
  have lh: "ah_last_health ?h = (case health_of m of None \<Rightarrow> ah_last_health h | Some r \<Rightarrow> Some r)"
    using st(2) by (simp add: update_health_def split: option.split)
  show ?case
    using Cons.IH [OF ch(1) Cons.prems(2)] st(1) same_agent_trans [OF s] lh unfolding eq
    by (auto simp: x ch(2) List.map_filter_def split: option.split list.splits)
qed

text \<open>
  What a worker says reaches its channel. Suppose the JSON text of a worker's message
  validates to it, is one line and has no space around it. When the stream of a registered
  agent with a channel carries messages, with any lines in between that do not validate,
  the root posts to that channel, in order, exactly the agent's reports, its questions and
  its readiness up to the first line that is longer than the reader's limit, keeps the last
  health report for the agent, and changes no other agent.
\<close>

theorem worker_speaks_to_channel:
  assumes validate_dump: "\<And>m. ok m \<Longrightarrow> validate_json C (dump_json C m) = Some m"
    and one_line: "\<And>m. ok m \<Longrightarrow> newline \<notin> set (dump_json C m)"
    and no_margin: "\<And>m. ok m \<Longrightarrow> dump_json C m \<noteq> [] \<and> \<not> ascii_space (hd (dump_json C m)) \<and> \<not> ascii_space (last (dump_json C m))"
    and wire: "\<forall>x \<in> set xs. case x of Inl g \<Rightarrow> garbage C g | Inr m \<Rightarrow> ok m"
    and h: "dict_get (cr_agents r) a = Some h" "ah_socket h \<noteq> None" "ah_channel_id h = Some ch" "ch \<noteq> []"
    and ms: "ms = concat (map (case_sum (\<lambda>_. []) (\<lambda>m. [m])) (takeWhile (fits C) xs))"
    and r': "r' = channel_reader C clock a (concat (map (wire_line C) xs)) r"
  shows "cr_posted r' = cr_posted r @ map (Pair ch) (List.map_filter (announcement (ah_agent_id h)) ms)
    \<and> (\<exists>h'. dict_get (cr_agents r') a = Some h' \<and> same_agent h h' \<and> ah_last_health h' =
          (case rev (List.map_filter health_of ms) of [] \<Rightarrow> ah_last_health h | lh # _ \<Rightarrow> Some lh))
    \<and> (\<forall>b. b \<noteq> a \<longrightarrow> dict_get (cr_agents r') b = dict_get (cr_agents r) b)"
proof -
  have read: "fst (read_stream C (concat (map (wire_line C) xs))) = ms"
    unfolding ms
    by (subst ndjson_codec.read_wire [OF ndjson_codec.intro, OF validate_dump one_line no_margin wire]) simp_all
  let ?tms = "zip (map clock [0..<length ms]) ms"
  obtain h' ps where s: "reader_steps ?tms h = (h', ps)" by force
  obtain rd where "ah_reader h = Some rd" using h(2) by (simp add: ah_reader_def)
  then have "r' = r\<lparr>cr_agents := dict_set (cr_agents r) a h', cr_posted := cr_posted r @ ps\<rparr>"
    using h(1) s by (simp add: r' channel_reader_def read Let_def)
  moreover have "map snd ?tms = ms" by simp
  ultimately show ?thesis
    using reader_steps_spec [OF h(3,4), of ?tms] s by (simp add: dict_get_set)
qed

theorem worker_speaks_to_channel_witness:
  "cr_posted (channel_reader worker_codec (\<lambda>i. of_nat i) ''a''
     (concat (map (wire_line worker_codec)
       [Inr (SignalMessage ''ready'' []), Inr (HealthReportMessage ''running'' ''plan'' 7 (JObj [])), Inl [],
        Inr (ReportMessage ''x'' ''done'' None), Inr (SignalMessage ''idle'' [])]))
     (demo_root\<lparr>cr_agents := [(''a'', attach_socket \<lparr>so_written = [], so_closing = False\<rparr>
        (new_agent_handle ''a'' ''gsd'' [] (Some ''11'') ''session'' (JObj [])))]\<rparr>))
   = [(''11'', ''[system] **a** is ready.''), (''11'', ''done'')]"
proof -
  let ?h = "attach_socket \<lparr>so_written = [], so_closing = False\<rparr> (new_agent_handle ''a'' ''gsd'' [] (Some ''11'') ''session'' (JObj []))"
  let ?r = "demo_root\<lparr>cr_agents := [(''a'', ?h)]\<rparr>"
  let ?xs = "[Inr (SignalMessage ''ready'' []), Inr (HealthReportMessage ''running'' ''plan'' 7 (JObj [])), Inl [],
        Inr (ReportMessage ''x'' ''done'' None), Inr (SignalMessage ''idle'' [])]"
  have "garbage worker_codec []"
    by (simp add: garbage_def worker_codec_def loads_def strip_with_def ascii_space_def skip_ws_def)
  then have w: "\<forall>x \<in> set ?xs. case x of Inl g \<Rightarrow> garbage worker_codec g | Inr m \<Rightarrow> wf_worker m" by simp
  have h: "dict_get (cr_agents ?r) ''a'' = Some ?h" "ah_socket ?h \<noteq> None" "ah_channel_id ?h = Some ''11''" "''11'' \<noteq> []"
    "ah_agent_id ?h = ''a''"
    by (simp_all add: attach_socket_def new_agent_handle_def)
  have p: "cr_posted ?r = []" by (simp add: demo_root_def new_company_root_def rs_load_def)
  have f: "takeWhile (fits worker_codec) ?xs = ?xs"
    by (simp add: fits_def wire_line_def encode_def worker_codec_def worker_json_def line_limit_def
        show_str_def esc_char_def show_int_def show_nat.simps [of 7] show_nat.simps [of "Suc 0"])
  show ?thesis
    using worker_speaks_to_channel [OF wc.validate_dump wc.one_line wc.no_margin w h(1-4) refl refl, of "\<lambda>i. of_nat i"]
    unfolding p h(5) f by (simp add: List.map_filter_def ready_text_def)
qed

end
