(* ===== verification/Py_Value.thy ===== *)
theory Py_Value
  imports Py_String Py_Json
begin

text \<open>
  Python's operations on a value of a JSON kind whose type is not known: truth, \<open>get\<close>,
  membership of a set, \<open>join\<close>, \<open>repr\<close> and \<open>str\<close>. What such an operation does with a value
  of an unexpected kind is the exception Python raises.
\<close>

fun json_truthy :: "json \<Rightarrow> bool" where
  "json_truthy JNull = False"
| "json_truthy (JBool b) = b"
| "json_truthy (JInt i) = (i \<noteq> 0)"
| "json_truthy (JStr s) = (s \<noteq> [])"
| "json_truthy (JArr xs) = (xs \<noteq> [])"
| "json_truthy (JObj kvs) = (kvs \<noteq> [])"

text \<open>\<open>v.get(k, default)\<close>, which only a dictionary has.\<close>

fun json_get :: "json \<Rightarrow> string \<Rightarrow> json \<Rightarrow> py_error + json" where
  "json_get (JObj kvs) k d = Inr (case dict_get kvs k of None \<Rightarrow> d | Some v \<Rightarrow> v)"
| "json_get _ k d = Inl (AttributeError ''get'')"

text \<open>A member of a set: a list or a dictionary is not hashable, and a truth value equals its integer.\<close>

fun hash_key :: "json \<Rightarrow> json option" where
  "hash_key (JArr xs) = None"
| "hash_key (JObj kvs) = None"
| "hash_key (JBool b) = Some (JInt (if b then 1 else 0))"
| "hash_key j = Some j"

fun hash_keys :: "json list \<Rightarrow> py_error + json list" where
  "hash_keys [] = Inr []"
| "hash_keys (j # js) =
     (case hash_key j of
        None \<Rightarrow> Inl (TypeError ''unhashable'')
      | Some k \<Rightarrow> (case hash_keys js of Inl e \<Rightarrow> Inl e | Inr ks \<Rightarrow> Inr (k # ks)))"

text \<open>\<open>set(v)\<close>, as a list of its members.\<close>

definition json_set :: "json \<Rightarrow> py_error + json list" where
  "json_set j = (case json_iter j of None \<Rightarrow> Inl (TypeError ''not iterable'') | Some js \<Rightarrow> hash_keys js)"

text \<open>\<open>', '.join(v)\<close> over the members of a value, all of which have to be strings.\<close>

fun all_strs :: "json list \<Rightarrow> string list option" where
  "all_strs [] = Some []"
| "all_strs (j # js) =
     (case as_str j of None \<Rightarrow> None | Some s \<Rightarrow> map_option (\<lambda>ss. s # ss) (all_strs js))"

definition join_strs :: "json list \<Rightarrow> py_error + string" where
  "join_strs js = (case all_strs js of None \<Rightarrow> Inl (TypeError ''join'') | Some ss \<Rightarrow> Inr (intercalate '', '' ss))"

text \<open>\<open>repr\<close> and \<open>str\<close> of a value, as a formatted string inserts it.\<close>

fun json_repr :: "json \<Rightarrow> string"
  and repr_items :: "json list \<Rightarrow> string list"
  and repr_fields :: "(string \<times> json) list \<Rightarrow> string list"
where
  "json_repr JNull = ''None''"
| "json_repr (JBool b) = (if b then ''True'' else ''False'')"
| "json_repr (JInt i) = show_int i"
| "json_repr (JStr s) = py_repr s"
| "json_repr (JArr xs) = ''['' @ intercalate '', '' (repr_items xs) @ '']''"
| "json_repr (JObj kvs) = ''{'' @ intercalate '', '' (repr_fields kvs) @ ''}''"
| "repr_items [] = []"
| "repr_items (x # xs) = json_repr x # repr_items xs"
| "repr_fields [] = []"
| "repr_fields ((k, v) # kvs) = (py_repr k @ '': '' @ json_repr v) # repr_fields kvs"

definition json_str :: "json \<Rightarrow> string" where
  "json_str j = (case j of JStr s \<Rightarrow> s | _ \<Rightarrow> json_repr j)"

end
