(* ===== verification/Project_Config.thy ===== *)
theory Project_Config
  imports Py_String Py_Json
begin

text \<open>
  The project configuration, \<open>models/config.py\<close>: the validators of an agent and of a
  project. Reading the YAML file and Pydantic's checks of the field types are not modelled:
  the records below are what they deliver, and a validator's \<open>ValueError\<close> is the outcome.
\<close>

section \<open>Validators\<close>

datatype gsd_mode = Full | Quick

datatype agent_kind = GsdKind | ContinuousKind | FulltimeKind | CompanyKind

record agent_config =
  ac_id :: agent_id
  ac_role :: string
  ac_owns :: "string list"
  ac_consumes :: string
  ac_gsd_mode :: gsd_mode
  ac_system_prompt :: string
  ac_type :: agent_kind
  ac_transport :: string
  ac_docker_image :: "string option"

record project_config =
  pc_project :: string
  pc_repo :: string
  pc_agents :: "agent_config list"
  pc_shared_readonly :: "string list"

text \<open>\<open>str.isalnum\<close> on 8-bit code points.\<close>

definition alnum_char :: "char \<Rightarrow> bool" where
  "alnum_char c =
     (let n = of_char c :: nat in
      (48 \<le> n \<and> n \<le> 57) \<or> (65 \<le> n \<and> n \<le> 90) \<or> (97 \<le> n \<and> n \<le> 122)
      \<or> n \<in> {170, 178, 179, 181, 185, 186, 188, 189, 190}
      \<or> (192 \<le> n \<and> n \<noteq> 215 \<and> n \<noteq> 247))"

definition py_isalnum :: "string \<Rightarrow> bool" where
  "py_isalnum s \<longleftrightarrow> s \<noteq> [] \<and> list_all alnum_char s"

definition id_must_be_alphanumeric :: "string \<Rightarrow> py_error + string" where
  "id_must_be_alphanumeric v =
     (if v = [] then Inl (ValueError ''Agent ID must not be empty'')
      else if \<not> py_isalnum (py_replace ''_'' [] (py_replace ''-'' [] v))
      then Inl (ValueError (''Agent ID must be alphanumeric (with - or _): '' @ py_repr v))
      else Inr v)"

definition owns_must_not_be_empty :: "string list \<Rightarrow> py_error + string list" where
  "owns_must_not_be_empty v =
     (if v = [] then Inl (ValueError ''Agent must own at least one directory'') else Inr v)"

definition validate_agent :: "agent_config \<Rightarrow> py_error + agent_config" where
  "validate_agent a =
     (case id_must_be_alphanumeric (ac_id a) of
        Inl e \<Rightarrow> Inl e
      | Inr _ \<Rightarrow> (case owns_must_not_be_empty (ac_owns a) of Inl e \<Rightarrow> Inl e | Inr _ \<Rightarrow> Inr a))"

definition normalized_dir :: "string \<Rightarrow> string" where
  "normalized_dir d = py_rstrip_char (CHR ''/'') d @ ''/''"

fun check_ids :: "agent_id list \<Rightarrow> agent_config list \<Rightarrow> py_error option" where
  "check_ids seen [] = None"
| "check_ids seen (a # rest) =
     (if ac_id a \<in> set seen then Some (ValueError (''Duplicate agent ID: '' @ py_repr (ac_id a)))
      else check_ids (seen @ [ac_id a]) rest)"

text \<open>The directories of one agent against all directories seen so far, which include its own.\<close>

definition overlap_error :: "string \<Rightarrow> agent_id \<Rightarrow> string \<Rightarrow> agent_id \<Rightarrow> py_error" where
  "overlap_error d a existing_dir existing_agent =
     ValueError (''Overlapping directory ownership: '' @ [CHR 0x27] @ d @ [CHR 0x27] @ '' (agent '' @ a @ '') conflicts with ''
       @ [CHR 0x27] @ py_rstrip_char (CHR ''/'') existing_dir @ [CHR 0x27] @ '' (agent '' @ existing_agent @ '')'')"

fun check_dirs :: "(string \<times> agent_id) list \<Rightarrow> agent_id \<Rightarrow> string list \<Rightarrow> py_error + (string \<times> agent_id) list" where
  "check_dirs all_dirs a [] = Inr all_dirs"
| "check_dirs all_dirs a (d # ds) =
     (let n = normalized_dir d in
      (case find (\<lambda>(ex, _). startswith n ex \<or> startswith ex n) all_dirs of
         Some (ex, other) \<Rightarrow> Inl (overlap_error d a ex other)
       | None \<Rightarrow> check_dirs (all_dirs @ [(n, a)]) a ds))"

fun check_ownership :: "(string \<times> agent_id) list \<Rightarrow> agent_config list \<Rightarrow> py_error option" where
  "check_ownership all_dirs [] = None"
| "check_ownership all_dirs (a # rest) =
     (case check_dirs all_dirs (ac_id a) (ac_owns a) of
        Inl e \<Rightarrow> Some e
      | Inr all_dirs' \<Rightarrow> check_ownership all_dirs' rest)"

definition validate_project_constraints :: "project_config \<Rightarrow> py_error + project_config" where
  "validate_project_constraints p =
     (case check_ids [] (pc_agents p) of
        Some e \<Rightarrow> Inl e
      | None \<Rightarrow> (case check_ownership [] (pc_agents p) of Some e \<Rightarrow> Inl e | None \<Rightarrow> Inr p))"

text \<open>All validators on a project: the agents are validated before the project is.\<close>

definition validate_project :: "project_config \<Rightarrow> py_error + project_config" where
  "validate_project p =
     (case find (\<lambda>a. case validate_agent a of Inl _ \<Rightarrow> True | Inr _ \<Rightarrow> False) (pc_agents p) of
        Some a \<Rightarrow> Inl ValidationError
      | None \<Rightarrow> validate_project_constraints p)"

section \<open>Ownership\<close>

text \<open>A path lies in a directory when it begins with the directory's normalized name.\<close>

definition owns_path :: "agent_config \<Rightarrow> string \<Rightarrow> bool" where
  "owns_path a f \<longleftrightarrow> (\<exists>d \<in> set (ac_owns a). startswith f (normalized_dir d))"

definition prefix_free :: "(string \<times> agent_id) list \<Rightarrow> bool" where
  "prefix_free ds = sorted_wrt (\<lambda>x y. \<not> startswith (fst x) (fst y) \<and> \<not> startswith (fst y) (fst x)) ds"

lemma prefix_free_snoc:
  "prefix_free (ds @ [x]) \<longleftrightarrow> prefix_free ds \<and> (\<forall>y \<in> set ds. \<not> startswith (fst x) (fst y) \<and> \<not> startswith (fst y) (fst x))"
  by (auto simp: prefix_free_def sorted_wrt_append)

lemma startswith_comparable: "startswith f p \<Longrightarrow> startswith f q \<Longrightarrow> startswith p q \<or> startswith q p"
  by (metis append_eq_append_conv2 startswith_iff)

lemma check_dirs_sound:
  "check_dirs all_dirs a ds = Inr r \<Longrightarrow> prefix_free all_dirs \<Longrightarrow>
     r = all_dirs @ map (\<lambda>d. (normalized_dir d, a)) ds \<and> prefix_free r"
proof (induction ds arbitrary: all_dirs)
  case (Cons d ds)
  let ?n = "normalized_dir d"
  have none: "find (\<lambda>(ex, _). startswith ?n ex \<or> startswith ex ?n) all_dirs = None"
    using Cons.prems(1) by (auto simp: Let_def split: option.splits)
  then have "prefix_free (all_dirs @ [(?n, a)])"
    using Cons.prems(2) by (auto simp: prefix_free_snoc find_None_iff)
  moreover have "check_dirs (all_dirs @ [(?n, a)]) a ds = Inr r" using Cons.prems(1) none by (simp add: Let_def)
  ultimately show ?case using Cons.IH by fastforce
qed simp

lemma check_ownership_sound:
  "check_ownership all_dirs as = None \<Longrightarrow> prefix_free all_dirs \<Longrightarrow>
     prefix_free (all_dirs @ concat (map (\<lambda>a. map (\<lambda>d. (normalized_dir d, ac_id a)) (ac_owns a)) as))"
proof (induction as arbitrary: all_dirs)
  case (Cons a as)
  then obtain r where r: "check_dirs all_dirs (ac_id a) (ac_owns a) = Inr r" by (auto split: sum.splits)
  then have "prefix_free r" "r = all_dirs @ map (\<lambda>d. (normalized_dir d, ac_id a)) (ac_owns a)"
    using check_dirs_sound [OF r Cons.prems(2)] by auto
  then show ?case using Cons.IH [of r] Cons.prems(1) r by simp
qed simp

lemma check_ids_sound: "check_ids seen as = None \<Longrightarrow> distinct (map ac_id as) \<and> set seen \<inter> ac_id ` set as = {}"
proof (induction as arbitrary: seen)
  case (Cons a as)
  then show ?case by (auto split: if_splits dest!: Cons.IH)
qed simp

lemma prefix_free_unique:
  assumes "prefix_free ds" "(p, a) \<in> set ds" "(q, b) \<in> set ds" "startswith f p" "startswith f q"
  shows "(p, a) = (q, b)"
proof -
  obtain i j where ij: "i < length ds" "ds ! i = (p, a)" "j < length ds" "ds ! j = (q, b)"
    using assms(2,3) by (auto simp: in_set_conv_nth)
  have "i = j"
  proof (rule ccontr)
    assume "i \<noteq> j"
    then consider "i < j" | "j < i" by linarith
    then show False
      using startswith_comparable [OF assms(4,5)] assms(1) ij
      by cases (metis (no_types, lifting) fst_conv prefix_free_def sorted_wrt_iff_nth_less)+
  qed
  then show ?thesis using ij by simp
qed

text \<open>A valid project gives every path at most one owner.\<close>

lemma single_owner:
  assumes "validate_project_constraints p = Inr p" "a \<in> set (pc_agents p)" "b \<in> set (pc_agents p)"
    and "owns_path a f" "owns_path b f"
  shows "a = b"
proof -
  let ?ds = "concat (map (\<lambda>a. map (\<lambda>d. (normalized_dir d, ac_id a)) (ac_owns a)) (pc_agents p))"
  have "check_ids [] (pc_agents p) = None" "check_ownership [] (pc_agents p) = None"
    using assms(1) by (auto simp: validate_project_constraints_def split: option.splits)
  then have d: "distinct (map ac_id (pc_agents p))" and pf: "prefix_free ?ds"
    using check_ids_sound check_ownership_sound [of "[]"] by (auto simp: prefix_free_def)
  obtain x y where x: "x \<in> set (ac_owns a)" "startswith f (normalized_dir x)"
    and y: "y \<in> set (ac_owns b)" "startswith f (normalized_dir y)"
    using assms(4,5) by (auto simp: owns_path_def)
  have "(normalized_dir x, ac_id a) \<in> set ?ds" "(normalized_dir y, ac_id b) \<in> set ?ds"
    using x(1) y(1) assms(2,3) by auto
  then have "ac_id a = ac_id b" using prefix_free_unique [OF pf _ _ x(2) y(2)] by blast
  then show ?thesis using d assms(2,3) by (simp add: distinct_map inj_on_def)
qed

end
