(* ===== verification/Strategist.thy ===== *)
theory Strategist
  imports Py_String Py_Json
begin

text \<open>
  The project manager's questions: the heuristic confidence scorer
  (\<open>strategist/confidence.py\<close>), the decision records (\<open>strategist/models.py\<close>), the
  evaluation of a question (\<open>strategist/pm.py\<close>) and the decision log
  (\<open>strategist/decision_log.py\<close>).

  Scores are rationals. The contents of the project's files, Pydantic's validation of a log
  entry, and what becomes of the call of the Claude command line are arguments; the prompt
  of that call and the embed posted to Discord are left out.
\<close>

section \<open>Confidence\<close>

definition STOPWORDS :: "string list" where
  "STOPWORDS =
     [''a'', ''an'', ''the'', ''is'', ''are'', ''was'', ''were'', ''be'', ''been'', ''being'', ''have'', ''has'',
      ''had'', ''do'', ''does'', ''did'', ''will'', ''would'', ''could'', ''should'', ''may'', ''might'', ''shall'',
      ''can'', ''need'', ''dare'', ''ought'', ''used'', ''to'', ''of'', ''in'', ''for'', ''on'', ''with'', ''at'',
      ''by'', ''from'', ''as'', ''into'', ''through'', ''during'', ''before'', ''after'', ''above'', ''below'',
      ''between'', ''out'', ''off'', ''over'', ''under'', ''again'', ''further'', ''then'', ''once'', ''here'',
      ''there'', ''when'', ''where'', ''why'', ''how'', ''all'', ''both'', ''each'', ''few'', ''more'', ''most'',
      ''other'', ''some'', ''such'', ''no'', ''nor'', ''not'', ''only'', ''own'', ''same'', ''so'', ''than'',
      ''too'', ''very'', ''just'', ''because'', ''but'', ''and'', ''or'', ''if'', ''while'', ''about'', ''against'',
      ''up'', ''down'', ''it'', ''its'', ''this'', ''that'', ''these'', ''those'', ''i'', ''me'', ''my'', ''we'',
      ''our'', ''you'', ''your'', ''he'', ''him'', ''his'', ''she'', ''her'', ''they'', ''them'', ''their'',
      ''what'', ''which'', ''who'', ''whom'']"

datatype confidence_level = HIGH | MEDIUM | LOW

record confidence_result =
  cf_score :: rat
  cf_level :: confidence_level
  cf_coverage :: rat
  cf_prior_match :: rat

record decision_log_entry =
  dl_timestamp :: string
  dl_question_or_plan :: string
  dl_decision :: string
  dl_confidence_level :: string
  dl_decided_by :: string
  dl_agent_id :: agent_id

definition extract_keywords :: "string \<Rightarrow> string list" where
  "extract_keywords text = filter (\<lambda>w. w \<notin> set STOPWORDS \<and> length w > 1) (py_split (py_lower text))"

definition check_context_coverage :: "string \<Rightarrow> (string, string) dict \<Rightarrow> rat" where
  "check_context_coverage question docs =
     (let keywords = extract_keywords question in
      if keywords = [] then 0
      else
        (let all_context = py_lower (intercalate '' '' (dict_values docs)) in
         of_nat (length (filter (\<lambda>kw. py_contains kw all_context) keywords)) / of_nat (length keywords)))"

definition jaccard :: "string set \<Rightarrow> string set \<Rightarrow> rat" where
  "jaccard a b = of_nat (card (a \<inter> b)) / of_nat (card (a \<union> b))"

fun max_similarity :: "string set \<Rightarrow> rat \<Rightarrow> decision_log_entry list \<Rightarrow> rat" where
  "max_similarity q best [] = best"
| "max_similarity q best (e # es) =
     (let w = set (extract_keywords (dl_question_or_plan e)) in
      if w = {} then max_similarity q best es else max_similarity q (max best (jaccard q w)) es)"

definition check_prior_decisions :: "string \<Rightarrow> decision_log_entry list \<Rightarrow> rat" where
  "check_prior_decisions question entries =
     (if entries = [] then 0
      else
        (let q = set (extract_keywords question) in
         if q = {} then 0 else max_similarity q 0 entries))"

definition confidence_of :: "rat \<Rightarrow> confidence_level" where
  "confidence_of raw = (if raw > 9/10 then HIGH else if raw \<ge> 6/10 then MEDIUM else LOW)"

definition score :: "string \<Rightarrow> (string, string) dict \<Rightarrow> decision_log_entry list \<Rightarrow> confidence_result" where
  "score question docs entries =
     (let coverage = check_context_coverage question docs;
          prior = check_prior_decisions question entries;
          raw = coverage * (6/10) + prior * (4/10) in
      \<lparr>cf_score = raw, cf_level = confidence_of raw, cf_coverage = coverage, cf_prior_match = prior\<rparr>)"

section \<open>The manager\<close>

record pm_decision =
  pd_answer :: "string option"
  pd_confidence :: confidence_result
  pd_decided_by :: string
  pd_note :: string
  pd_escalate_to :: "string option"

definition CONTEXT_FILES :: "string list" where
  "CONTEXT_FILES = [''PROJECT-BLUEPRINT.md'', ''INTERFACES.md'', ''MILESTONE-SCOPE.md'', ''PROJECT-STATUS.md'']"

definition load_context_docs :: "(string \<Rightarrow> string option) \<Rightarrow> (string, string) dict" where
  "load_context_docs files =
     concat (map (\<lambda>f. case files f of None \<Rightarrow> [] | Some content \<Rightarrow> [(f, content)]) CONTEXT_FILES)"

definition parse_entry :: "decision_log_entry model_class \<Rightarrow> string \<Rightarrow> decision_log_entry list" where
  "parse_entry M line =
     (let line = py_strip line in
      if line = [] then []
      else (case Option.bind (loads line) (model_validate M) of None \<Rightarrow> [] | Some e \<Rightarrow> [e]))"

definition load_decision_log :: "decision_log_entry model_class \<Rightarrow> string option \<Rightarrow> decision_log_entry list" where
  "load_decision_log M file =
     (case file of None \<Rightarrow> [] | Some text \<Rightarrow> concat (map (parse_entry M) (py_splitlines (universal_newlines text))))"

text \<open>What becomes of the call: no context or process, or an exit code with an output.\<close>

datatype pm_call = CallFailed | Exited int string

definition PM_FALLBACK :: string where
  "PM_FALLBACK = ''PM was unable to generate an answer. Escalating.''"

definition answer_directly :: "pm_call \<Rightarrow> json" where
  "answer_directly call =
     (case call of
        CallFailed \<Rightarrow> JStr PM_FALLBACK
      | Exited rc out \<Rightarrow>
          if rc \<noteq> 0 then JStr PM_FALLBACK
          else (case loads out of
                  Some (JObj kvs) \<Rightarrow> (case dict_get kvs ''result'' of Some j \<Rightarrow> j | None \<Rightarrow> JStr PM_FALLBACK)
                | _ \<Rightarrow> JStr PM_FALLBACK))"

definition evaluate_question :: "decision_log_entry model_class \<Rightarrow> (string \<Rightarrow> string option) \<Rightarrow> string option \<Rightarrow> pm_call
    \<Rightarrow> string \<Rightarrow> py_error + pm_decision" where
  "evaluate_question M files ledger call question =
     (let docs = load_context_docs files;
          confidence = score question docs (load_decision_log M ledger);
          has_context = list_ex (\<lambda>v. py_strip v \<noteq> []) (dict_values docs);
          confidence = (if cf_level confidence = LOW \<and> has_context
                        then confidence\<lparr>cf_score := 6/10, cf_level := MEDIUM\<rparr> else confidence) in
      if cf_level confidence = LOW
      then Inr \<lparr>pd_answer = None, pd_confidence = confidence, pd_decided_by = ''PM'', pd_note = [],
                pd_escalate_to = Some ''strategist''\<rparr>
      else (case as_optional_str (answer_directly call) of
              None \<Rightarrow> Inl ValidationError
            | Some answer \<Rightarrow>
                Inr \<lparr>pd_answer = answer, pd_confidence = confidence, pd_decided_by = ''PM'',
                     pd_note = (if cf_level confidence = MEDIUM then ''PM confidence: medium -- @Owner can override'' else []),
                     pd_escalate_to = None\<rparr>))"

section \<open>The decision log\<close>

text \<open>The file, and the decisions that were announced in the channel if there is one.\<close>

record decision_logger =
  dg_file :: "string option"
  dg_has_channel :: bool
  dg_posted :: "(string \<times> string \<times> string \<times> string) list"

definition append_to_file :: "(decision_log_entry \<Rightarrow> string) \<Rightarrow> decision_log_entry \<Rightarrow> decision_logger \<Rightarrow> decision_logger" where
  "append_to_file dump e g =
     g\<lparr>dg_file := Some ((case dg_file g of None \<Rightarrow> [] | Some t \<Rightarrow> t) @ dump e @ [CHR 0x0A])\<rparr>"

definition post_to_channel :: "decision_log_entry \<Rightarrow> decision_logger \<Rightarrow> decision_logger" where
  "post_to_channel e g =
     (if \<not> dg_has_channel g then g
      else g\<lparr>dg_posted := dg_posted g @ [(dl_decided_by e @ '' Decision'', dl_agent_id e, dl_confidence_level e,
        if length (dl_decision e) > 200 then take 200 (dl_decision e) @ ''...'' else dl_decision e)]\<rparr>)"

definition log_decision :: "(decision_log_entry \<Rightarrow> string) \<Rightarrow> decision_log_entry \<Rightarrow> decision_logger \<Rightarrow> decision_logger" where
  "log_decision dump e g = post_to_channel e (append_to_file dump e g)"

definition load_decisions :: "decision_log_entry model_class \<Rightarrow> decision_logger \<Rightarrow> decision_log_entry list" where
  "load_decisions M g =
     (case dg_file g of
        None \<Rightarrow> []
      | Some text \<Rightarrow> concat (map (parse_entry M) (py_split_on [CHR 0x0A] (py_strip (universal_newlines text)))))"

section \<open>Scores\<close>

lemma jaccard_bounds: "0 \<le> jaccard a b" "finite a \<Longrightarrow> finite b \<Longrightarrow> jaccard a b \<le> 1"
proof -
  show "0 \<le> jaccard a b" by (simp add: jaccard_def)
  assume f: "finite a" "finite b"
  have "card (a \<inter> b) \<le> card (a \<union> b)" using f by (intro card_mono) auto
  then have "(of_nat (card (a \<inter> b)) :: rat) \<le> of_nat (card (a \<union> b))" by (simp only: of_nat_le_iff)
  then show "jaccard a b \<le> 1" unfolding jaccard_def by (intro divide_le_eq_1 [THEN iffD2]) linarith
qed

lemma jaccard_eq_1:
  assumes "finite a" "finite b" "a \<noteq> {}"
  shows "jaccard a b = 1 \<longleftrightarrow> a = b"
proof
  assume "jaccard a b = 1"
  moreover have "card (a \<union> b) \<noteq> 0" using assms by simp
  ultimately have "card (a \<inter> b) = card (a \<union> b)" by (simp add: jaccard_def)
  then have "a \<inter> b = a \<union> b" using assms(1,2) by (intro card_subset_eq) auto
  then show "a = b" by blast
qed (use assms in \<open>simp add: jaccard_def\<close>)

lemma max_similarity_spec:
  assumes "finite q" "q \<noteq> {}" "0 \<le> best" "best \<le> 1"
  shows "0 \<le> max_similarity q best es \<and> max_similarity q best es \<le> 1
    \<and> (max_similarity q best es = 1 \<longleftrightarrow> best = 1 \<or> (\<exists>e \<in> set es. set (extract_keywords (dl_question_or_plan e)) = q))"
  using assms(3,4)
proof (induction es arbitrary: best)
  case (Cons e es)
  let ?w = "set (extract_keywords (dl_question_or_plan e))"
  show ?case
  proof (cases "?w = {}")
    case True
    then show ?thesis using Cons assms(2) by (auto simp: Let_def)
  next
    case False
    have b: "0 \<le> max best (jaccard q ?w)" "max best (jaccard q ?w) \<le> 1"
      using Cons.prems jaccard_bounds(2) [of q ?w] assms(1) by auto
    have "max best (jaccard q ?w) = 1 \<longleftrightarrow> best = 1 \<or> ?w = q"
      using jaccard_eq_1 [of q ?w] jaccard_bounds(2) [of q ?w] assms(1,2) Cons.prems(2) by (auto simp: max_def)
    then show ?thesis using Cons.IH [OF b] False by (auto simp: Let_def)
  qed
qed simp

lemma prior_bounds:
  "0 \<le> check_prior_decisions q es \<and> check_prior_decisions q es \<le> 1
    \<and> (check_prior_decisions q es = 1 \<longleftrightarrow> extract_keywords q \<noteq> [] \<and>
        (\<exists>e \<in> set es. set (extract_keywords (dl_question_or_plan e)) = set (extract_keywords q)))"
  using max_similarity_spec [of "set (extract_keywords q)" 0 es] by (auto simp: check_prior_decisions_def Let_def)

lemma coverage_bounds:
  "0 \<le> check_context_coverage q docs \<and> check_context_coverage q docs \<le> 1
    \<and> (check_context_coverage q docs = 1 \<longleftrightarrow> extract_keywords q \<noteq> [] \<and>
        (\<forall>kw \<in> set (extract_keywords q). py_contains kw (py_lower (intercalate '' '' (dict_values docs)))))"
proof (cases "extract_keywords q = []")
  case False
  let ?P = "\<lambda>kw. py_contains kw (py_lower (intercalate '' '' (dict_values docs)))"
  let ?ks = "extract_keywords q"
  have eq: "check_context_coverage q docs = of_nat (length (filter ?P ?ks)) / of_nat (length ?ks)"
    using False by (simp add: check_context_coverage_def Let_def)
  have le: "length (filter ?P ?ks) \<le> length ?ks" by simp
  then have "(of_nat (length (filter ?P ?ks)) :: rat) \<le> of_nat (length ?ks)" by (simp only: of_nat_le_iff)
  moreover have "(of_nat (length (filter ?P ?ks)) :: rat) / of_nat (length ?ks) = 1 \<longleftrightarrow> length (filter ?P ?ks) = length ?ks"
    using False by auto
  moreover have "length (filter ?P ?ks) = length ?ks \<longleftrightarrow> (\<forall>kw \<in> set ?ks. ?P kw)"
    using le length_filter_less [of _ ?ks ?P] by (metis filter_True nat_less_le)
  ultimately show ?thesis using False unfolding eq by (simp add: divide_le_eq_1)
qed (simp add: check_context_coverage_def)

text \<open>
  The confidence of the manager is a proper score. Coverage, prior match and score lie
  between 0 and 1; coverage is 1 exactly when the question has keywords and every one of
  them occurs in the project's documents; the prior match is 1 exactly when a decision with
  the same keywords was logged; and confidence is high only when the coverage is more than
  5/6, so that no precedent makes up for missing context.
\<close>

theorem confidence_is_proper:
  "let r = score q docs es in
     0 \<le> cf_coverage r \<and> cf_coverage r \<le> 1 \<and> 0 \<le> cf_prior_match r \<and> cf_prior_match r \<le> 1 \<and> 0 \<le> cf_score r \<and> cf_score r \<le> 1
     \<and> (cf_coverage r = 1 \<longleftrightarrow> extract_keywords q \<noteq> [] \<and>
          (\<forall>kw \<in> set (extract_keywords q). py_contains kw (py_lower (intercalate '' '' (dict_values docs)))))
     \<and> (cf_prior_match r = 1 \<longleftrightarrow> extract_keywords q \<noteq> [] \<and>
          (\<exists>e \<in> set es. set (extract_keywords (dl_question_or_plan e)) = set (extract_keywords q)))
     \<and> (cf_level r = HIGH \<longrightarrow> cf_coverage r > 5/6)"
proof -
  let ?c = "check_context_coverage q docs" and ?p = "check_prior_decisions q es"
  have b: "0 \<le> ?c" "?c \<le> 1" "0 \<le> ?p" "?p \<le> 1" using coverage_bounds prior_bounds by blast+
  have "0 \<le> ?c * (6/10) + ?p * (4/10)" "?c * (6/10) + ?p * (4/10) \<le> 1" using b by simp_all
  moreover have "confidence_of (?c * (6/10) + ?p * (4/10)) = HIGH \<longrightarrow> ?c > 5/6"
    using b by (auto simp: confidence_of_def split: if_splits)
  ultimately show ?thesis
    using coverage_bounds [of q docs] prior_bounds [of q es] by (simp add: score_def Let_def)
qed

lemmas evaluate_text = py_lower_def lower_char_def py_split_def py_space_def STOPWORDS_def startswith_def Let_def

lemma demo_keywords: "extract_keywords ''the rest'' = [''rest'']"
  by (simp add: extract_keywords_def evaluate_text)

theorem confidence_is_proper_witness:
  "let r = score ''the rest'' [(''b'', ''a rest service'')] [] in cf_coverage r = 1 \<and> cf_prior_match r \<le> 1"
proof -
  have "py_contains ''rest'' (py_lower (intercalate '' '' (dict_values [(''b'', ''a rest service'')])))"
    by (simp add: evaluate_text)
  then show ?thesis
    using confidence_is_proper [of "''the rest''" "[(''b'', ''a rest service'')]" "[]"] unfolding demo_keywords Let_def by simp
qed

section \<open>Escalation\<close>

lemma py_contains_set: "py_contains sub s \<Longrightarrow> set sub \<subseteq> set s"
proof (induction s)
  case (Cons c s)
  then consider "py_contains sub s" | r where "c # s = sub @ r" by (auto simp: startswith_iff)
  then show ?case
  proof cases
    case 2
    then have "set (c # s) = set (sub @ r)" by (simp only:)
    then show ?thesis by auto
  qed (use Cons.IH in auto)
qed simp

lemma split_ws_words: "w \<in> set (split_ws acc s) \<Longrightarrow> \<forall>c \<in> set acc. \<not> py_space c \<Longrightarrow> w \<noteq> [] \<and> (\<forall>c \<in> set w. \<not> py_space c)"
  by (induction acc s rule: split_ws.induct) (auto split: if_splits)

lemma keyword_shape: "kw \<in> set (extract_keywords q) \<Longrightarrow> kw \<noteq> [] \<and> (\<forall>c \<in> set kw. \<not> py_space c)"
  using split_ws_words [of kw "[]"] by (auto simp: extract_keywords_def py_split_def)

lemma strip_blank: "strip_with P s = [] \<longleftrightarrow> (\<forall>c \<in> set s. P c)"
  by (auto simp: strip_with_def dropWhile_eq_Nil_conv dest: set_dropWhileD)
    (metis dropWhile_eq_Nil_conv hd_dropWhile hd_in_set)

lemma space_lower: "py_space c \<Longrightarrow> py_space (lower_char c)"
  by (auto simp: py_space_def lower_char_def Let_def)

lemma intercalate_set: "set (intercalate sep xs) \<subseteq> set sep \<union> \<Union> (set ` set xs)"
  by (induction sep xs rule: intercalate.induct) auto

lemma no_coverage:
  assumes "\<forall>v \<in> set (dict_values docs). py_strip v = []"
  shows "check_context_coverage q docs = 0"
proof -
  let ?s = "py_lower (intercalate '' '' (dict_values docs))"
  have "\<forall>c \<in> set (intercalate '' '' (dict_values docs)). py_space c"
  proof
    fix c assume "c \<in> set (intercalate '' '' (dict_values docs))"
    then have "c = CHR '' '' \<or> (\<exists>v \<in> set (dict_values docs). c \<in> set v)"
      using intercalate_set [of "'' ''" "dict_values docs"] by auto
    then show "py_space c" using assms by (auto simp: strip_blank) (simp add: py_space_def)
  qed
  then have "\<forall>c \<in> set ?s. py_space c" using space_lower by (auto simp: py_lower_def)
  then have "\<not> py_contains kw ?s" if "kw \<in> set (extract_keywords q)" for kw
    using keyword_shape [OF that] py_contains_set [of kw ?s] by (cases kw) auto
  then have "filter (\<lambda>kw. py_contains kw ?s) (extract_keywords q) = []" by (simp add: filter_empty_conv)
  then show ?thesis by (simp add: check_context_coverage_def Let_def)
qed

text \<open>
  The manager escalates exactly when it knows nothing of the project: the evaluation of
  a question is handed to the strategist if and only if every context file is missing or
  blank, whatever the question, the log of decisions and the state of the command line;
  in every other case the manager itself answers with at least medium confidence, or the
  answer of the command line is not a text.
\<close>

theorem manager_escalates_without_context:
  "let blank = (\<forall>f \<in> set CONTEXT_FILES. \<forall>t. files f = Some t \<longrightarrow> py_strip t = []);
       r = evaluate_question M files ledger call q;
       answer = as_optional_str (answer_directly call)
   in if blank then \<exists>d. r = Inr d \<and> pd_escalate_to d = Some ''strategist'' \<and> pd_answer d = None
      else if answer = None then r = Inl ValidationError
      else \<exists>d. r = Inr d \<and> pd_escalate_to d = None \<and> Some (pd_answer d) = answer \<and> cf_level (pd_confidence d) \<noteq> LOW"
proof -
  let ?docs = "load_context_docs files"
  let ?r = "score q ?docs (load_decision_log M ledger)"
  let ?blank = "\<forall>f \<in> set CONTEXT_FILES. \<forall>t. files f = Some t \<longrightarrow> py_strip t = []"
  have vals: "set (dict_values ?docs) = {t. \<exists>f \<in> set CONTEXT_FILES. files f = Some t}"
    by (force simp: load_context_docs_def split: option.splits)
  have ctx: "list_ex (\<lambda>v. py_strip v \<noteq> []) (dict_values ?docs) \<longleftrightarrow> \<not> ?blank"
    unfolding list_ex_iff vals by blast
  have low: "cf_level ?r = LOW" if ?blank
  proof -
    have "check_context_coverage q ?docs = 0" by (rule no_coverage) (use that vals in blast)
    moreover have "check_prior_decisions q (load_decision_log M ledger) \<le> 1" using prior_bounds by blast
    ultimately show ?thesis by (simp add: score_def confidence_of_def Let_def)
  qed
  show ?thesis
  proof (cases ?blank)
    case True
    with low ctx show ?thesis by (simp add: evaluate_question_def Let_def)
  next
    case False
    with ctx show ?thesis
      by (cases "as_optional_str (answer_directly call)") (simp_all add: evaluate_question_def Let_def)
  qed
qed

theorem manager_escalates_without_context_witness:
  "\<exists>d. evaluate_question \<lparr>model_dump = \<lambda>e. JNull, model_validate = \<lambda>j. None\<rparr>
       (\<lambda>f. if f = ''INTERFACES.md'' then Some '' '' else None) None CallFailed ''why'' = Inr d
     \<and> pd_escalate_to d = Some ''strategist''"
proof -
  have "\<forall>f \<in> set CONTEXT_FILES. \<forall>t. (if f = ''INTERFACES.md'' then Some '' '' else None) = Some t \<longrightarrow> py_strip t = []"
    by (auto simp: strip_with_def py_space_def split: if_splits)
  then show ?thesis
    using manager_escalates_without_context [of "\<lambda>f. if f = ''INTERFACES.md'' then Some '' '' else None"
      "\<lparr>model_dump = \<lambda>e. JNull, model_validate = \<lambda>j. None\<rparr>" None CallFailed "''why''"]
    by (auto simp: Let_def)
qed

section \<open>Reading the log back\<close>

lemma intercalate_last:
  "xs \<noteq> [] \<Longrightarrow> last xs \<noteq> [] \<Longrightarrow> intercalate sep xs \<noteq> [] \<and> last (intercalate sep xs) = last (last xs)"
  by (induction sep xs rule: intercalate.induct) auto

text \<open>
  What the manager reads of an entry: the entry, or whatever the pieces parse to when the
  text has a character at which \<open>splitlines\<close> breaks a line.
\<close>

definition read_by_manager :: "decision_log_entry model_class \<Rightarrow> (decision_log_entry \<Rightarrow> string) \<Rightarrow> decision_log_entry
    \<Rightarrow> decision_log_entry list" where
  "read_by_manager M dump e =
     (if list_ex line_break (dump e) then concat (map (parse_entry M) (py_splitlines (dump e))) else [e])"

text \<open>What the log relies on in the JSON text of an entry.\<close>

locale log_codec =
  fixes M :: "decision_log_entry model_class" and dump :: "decision_log_entry \<Rightarrow> string" and ok :: "decision_log_entry \<Rightarrow> bool"
  assumes parses: "ok e \<Longrightarrow> Option.bind (loads (dump e)) (model_validate M) = Some e"
    and one_line: "ok e \<Longrightarrow> CHR 0x0A \<notin> set (dump e) \<and> CHR 0x0D \<notin> set (dump e)"
    and tight: "ok e \<Longrightarrow> dump e \<noteq> [] \<and> \<not> py_space (hd (dump e)) \<and> \<not> py_space (last (dump e))"
begin

lemma parse_dump: "ok e \<Longrightarrow> parse_entry M (dump e) = [e]"
  using tight [of e] by (simp add: parse_entry_def strip_with_id parses Let_def)

lemma last_unbroken: "ok e \<Longrightarrow> \<not> line_break (last (dump e))"
  using tight [of e] by (auto simp: line_break_def py_space_def)

lemma manager_reads:
  "\<forall>e \<in> set es. ok e \<Longrightarrow> concat (map (parse_entry M) (py_splitlines (concat (map (\<lambda>e. dump e @ [CHR 0x0A]) es))))
     = concat (map (read_by_manager M dump) es)"
proof (induction es)
  case (Cons e es)
  have "split_lines [] (dump e) = [dump e]" if "\<not> list_ex line_break (dump e)"
    using that tight [of e] Cons.prems split_lines_unbroken [of "dump e" "[]"] by (auto simp: list_ex_iff)
  then have "concat (map (parse_entry M) (split_lines [] (dump e))) = read_by_manager M dump e"
    using Cons.prems parse_dump by (auto simp: read_by_manager_def py_splitlines_def)
  with Cons split_lines_append [of "dump e" "[]"] last_unbroken [of e] tight [of e] one_line [of e] show ?case
    by (simp add: py_splitlines_def)
qed (simp add: py_splitlines_def)

lemma split_newlines:
  "es \<noteq> [] \<Longrightarrow> \<forall>e \<in> set es. ok e \<Longrightarrow> py_split_on [CHR 0x0A] (intercalate [CHR 0x0A] (map dump es)) = map dump es"
proof (induction es rule: list_nonempty_induct)
  case (single e)
  then have "CHR 0x0A \<notin> set (dump e)" using one_line [of e] by simp
  then have "\<not> py_contains [CHR 0x0A] (dump e)" using py_contains_set by fastforce
  then show ?case by (simp add: py_split_on_def split_on_none)
next
  case (cons e es)
  then have "CHR 0x0A \<notin> set (dump e)" using one_line [of e] by simp
  then have n: "\<not> py_contains [CHR 0x0A] (dump e)" using py_contains_set by fastforce
  obtain f fs where "es = f # fs" using cons.hyps by (cases es) auto
  then show ?case using py_split_on_prefix [OF refl _ n] cons by simp
qed

lemma strip_file:
  assumes "es \<noteq> []" "\<forall>e \<in> set es. ok e"
  shows "py_strip (concat (map (\<lambda>e. dump e @ [CHR 0x0A]) es)) = intercalate [CHR 0x0A] (map dump es)"
proof -
  let ?t = "intercalate [CHR 0x0A] (map dump es)"
  have t: "concat (map (\<lambda>e. dump e @ [CHR 0x0A]) es) = ?t @ [CHR 0x0A]"
    using assms(1) by (induction es rule: list_nonempty_induct) (simp, case_tac xs, auto)
  obtain e fs where es: "es = e # fs" using assms(1) by (cases es) auto
  have h: "?t \<noteq> []" "hd ?t = hd (dump e)" using tight [of e] assms(2) es by (cases fs; simp)+
  have l: "last ?t = last (dump (last es))"
    using intercalate_last [of "map dump es"] tight [of "last es"] assms by (simp add: last_map)
  have n: "\<not> py_space (hd ?t)" "\<not> py_space (last ?t)"
    using h(2) l tight [of e] tight [of "last es"] assms es by auto
  have "dropWhile py_space (?t @ [CHR 0x0A]) = ?t @ [CHR 0x0A]"
    using h(1) n(1) by (cases ?t) simp_all
  moreover have "dropWhile py_space (rev ?t) = rev ?t"
    using h(1) n(2) by (simp add: dropWhile_eq_self_iff hd_rev)
  moreover have "py_space (CHR 0x0A)" by (simp add: py_space_def)
  ultimately show ?thesis unfolding t by (simp add: strip_with_def)
qed

lemma logged_file:
  "dg_file (fold (log_decision dump) es g)
     = (if es = [] then dg_file g
        else Some ((case dg_file g of None \<Rightarrow> [] | Some t \<Rightarrow> t) @ concat (map (\<lambda>e. dump e @ [CHR 0x0A]) es)))"
  by (induction es arbitrary: g) (auto simp: log_decision_def post_to_channel_def append_to_file_def split: option.split)

lemma file_newlines:
  "\<forall>e \<in> set es. ok e \<Longrightarrow> universal_newlines (concat (map (\<lambda>e. dump e @ [CHR 0x0A]) es)) = concat (map (\<lambda>e. dump e @ [CHR 0x0A]) es)"
  using one_line by (intro universal_newlines_id) auto

lemma logger_reads:
  assumes "\<forall>e \<in> set es. ok e" "dg_file g = None"
  shows "load_decisions M (fold (log_decision dump) es g) = es"
proof (cases "es = []")
  case False
  have "concat (map (parse_entry M) (map dump es)) = es"
    using assms(1) parse_dump by (induction es) auto
  then show ?thesis
    using False assms by (simp add: load_decisions_def logged_file file_newlines strip_file split_newlines)
qed (simp add: load_decisions_def assms(2))

lemma log_read_back:
  assumes "\<forall>e \<in> set es. ok e" "dg_file g = None"
  shows "load_decisions M (fold (log_decision dump) es g) = es
    \<and> load_decision_log M (dg_file (fold (log_decision dump) es g)) = concat (map (read_by_manager M dump) es)"
  using logger_reads [OF assms] manager_reads [OF assms(1)] assms(2)
  by (simp add: load_decision_log_def logged_file file_newlines [OF assms(1)])

end

text \<open>An entry as a JSON object; every character of its text is printable.\<close>

definition decision_log_model :: "decision_log_entry model_class" where
  "decision_log_model =
     \<lparr>model_dump = (\<lambda>e. JObj [(''timestamp'', JStr (dl_timestamp e)), (''question_or_plan'', JStr (dl_question_or_plan e)),
        (''decision'', JStr (dl_decision e)), (''confidence_level'', JStr (dl_confidence_level e)),
        (''decided_by'', JStr (dl_decided_by e)), (''agent_id'', JStr (dl_agent_id e))]),
      model_validate = (\<lambda>j.
        Option.bind (json_field j ''timestamp'' as_str) (\<lambda>ts.
        Option.bind (json_field j ''question_or_plan'' as_str) (\<lambda>q.
        Option.bind (json_field j ''decision'' as_str) (\<lambda>d.
        Option.bind (json_field j ''confidence_level'' as_str) (\<lambda>l.
        Option.bind (json_field j ''decided_by'' as_str) (\<lambda>b.
        Option.bind (json_field j ''agent_id'' as_str) (\<lambda>a.
          Some \<lparr>dl_timestamp = ts, dl_question_or_plan = q, dl_decision = d, dl_confidence_level = l,
                dl_decided_by = b, dl_agent_id = a\<rparr>)))))))\<rparr>"

definition printable :: "string \<Rightarrow> bool" where
  "printable s \<longleftrightarrow> (\<forall>c \<in> set s. 32 \<le> (of_char c :: nat) \<and> (of_char c :: nat) \<le> 126)"

lemma printable_append [simp]: "printable (a @ b) \<longleftrightarrow> printable a \<and> printable b"
  by (auto simp: printable_def)

lemma printable_Cons [simp]: "printable (c # s) \<longleftrightarrow> 32 \<le> (of_char c :: nat) \<and> (of_char c :: nat) \<le> 126 \<and> printable s"
  by (auto simp: printable_def)

lemma printable_Nil [simp]: "printable []"
  by (simp add: printable_def)

lemma printable_esc: "printable (esc_char c)"
proof -
  have "(of_char (hex_char d) :: nat) = (if d < 10 then 48 + d else 87 + d)" if "d < 16" for d
    using that by (simp add: hex_char_def)
  moreover have "(of_char c :: nat) div 16 < 16" "(of_char c :: nat) mod 16 < 16"
    by (simp_all add: less_mult_imp_div_less)
  moreover have "(of_char c :: nat) mod 16 \<le> 39" by (rule order_trans [of _ 15]) simp_all
  ultimately show ?thesis by (simp add: esc_char_def Let_def)
qed

lemma printable_str: "printable (show_str s)"
proof -
  have "printable (concat (map esc_char s))" by (induction s) (simp_all add: printable_esc)
  then show ?thesis by (simp add: show_str_def)
qed

lemma printable_breaks: "printable s \<Longrightarrow> c \<in> set s \<Longrightarrow> \<not> line_break c"
  by (fastforce simp: printable_def line_break_def)

lemma printable_entry: "printable (dumps (model_dump decision_log_model e))"
  by (simp add: decision_log_model_def printable_str)

interpretation lc: log_codec decision_log_model "\<lambda>e. dumps (model_dump decision_log_model e)" "\<lambda>e. True"
proof (unfold_locales, goal_cases)
  case (1 e)
  have "wf_json (model_dump decision_log_model e)" by (simp add: decision_log_model_def)
  then have "loads (dumps (model_dump decision_log_model e)) = Some (model_dump decision_log_model e)" by (rule loads_dumps)
  then show ?case by (simp add: decision_log_model_def json_field_def)
next
  case (2 e)
  then show ?case using printable_breaks [OF printable_entry [of e], of "CHR 0x0A"] printable_breaks [OF printable_entry [of e], of "CHR 0x0D"]
    by (auto simp: line_break_def)
next
  case (3 e)
  then show ?case by (simp add: decision_log_model_def py_space_def)
qed

text \<open>
  C22. The decision log is read back whole by the logger. If the text of every entry parses
  to the entry, holds no line feed or carriage return and neither starts nor ends with
  white space, as JSON objects do, then after any sequence of decisions logged to a project
  without a log, with or without a channel, the logger reads back exactly those decisions
  in their order. The manager, which splits the file by \<open>splitlines\<close>, reads the same
  entries except those whose text holds one of the other characters at which Python breaks
  lines (such as U+0085, which JSON does not escape): of these it reads what the pieces
  parse to.
\<close>

theorem decision_log_roundtrip:
  assumes "\<And>e. e \<in> set es \<Longrightarrow> Option.bind (loads (dump e)) (model_validate M) = Some e"
    and "\<And>e. e \<in> set es \<Longrightarrow> CHR 0x0A \<notin> set (dump e) \<and> CHR 0x0D \<notin> set (dump e)"
    and "\<And>e. e \<in> set es \<Longrightarrow> dump e \<noteq> [] \<and> \<not> py_space (hd (dump e)) \<and> \<not> py_space (last (dump e))"
    and "dg_file g = None"
  shows "load_decisions M (fold (log_decision dump) es g) = es
    \<and> load_decision_log M (dg_file (fold (log_decision dump) es g))
        = concat (map (\<lambda>e. if list_ex line_break (dump e)
            then concat (map (parse_entry M) (py_splitlines (dump e))) else [e]) es)"
  using log_codec.log_read_back [where ok = "\<lambda>e. e \<in> set es" and M = M and dump = dump, OF log_codec.intro, OF assms(1-3)]
    assms(4) unfolding read_by_manager_def by simp

text \<open>
  A writer that escapes only what JSON requires, as \<open>model_dump_json\<close> does: the entry with
  U+0085 in its decision is read by the logger and not by the manager.
\<close>

definition raw_str :: "string \<Rightarrow> string" where
  "raw_str s = CHR 0x22 # concat (map (\<lambda>c. if 127 \<le> (of_char c :: nat) then [c] else esc_char c) s) @ [CHR 0x22]"

definition raw_dump :: "decision_log_entry \<Rightarrow> string" where
  "raw_dump e = ''{'' @ intercalate '','' (map (\<lambda>(k, v). raw_str k @ '':'' @ raw_str v)
     [(''timestamp'', dl_timestamp e), (''question_or_plan'', dl_question_or_plan e), (''decision'', dl_decision e),
      (''confidence_level'', dl_confidence_level e), (''decided_by'', dl_decided_by e), (''agent_id'', dl_agent_id e)]) @ ''}''"

definition demo_entry :: "string \<Rightarrow> decision_log_entry" where
  "demo_entry d = \<lparr>dl_timestamp = ''t'', dl_question_or_plan = ''q'', dl_decision = d, dl_confidence_level = ''HIGH'',
     dl_decided_by = ''PM'', dl_agent_id = ''a''\<rparr>"

lemma demo_entry_raw:
  "Option.bind (loads (raw_dump (demo_entry ''yes''))) (model_validate decision_log_model) = Some (demo_entry ''yes'')"
  "Option.bind (loads (raw_dump (demo_entry [CHR 0x85]))) (model_validate decision_log_model) = Some (demo_entry [CHR 0x85])"
  "concat (map (parse_entry decision_log_model) (py_splitlines (raw_dump (demo_entry [CHR 0x85])))) = []"
  "list_ex line_break (raw_dump (demo_entry [CHR 0x85]))" "\<not> list_ex line_break (raw_dump (demo_entry ''yes''))"
  by code_simp+

theorem decision_log_roundtrip_witness:
  "let es = [demo_entry ''yes'', demo_entry [CHR 0x85]];
       g = fold (log_decision raw_dump) es \<lparr>dg_file = None, dg_has_channel = False, dg_posted = []\<rparr>
   in load_decisions decision_log_model g = es \<and> load_decision_log decision_log_model (dg_file g) = [demo_entry ''yes'']"
proof -
  let ?es = "[demo_entry ''yes'', demo_entry [CHR 0x85]]"
  let ?g = "\<lparr>dg_file = None, dg_has_channel = False, dg_posted = []\<rparr>"
  have "list_all (\<lambda>e. CHR 0x0A \<notin> set (raw_dump e) \<and> CHR 0x0D \<notin> set (raw_dump e)) ?es"
    "list_all (\<lambda>e. raw_dump e \<noteq> [] \<and> \<not> py_space (hd (raw_dump e)) \<and> \<not> py_space (last (raw_dump e))) ?es"
    by (simp_all add: raw_dump_def demo_entry_def raw_str_def esc_char_def py_space_def)
  then have "load_decisions decision_log_model (fold (log_decision raw_dump) ?es ?g) = ?es
    \<and> load_decision_log decision_log_model (dg_file (fold (log_decision raw_dump) ?es ?g))
        = concat (map (\<lambda>e. if list_ex line_break (raw_dump e)
            then concat (map (parse_entry decision_log_model) (py_splitlines (raw_dump e))) else [e]) ?es)"
    by (intro decision_log_roundtrip) (auto simp: demo_entry_raw)
  then show ?thesis by (simp add: demo_entry_raw Let_def)
qed

end
