(* ===== verification/Plan_Review.thy ===== *)
theory Plan_Review
  imports Py_Value Project_Config Strategist
begin

text \<open>
  The review of a plan, \<open>strategist/plan_reviewer.py\<close>: the three checks of a plan's scope,
  dependencies and duplicates, and the verdict.

  The YAML parser is an argument: \<open>None\<close> is a \<open>YAMLError\<close>, and a parsed value is one of the
  JSON kinds. The two regular expressions are written as what they match. Whatever a check
  does with a value of an unexpected kind is the exception Python raises there.
\<close>

section \<open>The parts of a plan\<close>

text \<open>
  The rest of \<open>^---\s*\n(.*?)\n---\<close> after its opening dashes. The run of white space is
  matched greedily, so of its newlines the last one is tried first; the group then extends
  to the first closing line.
\<close>

fun match_frontmatter :: "string \<Rightarrow> string option" where
  "match_frontmatter [] = None"
| "match_frontmatter (c # s) =
     (if \<not> py_space c then None
      else (case match_frontmatter s of
              Some g \<Rightarrow> Some g
            | None \<Rightarrow> if c = CHR 0x0A then before_sub (CHR 0x0A # ''---'') s else None))"

definition extract_frontmatter :: "(string \<Rightarrow> json option) \<Rightarrow> string \<Rightarrow> json" where
  "extract_frontmatter yaml content =
     (if \<not> startswith content ''---'' then JObj []
      else (case match_frontmatter (drop 3 content) of
              None \<Rightarrow> JObj []
            | Some t \<Rightarrow>
                (case yaml t of
                   None \<Rightarrow> JObj []
                 | Some v \<Rightarrow> if json_truthy v then v else JObj [])))"

text \<open>
  \<open>re.search(r"<objective>\s*(.*?)\s*</objective>", content, re.DOTALL)\<close> and \<open>strip\<close>: the text
  between the first opening tag and the closing tag that follows it first.
\<close>

definition extract_objective :: "string \<Rightarrow> string" where
  "extract_objective content =
     (case Option.bind (after_sub ''<objective>'' content) (before_sub ''</objective>'') of
        None \<Rightarrow> []
      | Some g \<Rightarrow> py_strip g)"

section \<open>The checks\<close>

type_synonym check = "py_error + bool \<times> string"

definition STUB_KEYWORDS :: "string list" where
  "STUB_KEYWORDS = [''stub'', ''stubs'', ''mock'', ''mocks'', ''placeholder'']"

definition owned_dir :: "string \<Rightarrow> string" where
  "owned_dir d = (if d \<noteq> [] \<and> last d = CHR ''/'' then d else d @ ''/'')"

fun outside_files :: "string list \<Rightarrow> json list \<Rightarrow> py_error + json list" where
  "outside_files owned [] = Inr []"
| "outside_files owned (j # js) =
     (case (if owned = [] then Inr False
            else (case as_str j of
                    None \<Rightarrow> Inl (AttributeError ''startswith'')
                  | Some f \<Rightarrow> Inr (list_ex (startswith f) owned))) of
        Inl e \<Rightarrow> Inl e
      | Inr inside \<Rightarrow>
          (case outside_files owned js of Inl e \<Rightarrow> Inl e | Inr out \<Rightarrow> Inr (if inside then out else j # out)))"

definition scope_check :: "(string \<Rightarrow> json option) \<Rightarrow> project_config \<Rightarrow> agent_id \<Rightarrow> string \<Rightarrow> check" where
  "scope_check yaml cfg agent_id content =
     (case json_get (extract_frontmatter yaml content) ''files_modified'' (JArr []) of
        Inl e \<Rightarrow> Inl e
      | Inr files_modified \<Rightarrow>
          if \<not> json_truthy files_modified then Inr (True, ''No files modified'')
          else
            (case find (\<lambda>a. ac_id a = agent_id) (pc_agents cfg) of
               None \<Rightarrow> Inr (False, ''Agent '' @ agent_id @ '' not found in config'')
             | Some a \<Rightarrow>
                 (case json_iter files_modified of
                    None \<Rightarrow> Inl (TypeError ''not iterable'')
                  | Some files \<Rightarrow>
                      (case outside_files (map owned_dir (ac_owns a)) files of
                         Inl e \<Rightarrow> Inl e
                       | Inr [] \<Rightarrow> Inr (True, ''Scope aligned'')
                       | Inr (f # fs) \<Rightarrow>
                           (case join_strs (f # fs) of
                              Inl e \<Rightarrow> Inl e
                            | Inr t \<Rightarrow> Inr (False, ''Files outside owned dirs: '' @ t))))))"

definition dependency_check :: "(string \<Rightarrow> json option) \<Rightarrow> string option \<Rightarrow> string \<Rightarrow> check" where
  "dependency_check yaml status content =
     (case json_get (extract_frontmatter yaml content) ''depends_on'' (JArr []) of
        Inl e \<Rightarrow> Inl e
      | Inr depends_on \<Rightarrow>
          if \<not> json_truthy depends_on then Inr (True, ''No dependencies'')
          else
            (case status of
               None \<Rightarrow> Inr (False, ''PROJECT-STATUS.md not found'')
             | Some text \<Rightarrow>
                 (let s = py_lower text;
                      has_complete = (py_contains ''[x]'' s \<and> py_contains ''complete'' s);
                      has_incomplete = (py_contains ''[ ]'' s \<and> (py_contains ''executing'' s \<or> py_contains ''pending'' s)) in
                  if has_complete \<and> \<not> has_incomplete then Inr (True, ''Dependencies ready'')
                  else if has_incomplete then
                    (if list_ex (\<lambda>kw. py_contains kw (py_lower content)) STUB_KEYWORDS
                     then Inr (True, ''Dependencies incomplete but plan uses stubs/mocks'')
                     else (case json_iter depends_on of
                             None \<Rightarrow> Inl (TypeError ''join'')
                           | Some deps \<Rightarrow>
                               (case join_strs deps of
                                  Inl e \<Rightarrow> Inl e
                                | Inr t \<Rightarrow> Inr (False, ''Unmet dependencies: '' @ t))))
                  else Inr (True, ''Dependencies ready''))))"

text \<open>The share of common members of two lists read as sets; both are not empty.\<close>

definition set_overlap :: "'a list \<Rightarrow> 'a list \<Rightarrow> rat" where
  "set_overlap xs ys = of_nat (card (set xs \<inter> set ys)) / of_nat (card (set xs \<union> set ys))"

definition similar_objective :: "string \<Rightarrow> json \<Rightarrow> py_error + bool" where
  "similar_objective objective other =
     (if objective = [] \<or> \<not> json_truthy other then Inr False
      else (case as_str other of
              None \<Rightarrow> Inl (AttributeError ''lower'')
            | Some o' \<Rightarrow>
                (let w = py_split (py_lower objective); v = py_split (py_lower o') in
                 Inr (w \<noteq> [] \<and> v \<noteq> [] \<and> set_overlap w v > 7/10))))"

definition duplicate_line :: "agent_id \<Rightarrow> json list \<Rightarrow> string \<Rightarrow> json \<Rightarrow> py_error + string option" where
  "duplicate_line agent_id files objective approved =
     (case json_get approved ''agent_id'' JNull of
        Inl e \<Rightarrow> Inl e
      | Inr who \<Rightarrow>
          if who = JStr agent_id then Inr None
          else
            (case json_get approved ''files_modified'' (JArr []) of
               Inl e \<Rightarrow> Inl e
             | Inr fm \<Rightarrow>
                 (case json_set fm of
                    Inl e \<Rightarrow> Inl e
                  | Inr theirs \<Rightarrow>
                      (case json_get approved ''agent_id'' (JStr ''?'') of
                         Inl e \<Rightarrow> Inl e
                       | Inr named \<Rightarrow>
                           if files \<noteq> [] \<and> theirs \<noteq> [] \<and> set_overlap files theirs > 7/10
                           then Inr (Some (''Possible duplicate: >70% file overlap with approved plan from '' @ json_str named))
                           else
                             (case json_get approved ''objective'' (JStr []) of
                                Inl e \<Rightarrow> Inl e
                              | Inr obj \<Rightarrow>
                                  (case similar_objective objective obj of
                                     Inl e \<Rightarrow> Inl e
                                   | Inr b \<Rightarrow>
                                       Inr (if b
                                            then Some (''Possible duplicate: similar objective to approved plan from '' @ json_str named)
                                            else None)))))))"

fun duplicate_loop :: "agent_id \<Rightarrow> json list \<Rightarrow> string \<Rightarrow> string list \<Rightarrow> check" where
  "duplicate_loop agent_id files objective [] = Inr (True, ''No duplicates'')"
| "duplicate_loop agent_id files objective (l # ls) =
     (let line = py_strip l in
      if line = [] then duplicate_loop agent_id files objective ls
      else
        (case loads line of
           None \<Rightarrow> duplicate_loop agent_id files objective ls
         | Some approved \<Rightarrow>
             (case duplicate_line agent_id files objective approved of
                Inl e \<Rightarrow> Inl e
              | Inr (Some msg) \<Rightarrow> Inr (False, msg)
              | Inr None \<Rightarrow> duplicate_loop agent_id files objective ls)))"

definition duplicate_check :: "(string \<Rightarrow> json option) \<Rightarrow> string option \<Rightarrow> agent_id \<Rightarrow> string \<Rightarrow> check" where
  "duplicate_check yaml approved_file agent_id content =
     (case approved_file of
        None \<Rightarrow> Inr (True, ''No approved plans to compare'')
      | Some text \<Rightarrow>
          (case json_get (extract_frontmatter yaml content) ''files_modified'' (JArr []) of
             Inl e \<Rightarrow> Inl e
           | Inr fm \<Rightarrow>
               (case json_set fm of
                  Inl e \<Rightarrow> Inl e
                | Inr plan_files \<Rightarrow>
                    (let objective = extract_objective content in
                     if plan_files = [] \<and> objective = [] then Inr (True, ''No files or objective to compare'')
                     else duplicate_loop agent_id plan_files objective (py_splitlines text)))))"

section \<open>The verdict\<close>

record plan_reviewer =
  pr_config :: project_config
  pr_status :: "string option"
  pr_approved :: "string option"

definition APPROVED :: string where
  "APPROVED = ''Plan approved by PM''"

definition verdict :: "(string \<times> bool \<times> string) list \<Rightarrow> pm_decision" where
  "verdict checks =
     (let failed = filter (\<lambda>(name, ok, msg). \<not> ok) checks in
      if failed = []
      then \<lparr>pd_answer = Some APPROVED,
            pd_confidence = \<lparr>cf_score = 95/100, cf_level = HIGH, cf_coverage = 95/100, cf_prior_match = 0\<rparr>,
            pd_decided_by = ''PM'', pd_note = [], pd_escalate_to = None\<rparr>
      else \<lparr>pd_answer = None,
            pd_confidence = \<lparr>cf_score = 4/10, cf_level = LOW, cf_coverage = 4/10, cf_prior_match = 0\<rparr>,
            pd_decided_by = ''PM'',
            pd_note = ''Failed checks: '' @ intercalate '', '' (map fst failed) @ ''. ''
              @ intercalate ''; '' (map (\<lambda>(name, ok, msg). name @ '': '' @ msg) failed),
            pd_escalate_to = Some ''strategist''\<rparr>)"

definition review_plan :: "(string \<Rightarrow> json option) \<Rightarrow> plan_reviewer \<Rightarrow> agent_id \<Rightarrow> string \<Rightarrow> py_error + pm_decision" where
  "review_plan yaml pr agent_id content =
     (case scope_check yaml (pr_config pr) agent_id content of
        Inl e \<Rightarrow> Inl e
      | Inr scope \<Rightarrow>
          (case dependency_check yaml (pr_status pr) content of
             Inl e \<Rightarrow> Inl e
           | Inr dep \<Rightarrow>
               (case duplicate_check yaml (pr_approved pr) agent_id content of
                  Inl e \<Rightarrow> Inl e
                | Inr dup \<Rightarrow>
                    Inr (verdict [(''scope'', scope), (''dependency'', dep), (''duplicate'', dup)]))))"

section \<open>Approved plans do not touch the same files\<close>

definition plan_files :: "(string \<Rightarrow> json option) \<Rightarrow> string \<Rightarrow> string list" where
  "plan_files yaml content =
     (case json_get (extract_frontmatter yaml content) ''files_modified'' (JArr []) of
        Inl e \<Rightarrow> []
      | Inr j \<Rightarrow> (case json_iter j of None \<Rightarrow> [] | Some js \<Rightarrow> List.map_filter as_str js))"

lemma startswith_trans: "startswith a b \<Longrightarrow> startswith b c \<Longrightarrow> startswith a c"
  by (auto simp: startswith_iff)

lemma rstrip_char_snoc: "py_rstrip_char c (s @ [d]) = (if d = c then py_rstrip_char c s else s @ [d])"
  by (simp add: py_rstrip_char_def)

lemma rstrip_char_split:
  "\<exists>k. s = py_rstrip_char c s @ replicate k c \<and> (k = 0 \<longrightarrow> s \<noteq> [] \<longrightarrow> last s \<noteq> c)"
proof (induction s rule: rev_induct)
  case (snoc d s)
  then obtain k where "s = py_rstrip_char c s @ replicate k c" by blast
  then have "s @ [c] = py_rstrip_char c s @ replicate (Suc k) c" by (metis append.assoc replicate_append_same replicate_Suc)
  then show ?case
    by (cases "d = c") (use rstrip_char_snoc [of c s d] in \<open>force simp del: replicate_Suc\<close>)+
qed (simp add: py_rstrip_char_def)

lemma owned_normalized: "startswith f (owned_dir d) \<Longrightarrow> startswith f (normalized_dir d)"
proof -
  obtain k where k: "d = py_rstrip_char (CHR ''/'') d @ replicate k (CHR ''/'')"
    "k = 0 \<longrightarrow> d \<noteq> [] \<longrightarrow> last d \<noteq> CHR ''/''" using rstrip_char_split by blast
  have "startswith (owned_dir d) (normalized_dir d)"
  proof (cases k)
    case 0
    then show ?thesis using k by (auto simp: owned_dir_def normalized_dir_def startswith_iff)
  next
    case (Suc n)
    then have "d = normalized_dir d @ replicate n (CHR ''/'')" using k(1) by (simp add: normalized_dir_def)
    then have "startswith d (normalized_dir d)" by (metis startswith_append)
    moreover have "startswith (owned_dir d) d" by (auto simp: owned_dir_def startswith_iff)
    ultimately show ?thesis by (metis startswith_trans)
  qed
  then show "startswith f (owned_dir d) \<Longrightarrow> startswith f (normalized_dir d)" by (rule startswith_trans [rotated])
qed

lemma outside_none:
  "outside_files owned js = Inr [] \<Longrightarrow> j \<in> set js \<Longrightarrow> as_str j = Some f \<Longrightarrow> \<exists>d \<in> set owned. startswith f d"
  by (induction js) (auto simp: list_ex_iff split: if_splits sum.splits)

lemma falsy_iter: "\<not> json_truthy j \<Longrightarrow> json_iter j = None \<or> json_iter j = Some []"
  by (cases j) auto

lemma scope_passed:
  assumes "scope_check yaml cfg agent content = Inr (True, msg)" "f \<in> set (plan_files yaml content)"
  shows "\<exists>a \<in> set (pc_agents cfg). ac_id a = agent \<and> owns_path a f"
proof -
  obtain j js where j: "json_get (extract_frontmatter yaml content) ''files_modified'' (JArr []) = Inr j"
    and js: "json_iter j = Some js" and "f \<in> set (List.map_filter as_str js)"
    using assms(2) by (cases "json_get (extract_frontmatter yaml content) ''files_modified'' (JArr [])")
      (auto simp: plan_files_def split: option.splits, metis)
  then have f: "\<exists>x \<in> set js. as_str x = Some f" by (auto simp: List.map_filter_def)
  have t: "json_truthy j" using js f falsy_iter [of j] by (cases "json_truthy j") auto
  obtain a where a: "find (\<lambda>a. ac_id a = agent) (pc_agents cfg) = Some a"
    and o: "outside_files (map owned_dir (ac_owns a)) js = Inr []"
    using assms(1) j js t by (auto simp: scope_check_def split: option.splits sum.splits list.splits)
  have "\<exists>d \<in> set (ac_owns a). startswith f (owned_dir d)" using outside_none [OF o] f by auto
  then have "owns_path a f" using owned_normalized by (auto simp: owns_path_def)
  moreover have "a \<in> set (pc_agents cfg)" "ac_id a = agent" using a by (auto simp: find_Some_iff in_set_conv_nth)
  ultimately show ?thesis by blast
qed

lemma review_approved:
  assumes "review_plan yaml pr agent content = Inr d" "pd_escalate_to d = None"
  shows "\<exists>msg. scope_check yaml (pr_config pr) agent content = Inr (True, msg)"
    and "\<exists>msg. dependency_check yaml (pr_status pr) content = Inr (True, msg)"
    and "\<exists>msg. duplicate_check yaml (pr_approved pr) agent content = Inr (True, msg)"
  using assms by (auto simp: review_plan_def verdict_def Let_def split: sum.splits if_splits)

text \<open>
  C4. Approved plans do not collide. In a project whose configuration passed its
  validators, whatever the state of the status file and of the list of approved plans at
  each review: when the manager approves a plan of one agent and a plan of another agent,
  no file is listed as modified in both; each of the files lies in a directory of the agent
  that may change it.
\<close>

theorem approved_plans_disjoint:
  assumes "validate_project cfg = Inr cfg"
    and "review_plan yaml p a plan = Inr d" "pr_config p = cfg" "pd_escalate_to d = None"
    and "review_plan yaml q b other = Inr e" "pr_config q = cfg" "pd_escalate_to e = None"
    and "a \<noteq> b"
  shows "set (plan_files yaml plan) \<inter> set (plan_files yaml other) = {}
    \<and> (\<forall>f \<in> set (plan_files yaml plan). \<exists>x \<in> set (pc_agents cfg). ac_id x = a \<and> owns_path x f)"
proof -
  have v: "validate_project_constraints cfg = Inr cfg"
    using assms(1) by (auto simp: validate_project_def split: option.splits)
  have A: "\<forall>f \<in> set (plan_files yaml plan). \<exists>x \<in> set (pc_agents cfg). ac_id x = a \<and> owns_path x f"
    using review_approved(1) [OF assms(2,4)] scope_passed assms(3) by metis
  have B: "\<forall>f \<in> set (plan_files yaml other). \<exists>x \<in> set (pc_agents cfg). ac_id x = b \<and> owns_path x f"
    using review_approved(1) [OF assms(5,7)] scope_passed assms(6) by metis
  have "f \<notin> set (plan_files yaml other)" if "f \<in> set (plan_files yaml plan)" for f
    using A B that single_owner [OF v] assms(8) by metis
  with A show ?thesis by blast
qed

text \<open>A project of two agents and a plan for each, with a parser that knows their frontmatter.\<close>

definition demo_agent :: "agent_id \<Rightarrow> string \<Rightarrow> agent_config" where
  "demo_agent a d = \<lparr>ac_id = a, ac_role = ''r'', ac_owns = [d], ac_consumes = ''c'', ac_gsd_mode = Full, ac_system_prompt = ''p'',
     ac_type = GsdKind, ac_transport = ''local'', ac_docker_image = None\<rparr>"

definition demo_project :: project_config where
  "demo_project = \<lparr>pc_project = ''p'', pc_repo = ''r'', pc_agents = [demo_agent ''x'' ''src/x'', demo_agent ''y'' ''src/y/''],
     pc_shared_readonly = []\<rparr>"

definition demo_yaml :: "string \<Rightarrow> json option" where
  "demo_yaml t = Some (JObj [(''files_modified'', JArr [JStr t])])"

definition demo_plan :: "string \<Rightarrow> string" where
  "demo_plan f = ''---'' @ [CHR 0x0A] @ f @ [CHR 0x0A] @ ''---''"

definition demo_reviewer :: plan_reviewer where
  "demo_reviewer = \<lparr>pr_config = demo_project, pr_status = None, pr_approved = None\<rparr>"

lemmas demo_defs = demo_project_def demo_agent_def demo_yaml_def demo_plan_def demo_reviewer_def

lemma demo_valid: "validate_project demo_project = Inr demo_project"
  by (simp add: demo_defs validate_project_def validate_agent_def id_must_be_alphanumeric_def owns_must_not_be_empty_def
      validate_project_constraints_def normalized_dir_def py_isalnum_def alnum_char_def py_replace_def py_split_on_def
      py_rstrip_char_def startswith_def Let_def)

lemma demo_frontmatter:
  "extract_frontmatter demo_yaml (demo_plan ''src/x/a'') = JObj [(''files_modified'', JArr [JStr ''src/x/a''])]"
  "extract_frontmatter demo_yaml (demo_plan ''src/y/b'') = JObj [(''files_modified'', JArr [JStr ''src/y/b''])]"
  by (simp_all add: extract_frontmatter_def demo_plan_def demo_yaml_def startswith_def py_space_def)

lemma demo_approved:
  "review_plan demo_yaml demo_reviewer ''x'' (demo_plan ''src/x/a'') = Inr (verdict [])"
  "review_plan demo_yaml demo_reviewer ''y'' (demo_plan ''src/y/b'') = Inr (verdict [])"
  by (simp_all add: review_plan_def scope_check_def dependency_check_def duplicate_check_def demo_frontmatter verdict_def
      demo_reviewer_def demo_project_def demo_agent_def owned_dir_def startswith_def)

theorem approved_plans_disjoint_witness:
  "plan_files demo_yaml (demo_plan ''src/x/a'') = [''src/x/a''] \<and>
   set (plan_files demo_yaml (demo_plan ''src/x/a'')) \<inter> set (plan_files demo_yaml (demo_plan ''src/y/b'')) = {}"
proof -
  have "pr_config demo_reviewer = demo_project" "pd_escalate_to (verdict []) = None"
    by (simp_all add: demo_reviewer_def verdict_def)
  then have "set (plan_files demo_yaml (demo_plan ''src/x/a'')) \<inter> set (plan_files demo_yaml (demo_plan ''src/y/b'')) = {}"
    using approved_plans_disjoint [OF demo_valid demo_approved(1) _ _ demo_approved(2)] by simp
  moreover have "plan_files demo_yaml (demo_plan ''src/x/a'') = [''src/x/a'']"
    by (simp add: plan_files_def demo_frontmatter List.map_filter_def)
  ultimately show ?thesis by blast
qed

section \<open>Well-typed plans are judged\<close>

text \<open>A field that is missing or a list of strings, and one that is missing or a string.\<close>

definition strs_field :: "(string, json) dict \<Rightarrow> string \<Rightarrow> bool" where
  "strs_field kvs k = (case dict_get kvs k of None \<Rightarrow> True | Some (JArr xs) \<Rightarrow> all_strs xs \<noteq> None | Some _ \<Rightarrow> False)"

definition str_field :: "(string, json) dict \<Rightarrow> string \<Rightarrow> bool" where
  "str_field kvs k = (case dict_get kvs k of None \<Rightarrow> True | Some j \<Rightarrow> as_str j \<noteq> None)"

definition typed_plan :: "json \<Rightarrow> bool" where
  "typed_plan j = (case j of JObj kvs \<Rightarrow> strs_field kvs ''files_modified'' \<and> strs_field kvs ''depends_on'' | _ \<Rightarrow> False)"

definition typed_approval :: "json \<Rightarrow> bool" where
  "typed_approval j = (case j of JObj kvs \<Rightarrow> strs_field kvs ''files_modified'' \<and> str_field kvs ''objective'' | _ \<Rightarrow> False)"

lemma strs_field_get:
  "strs_field kvs k \<Longrightarrow> \<exists>xs ss. json_get (JObj kvs) k (JArr []) = Inr (JArr xs) \<and> all_strs xs = Some ss"
  by (auto simp: strs_field_def split: option.splits json.splits)

lemma all_strs_hash: "all_strs xs = Some ss \<Longrightarrow> hash_keys xs = Inr (map JStr ss)"
proof (induction xs arbitrary: ss)
  case (Cons x xs)
  then show ?case by (cases x) auto
qed simp

lemma outside_typed: "all_strs xs = Some ss \<Longrightarrow> \<exists>out. outside_files owned xs = Inr out \<and> all_strs out \<noteq> None"
proof (induction xs arbitrary: ss)
  case (Cons x xs)
  then obtain s where x: "x = JStr s" by (cases x) auto
  obtain out where "outside_files owned xs = Inr out" "all_strs out \<noteq> None" using Cons x by auto
  then show ?case using x by auto
qed simp

lemma scope_typed: "typed_plan (extract_frontmatter yaml content) \<Longrightarrow> \<not> isl (scope_check yaml cfg a content)"
proof -
  assume "typed_plan (extract_frontmatter yaml content)"
  then obtain kvs where k: "extract_frontmatter yaml content = JObj kvs" "strs_field kvs ''files_modified''"
    by (auto simp: typed_plan_def split: json.splits)
  obtain xs ss where x: "json_get (JObj kvs) ''files_modified'' (JArr []) = Inr (JArr xs)" "all_strs xs = Some ss"
    using strs_field_get [OF k(2)] by blast
  show ?thesis
  proof (cases "find (\<lambda>a'. ac_id a' = a) (pc_agents cfg)")
    case (Some c)
    obtain out where "outside_files (map owned_dir (ac_owns c)) xs = Inr out" "all_strs out \<noteq> None"
      using outside_typed [OF x(2)] by blast
    then show ?thesis
      unfolding scope_check_def k(1) x(1) using Some by (cases out) (auto simp: join_strs_def)
  qed (simp add: scope_check_def k(1) x(1))
qed

lemma dependency_typed:
  assumes "typed_plan (extract_frontmatter yaml content)"
  shows "\<not> isl (dependency_check yaml status content)"
proof -
  obtain kvs where k: "extract_frontmatter yaml content = JObj kvs" "strs_field kvs ''depends_on''"
    using assms by (auto simp: typed_plan_def split: json.splits)
  obtain xs ss where x: "json_get (JObj kvs) ''depends_on'' (JArr []) = Inr (JArr xs)" "all_strs xs = Some ss"
    using strs_field_get [OF k(2)] by blast
  show ?thesis unfolding dependency_check_def k(1) x(1) using x(2)
    by (cases status) (simp_all add: join_strs_def Let_def)
qed

lemma duplicate_line_typed:
  assumes "typed_approval j"
  shows "\<exists>r. duplicate_line a files objective j = Inr r"
proof -
  obtain kvs where j: "j = JObj kvs" and k: "strs_field kvs ''files_modified''" and s: "str_field kvs ''objective''"
    using assms by (auto simp: typed_approval_def split: json.splits)
  obtain xs ss where x: "json_get (JObj kvs) ''files_modified'' (JArr []) = Inr (JArr xs)" "all_strs xs = Some ss"
    using strs_field_get [OF k] by blast
  have h: "json_set (JArr xs) = Inr (map JStr ss)" by (simp add: json_set_def all_strs_hash [OF x(2)])
  have "as_str (case dict_get kvs ''objective'' of None \<Rightarrow> JStr [] | Some v \<Rightarrow> v) \<noteq> None"
    using s by (auto simp: str_field_def split: option.splits)
  then have "\<exists>b. similar_objective objective (case dict_get kvs ''objective'' of None \<Rightarrow> JStr [] | Some v \<Rightarrow> v) = Inr b"
    by (auto simp: similar_objective_def Let_def)
  then show ?thesis unfolding duplicate_line_def j x(1) using h by auto
qed

lemma duplicate_loop_typed:
  "(\<And>l j. l \<in> set ls \<Longrightarrow> loads (py_strip l) = Some j \<Longrightarrow> typed_approval j) \<Longrightarrow>
     \<exists>r. duplicate_loop a files objective ls = Inr r"
proof (induction ls)
  case (Cons l ls)
  have IH: "\<exists>r. duplicate_loop a files objective ls = Inr r" by (rule Cons.IH) (use Cons.prems in auto)
  show ?case
  proof (cases "loads (py_strip l)")
    case (Some j)
    then obtain r where "duplicate_line a files objective j = Inr r"
      using duplicate_line_typed Cons.prems [of l j] by fastforce
    then show ?thesis using IH Some by (cases r) (auto simp: Let_def)
  qed (use IH in \<open>auto simp: Let_def\<close>)
qed auto

text \<open>
  A well-typed plan is always judged. If the frontmatter is a mapping whose listed
  files and dependencies, if present, are lists of strings, and every line of the list of
  approved plans that parses is a mapping with such a list of files and a text as its
  objective, then the review raises nothing, and its verdict is the approval when every
  check passed and the escalation to the strategist otherwise.
\<close>

theorem typed_plan_is_judged:
  assumes "typed_plan (extract_frontmatter yaml content)"
    and "\<And>text l j. pr_approved pr = Some text \<Longrightarrow> l \<in> set (py_splitlines text) \<Longrightarrow> loads (py_strip l) = Some j \<Longrightarrow> typed_approval j"
  shows "\<exists>s t u d. scope_check yaml (pr_config pr) a content = Inr s \<and> dependency_check yaml (pr_status pr) content = Inr t
    \<and> duplicate_check yaml (pr_approved pr) a content = Inr u \<and> review_plan yaml pr a content = Inr d
    \<and> (if fst s \<and> fst t \<and> fst u then pd_answer d = Some APPROVED \<and> pd_escalate_to d = None
       else pd_answer d = None \<and> pd_escalate_to d = Some ''strategist'')"
proof -
  obtain s where s: "scope_check yaml (pr_config pr) a content = Inr s" using scope_typed [OF assms(1)] by (metis isl_def sum.collapse(2))
  obtain t where t: "dependency_check yaml (pr_status pr) content = Inr t" using dependency_typed [OF assms(1)] by (metis isl_def sum.collapse(2))
  obtain kvs where k: "extract_frontmatter yaml content = JObj kvs" "strs_field kvs ''files_modified''"
    using assms(1) by (auto simp: typed_plan_def split: json.splits)
  obtain xs ss where x: "json_get (JObj kvs) ''files_modified'' (JArr []) = Inr (JArr xs)" "all_strs xs = Some ss"
    using strs_field_get [OF k(2)] by blast
  have h: "json_set (JArr xs) = Inr (map JStr ss)" by (simp add: json_set_def all_strs_hash [OF x(2)])
  have "\<exists>u. duplicate_check yaml (pr_approved pr) a content = Inr u"
  proof (cases "pr_approved pr")
    case (Some body)
    have "\<exists>r. duplicate_loop a (map JStr ss) (extract_objective content) (py_splitlines body) = Inr r"
      using duplicate_loop_typed assms(2) [OF Some] by blast
    then show ?thesis
      unfolding duplicate_check_def k(1) using Some x(1) h by (auto simp: Let_def)
  qed (auto simp: duplicate_check_def)
  then obtain u where u: "duplicate_check yaml (pr_approved pr) a content = Inr u" ..
  have "review_plan yaml pr a content = Inr (verdict [(''scope'', s), (''dependency'', t), (''duplicate'', u)])"
    by (simp add: review_plan_def s t u)
  then show ?thesis using s t u by (cases s; cases t; cases u) (auto simp: verdict_def Let_def)
qed

theorem typed_plan_is_judged_witness:
  "\<exists>d. review_plan demo_yaml demo_reviewer ''y'' (demo_plan ''src/x/a'') = Inr d"
proof -
  have "typed_plan (extract_frontmatter demo_yaml (demo_plan ''src/x/a''))"
    unfolding demo_frontmatter by (simp add: typed_plan_def strs_field_def)
  from typed_plan_is_judged [OF this, of demo_reviewer "''y''"] show ?thesis
    by (auto simp: demo_reviewer_def)
qed

end
