(* ===== verification/Daemon_Server.thy ===== *)
theory Daemon_Server
  imports Py_Value Channel
begin

text \<open>
  The daemon's socket: \<open>daemon/protocol.py\<close>, \<open>daemon/server.py\<close> and \<open>daemon/client.py\<close>.
  A request is one line of JSON, answered by one line; a client first has to say hello with
  the protocol's version, and may subscribe to events that the daemon pushes.

  A registered method is a function of the request's parameters and of the daemon's world
  \<open>'w\<close>, which it may change before it returns or raises. The state of a connection is the
  list of what was written to it. Parsing a line, \<open>Request.from_line\<close>, is the codec's
  \<open>validate_json\<close>; the text of an exception, \<open>str(exc)\<close>, is an argument. Which writes fail
  because the client is gone is part of an operation.
\<close>

section \<open>Protocol\<close>

definition PROTOCOL_VERSION :: int where
  "PROTOCOL_VERSION = 1"

datatype error_code = PARSE_ERROR | INVALID_REQUEST | METHOD_NOT_FOUND | INTERNAL_ERROR

fun error_number :: "error_code \<Rightarrow> int" where
  "error_number PARSE_ERROR = -32700"
| "error_number INVALID_REQUEST = -32600"
| "error_number METHOD_NOT_FOUND = -32601"
| "error_number INTERNAL_ERROR = -32603"

record request =
  rq_id :: string
  rq_method :: string
  rq_params :: "(string, json) dict"

datatype rpc_message =
    Response (rp_id: string) (rp_result: json)
  | ErrorResponse (rp_error_id: "string option") (rp_code: error_code) (rp_message: string)
  | Event (ev_method: string) (ev_params: json)

section \<open>Server\<close>

datatype 'w rpc_method =
    HandleHello
  | HandlePing
  | HandleSubscribe
  | Handler "(string, json) dict \<Rightarrow> 'w \<Rightarrow> 'w \<times> (py_error + json)"

text \<open>
  \<open>sv_conns\<close> are the open connections with what was written to them; \<open>sv_clients\<close> are the
  keys of \<open>_clients\<close>.
\<close>

record 'w socket_server =
  sv_listening :: bool
  sv_conns :: "(nat, rpc_message list) dict"
  sv_clients :: "nat list"
  sv_subscriptions :: "(nat, json list) dict"
  sv_methods :: "(string, 'w rpc_method) dict"
  sv_handshake_done :: "nat list"
  sv_world :: 'w

definition new_socket_server :: "'w \<Rightarrow> 'w socket_server" where
  "new_socket_server w =
     \<lparr>sv_listening = False, sv_conns = [], sv_clients = [], sv_subscriptions = [], sv_methods = [], sv_handshake_done = [], sv_world = w\<rparr>"

definition register_builtins :: "(string, 'w rpc_method) dict \<Rightarrow> (string, 'w rpc_method) dict" where
  "register_builtins ms =
     dict_set (dict_set (dict_set ms ''hello'' HandleHello) ''ping'' HandlePing) ''subscribe'' HandleSubscribe"

definition sv_start :: "'w socket_server \<Rightarrow> 'w socket_server" where
  "sv_start s = s\<lparr>sv_methods := register_builtins (sv_methods s), sv_listening := True\<rparr>"

definition sv_stop :: "'w socket_server \<Rightarrow> 'w socket_server" where
  "sv_stop s = s\<lparr>sv_listening := False, sv_clients := [], sv_subscriptions := [], sv_handshake_done := []\<rparr>"

definition register_method :: "string \<Rightarrow> ((string, json) dict \<Rightarrow> 'w \<Rightarrow> 'w \<times> (py_error + json)) \<Rightarrow> 'w socket_server \<Rightarrow> 'w socket_server" where
  "register_method name h s = s\<lparr>sv_methods := dict_set (sv_methods s) name (Handler h)\<rparr>"

definition remove_client :: "nat \<Rightarrow> 'w socket_server \<Rightarrow> 'w socket_server" where
  "remove_client c s =
     s\<lparr>sv_clients := removeAll c (sv_clients s), sv_subscriptions := dict_pop (sv_subscriptions s) c,
       sv_handshake_done := removeAll c (sv_handshake_done s)\<rparr>"

definition sv_write :: "nat \<Rightarrow> rpc_message \<Rightarrow> 'w socket_server \<Rightarrow> 'w socket_server" where
  "sv_write c m s =
     (case dict_get (sv_conns s) c of
        None \<Rightarrow> s
      | Some out \<Rightarrow> s\<lparr>sv_conns := dict_set (sv_conns s) c (out @ [m])\<rparr>)"

text \<open>The clients an event is sent to, in the order of their subscriptions; those in \<open>dead\<close> are gone.\<close>

fun broadcast_loop :: "json \<Rightarrow> rpc_message \<Rightarrow> nat set \<Rightarrow> (nat, json list) dict \<Rightarrow> 'w socket_server \<Rightarrow> nat list \<times> 'w socket_server" where
  "broadcast_loop ty ev dead [] s = ([], s)"
| "broadcast_loop ty ev dead ((c, subscribed) # rest) s =
     (if ty \<in> set subscribed \<and> c \<in> set (sv_clients s) then
        (if c \<in> dead then (let (gone, s') = broadcast_loop ty ev dead rest s in (c # gone, s'))
         else broadcast_loop ty ev dead rest (sv_write c ev s))
      else broadcast_loop ty ev dead rest s)"

definition broadcast_event :: "string \<Rightarrow> json \<Rightarrow> nat set \<Rightarrow> 'w socket_server \<Rightarrow> 'w socket_server" where
  "broadcast_event event_type params dead s =
     (let (gone, s') = broadcast_loop (JStr event_type) (Event (''event.'' @ event_type) params) dead (sv_subscriptions s) s
      in fold remove_client gone s')"

section \<open>Handlers\<close>

text \<open>\<open>HelloParams.model_validate\<close> reads an integer \<open>version\<close>; a numeric string is one too.\<close>

definition handle_hello :: "((string, json) dict \<Rightarrow> int option) \<Rightarrow> nat \<Rightarrow> (string, json) dict \<Rightarrow> 'w socket_server
    \<Rightarrow> ('w socket_server, json) outcome" where
  "handle_hello version c params s =
     (case version params of
        None \<Rightarrow> (s, Inl ValidationError)
      | Some v \<Rightarrow>
          if v \<noteq> PROTOCOL_VERSION
          then (s, Inl (ValueError (''Unsupported protocol version '' @ show_int v @ ''. Supported: [''
                  @ show_int PROTOCOL_VERSION @ '']'')))
          else (s\<lparr>sv_handshake_done := (if c \<in> set (sv_handshake_done s) then sv_handshake_done s else sv_handshake_done s @ [c])\<rparr>,
                Inr (JObj [(''version'', JInt PROTOCOL_VERSION), (''daemon_version'', JStr ''0.1.0'')])))"

definition handle_ping :: "(string, json) dict \<Rightarrow> json" where
  "handle_ping params = JObj [(''pong'', JBool True)]"

text \<open>\<open>set.update\<close>, which keeps what it added before a member that is not hashable.\<close>

fun set_update :: "json list \<Rightarrow> json list \<Rightarrow> json list \<times> py_error option" where
  "set_update xs [] = (xs, None)"
| "set_update xs (j # js) =
     (case hash_key j of
        None \<Rightarrow> (xs, Some (TypeError ''unhashable''))
      | Some k \<Rightarrow> set_update (if k \<in> set xs then xs else xs @ [k]) js)"

text \<open>\<open>sorted\<close> of a set compares members of different kinds unless it has one kind only.\<close>

fun str_le :: "string \<Rightarrow> string \<Rightarrow> bool" where
  "str_le [] t = True"
| "str_le (c # s) [] = False"
| "str_le (c # s) (d # t) = (if c = d then str_le s t else (of_char c :: nat) < of_char d)"

fun json_le :: "json \<Rightarrow> json \<Rightarrow> bool" where
  "json_le (JInt i) (JInt k) = (i \<le> k)"
| "json_le (JStr s) (JStr t) = str_le s t"
| "json_le _ _ = False"

fun insert_by :: "('a \<Rightarrow> 'a \<Rightarrow> bool) \<Rightarrow> 'a \<Rightarrow> 'a list \<Rightarrow> 'a list" where
  "insert_by le x [] = [x]"
| "insert_by le x (y # ys) = (if le x y then x # y # ys else y # insert_by le x ys)"

definition py_sorted :: "json list \<Rightarrow> py_error + json list" where
  "py_sorted xs =
     (if length xs \<le> 1 \<or> list_all (\<lambda>x. case x of JStr _ \<Rightarrow> True | _ \<Rightarrow> False) xs \<or> list_all (\<lambda>x. case x of JInt _ \<Rightarrow> True | _ \<Rightarrow> False) xs
      then Inr (foldr (insert_by json_le) xs [])
      else Inl (TypeError ''not supported between instances''))"

definition handle_subscribe :: "nat \<Rightarrow> (string, json) dict \<Rightarrow> 'w socket_server \<Rightarrow> ('w socket_server, json) outcome" where
  "handle_subscribe c params s =
     (let events = (case dict_get params ''events'' of None \<Rightarrow> JArr [] | Some j \<Rightarrow> j);
          old = (case dict_get (sv_subscriptions s) c of None \<Rightarrow> [] | Some xs \<Rightarrow> xs);
          s1 = s\<lparr>sv_subscriptions := dict_set (sv_subscriptions s) c old\<rparr> in
      (case json_iter events of
         None \<Rightarrow> (s1, Inl (TypeError ''not iterable''))
       | Some js \<Rightarrow>
           (case set_update old js of
              (xs, err) \<Rightarrow>
                (let s2 = s1\<lparr>sv_subscriptions := dict_set (sv_subscriptions s1) c xs\<rparr> in
                 (case err of
                    Some e \<Rightarrow> (s2, Inl e)
                  | None \<Rightarrow>
                      (case py_sorted xs of
                         Inl e \<Rightarrow> (s2, Inl e)
                       | Inr ys \<Rightarrow> (s2, Inr (JObj [(''subscribed'', JArr ys)]))))))))"

section \<open>Dispatch\<close>

text \<open>
  What surrounds the server: the request parser, the reading of the version, the text of an
  exception, and Pydantic's check that a result is a dictionary.
\<close>

record server_env =
  se_codec :: "request json_codec"
  se_version :: "(string, json) dict \<Rightarrow> int option"
  se_text :: "py_error \<Rightarrow> string"

text \<open>The built-in methods at their names take the client first; every other method does not.\<close>

definition call_method :: "server_env \<Rightarrow> nat \<Rightarrow> string \<Rightarrow> 'w rpc_method \<Rightarrow> (string, json) dict \<Rightarrow> 'w socket_server
    \<Rightarrow> ('w socket_server, json) outcome" where
  "call_method E c name h params s =
     (let with_client = (name \<in> {''hello'', ''subscribe''}) in
      (case h of
         HandleHello \<Rightarrow> if with_client then handle_hello (se_version E) c params s else (s, Inl (TypeError ''arguments''))
       | HandleSubscribe \<Rightarrow> if with_client then handle_subscribe c params s else (s, Inl (TypeError ''arguments''))
       | HandlePing \<Rightarrow> if with_client then (s, Inl (TypeError ''arguments'')) else (s, Inr (handle_ping params))
       | Handler f \<Rightarrow>
           if with_client then (s, Inl (TypeError ''arguments''))
           else (case f params (sv_world s) of (w, r) \<Rightarrow> (s\<lparr>sv_world := w\<rparr>, r))))"

definition dispatch :: "server_env \<Rightarrow> nat \<Rightarrow> request \<Rightarrow> 'w socket_server \<Rightarrow> 'w socket_server \<times> rpc_message" where
  "dispatch E c rq s =
     (case dict_get (sv_methods s) (rq_method rq) of
        None \<Rightarrow> (s, ErrorResponse (Some (rq_id rq)) METHOD_NOT_FOUND (''Method not found: '' @ rq_method rq))
      | Some h \<Rightarrow>
          (case call_method E c (rq_method rq) h (rq_params rq) s of
             (s', Inl e) \<Rightarrow> (s', ErrorResponse (Some (rq_id rq)) INTERNAL_ERROR (se_text E e))
           | (s', Inr (JObj kvs)) \<Rightarrow> (s', Response (rq_id rq) (JObj kvs))
           | (s', Inr _) \<Rightarrow> (s', ErrorResponse (Some (rq_id rq)) INTERNAL_ERROR (se_text E ValidationError))))"

text \<open>One line of a client: what is answered, before it is written.\<close>

definition answer_line :: "server_env \<Rightarrow> nat \<Rightarrow> string \<Rightarrow> 'w socket_server \<Rightarrow> 'w socket_server \<times> rpc_message" where
  "answer_line E c line s =
     (case validate_json (se_codec E) (bytes_strip line) of
        None \<Rightarrow> (s, ErrorResponse None PARSE_ERROR ''Parse error'')
      | Some rq \<Rightarrow>
          if c \<notin> set (sv_handshake_done s) \<and> rq_method rq \<noteq> ''hello''
          then (s, ErrorResponse (Some (rq_id rq)) INVALID_REQUEST ''Must send hello first'')
          else dispatch E c rq s)"

section \<open>Connections\<close>

definition sv_connect :: "nat \<Rightarrow> 'w socket_server \<Rightarrow> 'w socket_server" where
  "sv_connect c s =
     s\<lparr>sv_conns := dict_set (sv_conns s) c [], sv_clients := (if c \<in> set (sv_clients s) then sv_clients s else sv_clients s @ [c])\<rparr>"

text \<open>The end of a connection: the client hung up, was silent for too long or a write failed.\<close>

definition sv_disconnect :: "nat \<Rightarrow> 'w socket_server \<Rightarrow> 'w socket_server" where
  "sv_disconnect c s = (remove_client c s)\<lparr>sv_conns := dict_pop (sv_conns s) c\<rparr>"

definition handle_line :: "server_env \<Rightarrow> nat \<Rightarrow> string \<Rightarrow> bool \<Rightarrow> 'w socket_server \<Rightarrow> 'w socket_server" where
  "handle_line E c line lost s =
     (case answer_line E c line s of (s', m) \<Rightarrow> if lost then sv_disconnect c s' else sv_write c m s')"

text \<open>
  What happens at the socket, one event after the other. A connection is a new object, so a
  client that connects has an identity that no open connection has; lines come from open
  connections only. A disconnection stands for the end of the stream, the time-out of
  \<open>readline\<close>, and the \<open>ValueError\<close> it raises on a line over the reader's 64 KiB limit: all
  of them leave the loop through the same \<open>finally\<close> block.
\<close>

datatype 'w server_op =
    OpStart
  | OpStop
  | OpRegister string "(string, json) dict \<Rightarrow> 'w \<Rightarrow> 'w \<times> (py_error + json)"
  | OpConnect nat
  | OpLine nat string bool
  | OpDisconnect nat
  | OpBroadcast string json "nat set"

fun server_step :: "server_env \<Rightarrow> 'w server_op \<Rightarrow> 'w socket_server \<Rightarrow> 'w socket_server" where
  "server_step E OpStart s = sv_start s"
| "server_step E OpStop s = sv_stop s"
| "server_step E (OpRegister name h) s = register_method name h s"
| "server_step E (OpConnect c) s = (if \<not> sv_listening s \<or> c \<in> set (dict_keys (sv_conns s)) then s else sv_connect c s)"
| "server_step E (OpLine c line lost) s = (if c \<in> set (dict_keys (sv_conns s)) then handle_line E c line lost s else s)"
| "server_step E (OpDisconnect c) s = (if c \<in> set (dict_keys (sv_conns s)) then sv_disconnect c s else s)"
| "server_step E (OpBroadcast ty params dead) s = broadcast_event ty params dead s"

section \<open>What the operations leave alone\<close>

lemma remove_client_frame [simp]:
  "sv_conns (remove_client c s) = sv_conns s" "sv_methods (remove_client c s) = sv_methods s"
  "sv_world (remove_client c s) = sv_world s"
  by (simp_all add: remove_client_def)

lemma remove_clients_frame [simp]:
  "sv_conns (fold remove_client cs s) = sv_conns s" "sv_methods (fold remove_client cs s) = sv_methods s"
  "sv_world (fold remove_client cs s) = sv_world s"
  by (induction cs arbitrary: s) auto

lemma sv_write_frame [simp]:
  "sv_clients (sv_write c m s) = sv_clients s" "sv_subscriptions (sv_write c m s) = sv_subscriptions s"
  "sv_handshake_done (sv_write c m s) = sv_handshake_done s" "sv_methods (sv_write c m s) = sv_methods s"
  "sv_world (sv_write c m s) = sv_world s" "sv_listening (sv_write c m s) = sv_listening s"
  by (auto simp: sv_write_def split: option.split)

lemma sv_write_get [simp]:
  "dict_get (sv_conns (sv_write c m s)) d =
     (if d = c then map_option (\<lambda>out. out @ [m]) (dict_get (sv_conns s) c) else dict_get (sv_conns s) d)"
  by (auto simp: sv_write_def dict_simps split: option.split)

lemma broadcast_loop_frame:
  "let s' = snd (broadcast_loop ty ev dead subs s) in
     sv_clients s' = sv_clients s \<and> sv_subscriptions s' = sv_subscriptions s \<and> sv_handshake_done s' = sv_handshake_done s
     \<and> sv_methods s' = sv_methods s \<and> sv_world s' = sv_world s \<and> sv_listening s' = sv_listening s"
  by (induction ty ev dead subs s rule: broadcast_loop.induct) (auto simp: Let_def split: prod.splits)

definition reaches :: "json \<Rightarrow> nat set \<Rightarrow> 'w socket_server \<Rightarrow> nat \<Rightarrow> (nat \<times> json list) \<Rightarrow> bool" where
  "reaches ty dead s d = (\<lambda>(c, subscribed). c = d \<and> ty \<in> set subscribed \<and> c \<in> set (sv_clients s) \<and> c \<notin> dead)"

lemma broadcast_loop_get:
  "dict_get (sv_conns (snd (broadcast_loop ty ev dead subs s))) d =
     map_option (\<lambda>out. out @ replicate (length (filter (reaches ty dead s d) subs)) ev) (dict_get (sv_conns s) d)"
proof (induction ty ev dead subs s rule: broadcast_loop.induct)
  case (2 ty ev dead c subscribed rest s)
  have w: "reaches ty dead (sv_write c ev s) = reaches ty dead s" by (simp add: reaches_def fun_eq_iff)
  consider (dead) "ty \<in> set subscribed \<and> c \<in> set (sv_clients s)" "c \<in> dead"
    | (alive) "ty \<in> set subscribed \<and> c \<in> set (sv_clients s)" "c \<notin> dead"
    | (other) "\<not> (ty \<in> set subscribed \<and> c \<in> set (sv_clients s))" by blast
  then show ?case
  proof cases
    case dead
    then show ?thesis using "2.IH"(1) by (auto simp: reaches_def Let_def split: prod.splits)
  next
    case alive
    then have "reaches ty dead s d (c, subscribed) \<longleftrightarrow> c = d" by (auto simp: reaches_def)
    moreover have "dict_get (sv_conns (snd (broadcast_loop ty ev dead rest (sv_write c ev s)))) d =
        map_option (\<lambda>out. out @ replicate (length (filter (reaches ty dead s d) rest)) ev) (dict_get (sv_conns (sv_write c ev s)) d)"
      using "2.IH"(2) alive by (simp add: w)
    ultimately show ?thesis using alive by (auto simp: option.map_comp o_def)
  next
    case other
    then show ?thesis using "2.IH"(3) by (auto simp: reaches_def)
  qed
qed (simp add: option.map_ident)

lemma broadcast_frame:
  "sv_methods (broadcast_event ty params dead s) = sv_methods s" "sv_world (broadcast_event ty params dead s) = sv_world s"
  using broadcast_loop_frame [of "JStr ty" "Event (''event.'' @ ty) params" dead "sv_subscriptions s" s]
  by (auto simp: broadcast_event_def Let_def split: prod.splits)

lemma broadcast_get:
  "dict_get (sv_conns (broadcast_event ty params dead s)) d =
     map_option (\<lambda>out. out @ replicate (length (filter (reaches (JStr ty) dead s d) (sv_subscriptions s))) (Event (''event.'' @ ty) params))
       (dict_get (sv_conns s) d)"
  using broadcast_loop_get [of "JStr ty" "Event (''event.'' @ ty) params" dead "sv_subscriptions s" s d]
  by (auto simp: broadcast_event_def split: prod.splits)

lemma handle_subscribe_frame:
  "sv_conns (fst (handle_subscribe c params s)) = sv_conns s" "sv_methods (fst (handle_subscribe c params s)) = sv_methods s"
  "sv_world (fst (handle_subscribe c params s)) = sv_world s" "sv_clients (fst (handle_subscribe c params s)) = sv_clients s"
  "sv_handshake_done (fst (handle_subscribe c params s)) = sv_handshake_done s"
  by (simp_all add: handle_subscribe_def Let_def split: option.split prod.split sum.split)

lemma handle_hello_frame:
  "sv_conns (fst (handle_hello v c params s)) = sv_conns s" "sv_methods (fst (handle_hello v c params s)) = sv_methods s"
  "sv_world (fst (handle_hello v c params s)) = sv_world s" "sv_clients (fst (handle_hello v c params s)) = sv_clients s"
  "sv_subscriptions (fst (handle_hello v c params s)) = sv_subscriptions s"
  by (simp_all add: handle_hello_def split: option.split)

lemma call_method_frame:
  "sv_conns (fst (call_method E c name h params s)) = sv_conns s" "sv_methods (fst (call_method E c name h params s)) = sv_methods s"
  "sv_clients (fst (call_method E c name h params s)) = sv_clients s"
  by (simp_all add: call_method_def Let_def handle_subscribe_frame handle_hello_frame split: rpc_method.split prod.split)

lemma dispatch_state: "fst (dispatch E c rq s) =
    (case dict_get (sv_methods s) (rq_method rq) of None \<Rightarrow> s | Some h \<Rightarrow> fst (call_method E c (rq_method rq) h (rq_params rq) s))"
  by (auto simp: dispatch_def split: option.split prod.split sum.split json.split)

lemma answer_line_frame:
  "sv_conns (fst (answer_line E c line s)) = sv_conns s" "sv_clients (fst (answer_line E c line s)) = sv_clients s"
  by (simp_all add: answer_line_def dispatch_state call_method_frame split: option.split)

section \<open>The handshake\<close>

definition hello_result :: json where
  "hello_result = JObj [(''version'', JInt PROTOCOL_VERSION), (''daemon_version'', JStr ''0.1.0'')]"

definition greeted :: "rpc_message list \<Rightarrow> bool" where
  "greeted out \<longleftrightarrow> (\<exists>i. Response i hello_result \<in> set out)"

text \<open>
  In every state of a run: a client that has shaken hands or subscribed has an open
  connection, to which the result of a hello was written; and nothing but the result of a
  hello is the first result on a connection.
\<close>

definition server_ok :: "'w socket_server \<Rightarrow> bool" where
  "server_ok s \<longleftrightarrow>
     set (sv_clients s) \<subseteq> set (dict_keys (sv_conns s))
     \<and> set (dict_keys (sv_subscriptions s)) \<subseteq> set (sv_handshake_done s)
     \<and> dict_ok (sv_subscriptions s)
     \<and> (\<forall>c \<in> set (sv_handshake_done s). \<exists>out. dict_get (sv_conns s) c = Some out \<and> greeted out)
     \<and> dict_get (sv_methods s) ''hello'' \<noteq> Some HandleSubscribe
     \<and> (\<forall>c out pre i r post. dict_get (sv_conns s) c = Some out \<longrightarrow> out = pre @ Response i r # post \<longrightarrow> r = hello_result \<or> greeted pre)"

lemma greeted_append [simp]: "greeted (a @ b) \<longleftrightarrow> greeted a \<or> greeted b"
  by (auto simp: greeted_def)

lemma greeted_Event [simp]: "\<not> greeted (replicate n (Event m p))"
  by (auto simp: greeted_def)

text \<open>Appending messages to a transcript whose results come after a hello.\<close>

definition guarded :: "rpc_message list \<Rightarrow> bool" where
  "guarded out \<longleftrightarrow> (\<forall>pre i r post. out = pre @ Response i r # post \<longrightarrow> r = hello_result \<or> greeted pre)"

lemma guarded_Nil [simp]: "guarded []"
  by (simp add: guarded_def)

lemma guarded_snoc: "guarded out \<Longrightarrow> (\<And>i r. m = Response i r \<Longrightarrow> r = hello_result \<or> greeted out) \<Longrightarrow> guarded (out @ [m])"
  unfolding guarded_def
proof (intro allI impI)
  fix pre i r post
  assume g: "\<forall>pre i r post. out = pre @ Response i r # post \<longrightarrow> r = hello_result \<or> greeted pre"
    and m: "\<And>i r. m = Response i r \<Longrightarrow> r = hello_result \<or> greeted out" and eq: "out @ [m] = pre @ Response i r # post"
  show "r = hello_result \<or> greeted pre"
  proof (cases post rule: rev_cases)
    case Nil
    then show ?thesis using eq m by simp
  next
    case (snoc p x)
    then show ?thesis using eq g by simp
  qed
qed

lemma guarded_events: "guarded out \<Longrightarrow> guarded (out @ replicate n (Event m p))"
proof (induction n)
  case (Suc n)
  have "out @ replicate (Suc n) (Event m p) = (out @ replicate n (Event m p)) @ [Event m p]"
    by (simp add: replicate_append_same)
  then show ?case using guarded_snoc Suc by (metis rpc_message.distinct(4))
qed simp

lemma server_ok_iff:
  "server_ok s \<longleftrightarrow>
     set (sv_clients s) \<subseteq> set (dict_keys (sv_conns s))
     \<and> set (dict_keys (sv_subscriptions s)) \<subseteq> set (sv_handshake_done s)
     \<and> dict_ok (sv_subscriptions s)
     \<and> (\<forall>c \<in> set (sv_handshake_done s). \<exists>out. dict_get (sv_conns s) c = Some out \<and> greeted out)
     \<and> dict_get (sv_methods s) ''hello'' \<noteq> Some HandleSubscribe
     \<and> (\<forall>c out. dict_get (sv_conns s) c = Some out \<longrightarrow> guarded out)"
  unfolding server_ok_def guarded_def by blast

lemma server_ok_new: "server_ok (new_socket_server w)"
  by (simp add: server_ok_iff new_socket_server_def)

lemma server_ok_remove: "server_ok s \<Longrightarrow> server_ok (remove_client c s)"
  by (auto simp: server_ok_iff remove_client_def dict_simps simp del: set_map)

lemma server_ok_removes: "server_ok s \<Longrightarrow> server_ok (fold remove_client cs s)"
  by (induction cs arbitrary: s) (simp_all add: server_ok_remove)

lemma keys_of_get:
  "(\<And>d. (dict_get a d = None) = (dict_get b d = None)) \<Longrightarrow> set (dict_keys a) = set (dict_keys b)"
  by (metis (no_types, lifting) map_of_eq_None_iff set_map subsetI subset_antisym)

lemma server_ok_broadcast_loop:
  assumes "server_ok s" "ev = Event m params"
  shows "server_ok (snd (broadcast_loop ty ev dead subs s))"
proof -
  have keys: "set (dict_keys (sv_conns (snd (broadcast_loop ty ev dead subs s)))) = set (dict_keys (sv_conns s))"
    by (rule keys_of_get) (simp add: broadcast_loop_get)
  show ?thesis
    using assms(1) broadcast_loop_frame [of ty ev dead subs s]
    unfolding server_ok_iff keys Let_def by (auto simp: broadcast_loop_get guarded_events assms(2) simp del: set_map)
qed

lemma server_ok_broadcast: "server_ok s \<Longrightarrow> server_ok (broadcast_event ty params dead s)"
  using server_ok_broadcast_loop [OF _ refl, of s "JStr ty" "''event.'' @ ty" params dead "sv_subscriptions s"] server_ok_removes
  by (auto simp: broadcast_event_def split: prod.splits)

lemma handle_subscribe_subscriptions:
  "set (dict_keys (sv_subscriptions (fst (handle_subscribe c params s)))) = insert c (set (dict_keys (sv_subscriptions s)))"
  by (simp add: handle_subscribe_def Let_def dict_keys_set del: set_map split: option.split prod.split sum.split)

lemma handle_subscribe_ok: "dict_ok (sv_subscriptions s) \<Longrightarrow> dict_ok (sv_subscriptions (fst (handle_subscribe c params s)))"
  by (simp add: handle_subscribe_def Let_def dict_ok_set split: option.split prod.split sum.split)

text \<open>What a line changes before its answer is written, and what the answer is.\<close>

definition reply_ok :: "nat \<Rightarrow> 'w socket_server \<Rightarrow> 'w socket_server \<times> rpc_message \<Rightarrow> bool" where
  "reply_ok c s = (\<lambda>(s', m).
     (c \<notin> set (sv_handshake_done s) \<longrightarrow> sv_world s' = sv_world s \<and> (\<forall>i r. m = Response i r \<longrightarrow> r = hello_result))
     \<and> (sv_handshake_done s' = sv_handshake_done s
        \<or> sv_handshake_done s' = sv_handshake_done s @ [c] \<and> (\<exists>i. m = Response i hello_result))
     \<and> dict_ok (sv_subscriptions s') \<and> set (dict_keys (sv_subscriptions s')) \<subseteq> set (sv_handshake_done s')
     \<and> sv_methods s' = sv_methods s)"

lemma answered_same: "server_ok s \<Longrightarrow> reply_ok c s (s, ErrorResponse i e t)"
  by (simp add: reply_ok_def server_ok_iff)

lemma answered_dispatch:
  assumes ok: "server_ok s" and g: "c \<in> set (sv_handshake_done s) \<or> rq_method rq = ''hello''"
  shows "reply_ok c s (dispatch E c rq s)"
proof (cases "dict_get (sv_methods s) (rq_method rq)")
  case None
  then show ?thesis using answered_same [OF ok] by (simp add: dispatch_def)
next
  case (Some h)
  obtain s' r where call: "call_method E c (rq_method rq) h (rq_params rq) s = (s', r)" by force
  have d: "dispatch E c rq s = (s', case r of Inl e \<Rightarrow> ErrorResponse (Some (rq_id rq)) INTERNAL_ERROR (se_text E e)
      | Inr (JObj kvs) \<Rightarrow> Response (rq_id rq) (JObj kvs) | Inr _ \<Rightarrow> ErrorResponse (Some (rq_id rq)) INTERNAL_ERROR (se_text E ValidationError))"
    using Some call by (simp add: dispatch_def split: sum.split json.split)
  have subs: "dict_ok (sv_subscriptions s)" "set (dict_keys (sv_subscriptions s)) \<subseteq> set (sv_handshake_done s)"
    using ok by (simp_all add: server_ok_iff)
  have "(\<exists>e. s' = s \<and> r = Inl e) \<or> (s', r) = handle_hello (se_version E) c (rq_params rq) s
      \<or> c \<in> set (sv_handshake_done s) \<and> ((s', r) = handle_subscribe c (rq_params rq) s \<or> s' = s\<lparr>sv_world := sv_world s'\<rparr>)"
    using call g ok Some
    by (cases h) (auto simp: call_method_def server_ok_iff Let_def split: if_splits prod.splits)
  then consider (err) e where "s' = s" "r = Inl e" | (hello) "(s', r) = handle_hello (se_version E) c (rq_params rq) s"
    | (sub) "c \<in> set (sv_handshake_done s)" "(s', r) = handle_subscribe c (rq_params rq) s"
    | (handler) "c \<in> set (sv_handshake_done s)" "s' = s\<lparr>sv_world := sv_world s'\<rparr>" by blast
  then show ?thesis
  proof cases
    case err
    then show ?thesis unfolding d using answered_same [OF ok] by simp
  next
    case hello
    then show ?thesis unfolding d using subs
      by (auto simp: handle_hello_def reply_ok_def hello_result_def simp del: set_map split: option.splits if_splits)
  next
    case sub
    then have f: "s' = fst (handle_subscribe c (rq_params rq) s)" by (metis fst_conv)
    show ?thesis unfolding d reply_ok_def f using sub(1) subs
      by (auto simp: handle_subscribe_frame handle_subscribe_ok handle_subscribe_subscriptions simp del: set_map)
  next
    case handler
    then have "sv_handshake_done s' = sv_handshake_done s" "sv_subscriptions s' = sv_subscriptions s" "sv_methods s' = sv_methods s"
      by (metis socket_server.select_convs socket_server.surjective socket_server.update_convs)+
    then show ?thesis unfolding d reply_ok_def using handler(1) subs by simp
  qed
qed

lemma answered_line: "server_ok s \<Longrightarrow> reply_ok c s (answer_line E c line s)"
  by (auto simp: answer_line_def split: option.split intro: answered_same answered_dispatch)

lemma handle_line_conns:
  "dict_get (sv_conns (handle_line E c line lost s)) d =
     (if lost then if d = c then None else dict_get (sv_conns s) d
      else if d = c then map_option (\<lambda>out. out @ [snd (answer_line E c line s)]) (dict_get (sv_conns s) c)
      else dict_get (sv_conns s) d)"
proof -
  obtain s' m where a: "answer_line E c line s = (s', m)" by force
  then have "sv_conns s' = sv_conns s" using answer_line_frame(1) [of E c line s] by simp
  then show ?thesis by (simp add: handle_line_def a sv_disconnect_def dict_get_pop)
qed

lemma server_ok_line:
  assumes ok: "server_ok s" and c: "dict_get (sv_conns s) c = Some out"
  shows "server_ok (handle_line E c line lost s)"
proof -
  obtain s' m where a: "answer_line E c line s = (s', m)" by force
  have f: "sv_conns s' = sv_conns s" "sv_clients s' = sv_clients s" using answer_line_frame [of E c line s] a by simp_all
  have an: "reply_ok c s (s', m)" using answered_line [OF ok, of c E line] a by simp
  have hs: "set (sv_handshake_done s') \<subseteq> insert c (set (sv_handshake_done s))" using an by (auto simp: reply_ok_def)
  have keys: "set (dict_keys (sv_conns (sv_write c m s'))) = set (dict_keys (sv_conns s))"
    by (rule keys_of_get) (simp add: f)
  have g: "guarded (out @ [m])"
  proof (rule guarded_snoc)
    show "guarded out" using ok c by (simp add: server_ok_iff)
    show "r = hello_result \<or> greeted out" if "m = Response i r" for i r
      using an that ok c by (auto simp: reply_ok_def server_ok_iff)
  qed
  have new: "\<exists>o'. dict_get (sv_conns (sv_write c m s')) d = Some o' \<and> greeted o'" if "d \<in> set (sv_handshake_done s')" for d
  proof (cases "d \<in> set (sv_handshake_done s)")
    case True
    then show ?thesis using ok c f by (auto simp: server_ok_iff)
  next
    case False
    then have "d = c" "\<exists>i. m = Response i hello_result" using that an hs by (auto simp: reply_ok_def)
    then show ?thesis using c f by (auto simp: greeted_def)
  qed
  show ?thesis
  proof (cases lost)
    case True
    have "server_ok (sv_disconnect c s')"
      using ok an hs unfolding server_ok_iff sv_disconnect_def remove_client_def reply_ok_def
      by (auto simp: f dict_simps simp del: set_map)
    with True show ?thesis by (simp add: handle_line_def a)
  next
    case False
    have "server_ok (sv_write c m s')"
      unfolding server_ok_iff keys
    proof (intro conjI ballI allI impI)
      fix d o' assume "dict_get (sv_conns (sv_write c m s')) d = Some o'"
      then show "guarded o'" using ok g c by (auto simp: f server_ok_iff split: if_splits)
    qed (use ok an new in \<open>simp_all add: f server_ok_iff reply_ok_def del: sv_write_get set_map\<close>)
    with False show ?thesis by (simp add: handle_line_def a)
  qed
qed

lemma server_ok_step: "server_ok s \<Longrightarrow> server_ok (server_step E op s)"
proof (cases op)
  case (OpLine c line lost)
  assume "server_ok s"
  with OpLine show ?thesis using server_ok_line by (fastforce simp: dict_keys_iff_get simp del: set_map)
next
  case (OpConnect c)
  assume ok: "server_ok s"
  show ?thesis
  proof (cases "c \<in> set (dict_keys (sv_conns s))")
    case False
    then have "dict_get (sv_conns s) c = None" by (metis dict_keys_iff_get not_None_eq)
    then have "c \<notin> set (sv_handshake_done s)" using ok by (auto simp: server_ok_iff)
    with ok OpConnect show ?thesis
      by (auto simp: server_ok_iff sv_connect_def dict_simps simp del: set_map)
  qed (use ok OpConnect in simp)
next
  case (OpDisconnect c)
  assume "server_ok s"
  with OpDisconnect show ?thesis
    by (auto simp: server_ok_iff sv_disconnect_def remove_client_def dict_simps simp del: set_map)
next
  case (OpBroadcast ty params dead)
  assume "server_ok s"
  with OpBroadcast show ?thesis by (simp add: server_ok_broadcast)
qed (auto simp: server_ok_iff sv_start_def sv_stop_def register_method_def register_builtins_def dict_simps)

lemma server_ok_run: "server_ok s \<Longrightarrow> server_ok (fold (server_step E) ops s)"
  by (induction ops arbitrary: s) (simp_all add: server_ok_step)

text \<open>
  C5. No method before hello. Whatever happens at the socket (clients that connect, send any
  lines and disappear, events, methods that are registered, starts and stops): on every open
  connection, the first result written is that of a hello with the protocol's version; and a
  line that is answered with anything but an error or changes the daemon's world comes from
  a client to which the result of a hello was written on this connection, or is that hello.
\<close>

theorem no_method_before_hello:
  fixes ops :: "'w server_op list"
  assumes "s = fold (server_step E) ops (new_socket_server w)" and "dict_get (sv_conns s) c = Some out"
  shows "(\<forall>pre i r post. out = pre @ Response i r # post \<longrightarrow> r = hello_result \<or> greeted pre)
    \<and> (sv_world (server_step E (OpLine c line lost) s) \<noteq> sv_world s \<longrightarrow> greeted out)
    \<and> (\<forall>i r. snd (answer_line E c line s) = Response i r \<longrightarrow> r = hello_result \<or> greeted out)"
proof -
  have ok: "server_ok s" unfolding assms(1) by (intro server_ok_run server_ok_new)
  have c: "c \<in> set (dict_keys (sv_conns s))" by (rule dict_get_in_keys [OF assms(2)])
  obtain s' m where a: "answer_line E c line s = (s', m)" by force
  have an: "reply_ok c s (s', m)" using answered_line [OF ok, of c E line] a by simp
  have w: "sv_world (server_step E (OpLine c line lost) s) = sv_world s'"
    using c a by (simp add: handle_line_def sv_disconnect_def)
  have gr: "greeted out" if "c \<in> set (sv_handshake_done s)" using ok assms(2) that by (auto simp: server_ok_iff)
  have "guarded out" using ok assms(2) by (simp add: server_ok_iff)
  then have 1: "\<forall>pre i r post. out = pre @ Response i r # post \<longrightarrow> r = hello_result \<or> greeted pre"
    by (simp only: guarded_def)
  have 2: "\<not> greeted out \<Longrightarrow> sv_world s' = sv_world s \<and> (\<forall>i r. m = Response i r \<longrightarrow> r = hello_result)"
  proof -
    assume "\<not> greeted out"
    then have "c \<notin> set (sv_handshake_done s)" using gr by blast
    then show "sv_world s' = sv_world s \<and> (\<forall>i r. m = Response i r \<longrightarrow> r = hello_result)" using an by (simp add: reply_ok_def)
  qed
  show ?thesis using 1 2 unfolding w a snd_conv by blast
qed

section \<open>Every line is answered\<close>

fun is_event :: "rpc_message \<Rightarrow> bool" where
  "is_event (Event _ _) = True"
| "is_event _ = False"

fun reply_id :: "rpc_message \<Rightarrow> string option" where
  "reply_id (Response i r) = Some i"
| "reply_id (ErrorResponse i e t) = i"
| "reply_id (Event m p) = None"

definition line_id :: "server_env \<Rightarrow> string \<Rightarrow> string option" where
  "line_id E line = map_option rq_id (validate_json (se_codec E) (bytes_strip line))"

fun lines_of :: "nat \<Rightarrow> 'w server_op list \<Rightarrow> string list" where
  "lines_of c [] = []"
| "lines_of c (OpLine d line lost # ops) = (if d = c then [line] else []) @ lines_of c ops"
| "lines_of c (_ # ops) = lines_of c ops"

fun ends_connection :: "nat \<Rightarrow> 'w server_op \<Rightarrow> bool" where
  "ends_connection c (OpLine d line lost) = (d = c \<and> lost)"
| "ends_connection c (OpDisconnect d) = (d = c)"
| "ends_connection c _ = False"

lemma answer_reply: "reply_id (snd (answer_line E c line s)) = line_id E line \<and> \<not> is_event (snd (answer_line E c line s))"
  by (simp add: answer_line_def line_id_def dispatch_def split: option.split prod.split sum.split json.split)

lemma step_transcript:
  assumes "dict_get (sv_conns s) c = Some out" "\<not> ends_connection c op"
  shows "\<exists>new. dict_get (sv_conns (server_step E op s)) c = Some (out @ new)
    \<and> map reply_id (filter (\<lambda>m. \<not> is_event m) new) = map (line_id E) (lines_of c [op])"
proof (cases op)
  case (OpBroadcast ty params dead)
  then show ?thesis using assms(1) by (simp add: broadcast_get)
next
  case (OpLine d line lost)
  then show ?thesis
    using assms answer_reply [of E c line s] dict_get_in_keys [OF assms(1)] by (auto simp: handle_line_conns split: if_splits)
qed (use assms in \<open>auto simp: sv_start_def sv_stop_def register_method_def sv_connect_def sv_disconnect_def dict_simps
      dest: dict_get_in_keys simp del: set_map\<close>)

text \<open>
  Every line is answered exactly once. As long as a client's connection lasts, in any
  interleaving with other clients, events and changes of the server, what is written to it
  besides events is one reply for each of its lines, in their order: with the identifier of
  the request, or without one when the line is not a request. Nothing written before is
  changed.
\<close>

theorem every_line_answered_once:
  assumes "dict_get (sv_conns s) c = Some out" and "\<forall>op \<in> set ops. \<not> ends_connection c op"
  shows "\<exists>new. dict_get (sv_conns (fold (server_step E) ops s)) c = Some (out @ new)
    \<and> map reply_id (filter (\<lambda>m. \<not> is_event m) new) = map (line_id E) (lines_of c ops)"
  using assms
proof (induction ops arbitrary: s out)
  case (Cons op ops)
  obtain new where new: "dict_get (sv_conns (server_step E op s)) c = Some (out @ new)"
    "map reply_id (filter (\<lambda>m. \<not> is_event m) new) = map (line_id E) (lines_of c [op])"
    using step_transcript [OF Cons.prems(1), of op E] Cons.prems(2) by auto
  obtain rest where rest: "dict_get (sv_conns (fold (server_step E) ops (server_step E op s))) c = Some ((out @ new) @ rest)"
    "map reply_id (filter (\<lambda>m. \<not> is_event m) rest) = map (line_id E) (lines_of c ops)"
    using Cons.IH [OF new(1)] Cons.prems(2) by auto
  have "lines_of c (op # ops) = lines_of c [op] @ lines_of c ops" by (cases op) simp_all
  then show ?case using new rest by (intro exI [of _ "new @ rest"]) simp
qed simp

text \<open>A request line that the witnesses use.\<close>

definition demo_codec :: "request json_codec" where
  "demo_codec = \<lparr>dump_json = (\<lambda>r. rq_method r), validate_json = (\<lambda>t. if t = ''x'' then None else Some \<lparr>rq_id = ''1'', rq_method = t, rq_params = []\<rparr>)\<rparr>"

definition demo_server_env :: server_env where
  "demo_server_env = \<lparr>se_codec = demo_codec, se_version = (\<lambda>ps. Some 1), se_text = (\<lambda>e. ''e'')\<rparr>"

definition server_demo_ops :: "nat server_op list" where
  "server_demo_ops = [OpRegister ''inc'' (\<lambda>ps n. (Suc n, Inr (JObj []))), OpStart, OpConnect 7, OpLine 7 ''inc'' False, OpLine 7 ''x'' False,
     OpLine 7 ''hello'' False]"

lemma server_demo_run:
  "dict_get (sv_conns (fold (server_step demo_server_env) server_demo_ops (new_socket_server 0))) 7 =
     Some [ErrorResponse (Some ''1'') INVALID_REQUEST ''Must send hello first'', ErrorResponse None PARSE_ERROR ''Parse error'',
           Response ''1'' hello_result]"
  by (simp add: server_demo_ops_def demo_server_env_def demo_codec_def new_socket_server_def register_method_def sv_start_def register_builtins_def
      sv_connect_def handle_line_def answer_line_def strip_with_def ascii_space_def dispatch_def call_method_def handle_hello_def
      PROTOCOL_VERSION_def hello_result_def sv_write_def Let_def)

theorem no_method_before_hello_witness:
  "let s = fold (server_step demo_server_env) server_demo_ops (new_socket_server 0) in
     sv_world (server_step demo_server_env (OpLine 7 ''inc'' False) s) = sv_world s
     \<or> greeted [ErrorResponse (Some ''1'') INVALID_REQUEST ''Must send hello first'', ErrorResponse None PARSE_ERROR ''Parse error'',
           Response ''1'' hello_result]"
  using no_method_before_hello [OF refl server_demo_run, of "''inc''" False] unfolding Let_def by blast

theorem every_line_answered_once_witness:
  "\<exists>new. dict_get (sv_conns (fold (server_step demo_server_env) [OpLine 7 ''inc'' False, OpBroadcast ''e'' JNull {}, OpLine 7 ''x'' False]
       (fold (server_step demo_server_env) server_demo_ops (new_socket_server 0)))) 7
     = Some ([ErrorResponse (Some ''1'') INVALID_REQUEST ''Must send hello first'', ErrorResponse None PARSE_ERROR ''Parse error'',
           Response ''1'' hello_result] @ new)
     \<and> map reply_id (filter (\<lambda>m. \<not> is_event m) new) = [Some ''1'', None]"
  using every_line_answered_once [OF server_demo_run, of "[OpLine 7 ''inc'' False, OpBroadcast ''e'' JNull {}, OpLine 7 ''x'' False]" demo_server_env]
  by (simp add: line_id_def demo_server_env_def demo_codec_def strip_with_def ascii_space_def)

section \<open>Client\<close>

text \<open>
  \<open>DaemonClient\<close>: a connection is the chunks that \<open>recv\<close> will return, an empty list being a
  connection the server has closed; what was sent is kept.
\<close>

record daemon_client =
  dc_open :: bool
  dc_counter :: nat
  dc_sent :: "string list"

definition new_daemon_client :: daemon_client where
  "new_daemon_client = \<lparr>dc_open = False, dc_counter = 0, dc_sent = []\<rparr>"

fun recv_line :: "string \<Rightarrow> string list \<Rightarrow> py_error + string \<times> string list" where
  "recv_line buf chunks =
     (if buf \<noteq> [] \<and> last buf = newline then Inr (buf, chunks)
      else (case chunks of [] \<Rightarrow> Inl OSError | ch # rest \<Rightarrow> recv_line (buf @ ch) rest))"

declare recv_line.simps [simp del]

definition error_text :: "json \<Rightarrow> py_error + string" where
  "error_text e =
     (case e of
        JObj kvs \<Rightarrow> (case dict_get kvs ''message'' of None \<Rightarrow> Inl (KeyError ''message'') | Some m \<Rightarrow> Inr (json_str m))
      | _ \<Rightarrow> Inl (TypeError ''indices''))"

text \<open>\<open>"error" in parsed\<close> and the text of the error if it is.\<close>

definition reply_error :: "json \<Rightarrow> py_error + string option" where
  "reply_error parsed =
     (case parsed of
        JObj kvs \<Rightarrow>
          (case dict_get kvs ''error'' of
             None \<Rightarrow> Inr None
           | Some e \<Rightarrow> (case error_text e of Inl x \<Rightarrow> Inl x | Inr t \<Rightarrow> Inr (Some t)))
      | JArr xs \<Rightarrow> if JStr ''error'' \<in> set xs then Inl (TypeError ''indices'') else Inr None
      | JStr s \<Rightarrow> if py_contains ''error'' s then Inl (TypeError ''indices'') else Inr None
      | _ \<Rightarrow> Inl (TypeError ''not iterable''))"

text \<open>A reply line: the parsed value, or what is raised; \<open>prefix\<close> starts the text of the error.\<close>

definition parse_reply :: "string \<Rightarrow> string \<Rightarrow> py_error + json" where
  "parse_reply prefix line =
     (case loads line of
        None \<Rightarrow> Inl (ValueError ''JSONDecodeError'')
      | Some parsed \<Rightarrow>
          (case reply_error parsed of
             Inl e \<Rightarrow> Inl e
           | Inr (Some t) \<Rightarrow> Inl (RuntimeError (prefix @ t))
           | Inr None \<Rightarrow> Inr parsed))"

definition read_reply :: "string \<Rightarrow> string \<Rightarrow> py_error + json" where
  "read_reply prefix line =
     (case parse_reply prefix line of Inl e \<Rightarrow> Inl e | Inr parsed \<Rightarrow> json_get parsed ''result'' (JObj []))"

definition send_raw :: "string \<Rightarrow> daemon_client \<Rightarrow> daemon_client" where
  "send_raw d k = k\<lparr>dc_sent := dc_sent k @ [d]\<rparr>"

definition dc_connect :: "request json_codec \<Rightarrow> string list \<Rightarrow> daemon_client \<Rightarrow> (daemon_client, unit) outcome" where
  "dc_connect C chunks k =
     (let k' = send_raw (encode C \<lparr>rq_id = ''hello'', rq_method = ''hello'', rq_params = [(''version'', JInt PROTOCOL_VERSION)]\<rparr>) (k\<lparr>dc_open := True\<rparr>) in
      (case recv_line [] chunks of
         Inl e \<Rightarrow> (k', Inl e)
       | Inr (line, _) \<Rightarrow> (case parse_reply ''Handshake failed: '' line of Inl e \<Rightarrow> (k', Inl e) | Inr _ \<Rightarrow> (k', Inr ()))))"

definition call_request :: "string \<Rightarrow> (string, json) dict \<Rightarrow> daemon_client \<Rightarrow> request" where
  "call_request name params k =
     \<lparr>rq_id = ''req-'' @ show_nat (Suc (dc_counter k)), rq_method = name, rq_params = params\<rparr>"

definition dc_call :: "request json_codec \<Rightarrow> string \<Rightarrow> (string, json) dict \<Rightarrow> string list \<Rightarrow> daemon_client \<Rightarrow> (daemon_client, json) outcome" where
  "dc_call C name params chunks k =
     (let rq = call_request name params k; k1 = k\<lparr>dc_counter := Suc (dc_counter k)\<rparr> in
      if \<not> dc_open k then (k1, Inl (AssertionError []))
      else
        (let k2 = send_raw (encode C rq) k1 in
         (case recv_line [] chunks of
            Inl e \<Rightarrow> (k2, Inl e)
          | Inr (line, _) \<Rightarrow> (k2, read_reply ''RPC error: '' line))))"

definition dc_close :: "daemon_client \<Rightarrow> daemon_client" where
  "dc_close k = k\<lparr>dc_open := False\<rparr>"

section \<open>A call from the client to the method and back\<close>

lemma recv_line_chunks:
  "concat chunks \<noteq> [] \<Longrightarrow> last (buf @ concat chunks) = newline \<Longrightarrow> newline \<notin> set (butlast (buf @ concat chunks)) \<Longrightarrow>
     \<forall>ch \<in> set chunks. ch \<noteq> [] \<Longrightarrow> recv_line buf chunks = Inr (buf @ concat chunks, [])"
proof (induction chunks arbitrary: buf)
  case (Cons ch chunks)
  have nl: "\<not> (buf \<noteq> [] \<and> last buf = newline)"
  proof
    assume b: "buf \<noteq> [] \<and> last buf = newline"
    have "butlast (buf @ concat (ch # chunks)) = buf @ butlast (concat (ch # chunks))"
      using Cons.prems(1) by (simp only: butlast_append if_False)
    then show False using Cons.prems(3) b last_in_set by (metis UnI1 set_append)
  qed
  show ?case
  proof (cases "concat chunks = []")
    case True
    then have c: "chunks = []" using Cons.prems(4) by (cases chunks) auto
    have "recv_line (buf @ ch) [] = Inr (buf @ ch, [])"
      using Cons.prems c by (subst recv_line.simps) auto
    then show ?thesis using nl c by (subst recv_line.simps) simp
  next
    case False
    then have "recv_line (buf @ ch) chunks = Inr ((buf @ ch) @ concat chunks, [])"
      using Cons.prems by (intro Cons.IH) auto
    then show ?thesis using nl by (subst recv_line.simps) simp
  qed
qed simp

text \<open>
  What the two ends rely on: a request survives its line, and a reply is one line of JSON
  with the fields of its model.
\<close>

definition reply_json :: "rpc_message \<Rightarrow> json" where
  "reply_json m =
     (case m of
        Response i r \<Rightarrow> JObj [(''jsonrpc'', JStr ''2.0''), (''id'', JStr i), (''result'', r)]
      | ErrorResponse i e t \<Rightarrow>
          JObj [(''jsonrpc'', JStr ''2.0''), (''id'', case i of None \<Rightarrow> JNull | Some x \<Rightarrow> JStr x),
                (''error'', JObj [(''code'', JInt (error_number e)), (''message'', JStr t)])]
      | Event n p \<Rightarrow> JObj [(''jsonrpc'', JStr ''2.0''), (''method'', JStr n), (''params'', p)])"

locale rpc_wire =
  fixes C :: "request json_codec" and dump :: "rpc_message \<Rightarrow> string" and ok :: "request \<Rightarrow> bool" and okm :: "rpc_message \<Rightarrow> bool"
  assumes request_line: "ok rq \<Longrightarrow> validate_json C (bytes_strip (encode C rq)) = Some rq"
    and reply_loads: "okm m \<Longrightarrow> loads (dump m @ [newline]) = Some (reply_json m)"
    and reply_one_line: "okm m \<Longrightarrow> newline \<notin> set (dump m)"
begin

lemma reply_received:
  assumes "okm m" "concat chunks = dump m @ [newline]" "\<forall>ch \<in> set chunks. ch \<noteq> []"
  shows "recv_line [] chunks = Inr (dump m @ [newline], [])"
  using recv_line_chunks [of chunks "[]"] assms(2,3) reply_one_line [OF assms(1)] by simp

lemma read_reply_response: "okm (Response i r) \<Longrightarrow> read_reply p (dump (Response i r) @ [newline]) = Inr r"
  by (simp add: read_reply_def parse_reply_def reply_error_def reply_loads reply_json_def)

lemma read_reply_error: "okm (ErrorResponse i e t) \<Longrightarrow> read_reply p (dump (ErrorResponse i e t) @ [newline]) = Inl (RuntimeError (p @ t))"
  by (simp add: read_reply_def parse_reply_def reply_error_def reply_loads reply_json_def error_text_def json_str_def)

lemma call_answered:
  assumes "se_codec E = C" "ok (call_request name params k)" "c \<in> set (sv_handshake_done s)" "name \<notin> {''hello'', ''subscribe''}"
    and "dict_get (sv_methods s) name = Some (Handler f)" "f params (sv_world s) = (w, r)"
    and "answer_line E c (encode C (call_request name params k)) s = (s', m)"
  shows "s' = s\<lparr>sv_world := w\<rparr>"
    and "m = (case r of Inl e \<Rightarrow> ErrorResponse (Some (rq_id (call_request name params k))) INTERNAL_ERROR (se_text E e)
      | Inr (JObj kvs) \<Rightarrow> Response (rq_id (call_request name params k)) (JObj kvs)
      | Inr _ \<Rightarrow> ErrorResponse (Some (rq_id (call_request name params k))) INTERNAL_ERROR (se_text E ValidationError))"
proof -
  let ?rq = "call_request name params k"
  have rq: "rq_method ?rq = name" "rq_params ?rq = params" by (simp_all add: call_request_def)
  have "answer_line E c (encode C ?rq) s = dispatch E c ?rq s"
    using request_line [OF assms(2)] assms(1,3) by (simp add: answer_line_def)
  moreover have "call_method E c name (Handler f) params s = (s\<lparr>sv_world := w\<rparr>, r)"
    using assms(4,6) by (simp add: call_method_def)
  ultimately have "(s', m) = (s\<lparr>sv_world := w\<rparr>, case r of Inl e \<Rightarrow> ErrorResponse (Some (rq_id ?rq)) INTERNAL_ERROR (se_text E e)
      | Inr (JObj kvs) \<Rightarrow> Response (rq_id ?rq) (JObj kvs)
      | Inr _ \<Rightarrow> ErrorResponse (Some (rq_id ?rq)) INTERNAL_ERROR (se_text E ValidationError))"
    using assms(5,7) by (simp add: dispatch_def rq split: sum.split json.split)
  then show "s' = s\<lparr>sv_world := w\<rparr>"
    and "m = (case r of Inl e \<Rightarrow> ErrorResponse (Some (rq_id ?rq)) INTERNAL_ERROR (se_text E e)
      | Inr (JObj kvs) \<Rightarrow> Response (rq_id ?rq) (JObj kvs)
      | Inr _ \<Rightarrow> ErrorResponse (Some (rq_id ?rq)) INTERNAL_ERROR (se_text E ValidationError))"
    by simp_all
qed

lemma call_returned:
  assumes "okm m" "concat chunks = dump m @ [newline]" "\<forall>ch \<in> set chunks. ch \<noteq> []" "dc_open k"
  shows "snd (dc_call C name params chunks k) = read_reply ''RPC error: '' (dump m @ [newline])"
  using reply_received [OF assms(1-3)] assms(4) by (simp add: dc_call_def Let_def)

end

text \<open>
  A call returns what the method returned. Suppose a request survives its line, and a
  reply is one line of JSON with the fields of its model. Take a client that has shaken
  hands and calls a method the daemon has registered: the method runs once, on the
  parameters of the call and the current world, and, in whatever chunks the reply arrives,
  the client's call returns the dictionary the method returned; if the method raised, the
  call raises a \<open>RuntimeError\<close> with the text of that exception, and the changes the method
  made before it raised stay.
\<close>

theorem rpc_call_roundtrip:
  assumes "\<And>rq. ok rq \<Longrightarrow> validate_json C (bytes_strip (encode C rq)) = Some rq"
    and "\<And>m. okm m \<Longrightarrow> loads (dump m @ [newline]) = Some (reply_json m)"
    and "\<And>m. okm m \<Longrightarrow> newline \<notin> set (dump m)"
    and "se_codec E = C" "ok (call_request name params k)" "c \<in> set (sv_handshake_done s)" "name \<notin> {''hello'', ''subscribe''}"
    and "dict_get (sv_methods s) name = Some (Handler f)" "f params (sv_world s) = (w, r)"
    and "answer_line E c (encode C (call_request name params k)) s = (s', m)" "okm m"
    and "concat chunks = dump m @ [newline]" "\<forall>ch \<in> set chunks. ch \<noteq> []" "dc_open k"
  shows "s' = s\<lparr>sv_world := w\<rparr>
    \<and> snd (dc_call C name params chunks k) = (case r of Inl e \<Rightarrow> Inl (RuntimeError (''RPC error: '' @ se_text E e))
        | Inr (JObj kvs) \<Rightarrow> Inr (JObj kvs)
        | Inr _ \<Rightarrow> Inl (RuntimeError (''RPC error: '' @ se_text E ValidationError)))"
proof -
  have wire: "rpc_wire C dump ok okm" by unfold_locales (use assms(1-3) in auto)
  note answer = rpc_wire.call_answered [OF wire assms(4-10)]
  have ret: "snd (dc_call C name params chunks k) = read_reply ''RPC error: '' (dump m @ [newline])"
    by (rule rpc_wire.call_returned [OF wire assms(11-14)])
  show ?thesis
    using answer assms(11) unfolding ret
    by (auto simp: rpc_wire.read_reply_response [OF wire] rpc_wire.read_reply_error [OF wire] split: sum.split json.split)
qed

text \<open>The wire with the JSON of the two models.\<close>

definition request_json :: "request \<Rightarrow> json" where
  "request_json rq = JObj [(''jsonrpc'', JStr ''2.0''), (''id'', JStr (rq_id rq)), (''method'', JStr (rq_method rq)), (''params'', JObj (rq_params rq))]"

fun as_dict :: "json \<Rightarrow> (string, json) dict option" where
  "as_dict (JObj kvs) = Some kvs"
| "as_dict _ = None"

definition request_codec :: "request json_codec" where
  "request_codec =
     \<lparr>dump_json = (\<lambda>rq. dumps (request_json rq)),
      validate_json = (\<lambda>t. Option.bind (loads t) (\<lambda>j.
        Option.bind (json_field j ''id'' as_str) (\<lambda>i.
        Option.bind (json_field j ''method'' as_str) (\<lambda>n.
        Option.bind (json_field j ''params'' as_dict) (\<lambda>p. Some \<lparr>rq_id = i, rq_method = n, rq_params = p\<rparr>)))))\<rparr>"

lemma loads_dumps_line:
  assumes "wf_json (JObj ((k, v) # kvs))"
  shows "loads (dumps (JObj ((k, v) # kvs)) @ [newline]) = Some (JObj ((k, v) # kvs))"
proof -
  let ?o = "(k, v) # kvs"
  obtain t where t: "dumps_fields ?o = show_str k @ t" by simp
  have "parse_fields (Suc (length (dumps_fields ?o) + 1)) (dumps_fields ?o @ CHR ''}'' # [newline]) = Some (?o, [newline])"
    using assms by (intro parse_dumps(3)) auto
  moreover have "foldl (\<lambda>d (k, v). dict_set d k v) [] ?o = ?o"
    using foldl_dict_set_new [of "[]" ?o] assms by simp
  ultimately have "parse_value (Suc (Suc (length (dumps_fields ?o) + 1))) (dumps (JObj ?o) @ [newline]) = Some (JObj ?o, [newline])"
    using parse_object [of "Suc (length (dumps_fields ?o) + 1)" k "t @ CHR ''}'' # [newline]"] unfolding t
    by (simp del: parse_value.simps parse_fields.simps dumps_fields.simps add: t)
  moreover have "length (dumps (JObj ?o) @ [newline]) = Suc (Suc (length (dumps_fields ?o) + 1))" by simp
  moreover have "skip_ws [newline] = []" by (simp add: skip_ws_def is_ws_def)
  ultimately show ?thesis
    using skip_ws_dumps [of "JObj ?o" "[newline]"]
    by (simp del: parse_value.simps dumps.simps add: loads_def)
qed

lemma request_codec_line:
  assumes "wf_json (JObj (rq_params rq))"
  shows "validate_json request_codec (bytes_strip (encode request_codec rq)) = Some rq"
proof -
  let ?d = "dumps (request_json rq)"
  have m: "?d \<noteq> []" "\<not> ascii_space (hd ?d)" "\<not> ascii_space (last ?d)"
    by (simp_all add: request_json_def ascii_space_def)
  have "bytes_strip (?d @ [newline]) = ?d" by (rule strip_with_snoc) (use m in \<open>simp_all add: ascii_space_def\<close>)
  moreover have "loads ?d = Some (request_json rq)" using assms by (intro loads_dumps) (simp add: request_json_def)
  ultimately show ?thesis
    by (simp add: request_codec_def encode_def request_json_def json_field_def)
qed

interpretation rw: rpc_wire request_codec "\<lambda>m. dumps (reply_json m)" "\<lambda>rq. wf_json (JObj (rq_params rq))" "\<lambda>m. wf_json (reply_json m)"
proof (unfold_locales, goal_cases)
  case (1 rq)
  then show ?case by (rule request_codec_line)
next
  case (2 m)
  then show ?case
    by (cases m) (simp_all add: reply_json_def loads_dumps_line del: dumps.simps)
next
  case (3 m)
  then show ?case by (simp add: dumps_no_newline)
qed

definition demo_inc :: "(string, json) dict \<Rightarrow> nat \<Rightarrow> nat \<times> (py_error + json)" where
  "demo_inc ps n = (Suc n, Inr (JObj [(''n'', JInt (int n))]))"

definition demo_rpc :: "nat socket_server" where
  "demo_rpc = \<lparr>sv_listening = True, sv_conns = [(7, [])], sv_clients = [7], sv_subscriptions = [],
     sv_methods = [(''inc'', Handler demo_inc)], sv_handshake_done = [7], sv_world = 4\<rparr>"

definition demo_rpc_env :: server_env where
  "demo_rpc_env = \<lparr>se_codec = request_codec, se_version = (\<lambda>ps. Some 1), se_text = (\<lambda>e. ''e'')\<rparr>"

definition demo_client :: daemon_client where
  "demo_client = \<lparr>dc_open = True, dc_counter = 0, dc_sent = []\<rparr>"

theorem rpc_call_roundtrip_witness:
  "snd (dc_call request_codec ''inc'' [] [dumps (reply_json (Response ''req-1'' (JObj [(''n'', JInt 4)]))), [newline]] demo_client)
     = Inr (JObj [(''n'', JInt 4)])"
proof -
  let ?rq = "call_request ''inc'' [] demo_client"
  have wf: "wf_json (JObj (rq_params ?rq))" by (simp add: call_request_def)
  have i: "rq_id ?rq = ''req-1''" by (simp add: call_request_def demo_client_def show_nat.simps digit_char_def char_eq_code)
  obtain s' m where a: "answer_line demo_rpc_env 7 (encode request_codec ?rq) demo_rpc = (s', m)" by force
  have h: "se_codec demo_rpc_env = request_codec" "(7 :: nat) \<in> set (sv_handshake_done demo_rpc)" "''inc'' \<notin> {''hello'', ''subscribe''}"
    "dict_get (sv_methods demo_rpc) ''inc'' = Some (Handler demo_inc)"
    "demo_inc [] (sv_world demo_rpc) = (5, Inr (JObj [(''n'', JInt 4)]))"
    by (simp_all add: demo_rpc_env_def demo_rpc_def demo_inc_def)
  have m: "m = Response ''req-1'' (JObj [(''n'', JInt 4)])"
    using rw.call_answered(2) [OF h(1) wf h(2-5) a] i by simp
  show ?thesis
    using rpc_call_roundtrip [where ok = "\<lambda>rq. wf_json (JObj (rq_params rq))" and okm = "\<lambda>m. wf_json (reply_json m)"
        and dump = "\<lambda>m. dumps (reply_json m)", OF rw.request_line rw.reply_loads rw.reply_one_line h(1) wf h(2-5) a,
        of "[dumps (reply_json (Response ''req-1'' (JObj [(''n'', JInt 4)]))), [newline]]"]
    by (simp add: m reply_json_def demo_client_def)
qed

end
