(* ===== verification/Bot_Routing.thy ===== *)
theory Bot_Routing
  imports Channel Project_Config
begin

text \<open>
  Where a Discord message goes. \<open>bot/routing.py\<close> classifies a message by its author, the
  message it replies to, its mentions and its channel; \<open>bot/cogs/mention_router.py\<close> keeps the
  registered agents with their channels and delivers a message to them;
  \<open>bot/cogs/task_relay.py\<close> relays the owner's messages.

  A Discord object is the record of the attributes these functions read. An agent in the
  router's table is a reference of type \<open>'a\<close>; a delivery is the pair of the reference and
  the message sent to it. Saving an attachment either succeeds or fails, as part of the
  message.
\<close>

section \<open>Discord messages\<close>

record discord_message =
  dm_id :: string
  dm_author_id :: int
  dm_author_bot :: bool
  dm_author_name :: string
  dm_author_roles :: "string list option"
  dm_channel_id :: string
  dm_channel_name :: "string option"
  dm_content :: string
  dm_webhook :: bool
  dm_reference :: "int option"
  dm_mentions :: "int list"
  dm_embeds :: "(string option \<times> string option) list"
  dm_attachments :: "(string \<times> string \<times> bool) list"

section \<open>Classification\<close>

datatype route_target = STRATEGIST | AGENT | PM | OWNER_UNADDRESSED | IGNORE

record route_result =
  rr_target :: route_target
  rr_entity_id :: "string option"
  rr_is_reply_to :: "int option"
  rr_is_mention_of :: "string option"

definition route_to :: "route_target \<Rightarrow> route_result" where
  "route_to t = \<lparr>rr_target = t, rr_entity_id = None, rr_is_reply_to = None, rr_is_mention_of = None\<rparr>"

record entity_registry =
  er_bot_user_id :: int
  er_strategist_user_ids :: "int list"

definition PM_PREFIX :: string where
  "PM_PREFIX = ''[PM]''"

text \<open>A character of \<open>[a-zA-Z0-9_-]\<close>.\<close>

definition id_char :: "char \<Rightarrow> bool" where
  "id_char c =
     (let n = of_char c :: nat in
      (97 \<le> n \<and> n \<le> 122) \<or> (65 \<le> n \<and> n \<le> 90) \<or> (48 \<le> n \<and> n \<le> 57) \<or> c = CHR ''_'' \<or> c = CHR ''-'')"

text \<open>\<open>^\[agent-([a-zA-Z0-9_-]+)\]\<close>: the identifier, which a closing bracket ends.\<close>

definition match_agent_prefix :: "string \<Rightarrow> string option" where
  "match_agent_prefix s =
     (if \<not> startswith s ''[agent-'' then None
      else
        (let r = drop 7 s; i = takeWhile id_char r; q = dropWhile id_char r in
         if i \<noteq> [] \<and> q \<noteq> [] \<and> hd q = CHR '']'' then Some i else None))"

datatype entity = PmEntity | AgentEntity string

definition extract_entity_from_prefix :: "string \<Rightarrow> entity option" where
  "extract_entity_from_prefix content =
     (if content = [] then None
      else if startswith content PM_PREFIX then Some PmEntity
      else map_option AgentEntity (match_agent_prefix content))"

fun is_question_embed :: "(string option \<times> string option) list \<Rightarrow> (string \<times> string) option" where
  "is_question_embed [] = None"
| "is_question_embed ((title, footer) # rest) =
     (case (title, footer) of
        (Some t, Some f) \<Rightarrow>
          if startswith t ''Question from '' \<and> startswith f ''Request: '' then Some (drop 14 t, drop 9 f)
          else is_question_embed rest
      | _ \<Rightarrow> is_question_embed rest)"

definition route_message :: "discord_message \<Rightarrow> string \<Rightarrow> entity_registry \<Rightarrow> string option \<Rightarrow> route_result" where
  "route_message m channel_name reg replied_to =
     (if dm_author_bot m \<and> dm_author_id m = er_bot_user_id reg \<and> \<not> startswith (dm_content m) ''[system]'' then route_to IGNORE
      else if dm_webhook m then route_to IGNORE
      else
        (case dm_reference m of
           Some ref \<Rightarrow>
             (case Option.bind replied_to extract_entity_from_prefix of
                Some PmEntity \<Rightarrow> (route_to PM)\<lparr>rr_is_reply_to := Some ref\<rparr>
              | Some (AgentEntity a) \<Rightarrow> (route_to AGENT)\<lparr>rr_entity_id := Some a, rr_is_reply_to := Some ref\<rparr>
              | None \<Rightarrow> (route_to STRATEGIST)\<lparr>rr_is_reply_to := Some ref\<rparr>)
         | None \<Rightarrow>
             if py_contains ''@PM'' (dm_content m) then (route_to PM)\<lparr>rr_is_mention_of := Some ''pm''\<rparr>
             else if list_ex (\<lambda>u. u \<in> set (er_strategist_user_ids reg) \<or> u = er_bot_user_id reg) (dm_mentions m)
             then (route_to STRATEGIST)\<lparr>rr_is_mention_of := Some ''strategist''\<rparr>
             else if startswith channel_name ''agent-'' then (route_to AGENT)\<lparr>rr_entity_id := Some (drop 6 channel_name)\<rparr>
             else if channel_name = ''strategist'' then route_to STRATEGIST
             else route_to IGNORE))"

section \<open>The router\<close>

record 'a mention_router =
  mr_agent_handles :: "(string, 'a) dict"
  mr_handle_channels :: "(string, string) dict"
  mr_channel_handles :: "(string, string) dict"

definition new_mention_router :: "'a mention_router" where
  "new_mention_router = \<lparr>mr_agent_handles = [], mr_handle_channels = [], mr_channel_handles = []\<rparr>"

text \<open>\<open>register_agent\<close> and \<open>register_agent_handle\<close> differ in what they log only.\<close>

definition register_agent :: "string \<Rightarrow> 'a \<Rightarrow> string option \<Rightarrow> 'a mention_router \<Rightarrow> 'a mention_router" where
  "register_agent handle agent channel_id mr =
     (let mr = mr\<lparr>mr_agent_handles := dict_set (mr_agent_handles mr) handle agent\<rparr> in
      (case channel_id of
         None \<Rightarrow> mr
       | Some ch \<Rightarrow> mr\<lparr>mr_handle_channels := dict_set (mr_handle_channels mr) handle ch,
                       mr_channel_handles := dict_set (mr_channel_handles mr) ch handle\<rparr>))"

definition register_agent_handle :: "string \<Rightarrow> 'a \<Rightarrow> string option \<Rightarrow> 'a mention_router \<Rightarrow> 'a mention_router" where
  "register_agent_handle handle_name agent_handle channel_id mr =
     (let mr = mr\<lparr>mr_agent_handles := dict_set (mr_agent_handles mr) handle_name agent_handle\<rparr> in
      (case channel_id of
         None \<Rightarrow> mr
       | Some ch \<Rightarrow> mr\<lparr>mr_handle_channels := dict_set (mr_handle_channels mr) handle_name ch,
                       mr_channel_handles := dict_set (mr_channel_handles mr) ch handle_name\<rparr>))"

definition unregister_agent :: "string \<Rightarrow> 'a mention_router \<Rightarrow> 'a mention_router" where
  "unregister_agent handle mr =
     (let ch = dict_get (mr_handle_channels mr) handle in
      mr\<lparr>mr_handle_channels := dict_pop (mr_handle_channels mr) handle,
         mr_channel_handles := (case ch of Some c \<Rightarrow> if c = [] then mr_channel_handles mr else dict_pop (mr_channel_handles mr) c
                                | None \<Rightarrow> mr_channel_handles mr),
         mr_agent_handles := dict_pop (mr_agent_handles mr) handle\<rparr>)"

text \<open>The directory for attachments is \<open>dir\<close>; an attachment is its name, a time stamp and whether it was saved.\<close>

definition attachment_ref :: "string \<Rightarrow> string \<times> string \<times> bool \<Rightarrow> string" where
  "attachment_ref dir = (\<lambda>(name, stamp, saved).
     if saved then ''[attached file: '' @ dir @ ''/'' @ stamp @ ''_'' @ py_replace '' '' ''_'' name @ '']''
     else ''[failed to download: '' @ name @ '']'')"

definition build_content_with_attachments :: "string \<Rightarrow> discord_message \<Rightarrow> string" where
  "build_content_with_attachments dir m =
     (if dm_attachments m = [] then dm_content m
      else
        (let refs = intercalate [newline] (map (attachment_ref dir) (dm_attachments m)) in
         if dm_content m \<noteq> [] then dm_content m @ [newline] @ refs else refs))"

text \<open>The directory is made when it is needed; if that fails nothing is delivered.\<close>

definition deliver_to_agent :: "string option \<Rightarrow> string \<Rightarrow> discord_message \<Rightarrow> 'a mention_router \<Rightarrow> ('a \<times> head_message) list" where
  "deliver_to_agent dir handle m mr =
     (case dict_get (mr_agent_handles mr) handle of
        None \<Rightarrow> []
      | Some agent \<Rightarrow>
          (case (if dm_attachments m = [] then Some [] else dir) of
             None \<Rightarrow> []
           | Some d \<Rightarrow>
               [(agent, InboundMessage (dm_author_name m) (case dm_channel_name m of None \<Rightarrow> ''unknown'' | Some n \<Rightarrow> n)
                  (build_content_with_attachments d m) (Some (dm_id m)))]))"

definition mr_on_message :: "string option \<Rightarrow> int option \<Rightarrow> discord_message \<Rightarrow> 'a mention_router \<Rightarrow> ('a \<times> head_message) list" where
  "mr_on_message dir bot_user m mr =
     (let own = (bot_user = Some (dm_author_id m)) in
      if dm_author_bot m \<and> \<not> own then []
      else if mr_agent_handles mr = [] then []
      else
        (let source = dict_get (mr_channel_handles mr) (dm_channel_id m) in
         (case (if own then None else source) of
            Some handle \<Rightarrow> deliver_to_agent dir handle m mr
          | None \<Rightarrow>
              concat (map (\<lambda>h. if Some h = source then []
                               else if py_contains (''@'' @ h) (dm_content m) then deliver_to_agent dir h m mr
                               else []) (dict_keys (mr_agent_handles mr))))))"

section \<open>The relay of the owner's messages\<close>

text \<open>The agent a message is relayed to, with the text.\<close>

definition cr_on_message :: "discord_message \<Rightarrow> (string \<times> string) option" where
  "cr_on_message m =
     (case dm_channel_name m of
        None \<Rightarrow> None
      | Some ch \<Rightarrow>
          if dm_author_bot m then None
          else
            (let content = py_strip (dm_content m) in
             if content = [] then None
             else if startswith ch ''task-'' then Some (drop 5 ch, content)
             else if startswith ch ''agent-'' then
               (if py_contains ''@PM'' content then None
                else (case dm_author_roles m of
                        Some roles \<Rightarrow> if ''vco-owner'' \<notin> set roles then None else Some (drop 6 ch, content)
                      | None \<Rightarrow> Some (drop 6 ch, content)))
             else None))"

section \<open>The router's tables\<close>

datatype 'a router_op = Register string 'a | Unregister string

fun router_step :: "(string \<Rightarrow> string option) \<Rightarrow> 'a router_op \<Rightarrow> 'a mention_router \<Rightarrow> 'a mention_router" where
  "router_step chan (Register h a) mr = register_agent_handle h a (chan h) mr"
| "router_step chan (Unregister h) mr = unregister_agent h mr"

text \<open>The agents that are registered after a sequence of calls.\<close>

fun registered_step :: "'a router_op \<Rightarrow> (string \<rightharpoonup> 'a) \<Rightarrow> (string \<rightharpoonup> 'a)" where
  "registered_step (Register h a) f = f(h \<mapsto> a)"
| "registered_step (Unregister h) f = f(h := None)"

definition registered :: "'a router_op list \<Rightarrow> string \<rightharpoonup> 'a" where
  "registered ops = fold registered_step ops Map.empty"

text \<open>Every handle has a channel of its own, or none.\<close>

definition own_channels :: "(string \<Rightarrow> string option) \<Rightarrow> bool" where
  "own_channels chan \<longleftrightarrow> (\<forall>h h' c. chan h = Some c \<longrightarrow> c \<noteq> [] \<and> (chan h' = Some c \<longrightarrow> h' = h))"

definition router_ok :: "(string \<Rightarrow> string option) \<Rightarrow> (string \<rightharpoonup> 'a) \<Rightarrow> 'a mention_router \<Rightarrow> bool" where
  "router_ok chan f mr \<longleftrightarrow>
     dict_ok (mr_agent_handles mr)
     \<and> (\<forall>h. dict_get (mr_agent_handles mr) h = f h \<and> dict_get (mr_handle_channels mr) h = (if f h = None then None else chan h))
     \<and> (\<forall>c h. dict_get (mr_channel_handles mr) c = Some h \<longleftrightarrow> f h \<noteq> None \<and> chan h = Some c)"

lemma router_ok_new: "router_ok chan Map.empty new_mention_router"
  by (simp add: router_ok_def new_mention_router_def)

lemma router_ok_register:
  assumes "own_channels chan" "router_ok chan f mr"
  shows "router_ok chan (f(h \<mapsto> a)) (register_agent_handle h a (chan h) mr)"
proof (cases "chan h")
  case None
  then show ?thesis using assms(2) by (auto simp: router_ok_def register_agent_handle_def dict_simps Let_def)
next
  case (Some c)
  have own: "chan h' = Some c \<longleftrightarrow> h' = h" for h' using assms(1) Some by (auto simp: own_channels_def)
  show ?thesis
    using assms(2) unfolding router_ok_def register_agent_handle_def Let_def Some
    by (auto simp: dict_simps own Some)
qed

lemma router_ok_unregister:
  assumes "own_channels chan" "router_ok chan f mr"
  shows "router_ok chan (f(h := None)) (unregister_agent h mr)"
proof (cases "f h = None \<or> chan h = None")
  case True
  then have "dict_get (mr_handle_channels mr) h = None" using assms(2) by (auto simp: router_ok_def)
  moreover have "dict_get (mr_channel_handles mr) c \<noteq> Some h" for c using True assms(2) by (auto simp: router_ok_def)
  ultimately show ?thesis using assms(2) by (auto simp: router_ok_def unregister_agent_def dict_simps Let_def)
next
  case False
  then obtain c where c: "chan h = Some c" "dict_get (mr_handle_channels mr) h = Some c" using assms(2) by (auto simp: router_ok_def)
  have own: "chan h' = Some c \<longleftrightarrow> h' = h" "c \<noteq> []" for h' using assms(1) c(1) by (auto simp: own_channels_def)
  show ?thesis
    using assms(2) c own unfolding router_ok_def unregister_agent_def Let_def by (auto simp: dict_simps)
qed

lemma router_ok_run:
  "own_channels chan \<Longrightarrow> router_ok chan f mr \<Longrightarrow> router_ok chan (fold registered_step ops f) (fold (router_step chan) ops mr)"
proof (induction ops arbitrary: f mr)
  case (Cons op ops)
  then show ?case by (cases op) (simp_all add: router_ok_register router_ok_unregister)
qed simp

text \<open>The message an agent gets.\<close>

definition inbound :: "string \<Rightarrow> discord_message \<Rightarrow> head_message" where
  "inbound dir m = InboundMessage (dm_author_name m) (case dm_channel_name m of None \<Rightarrow> ''unknown'' | Some n \<Rightarrow> n)
     (build_content_with_attachments dir m) (Some (dm_id m))"

lemma deliver_registered:
  "router_ok chan f mr \<Longrightarrow> deliver_to_agent (Some dir) h m mr = (case f h of None \<Rightarrow> [] | Some a \<Rightarrow> [(a, inbound dir m)])"
  by (auto simp: router_ok_def deliver_to_agent_def inbound_def build_content_with_attachments_def split: option.split)

text \<open>
  C11. A channel reaches its agent. Let every agent be registered under a handle with a
  channel of its own, and take any sequence of registrations and removals. Then a person's
  message in the channel of a registered agent is delivered exactly once, to the agent
  registered there last, whatever it mentions. Any other message that is not from another
  bot, in particular one of the company's own agents' reports, is delivered exactly once to
  each registered agent whose handle it mentions, except to the agent in whose channel it
  was posted, so that no agent is ever sent its own report.
\<close>

theorem channel_reaches_its_agent:
  assumes "own_channels chan" and "mr = fold (router_step chan) ops new_mention_router"
    and "dm_author_bot m \<longrightarrow> bot_user = Some (dm_author_id m)"
  shows "if bot_user \<noteq> Some (dm_author_id m) \<and> (\<exists>h a. chan h = Some (dm_channel_id m) \<and> registered ops h = Some a)
    then \<exists>h a. chan h = Some (dm_channel_id m) \<and> registered ops h = Some a \<and> mr_on_message (Some dir) bot_user m mr = [(a, inbound dir m)]
    else \<exists>hs. distinct hs \<and> set hs = {h. registered ops h \<noteq> None \<and> py_contains (''@'' @ h) (dm_content m) \<and> chan h \<noteq> Some (dm_channel_id m)}
      \<and> mr_on_message (Some dir) bot_user m mr = map (\<lambda>h. (the (registered ops h), inbound dir m)) hs"
proof -
  have ok: "router_ok chan (registered ops) mr"
    unfolding assms(2) registered_def by (rule router_ok_run [OF assms(1) router_ok_new])
  have src: "dict_get (mr_channel_handles mr) c = Some h \<longleftrightarrow> registered ops h \<noteq> None \<and> chan h = Some c" for c h
    using ok by (simp add: router_ok_def)
  have keys: "dict_get (mr_agent_handles mr) = registered ops" using ok by (auto simp: router_ok_def fun_eq_iff)
  have mem: "h \<in> set (dict_keys (mr_agent_handles mr)) \<longleftrightarrow> registered ops h \<noteq> None" for h
    using keys dict_keys_iff_get [of h "mr_agent_handles mr"] by auto
  show ?thesis
  proof (cases "bot_user \<noteq> Some (dm_author_id m) \<and> (\<exists>h a. chan h = Some (dm_channel_id m) \<and> registered ops h = Some a)")
    case True
    then obtain h a where h: "chan h = Some (dm_channel_id m)" "registered ops h = Some a" by blast
    then have "dict_get (mr_channel_handles mr) (dm_channel_id m) = Some h" using src by simp
    moreover have "mr_agent_handles mr \<noteq> []" using mem [of h] h(2) by auto
    ultimately have "mr_on_message (Some dir) bot_user m mr = [(a, inbound dir m)]"
      using True assms(3) deliver_registered [OF ok, of dir h m] h(2) by (simp add: mr_on_message_def Let_def)
    then show ?thesis using True h by auto
  next
    case False
    let ?source = "dict_get (mr_channel_handles mr) (dm_channel_id m)"
    let ?P = "\<lambda>h. py_contains (''@'' @ h) (dm_content m) \<and> Some h \<noteq> ?source"
    let ?hs = "filter ?P (dict_keys (mr_agent_handles mr))"
    have none: "(if bot_user = Some (dm_author_id m) then None else ?source) = None"
      using False src by (cases ?source) auto
    have d: "(if Some h = ?source then [] else if py_contains (''@'' @ h) (dm_content m) then deliver_to_agent (Some dir) h m mr else [])
        = (if ?P h then [(the (registered ops h), inbound dir m)] else [])" if "h \<in> set (dict_keys (mr_agent_handles mr))" for h
      using that deliver_registered [OF ok, of dir h m] mem [of h] by auto
    have c: "concat (map (\<lambda>h. if ?P h then [g h] else []) xs) = map g (filter ?P xs)" for g :: "string \<Rightarrow> 'a \<times> head_message" and xs
      by (induction xs) auto
    have "mr_on_message (Some dir) bot_user m mr = map (\<lambda>h. (the (registered ops h), inbound dir m)) ?hs"
    proof -
      let ?F = "\<lambda>h. if Some h = ?source then [] else if py_contains (''@'' @ h) (dm_content m) then deliver_to_agent (Some dir) h m mr else []"
      have "map ?F (dict_keys (mr_agent_handles mr))
          = map (\<lambda>h. if ?P h then [(the (registered ops h), inbound dir m)] else []) (dict_keys (mr_agent_handles mr))"
        by (rule map_cong [OF refl d])
      then have "concat (map ?F (dict_keys (mr_agent_handles mr))) = map (\<lambda>h. (the (registered ops h), inbound dir m)) ?hs"
        by (simp only: c)
      moreover have "mr_on_message (Some dir) bot_user m mr = concat (map ?F (dict_keys (mr_agent_handles mr)))"
        unfolding mr_on_message_def Let_def none using assms(3) by auto
      ultimately show ?thesis by (rule trans [rotated])
    qed
    moreover have "set ?hs = {h. registered ops h \<noteq> None \<and> py_contains (''@'' @ h) (dm_content m) \<and> chan h \<noteq> Some (dm_channel_id m)}"
    proof -
      have "Some h \<noteq> ?source \<longleftrightarrow> \<not> (registered ops h \<noteq> None \<and> chan h = Some (dm_channel_id m))" for h
        using src [of "dm_channel_id m" h] by (metis (no_types))
      then show ?thesis using mem by (auto simp del: set_map)
    qed
    moreover have "distinct ?hs" using ok by (simp add: router_ok_def)
    ultimately show ?thesis unfolding if_not_P [OF False] by (intro exI [of _ ?hs]) (intro conjI)
  qed
qed

definition demo_message :: discord_message where
  "demo_message = \<lparr>dm_id = ''9'', dm_author_id = 5, dm_author_bot = False, dm_author_name = ''o'', dm_author_roles = None, dm_channel_id = ''c1'',
     dm_channel_name = Some ''task-x'', dm_content = ''hi @y'', dm_webhook = False, dm_reference = None, dm_mentions = [], dm_embeds = [],
     dm_attachments = []\<rparr>"

definition demo_channel :: "string \<Rightarrow> string option" where
  "demo_channel h = (if h = ''x'' then Some ''c1'' else if h = ''y'' then Some ''c2'' else None)"

theorem channel_reaches_its_agent_witness:
  "mr_on_message (Some ''d'') (Some 1) demo_message
     (fold (router_step demo_channel) [Register ''x'' (10 :: nat), Register ''y'' 20, Register ''x'' 30] new_mention_router)
   = [(30, inbound ''d'' demo_message)]"
proof -
  let ?ops = "[Register ''x'' (10 :: nat), Register ''y'' 20, Register ''x'' 30]"
  have own: "own_channels demo_channel" by (auto simp: own_channels_def demo_channel_def split: if_splits)
  have x: "demo_channel ''x'' = Some (dm_channel_id demo_message)" "registered ?ops ''x'' = Some 30" "dm_author_id demo_message = 5" "\<not> dm_author_bot demo_message"
    by (simp_all add: demo_channel_def demo_message_def registered_def)
  then have "\<exists>h a. demo_channel h = Some (dm_channel_id demo_message) \<and> registered ?ops h = Some a
      \<and> mr_on_message (Some ''d'') (Some 1) demo_message (fold (router_step demo_channel) ?ops new_mention_router) = [(a, inbound ''d'' demo_message)]"
    using channel_reaches_its_agent [OF own refl, of demo_message "Some 1" ?ops "''d''"] by (auto split: if_splits)
  then obtain h a where h: "demo_channel h = Some (dm_channel_id demo_message)" "registered ?ops h = Some a"
    "mr_on_message (Some ''d'') (Some 1) demo_message (fold (router_step demo_channel) ?ops new_mention_router) = [(a, inbound ''d'' demo_message)]"
    by blast
  have "h = ''x''" using h(1) by (auto simp: demo_channel_def demo_message_def split: if_splits)
  with h x(2) show ?thesis by simp
qed

section \<open>Replies to an agent\<close>

lemma split_on_char: "concat (split_on [c] acc s) = rev acc @ filter (\<lambda>d. d \<noteq> c) s"
  by (induction s arbitrary: acc) (auto simp: startswith_def)

lemma intercalate_Nil: "intercalate [] xs = concat xs"
proof (induction "[] :: string" xs rule: intercalate.induct)
  case (3 x y xs)
  then show ?case by simp
qed simp_all

lemma replace_char: "py_replace [c] [] s = filter (\<lambda>d. d \<noteq> c) s"
  by (simp add: py_replace_def py_split_on_def intercalate_Nil split_on_char)

lemma valid_id_chars:
  assumes "id_must_be_alphanumeric v = Inr v" "\<forall>c \<in> set v. (of_char c :: nat) < 128"
  shows "v \<noteq> [] \<and> (\<forall>c \<in> set v. id_char c)"
proof -
  have v: "v \<noteq> []" "py_isalnum (filter (\<lambda>d. d \<noteq> CHR ''_'') (filter (\<lambda>d. d \<noteq> CHR ''-'') v))"
    using assms(1) by (auto simp: id_must_be_alphanumeric_def replace_char split: if_splits)
  have "id_char c" if "c \<in> set v" for c
  proof (cases "c = CHR ''_'' \<or> c = CHR ''-''")
    case True
    then show ?thesis by (auto simp: id_char_def)
  next
    case False
    then have "alnum_char c" using v(2) that by (auto simp: py_isalnum_def list_all_iff)
    moreover have "(of_char c :: nat) < 128" using assms(2) that by blast
    ultimately show ?thesis by (auto simp: alnum_char_def id_char_def Let_def)
  qed
  then show ?thesis using v(1) by blast
qed

lemma agent_prefix_roundtrip:
  assumes "v \<noteq> []" "\<forall>c \<in> set v. id_char c"
  shows "extract_entity_from_prefix (''[agent-'' @ v @ '']'' @ rest) = Some (AgentEntity v)"
proof -
  have b: "\<not> id_char (CHR '']'')" by (simp add: id_char_def)
  have "takeWhile id_char (v @ '']'' @ rest) = v" "dropWhile id_char (v @ '']'' @ rest) = '']'' @ rest"
    using assms(2) b by (simp_all add: takeWhile_append dropWhile_append)
  then have "match_agent_prefix (''[agent-'' @ v @ '']'' @ rest) = Some v"
    using assms(1) b by (simp add: match_agent_prefix_def startswith_def)
  then show ?thesis by (simp add: extract_entity_from_prefix_def PM_PREFIX_def startswith_def)
qed

text \<open>
  A reply reaches the agent it answers. If an identifier passes the validator of the
  project's configuration and is ASCII, a person's reply to a message that starts with the
  agent's prefix is routed to that agent, whatever the reply says and wherever it is
  posted.
\<close>

theorem reply_reaches_agent:
  assumes "id_must_be_alphanumeric v = Inr v" "\<forall>c \<in> set v. (of_char c :: nat) < 128"
    and "dm_author_id m \<noteq> er_bot_user_id reg" "\<not> dm_webhook m" "dm_reference m = Some ref"
  shows "route_message m channel reg (Some (''[agent-'' @ v @ '']'' @ rest))
    = \<lparr>rr_target = AGENT, rr_entity_id = Some v, rr_is_reply_to = Some ref, rr_is_mention_of = None\<rparr>"
proof -
  have "extract_entity_from_prefix (''[agent-'' @ v @ '']'' @ rest) = Some (AgentEntity v)"
    using agent_prefix_roundtrip valid_id_chars [OF assms(1,2)] by blast
  then show ?thesis unfolding route_message_def using assms(3-5) by (simp add: route_to_def)
qed

theorem reply_reaches_agent_witness:
  "route_message (demo_message\<lparr>dm_reference := Some 3\<rparr>) ''general'' \<lparr>er_bot_user_id = 1, er_strategist_user_ids = []\<rparr> (Some (''[agent-'' @ ''a-1'' @ '']'' @ '' done''))
    = \<lparr>rr_target = AGENT, rr_entity_id = Some ''a-1'', rr_is_reply_to = Some 3, rr_is_mention_of = None\<rparr>"
proof (rule reply_reaches_agent)
  show "id_must_be_alphanumeric ''a-1'' = Inr ''a-1''"
    by (simp add: id_must_be_alphanumeric_def replace_char py_isalnum_def alnum_char_def)
qed (simp_all add: demo_message_def)

end
