(* ===== verification/Runtime_Api.thy ===== *)
theory Runtime_Api
  imports Company_Root Bot_Routing Worker
begin

text \<open>
  The daemon's gateway to the company root, \<open>daemon/runtime_api.py\<close>, and its socket
  handlers in \<open>daemon/daemon.py\<close>: hiring an agent together with its channel, tasks,
  dismissal, alerts, review decisions and the relay of messages, with the router that
  brings Discord messages to the agents' handles.

  The router refers to an agent's handle object. As the root keeps handles under the
  agent's identifier, a reference is the identifier with the number of the hire that made
  the handle; it is alive as long as that hire is the agent's last and the agent was not
  dismissed. The communication port never raises (without a bot it is the port that does
  nothing); what it creates, unique task identifiers and spawned connections are arguments.
  Creating projects from files, check-ins, stand-ups and the workflow master are left out.
\<close>

section \<open>State\<close>

datatype agent_ref = CompanyAgent agent_id nat | ProjectChild string agent_id

record 'c runtime_api =
  ra_root :: "'c company_root"
  ra_channel_ids :: "(string, string) dict"
  ra_project_config :: "project_config option"
  ra_project_dir :: "string option"
  ra_mention_router :: "agent_ref mention_router option"
  ra_created :: "(string \<times> string) list"
  ra_posted :: "(string \<times> string) list"
  ra_hires :: "agent_id \<Rightarrow> nat"

definition new_runtime_api :: "'c company_root \<Rightarrow> 'c runtime_api" where
  "new_runtime_api r =
     \<lparr>ra_root = r, ra_channel_ids = [], ra_project_config = None, ra_project_dir = None, ra_mention_router = None,
      ra_created = [], ra_posted = [], ra_hires = (\<lambda>a. 0)\<rparr>"

definition set_mention_router :: "agent_ref mention_router \<Rightarrow> 'c runtime_api \<Rightarrow> 'c runtime_api" where
  "set_mention_router mr api = api\<lparr>ra_mention_router := Some mr\<rparr>"

definition register_channels :: "(string, string) dict \<Rightarrow> 'c runtime_api \<Rightarrow> 'c runtime_api" where
  "register_channels chans api = api\<lparr>ra_channel_ids := fold (\<lambda>(n, i) d. dict_set d n i) chans (ra_channel_ids api)\<rparr>"

definition get_channel_id :: "string \<Rightarrow> 'c runtime_api \<Rightarrow> string option" where
  "get_channel_id name api = dict_get (ra_channel_ids api) name"

definition ra_post :: "string \<Rightarrow> string \<Rightarrow> 'c runtime_api \<Rightarrow> 'c runtime_api" where
  "ra_post ch content api = api\<lparr>ra_posted := ra_posted api @ [(ch, content)]\<rparr>"

text \<open>\<open>if ch: send_message(ch, text)\<close>; an empty identifier counts as none.\<close>

definition post_if :: "string option \<Rightarrow> string \<Rightarrow> 'c runtime_api \<Rightarrow> 'c runtime_api" where
  "post_if ch content api = (case ch of Some c \<Rightarrow> if c = [] then api else ra_post c content api | None \<Rightarrow> api)"

section \<open>Hiring\<close>

text \<open>The root's hire, which makes a new handle object when it succeeds.\<close>

definition root_hire :: "root_env \<Rightarrow> hire_env \<Rightarrow> agent_id \<Rightarrow> string \<Rightarrow> string option \<Rightarrow> string option \<Rightarrow> string option
    \<Rightarrow> 'c runtime_api \<Rightarrow> ('c runtime_api, agent_handle) outcome" where
  "root_hire env henv a template ty chan persona api =
     (case hire env henv a template ty chan ''native'' persona (ra_root api) of
        (r, Inl e) \<Rightarrow> (api\<lparr>ra_root := r\<rparr>, Inl e)
      | (r, Inr h) \<Rightarrow> (api\<lparr>ra_root := r, ra_hires := (ra_hires api)(a := Suc (ra_hires api a))\<rparr>, Inr h))"

definition register_handle :: "string \<Rightarrow> agent_id \<Rightarrow> string option \<Rightarrow> 'c runtime_api \<Rightarrow> 'c runtime_api" where
  "register_handle name a chan api =
     api\<lparr>ra_mention_router :=
       map_option (register_agent_handle name (CompanyAgent a (ra_hires api a)) chan) (ra_mention_router api)\<rparr>"

definition hired_text :: "agent_id \<Rightarrow> string \<Rightarrow> string" where
  "hired_text a ty = ''Hired **'' @ a @ ''** (type: `'' @ ty @ ''`). Starting up...''"

definition ra_hire :: "root_env \<Rightarrow> hire_env \<Rightarrow> string option \<Rightarrow> agent_id \<Rightarrow> string \<Rightarrow> string option
    \<Rightarrow> 'c runtime_api \<Rightarrow> ('c runtime_api, agent_id) outcome" where
  "ra_hire env henv channel a template ty api =
     (let api = api\<lparr>ra_created := ra_created api @ [(''vco-tasks'', ''task-'' @ a)]\<rparr>;
          api = (case channel of
                   None \<Rightarrow> api
                 | Some ch \<Rightarrow> api\<lparr>ra_channel_ids := dict_set (ra_channel_ids api) (''task-'' @ a) ch\<rparr>) in
      (case root_hire env henv a template ty channel None api of
         (api, Inl e) \<Rightarrow> (api, Inl e)
       | (api, Inr h) \<Rightarrow>
           (let ety = (case ty of Some t \<Rightarrow> if t = [] then template else t | None \<Rightarrow> template);
                api = post_if channel (hired_text a ety) api in
            (register_handle (''agent-'' @ a) a channel api, Inr (ah_agent_id h)))))"

definition create_strategist :: "root_env \<Rightarrow> hire_env \<Rightarrow> string \<Rightarrow> 'c runtime_api \<Rightarrow> ('c runtime_api, unit) outcome" where
  "create_strategist env henv persona api =
     (let channel = get_channel_id ''strategist'' api in
      (case root_hire env henv ''strategist'' ''generic'' (Some ''company'') channel (Some persona) api of
         (api, Inl e) \<Rightarrow> (api, Inl e)
       | (api, Inr h) \<Rightarrow> (register_handle ''Strategist'' ''strategist'' channel api, Inr ())))"

section \<open>Operations on an agent\<close>

definition set_handle :: "agent_id \<Rightarrow> agent_handle \<Rightarrow> 'c runtime_api \<Rightarrow> 'c runtime_api" where
  "set_handle a h api = api\<lparr>ra_root := (ra_root api)\<lparr>cr_agents := dict_set (cr_agents (ra_root api)) a h\<rparr>\<rparr>"

definition handle_send :: "root_env \<Rightarrow> agent_id \<Rightarrow> head_message \<Rightarrow> agent_handle \<Rightarrow> 'c runtime_api \<Rightarrow> ('c runtime_api, unit) outcome" where
  "handle_send env a msg h api = (case ah_send (re_up env a) msg h of (h', res) \<Rightarrow> (set_handle a h' api, res))"

definition not_found :: "agent_id \<Rightarrow> py_error" where
  "not_found a = KeyError (''Agent '' @ py_repr a @ '' not found'')"

definition ra_give_task :: "root_env \<Rightarrow> string \<Rightarrow> agent_id \<Rightarrow> string \<Rightarrow> 'c runtime_api \<Rightarrow> ('c runtime_api, unit) outcome" where
  "ra_give_task env task_id a task api =
     (case find_handle a (ra_root api) of
        None \<Rightarrow> (api, Inl (not_found a))
      | Some h \<Rightarrow> handle_send env a (GiveTaskMessage task_id task (JObj [])) h api)"

definition ra_dismiss :: "root_env \<Rightarrow> agent_id \<Rightarrow> 'c runtime_api \<Rightarrow> ('c runtime_api, unit) outcome" where
  "ra_dismiss env a api = (case dismiss env a (ra_root api) of (r, res) \<Rightarrow> (api\<lparr>ra_root := r\<rparr>, res))"

definition ra_dispatch :: "root_env \<Rightarrow> (py_error + socket) \<Rightarrow> agent_id \<Rightarrow> 'c runtime_api \<Rightarrow> ('c runtime_api, unit) outcome" where
  "ra_dispatch env spawn a api =
     (case find_handle a (ra_root api) of
        None \<Rightarrow> (api, Inl (not_found a))
      | Some h \<Rightarrow>
          if ah_is_alive h then (api, Inr ())
          else
            (let name = (case get_agent a (cr_routing (ra_root api)) of Some rt \<Rightarrow> ar_transport_type rt | None \<Rightarrow> ''native'') in
             (case cr_get_transport name (ra_root api) of
                (r, Inl e) \<Rightarrow> (api\<lparr>ra_root := r\<rparr>, Inl e)
              | (r, Inr _) \<Rightarrow>
                  (let api = api\<lparr>ra_root := r\<rparr> in
                   (case spawn of
                      Inl e \<Rightarrow> (api, Inl e)
                    | Inr so \<Rightarrow>
                        (case ah_send (re_up env a) (StartMessage a (ah_config h)) (attach_socket so h) of
                           (h', Inl e) \<Rightarrow> (set_handle a h' api, Inl e)
                         | (h', Inr _) \<Rightarrow> (set_handle a (h'\<lparr>ah_reader_task := True\<rparr>) api, Inr ())))))))"

definition stop_agent :: "root_env \<Rightarrow> agent_id \<Rightarrow> 'c runtime_api \<Rightarrow> ('c runtime_api, unit) outcome" where
  "stop_agent env a api =
     (case find_handle a (ra_root api) of
        None \<Rightarrow> (api, Inl (not_found a))
      | Some h \<Rightarrow> (set_handle a (stop_process (re_up env a) (fst (re_exit env a)) (snd (re_exit env a)) h) api, Inr ()))"

definition kill :: "root_env \<Rightarrow> agent_id \<Rightarrow> 'c runtime_api \<Rightarrow> ('c runtime_api, unit) outcome" where
  "kill env a api = stop_agent env a api"

definition relaunch :: "root_env \<Rightarrow> agent_id \<Rightarrow> 'c runtime_api \<Rightarrow> ('c runtime_api, unit) outcome" where
  "relaunch env a api = stop_agent env a api"

definition relay_channel_message :: "root_env \<Rightarrow> agent_id \<Rightarrow> string \<Rightarrow> 'c runtime_api \<Rightarrow> 'c runtime_api \<times> bool" where
  "relay_channel_message env a content api =
     (case find_handle a (ra_root api) of
        None \<Rightarrow> (api, False)
      | Some h \<Rightarrow>
          (case handle_send env a (InboundMessage ''system'' ''relay'' content None) h api of
             (api', Inl _) \<Rightarrow> (api', False)
           | (api', Inr _) \<Rightarrow> (api', True)))"

definition review_message :: "string \<Rightarrow> head_message" where
  "review_message decision = InboundMessage ''PM'' ''plan-review'' (''[Review Decision] '' @ decision) None"

definition resolve_review :: "root_env \<Rightarrow> agent_id \<Rightarrow> string \<Rightarrow> 'c runtime_api \<Rightarrow> ('c runtime_api, bool) outcome" where
  "resolve_review env a decision api =
     (case find_handle a (ra_root api) of
        None \<Rightarrow> (api, Inr False)
      | Some h \<Rightarrow>
          (case handle_send env a (review_message decision) h api of
             (api', Inl e) \<Rightarrow> (api', Inl e)
           | (api', Inr _) \<Rightarrow> (api', Inr True)))"

text \<open>The plan's file name is an argument; it only appears in the announcement.\<close>

definition send_review :: "root_env \<Rightarrow> agent_id \<Rightarrow> string \<Rightarrow> 'c runtime_api \<Rightarrow> ('c runtime_api, unit) outcome" where
  "send_review env a decision api =
     (case find_handle a (ra_root api) of
        None \<Rightarrow> (api, Inr ())
      | Some h \<Rightarrow> handle_send env a (review_message decision) h api)"

definition handle_plan_approval :: "root_env \<Rightarrow> agent_id \<Rightarrow> string \<Rightarrow> 'c runtime_api \<Rightarrow> ('c runtime_api, unit) outcome" where
  "handle_plan_approval env a plan api =
     send_review env a ''approve''
       (post_if (get_channel_id ''plan-review'' api) (''Plan **approved** for `'' @ a @ ''`: `'' @ plan @ ''`'') api)"

definition handle_plan_rejection :: "root_env \<Rightarrow> agent_id \<Rightarrow> string \<Rightarrow> string \<Rightarrow> 'c runtime_api \<Rightarrow> ('c runtime_api, unit) outcome" where
  "handle_plan_rejection env a plan feedback api =
     send_review env a (''reject '' @ feedback)
       (post_if (get_channel_id ''plan-review'' api)
         (''Plan **rejected** for `'' @ a @ ''`: `'' @ plan @ ''`'' @ [newline] @ ''Feedback: '' @ feedback) api)"

section \<open>Status\<close>

definition ra_status :: "'c runtime_api \<Rightarrow> json" where
  "ra_status api = JObj
     [(''projects'', JObj (map (\<lambda>(p, ps). (p, JObj [(''agents'', JInt (int (length (children ps))))])) (cr_projects (ra_root api)))),
      (''company_agents'', JArr (map JStr (dict_keys (cr_agents (ra_root api)))))]"

definition get_agent_states :: "'c runtime_api \<Rightarrow> (agent_id \<times> string \<times> string) list" where
  "get_agent_states api = map (\<lambda>(a, h). (a, ah_agent_type h, ah_state h)) (cr_agents (ra_root api))"

definition get_container_info :: "agent_id \<Rightarrow> 'c runtime_api \<Rightarrow> json option" where
  "get_container_info a api =
     (case find_handle a (ra_root api) of
        None \<Rightarrow> None
      | Some h \<Rightarrow> Some (JObj [(''agent_id'', JStr a), (''state'', JStr (ah_state h)), (''agent_type'', JStr (ah_agent_type h)),
                            (''has_make_completion_event'', JBool False)]))"

definition run_integration :: "'c runtime_api \<Rightarrow> py_error + json" where
  "run_integration api =
     (if ra_project_config api = None \<or> ra_project_dir api = None then Inr (JObj [(''error'', JStr ''No project configured'')])
      else Inl (TypeError ''unexpected keyword argument project_config''))"

section \<open>Alerts\<close>

definition on_escalation :: "string \<Rightarrow> 'c runtime_api \<Rightarrow> 'c runtime_api" where
  "on_escalation msg api = post_if (get_channel_id ''alerts'' api) (''ESCALATION: '' @ msg) api"

definition on_degraded :: "'c runtime_api \<Rightarrow> 'c runtime_api" where
  "on_degraded api = post_if (get_channel_id ''alerts'' api)
     ''WARNING: System entered degraded mode (Claude API unreachable). New dispatches blocked. Will auto-recover.'' api"

definition on_recovered :: "'c runtime_api \<Rightarrow> 'c runtime_api" where
  "on_recovered api = post_if (get_channel_id ''alerts'' api)
     ''RECOVERED: System recovered from degraded mode. Claude API reachable. Normal operations resumed.'' api"

definition on_trigger_integration_review :: "'c runtime_api \<Rightarrow> 'c runtime_api" where
  "on_trigger_integration_review api =
     (case ra_project_config api of
        None \<Rightarrow> api
      | Some cfg \<Rightarrow> post_if (get_channel_id ''alerts'' api) (''[PM] Integration review requested for project '' @ pc_project cfg
          @ ''. Please review agent branches for merge readiness.'') api)"

definition on_send_intervention :: "agent_id \<Rightarrow> string \<Rightarrow> 'c runtime_api \<Rightarrow> 'c runtime_api" where
  "on_send_intervention a msg api =
     (case get_channel_id a api of
        Some ch \<Rightarrow> if ch = [] then post_if (get_channel_id ''alerts'' api) (''[PM] '' @ msg) api else ra_post ch (''[PM] '' @ msg) api
      | None \<Rightarrow> post_if (get_channel_id ''alerts'' api) (''[PM] '' @ msg) api)"

section \<open>Projects\<close>

definition unregister_handle :: "string \<Rightarrow> 'c runtime_api \<Rightarrow> 'c runtime_api" where
  "unregister_handle name api = api\<lparr>ra_mention_router := map_option (unregister_agent name) (ra_mention_router api)\<rparr>"

definition ra_remove_project :: "('c \<Rightarrow> bool) \<Rightarrow> 'c child_class \<Rightarrow> string \<Rightarrow> 'c runtime_api \<Rightarrow> ('c runtime_api, unit) outcome" where
  "ra_remove_project has_backlog C project api =
     (let api =
        (case ra_mention_router api of
           None \<Rightarrow> api
         | Some _ \<Rightarrow>
             unregister_handle ''Strategist''
               (case dict_get (cr_projects (ra_root api)) project of
                  None \<Rightarrow> api
                | Some ps \<Rightarrow>
                    fold (\<lambda>(i, c). unregister_handle (if has_backlog c then ''PM'' @ project else ''agent-'' @ i)) (children ps) api)) in
      (case remove_project C project (ra_root api) of
         (r, Inl e) \<Rightarrow> (api\<lparr>ra_root := r\<rparr>, Inl e)
       | (r, Inr _) \<Rightarrow> (api\<lparr>ra_root := r\<rparr>, Inr ())))"

section \<open>A Discord message arrives\<close>

text \<open>
  This is the delivery by \<open>MentionRouterCog\<close>. In a channel whose name starts with \<open>task-\<close> or \<open>agent-\<close> the relay cog
  (\<open>bot/cogs/task_relay.py\<close>) writes the same message to the agent a second time; that copy is not part of this step.
\<close>

definition deliver_ref :: "root_env \<Rightarrow> agent_ref \<times> head_message \<Rightarrow> 'c runtime_api \<Rightarrow> 'c runtime_api" where
  "deliver_ref env = (\<lambda>(ref, msg) api.
     (case ref of
        CompanyAgent a n \<Rightarrow>
          (case find_handle a (ra_root api) of
             Some h \<Rightarrow> if ra_hires api a = n then fst (handle_send env a msg h api) else api
           | None \<Rightarrow> api)
      | ProjectChild p i \<Rightarrow> api))"

definition message_arrives :: "root_env \<Rightarrow> string option \<Rightarrow> int option \<Rightarrow> discord_message \<Rightarrow> 'c runtime_api \<Rightarrow> 'c runtime_api" where
  "message_arrives env dir bot_user m api =
     (case ra_mention_router api of
        None \<Rightarrow> api
      | Some mr \<Rightarrow> fold (deliver_ref env) (mr_on_message dir bot_user m mr) api)"

section \<open>A hired agent is reachable in its channel\<close>

lemma save_routing_agents [simp]: "cr_agents (save_routing env h t r) = cr_agents r"
  by (simp add: save_routing_def Let_def)

lemma post_if_frame [simp]:
  "ra_root (post_if ch t api) = ra_root api" "ra_mention_router (post_if ch t api) = ra_mention_router api"
  "ra_hires (post_if ch t api) = ra_hires api" "ra_channel_ids (post_if ch t api) = ra_channel_ids api"
  by (simp_all add: post_if_def ra_post_def split: option.split)

lemma root_hire_success:
  assumes "root_hire env henv a template ty chan persona api = (api', Inr h)"
  shows "find_handle a (ra_root api') = Some h" "ah_channel_id h = chan" "ah_agent_id h = a"
    and "ra_hires api' = (ra_hires api)(a := Suc (ra_hires api a))" "ra_mention_router api' = ra_mention_router api"
    and "\<And>b. b \<noteq> a \<Longrightarrow> find_handle b (ra_root api') = find_handle b (ra_root api)"
proof -
  obtain r where r: "hire env henv a template ty chan ''native'' persona (ra_root api) = (r, Inr h)"
    and api': "api' = api\<lparr>ra_root := r, ra_hires := (ra_hires api)(a := Suc (ra_hires api a))\<rparr>"
    using assms by (auto simp: root_hire_def split: prod.splits sum.splits)
  have "cr_agents r = dict_set (cr_agents (ra_root api)) a h \<and> same_agent (hired_handle henv a ty chan persona) h"
    by (rule hire_cases [OF r]) auto
  moreover have "ah_channel_id (hired_handle henv a ty chan persona) = chan"
    by (simp add: hired_handle_def new_agent_handle_def Let_def)
  ultimately show "find_handle a (ra_root api') = Some h" "ah_channel_id h = chan" "ah_agent_id h = a"
    and "\<And>b. b \<noteq> a \<Longrightarrow> find_handle b (ra_root api') = find_handle b (ra_root api)"
    by (simp_all add: api' find_handle_def dict_simps same_agent_def hired_handle_simps)
  show "ra_hires api' = (ra_hires api)(a := Suc (ra_hires api a))" "ra_mention_router api' = ra_mention_router api"
    by (simp_all add: api')
qed

lemma ra_hire_success:
  assumes "ra_hire env henv (Some ch) a template ty api = (api', Inr i)" "ra_mention_router api = Some mr"
  shows "\<exists>h. find_handle a (ra_root api') = Some h \<and> ah_channel_id h = Some ch \<and> i = a"
    and "ra_mention_router api' = Some (register_agent_handle (''agent-'' @ a) (CompanyAgent a (ra_hires api' a)) (Some ch) mr)"
proof -
  let ?api = "api\<lparr>ra_created := ra_created api @ [(''vco-tasks'', ''task-'' @ a)], ra_channel_ids := dict_set (ra_channel_ids api) (''task-'' @ a) ch\<rparr>"
  obtain api1 h where 1: "root_hire env henv a template ty (Some ch) None ?api = (api1, Inr h)"
    and api': "api' = register_handle (''agent-'' @ a) a (Some ch)
      (post_if (Some ch) (hired_text a (case ty of Some t \<Rightarrow> if t = [] then template else t | None \<Rightarrow> template)) api1)"
    and i: "i = ah_agent_id h"
    using assms(1) unfolding ra_hire_def Let_def by (auto split: prod.splits sum.splits)
  note s = root_hire_success [OF 1]
  show "\<exists>h. find_handle a (ra_root api') = Some h \<and> ah_channel_id h = Some ch \<and> i = a"
    using s(1-3) i unfolding api' by (simp add: register_handle_def)
  show "ra_mention_router api' = Some (register_agent_handle (''agent-'' @ a) (CompanyAgent a (ra_hires api' a)) (Some ch) mr)"
    using s(5) assms(2) unfolding api' by (simp add: register_handle_def)
qed

lemma registered_channel:
  "dict_get (mr_channel_handles (register_agent_handle n x (Some ch) mr)) ch = Some n"
  "dict_get (mr_agent_handles (register_agent_handle n x (Some ch) mr)) n = Some x"
  by (simp_all add: register_agent_handle_def Let_def dict_simps)

text \<open>A person's message in a channel goes to the agent registered there, dead or alive.\<close>

lemma person_message:
  assumes "dict_get (mr_channel_handles mr) (dm_channel_id m) = Some n" "dict_get (mr_agent_handles mr) n = Some x"
    and "\<not> dm_author_bot m" "bot_user \<noteq> Some (dm_author_id m)"
  shows "mr_on_message (Some dir) bot_user m mr = [(x, inbound dir m)]"
  using assms by (cases "mr_agent_handles mr")
    (simp_all add: mr_on_message_def deliver_to_agent_def inbound_def build_content_with_attachments_def Let_def)

text \<open>
  C10. A hired agent is reachable in its channel. Whatever was registered before, once a
  hire with a channel has succeeded, a person's message in that channel is written to the
  connection of exactly that agent, with its attachments, and to no other agent; and the
  agent's handle reports to the same channel.
\<close>

theorem hired_agent_reachable:
  assumes "ra_hire env henv (Some ch) a template ty api = (api', Inr i)" and "ra_mention_router api = Some mr"
    and "dm_channel_id m = ch" "\<not> dm_author_bot m" "bot_user \<noteq> Some (dm_author_id m)"
  shows "\<exists>h. find_handle a (ra_root api') = Some h \<and> ah_channel_id h = Some ch
    \<and> find_handle a (ra_root (message_arrives env' (Some dir) bot_user m api')) = Some (fst (ah_send (re_up env' a) (inbound dir m) h))
    \<and> (\<forall>b. b \<noteq> a \<longrightarrow> find_handle b (ra_root (message_arrives env' (Some dir) bot_user m api')) = find_handle b (ra_root api'))"
proof -
  obtain h where h: "find_handle a (ra_root api') = Some h" "ah_channel_id h = Some ch"
    using ra_hire_success(1) [OF assms(1,2)] by blast
  note mr = ra_hire_success(2) [OF assms(1,2)]
  have "mr_on_message (Some dir) bot_user m (register_agent_handle (''agent-'' @ a) (CompanyAgent a (ra_hires api' a)) (Some ch) mr)
      = [(CompanyAgent a (ra_hires api' a), inbound dir m)]"
    by (rule person_message) (use assms(3-5) registered_channel in auto)
  then have "message_arrives env' (Some dir) bot_user m api' = fst (handle_send env' a (inbound dir m) h api')"
    unfolding message_arrives_def mr using h(1) by (simp add: deliver_ref_def)
  moreover have "fst (handle_send env' a (inbound dir m) h api') = set_handle a (fst (ah_send (re_up env' a) (inbound dir m) h)) api'"
    by (simp add: handle_send_def split: prod.split)
  ultimately show ?thesis
    using h by (intro exI [of _ h]) (simp add: set_handle_def find_handle_def dict_simps)
qed

definition demo_api :: "string runtime_api" where
  "demo_api = set_mention_router new_mention_router (new_runtime_api demo_root)"

lemma demo_hired: "\<exists>api. ra_hire (demo_root_env []) demo_hire_env (Some ''c1'') ''a'' ''generic'' None demo_api = (api, Inr ''a'')"
  by (simp add: demo_api_def set_mention_router_def new_runtime_api_def ra_hire_def root_hire_def hire_def run_deploy_def demo_hire_env_def
      cr_get_transport_def ah_send_def attach_socket_def hired_handle_def new_agent_handle_def demo_root_def new_company_root_def rs_load_def Let_def)

theorem hired_agent_reachable_witness:
  "\<exists>api h. ra_hire (demo_root_env []) demo_hire_env (Some ''c1'') ''a'' ''generic'' None demo_api = (api, Inr ''a'')
     \<and> find_handle ''a'' (ra_root api) = Some h
     \<and> find_handle ''a'' (ra_root (message_arrives (demo_root_env []) (Some ''d'') (Some 1) demo_message api))
       = Some (fst (ah_send True (inbound ''d'' demo_message) h))"
proof -
  obtain api where api: "ra_hire (demo_root_env []) demo_hire_env (Some ''c1'') ''a'' ''generic'' None demo_api = (api, Inr ''a'')"
    using demo_hired by blast
  have "ra_mention_router demo_api = Some new_mention_router" "dm_channel_id demo_message = ''c1''" "\<not> dm_author_bot demo_message"
    "Some 1 \<noteq> Some (dm_author_id demo_message)" "re_up (demo_root_env []) ''a''"
    by (simp_all add: demo_api_def set_mention_router_def demo_message_def demo_root_env_def)
  then show ?thesis
    using hired_agent_reachable [OF api, of new_mention_router demo_message "Some 1" "demo_root_env []" "''d''"] api by auto
qed

section \<open>A dismissed agent keeps its channel\<close>

text \<open>
  A dismissed agent's channel swallows messages. The router is not told of a
  dismissal: after an agent was hired with a channel and dismissed, a person's message in
  that channel changes nothing, even if it mentions the handles of other agents.
\<close>

theorem dismissed_channel_is_dead:
  assumes "ra_hire env henv (Some ch) a template ty api = (api1, Inr i)" and "ra_mention_router api = Some mr"
    and "ra_dismiss env2 a api1 = (api2, res)"
    and "dm_channel_id m = ch" "\<not> dm_author_bot m" "bot_user \<noteq> Some (dm_author_id m)"
  shows "res = Inr () \<and> find_handle a (ra_root api2) = None \<and> message_arrives env' (Some dir) bot_user m api2 = api2"
proof -
  obtain h where h: "find_handle a (ra_root api1) = Some h" using ra_hire_success(1) [OF assms(1,2)] by blast
  note mr = ra_hire_success(2) [OF assms(1,2)]
  have res: "res = Inr ()" and api2: "find_handle a (ra_root api2) = None" "ra_mention_router api2 = ra_mention_router api1"
    "ra_hires api2 = ra_hires api1"
    using assms(3) h by (auto simp: ra_dismiss_def dismiss_def find_handle_def remove_routing_def dict_simps Let_def)
  have "mr_on_message (Some dir) bot_user m (register_agent_handle (''agent-'' @ a) (CompanyAgent a (ra_hires api1 a)) (Some ch) mr)
      = [(CompanyAgent a (ra_hires api1 a), inbound dir m)]"
    by (rule person_message) (use assms(4-6) registered_channel in auto)
  then have "message_arrives env' (Some dir) bot_user m api2 = api2"
    unfolding message_arrives_def api2(2) mr using api2(1) by (simp add: deliver_ref_def)
  with res api2(1) show ?thesis by blast
qed

theorem dismissed_channel_is_dead_witness:
  "\<exists>api1 api2. ra_hire (demo_root_env []) demo_hire_env (Some ''c1'') ''a'' ''generic'' None demo_api = (api1, Inr ''a'')
     \<and> ra_dismiss (demo_root_env []) ''a'' api1 = (api2, Inr ())
     \<and> message_arrives (demo_root_env []) (Some ''d'') (Some 1) demo_message api2 = api2"
proof -
  obtain api1 where api1: "ra_hire (demo_root_env []) demo_hire_env (Some ''c1'') ''a'' ''generic'' None demo_api = (api1, Inr ''a'')"
    using demo_hired by blast
  obtain api2 res where api2: "ra_dismiss (demo_root_env []) ''a'' api1 = (api2, res)" by force
  have "ra_mention_router demo_api = Some new_mention_router" "dm_channel_id demo_message = ''c1''" "\<not> dm_author_bot demo_message"
    "Some 1 \<noteq> Some (dm_author_id demo_message)"
    by (simp_all add: demo_api_def set_mention_router_def demo_message_def)
  then show ?thesis
    using dismissed_channel_is_dead [OF api1 _ api2, of new_mention_router demo_message "Some 1" "demo_root_env []" "''d''"] api1 api2 by auto
qed

section \<open>Review decisions are understood\<close>

lemma split_ws_blank: "\<forall>c \<in> set t. py_space c \<Longrightarrow> split_ws acc t = (if acc = [] then [] else [rev acc])"
  by (induction t arbitrary: acc) auto

lemma split_ws_trailing: "\<forall>c \<in> set t. py_space c \<Longrightarrow> split_ws acc (s @ t) = split_ws acc s"
  by (induction s arbitrary: acc) (auto simp: split_ws_blank)

lemma split_ws_leading: "split_ws [] (dropWhile py_space s) = split_ws [] s"
  by (induction s) auto

lemma py_split_strip: "py_split (py_strip s) = py_split s"
proof -
  let ?u = "dropWhile py_space s"
  have "rev ?u = takeWhile py_space (rev ?u) @ dropWhile py_space (rev ?u)" by simp
  then have u: "?u = py_strip s @ rev (takeWhile py_space (rev ?u))"
    unfolding strip_with_def by (metis rev_append rev_rev_ident)
  have "split_ws [] (py_strip s) = split_ws [] (py_strip s @ rev (takeWhile py_space (rev ?u)))"
    by (rule split_ws_trailing [symmetric]) (auto dest: set_takeWhileD)
  also have "\<dots> = split_ws [] s" using u split_ws_leading [of s] by simp
  finally show ?thesis by (simp add: py_split_def)
qed

lemma split_on_skip: "sep \<noteq> [] \<Longrightarrow> hd sep \<notin> set p \<Longrightarrow> split_on sep acc (p @ s) = split_on sep (rev p @ acc) s"
proof (induction p arbitrary: acc)
  case (Cons c p)
  then have "\<not> startswith (c # p @ s) sep" by (cases sep) (auto simp: startswith_def)
  with Cons show ?case by simp
qed simp

lemma concat_split_on: "concat (split_on sep acc s) = rev acc @ concat (split_on sep [] s)"
proof (induction s arbitrary: acc)
  case (Cons c s)
  show ?case using Cons.IH [of "c # acc"] Cons.IH [of "[c]"] by (cases "sep = []") simp_all
qed simp

lemma replace_prefix:
  assumes "old \<noteq> []" "hd old \<notin> set p"
  shows "py_replace old [] (old @ p @ s) = p @ py_replace old [] s"
proof -
  have "startswith (old @ p @ s) old" by simp
  then have "split_on old [] (old @ p @ s) = [] # split_on old [] (p @ s)"
    using assms(1) by (cases old) (simp_all del: startswith_append)
  then have "concat (split_on old [] (old @ p @ s)) = concat (split_on old (rev p) s)"
    using split_on_skip [OF assms, of "[]" s] by simp
  also have "\<dots> = p @ concat (split_on old [] s)" using concat_split_on [of old "rev p" s] by simp
  finally show ?thesis by (simp add: py_replace_def py_split_on_def intercalate_Nil)
qed

lemma session_reads_decision:
  assumes "w \<noteq> []" "\<forall>c \<in> set w. \<not> py_space c" "CHR ''['' \<notin> set w" "wc_pending_review c = Some PendingReview"
    and "rest = [] \<or> (\<exists>r. rest = '' '' @ r)"
  shows "session_handle_message wenv (''[Review Decision] '' @ w @ rest) c
    = (c\<lparr>wc_pending_review := Some (ReviewDone (py_lower w))\<rparr>, Inr ())"
proof -
  have s: "startswith (''[Review Decision] '' @ w @ rest) ''[Review Decision]''" by (simp add: startswith_def)
  obtain q where q: "py_split (py_strip (py_replace ''[Review Decision]'' [] (''[Review Decision] '' @ w @ rest))) = w # q"
  proof (cases "rest = []")
    case True
    have "py_replace ''[Review Decision]'' [] (''[Review Decision]'' @ ('' '' @ w) @ []) = ('' '' @ w) @ py_replace ''[Review Decision]'' [] []"
      by (rule replace_prefix) (use assms(3) in auto)
    then have "py_replace ''[Review Decision]'' [] (''[Review Decision] '' @ w @ rest) = '' '' @ w"
      using True by (simp add: py_replace_def py_split_on_def)
    then show thesis using that [of "[]"] assms(1,2) py_split_single [of w] unfolding py_split_strip
      by (simp add: py_split_def py_space_def)
  next
    case False
    then obtain r where r: "rest = '' '' @ r" using assms(5) by blast
    have "py_replace ''[Review Decision]'' [] (''[Review Decision]'' @ ('' '' @ w @ '' '') @ r) = ('' '' @ w @ '' '') @ py_replace ''[Review Decision]'' [] r"
      by (rule replace_prefix) (use assms(3) in auto)
    then have e: "py_replace ''[Review Decision]'' [] (''[Review Decision] '' @ w @ rest) = '' '' @ w @ '' '' @ py_replace ''[Review Decision]'' [] r"
      using r by simp
    have "py_split (w @ CHR '' '' # py_replace ''[Review Decision]'' [] r) = w # py_split (py_replace ''[Review Decision]'' [] r)"
      by (rule py_split_word) (use assms(1,2) in \<open>auto simp: py_space_def\<close>)
    then show thesis using that unfolding e py_split_strip by (simp add: py_split_def py_space_def)
  qed
  show ?thesis using s q assms(4) by (simp add: session_handle_message_def session_review_def)
qed

text \<open>
  The manager's verdict is understood. Approving or rejecting a plan writes exactly one
  message to the connection of an agent that has a handle, and a session that waits for a
  review takes it as \<open>approve\<close>, or as \<open>reject\<close> whatever the feedback says; nothing
  else of the session changes.
\<close>

theorem review_decision_understood:
  assumes "find_handle a (ra_root api) = Some h" and "wc_pending_review c = Some PendingReview"
    and "(api', res) = handle_plan_approval env a plan api \<and> word = ''approve''
      \<or> (api', res) = handle_plan_rejection env a plan feedback api \<and> word = ''reject''"
  shows "\<exists>content. find_handle a (ra_root api') = Some (fst (ah_send (re_up env a) (InboundMessage ''PM'' ''plan-review'' content None) h))
    \<and> session_handle_message wenv content c = (c\<lparr>wc_pending_review := Some (ReviewDone word)\<rparr>, Inr ())"
proof -
  have send: "find_handle a (ra_root api') = Some (fst (ah_send (re_up env a) (review_message d) h))"
    if "(api', res) = send_review env a d (post_if ch t api)" for d ch t
    using that assms(1) by (auto simp: send_review_def handle_send_def set_handle_def find_handle_def dict_simps split: prod.splits)
  have lower: "py_lower ''approve'' = ''approve''" "py_lower ''reject'' = ''reject''"
    by (simp_all add: py_lower_def lower_char_def)
  show ?thesis using assms(3)
  proof
    assume ap: "(api', res) = handle_plan_approval env a plan api \<and> word = ''approve''"
    have "session_handle_message wenv (''[Review Decision] '' @ ''approve'' @ []) c = (c\<lparr>wc_pending_review := Some (ReviewDone ''approve'')\<rparr>, Inr ())"
      using session_reads_decision [of "''approve''" c "[]" wenv] assms(2) lower by (simp add: py_space_def)
    moreover have "find_handle a (ra_root api') = Some (fst (ah_send (re_up env a) (review_message ''approve'') h))"
      using ap send unfolding handle_plan_approval_def by blast
    ultimately show ?thesis using ap unfolding review_message_def by auto
  next
    assume rj: "(api', res) = handle_plan_rejection env a plan feedback api \<and> word = ''reject''"
    have "session_handle_message wenv (''[Review Decision] '' @ ''reject'' @ '' '' @ feedback) c = (c\<lparr>wc_pending_review := Some (ReviewDone ''reject'')\<rparr>, Inr ())"
      using session_reads_decision [of "''reject''" c "'' '' @ feedback" wenv] assms(2) lower by (simp add: py_space_def)
    moreover have "find_handle a (ra_root api') = Some (fst (ah_send (re_up env a) (review_message (''reject '' @ feedback)) h))"
      using rj send unfolding handle_plan_rejection_def by blast
    ultimately show ?thesis using rj unfolding review_message_def by auto
  qed
qed

theorem review_decision_understood_witness:
  "\<exists>api h api' res content. find_handle ''a'' (ra_root api) = Some h
     \<and> (api', res) = handle_plan_rejection (demo_root_env []) ''a'' ''1-PLAN.md'' ''too big'' (api :: string runtime_api)
     \<and> find_handle ''a'' (ra_root api') = Some (fst (ah_send True (InboundMessage ''PM'' ''plan-review'' content None) h))
     \<and> session_handle_message demo_env content ((demo_worker GsdSessionHandler ''session'' ''gsd'' ''plan'')\<lparr>wc_pending_review := Some PendingReview\<rparr>)
       = ((demo_worker GsdSessionHandler ''session'' ''gsd'' ''plan'')\<lparr>wc_pending_review := Some (ReviewDone ''reject'')\<rparr>, Inr ())"
proof -
  let ?c = "(demo_worker GsdSessionHandler ''session'' ''gsd'' ''plan'')\<lparr>wc_pending_review := Some PendingReview\<rparr>"
  obtain api where "ra_hire (demo_root_env []) demo_hire_env (Some ''c1'') ''a'' ''generic'' None demo_api = (api, Inr ''a'')"
    using demo_hired by blast
  moreover have "ra_mention_router demo_api = Some new_mention_router" by (simp add: demo_api_def set_mention_router_def)
  ultimately obtain h where h: "find_handle ''a'' (ra_root api) = Some h" using ra_hire_success(1) by blast
  obtain api' res where r: "(api', res) = handle_plan_rejection (demo_root_env []) ''a'' ''1-PLAN.md'' ''too big'' api" by (metis surj_pair)
  have "wc_pending_review ?c = Some PendingReview" "re_up (demo_root_env []) ''a''" by (simp_all add: demo_root_env_def)
  then show ?thesis
    using review_decision_understood [OF h, of ?c api' res "demo_root_env []" "''1-PLAN.md''" "''reject''" "''too big''" demo_env] h r by auto
qed

end
