(* ===== verification/Git_Ops.thy ===== *)
theory Git_Ops
  imports Py_String Py_Json
begin

text \<open>
  Commands the daemon runs: the git wrapper \<open>git/ops.py\<close>, and \<open>subprocess.run\<close> as the
  integration pipeline uses it. What a command does is the argument \<open>run\<close>, a function of the
  command and of a world \<open>'w\<close> that it may change; every command that is run is recorded in
  order.
\<close>

record command =
  cm_args :: "string list"
  cm_cwd :: "string option"
  cm_timeout :: nat

text \<open>A process that exits, one that is still running when its time is over, one that cannot be started.\<close>

datatype proc_outcome = Completed int string string | TimeoutExpired | NotStarted

type_synonym 'w runner = "command \<Rightarrow> 'w \<Rightarrow> 'w \<times> proc_outcome"

record 'w shell =
  sh_world :: 'w
  sh_log :: "command list"

definition sh_run :: "'w runner \<Rightarrow> command \<Rightarrow> 'w shell \<Rightarrow> 'w shell \<times> proc_outcome" where
  "sh_run run c sh = (case run c (sh_world sh) of (w, p) \<Rightarrow> (\<lparr>sh_world = w, sh_log = sh_log sh @ [c]\<rparr>, p))"

section \<open>Git\<close>

record git_result =
  gr_success :: bool
  gr_stdout :: string
  gr_stderr :: string
  gr_returncode :: int

definition git_command :: "string list \<Rightarrow> string option \<Rightarrow> nat \<Rightarrow> command" where
  "git_command args cwd timeout = \<lparr>cm_args = ''git'' # args, cm_cwd = cwd, cm_timeout = timeout\<rparr>"

definition run_git :: "'w runner \<Rightarrow> string list \<Rightarrow> string option \<Rightarrow> nat \<Rightarrow> 'w shell \<Rightarrow> ('w shell, git_result) outcome" where
  "run_git run args cwd timeout sh =
     (case sh_run run (git_command args cwd timeout) sh of
        (sh', Completed rc out err) \<Rightarrow>
          (sh', Inr \<lparr>gr_success = (rc = 0), gr_stdout = py_strip out, gr_stderr = py_strip err, gr_returncode = rc\<rparr>)
      | (sh', TimeoutExpired) \<Rightarrow> (sh', Inr \<lparr>gr_success = False, gr_stdout = [], gr_stderr = ''Timeout'', gr_returncode = -1\<rparr>)
      | (sh', NotStarted) \<Rightarrow> (sh', Inl OSError))"

definition git_clone :: "'w runner \<Rightarrow> string \<Rightarrow> string \<Rightarrow> string option \<Rightarrow> 'w shell \<Rightarrow> ('w shell, git_result) outcome" where
  "git_clone run url target branch =
     run_git run ([''clone'', url, target] @ (case branch of Some b \<Rightarrow> if b = [] then [] else [''-b'', b] | None \<Rightarrow> [])) None 60"

definition checkout_new_branch :: "'w runner \<Rightarrow> string \<Rightarrow> string \<Rightarrow> 'w shell \<Rightarrow> ('w shell, git_result) outcome" where
  "checkout_new_branch run branch cwd = run_git run [''checkout'', ''-b'', branch] (Some cwd) 60"

definition git_status :: "'w runner \<Rightarrow> string \<Rightarrow> 'w shell \<Rightarrow> ('w shell, git_result) outcome" where
  "git_status run cwd = run_git run [''status'', ''--porcelain''] (Some cwd) 60"

definition git_log :: "'w runner \<Rightarrow> string \<Rightarrow> string list \<Rightarrow> 'w shell \<Rightarrow> ('w shell, git_result) outcome" where
  "git_log run cwd args = run_git run (''log'' # args) (Some cwd) 60"

definition git_add :: "'w runner \<Rightarrow> string \<Rightarrow> string list \<Rightarrow> 'w shell \<Rightarrow> ('w shell, git_result) outcome" where
  "git_add run cwd paths = run_git run (''add'' # (if paths = [] then [''.''] else paths)) (Some cwd) 60"

definition git_commit :: "'w runner \<Rightarrow> string \<Rightarrow> string \<Rightarrow> 'w shell \<Rightarrow> ('w shell, git_result) outcome" where
  "git_commit run msg cwd = run_git run [''commit'', ''-m'', msg] (Some cwd) 60"

definition git_branch :: "'w runner \<Rightarrow> string \<Rightarrow> 'w shell \<Rightarrow> ('w shell, git_result) outcome" where
  "git_branch run cwd = run_git run [''branch''] (Some cwd) 60"

definition git_merge :: "'w runner \<Rightarrow> string \<Rightarrow> string \<Rightarrow> bool \<Rightarrow> 'w shell \<Rightarrow> ('w shell, git_result) outcome" where
  "git_merge run branch cwd no_ff = run_git run ([''merge''] @ (if no_ff then [''--no-ff''] else []) @ [branch]) (Some cwd) 120"

definition git_fetch :: "'w runner \<Rightarrow> string \<Rightarrow> string \<Rightarrow> 'w shell \<Rightarrow> ('w shell, git_result) outcome" where
  "git_fetch run cwd remote = run_git run [''fetch'', remote] (Some cwd) 120"

definition git_push :: "'w runner \<Rightarrow> string \<Rightarrow> string \<Rightarrow> string option \<Rightarrow> 'w shell \<Rightarrow> ('w shell, git_result) outcome" where
  "git_push run cwd remote branch =
     run_git run ([''push'', remote] @ (case branch of Some b \<Rightarrow> if b = [] then [] else [b] | None \<Rightarrow> [])) (Some cwd) 120"

definition git_diff :: "'w runner \<Rightarrow> string \<Rightarrow> string list \<Rightarrow> 'w shell \<Rightarrow> ('w shell, git_result) outcome" where
  "git_diff run cwd args = run_git run (''diff'' # args) (Some cwd) 60"

definition merge_abort :: "'w runner \<Rightarrow> string \<Rightarrow> 'w shell \<Rightarrow> ('w shell, git_result) outcome" where
  "merge_abort run cwd = run_git run [''merge'', ''--abort''] (Some cwd) 60"

definition git_checkout :: "'w runner \<Rightarrow> string \<Rightarrow> string \<Rightarrow> 'w shell \<Rightarrow> ('w shell, git_result) outcome" where
  "git_checkout run branch cwd = run_git run [''checkout'', branch] (Some cwd) 60"

section \<open>Lemmas\<close>

lemma sh_run_log: "sh_log (fst (sh_run run c sh)) = sh_log sh @ [c]"
  by (simp add: sh_run_def split: prod.split)

lemma run_git_log: "run_git run args cwd timeout sh = (sh', r) \<Longrightarrow> sh_log sh' = sh_log sh @ [git_command args cwd timeout]"
  using sh_run_log [of run "git_command args cwd timeout" sh] by (auto simp: run_git_def split: prod.splits proc_outcome.splits)

lemmas git_defs = git_clone_def checkout_new_branch_def git_status_def git_log_def git_add_def git_commit_def git_branch_def
  git_merge_def git_fetch_def git_push_def git_diff_def merge_abort_def git_checkout_def

section \<open>Replaying a log\<close>

definition replay :: "'w runner \<Rightarrow> command list \<Rightarrow> 'w \<Rightarrow> 'w" where
  "replay run cs w = fold (\<lambda>c w. fst (run c w)) cs w"

text \<open>The commands \<open>cs\<close> lead from one state of the shell to another.\<close>

definition leads :: "'w runner \<Rightarrow> 'w shell \<Rightarrow> command list \<Rightarrow> 'w shell \<Rightarrow> bool" where
  "leads run sh cs sh' \<longleftrightarrow> sh_log sh' = sh_log sh @ cs \<and> sh_world sh' = replay run cs (sh_world sh)"

text \<open>The \<open>i\<close>-th of the commands exits with status 0.\<close>

definition exits_ok :: "'w runner \<Rightarrow> 'w \<Rightarrow> command list \<Rightarrow> nat \<Rightarrow> bool" where
  "exits_ok run w cs i \<longleftrightarrow> (case snd (run (cs ! i) (replay run (take i cs) w)) of Completed rc out err \<Rightarrow> rc = 0 | _ \<Rightarrow> False)"

lemma leads_refl: "leads run sh [] sh"
  by (simp add: leads_def replay_def)

lemma leads_trans: "leads run sh cs sh1 \<Longrightarrow> leads run sh1 cs' sh2 \<Longrightarrow> leads run sh (cs @ cs') sh2"
  by (simp add: leads_def replay_def)

lemma sh_run_leads: "sh_run run c sh = (sh', p) \<Longrightarrow> leads run sh [c] sh' \<and> p = snd (run c (sh_world sh))"
  by (auto simp: sh_run_def leads_def replay_def split: prod.splits)

lemma run_git_leads:
  assumes "run_git run args cwd timeout sh = (sh', r)"
  shows "leads run sh [git_command args cwd timeout] sh' \<and>
    (\<forall>g. r = Inr g \<longrightarrow> gr_success g = exits_ok run (sh_world sh) [git_command args cwd timeout] 0)"
  using assms sh_run_leads [of run "git_command args cwd timeout" sh]
  by (auto simp: run_git_def exits_ok_def replay_def split: prod.splits proc_outcome.splits)

lemma exits_ok_append:
  "exits_ok run w (cs @ cs') i = (if i < length cs then exits_ok run w cs i else exits_ok run (replay run cs w) cs' (i - length cs))"
  by (simp add: exits_ok_def nth_append replay_def)

end
