(* ===== verification/Integration.thy ===== *)
theory Integration
  imports Git_Ops
begin

text \<open>
  The integration of the agents' branches: \<open>integration/models.py\<close>, the pipeline
  \<open>integration/pipeline.py\<close> and the attribution of test failures
  \<open>integration/attribution.py\<close>. The branch name, made from the clock, is an argument; so is
  what every command does.
\<close>

section \<open>Results\<close>

record test_run_result =
  tr_passed :: bool
  tr_total :: nat
  tr_failed :: nat
  tr_failed_tests :: "string list"
  tr_output :: string

datatype integration_status = Success | TestFailure | MergeConflict | PipelineError

record integration_result =
  ir_status :: integration_status
  ir_branch_name :: string
  ir_merged_agents :: "agent_id list"
  ir_test_results :: "test_run_result option"
  ir_attribution :: "(string, string list) dict"
  ir_pr_url :: "string option"
  ir_conflict_files :: "string list"
  ir_error :: "py_error + string"

definition integration_result_of :: "integration_status \<Rightarrow> string \<Rightarrow> agent_id list \<Rightarrow> integration_result" where
  "integration_result_of status branch merged =
     \<lparr>ir_status = status, ir_branch_name = branch, ir_merged_agents = merged, ir_test_results = None, ir_attribution = [],
      ir_pr_url = None, ir_conflict_files = [], ir_error = Inr []\<rparr>"

definition agent_branch :: "agent_id \<Rightarrow> string" where
  "agent_branch a = ''agent/'' @ py_lower a"

section \<open>Reading pytest\<close>

text \<open>The test named in a line of the summary, if it reports a failure.\<close>

definition failed_line :: "string \<Rightarrow> string option" where
  "failed_line line =
     (let l = py_strip line in
      if \<not> startswith l ''FAILED '' then None
      else Some (hd (py_split_on '' - '' (py_split_on '' '' l ! 1))))"

definition failed_lines :: "string \<Rightarrow> string list" where
  "failed_lines output = List.map_filter failed_line (py_splitlines output)"

definition parse_failed_tests :: "string \<Rightarrow> string list \<Rightarrow> string list" where
  "parse_failed_tests output candidates =
     (let in_output = failed_lines output;
          failed = filter (\<lambda>t. t \<in> set in_output) candidates in
      if failed = [] \<and> in_output \<noteq> [] then candidates else failed)"

text \<open>\<open>(\d+) word\<close>: the first number that the word follows.\<close>

fun search_count :: "string \<Rightarrow> string \<Rightarrow> nat option" where
  "search_count w [] = None"
| "search_count w (c # s) =
     (if is_digit c \<and> startswith (dropWhile is_digit s) ('' '' @ w)
      then Some (nat_of_digits (c # takeWhile is_digit s))
      else search_count w s)"

definition count_line :: "string \<Rightarrow> nat \<times> nat \<Rightarrow> nat \<times> nat" where
  "count_line line = (\<lambda>(total, failed).
     if \<not> (py_contains ''passed'' line \<or> py_contains ''failed'' line) then (total, failed)
     else
       (let m_failed = search_count ''failed'' line; m_passed = search_count ''passed'' line;
            failed = (case m_failed of Some n \<Rightarrow> n | None \<Rightarrow> failed) in
        (case m_passed of
           Some n \<Rightarrow> (n + failed, failed)
         | None \<Rightarrow> (case m_failed of Some _ \<Rightarrow> (failed, failed) | None \<Rightarrow> (total, failed)))))"

definition pytest_command :: "string list \<Rightarrow> string \<Rightarrow> nat \<Rightarrow> command" where
  "pytest_command args dir timeout = \<lparr>cm_args = [''uv'', ''run'', ''pytest''] @ args, cm_cwd = Some dir, cm_timeout = timeout\<rparr>"

text \<open>\<open>subprocess.run\<close> with a timeout: exceptions for a process that hangs or cannot be started.\<close>

definition run_process :: "'w runner \<Rightarrow> command \<Rightarrow> 'w shell \<Rightarrow> ('w shell, int \<times> string \<times> string) outcome" where
  "run_process run c sh =
     (case sh_run run c sh of
        (sh', Completed rc out err) \<Rightarrow> (sh', Inr (rc, out, err))
      | (sh', TimeoutExpired) \<Rightarrow> (sh', Inl (RuntimeError ''TimeoutExpired''))
      | (sh', NotStarted) \<Rightarrow> (sh', Inl OSError))"

definition run_tests :: "'w runner \<Rightarrow> string \<Rightarrow> 'w shell \<Rightarrow> ('w shell, test_run_result) outcome" where
  "run_tests run dir sh =
     (case run_process run (pytest_command [''tests/'', ''-x'', ''-q'', ''--tb=line''] dir 600) sh of
        (sh', Inl e) \<Rightarrow> (sh', Inl e)
      | (sh', Inr (rc, out, err)) \<Rightarrow>
          (let output = out @ err; passed = (rc = 0);
               (total, failed) = fold count_line (py_splitlines output) (0, 0) in
           (sh', Inr \<lparr>tr_passed = passed, tr_total = total, tr_failed = failed,
                     tr_failed_tests = (if passed then [] else failed_lines output), tr_output = output\<rparr>)))"

section \<open>Attribution\<close>

text \<open>What one agent's branch alone is blamed for; \<open>None\<close> when nothing is recorded for it.\<close>

definition isolate_agent :: "'w runner \<Rightarrow> string \<Rightarrow> string list \<Rightarrow> agent_id \<Rightarrow> 'w shell \<Rightarrow> ('w shell, string list option) outcome" where
  "isolate_agent run dir tests a sh =
     (case git_checkout run ''main'' dir sh of
        (sh, Inl e) \<Rightarrow> (sh, Inl e)
      | (sh, Inr _) \<Rightarrow>
          (case checkout_new_branch run (''_attr_'' @ a) dir sh of
             (sh, Inl e) \<Rightarrow> (sh, Inl e)
           | (sh, Inr _) \<Rightarrow>
               (case git_merge run (agent_branch a) dir False sh of
                  (sh, Inl e) \<Rightarrow> (sh, Inl e)
                | (sh, Inr m) \<Rightarrow>
                    if \<not> gr_success m then (sh, Inr (Some tests))
                    else
                      (case run_process run (pytest_command (tests @ [''--tb=line'', ''-q'']) dir 300) sh of
                         (sh, Inl e) \<Rightarrow> (sh, Inl e)
                       | (sh, Inr (rc, out, err)) \<Rightarrow>
                           if rc = 0 then (sh, Inr None)
                           else
                             (let failures = parse_failed_tests out tests in
                              (sh, Inr (if failures = [] then None else Some failures)))))))"

text \<open>The \<open>finally\<close> clause: back to the main branch; an exception there replaces the outcome.\<close>

definition isolate_and_return :: "'w runner \<Rightarrow> string \<Rightarrow> string list \<Rightarrow> agent_id \<Rightarrow> 'w shell \<Rightarrow> ('w shell, string list option) outcome" where
  "isolate_and_return run dir tests a sh =
     (case isolate_agent run dir tests a sh of
        (sh, r) \<Rightarrow>
          (case git_checkout run ''main'' dir sh of
             (sh, Inl e) \<Rightarrow> (sh, Inl e)
           | (sh, Inr _) \<Rightarrow> (sh, r)))"

fun attribute_loop :: "'w runner \<Rightarrow> string \<Rightarrow> string list \<Rightarrow> agent_id list \<Rightarrow> (string, string list) dict \<times> string list
    \<Rightarrow> 'w shell \<Rightarrow> ('w shell, (string, string list) dict \<times> string list) outcome" where
  "attribute_loop run dir tests [] acc sh = (sh, Inr acc)"
| "attribute_loop run dir tests (a # as) (attribution, attributed) sh =
     (case isolate_and_return run dir tests a sh of
        (sh, Inl e) \<Rightarrow> (sh, Inl e)
      | (sh, Inr None) \<Rightarrow> attribute_loop run dir tests as (attribution, attributed) sh
      | (sh, Inr (Some ts)) \<Rightarrow> attribute_loop run dir tests as (dict_set attribution a ts, attributed @ ts) sh)"

definition attribute_failures :: "'w runner \<Rightarrow> string \<Rightarrow> string list \<Rightarrow> agent_id list \<Rightarrow> 'w shell
    \<Rightarrow> ('w shell, (string, string list) dict) outcome" where
  "attribute_failures run dir tests agents sh =
     (if tests = [] then (sh, Inr [])
      else
        (case attribute_loop run dir tests agents ([], []) sh of
           (sh, Inl e) \<Rightarrow> (sh, Inl e)
         | (sh, Inr (attribution, attributed)) \<Rightarrow>
             (let unattributed = filter (\<lambda>t. t \<notin> set attributed) tests in
              (sh, Inr (if unattributed = [] then attribution
                        else if length agents > 1 then dict_set attribution ''_interaction'' unattributed
                        else dict_set attribution ''_flaky'' unattributed)))))"

section \<open>Pipeline\<close>

text \<open>\<open>CONFLICT \(.*?\): Merge conflict in (.+)\<close> at the start of a line.\<close>

definition marker :: string where
  "marker = ''): Merge conflict in ''"

fun after_marker :: "string \<Rightarrow> string option" where
  "after_marker [] = None"
| "after_marker (c # s) =
     (if startswith (c # s) marker \<and> drop (length marker) (c # s) \<noteq> [] then Some (drop (length marker) (c # s)) else after_marker s)"

definition conflict_line :: "string \<Rightarrow> string option" where
  "conflict_line line =
     (if startswith line ''CONFLICT ('' then map_option py_strip (after_marker (drop 10 line)) else None)"

definition parse_conflict_files :: "string \<Rightarrow> string list" where
  "parse_conflict_files stderr = List.map_filter conflict_line (py_splitlines stderr)"

definition pr_command :: "agent_id list \<Rightarrow> string \<Rightarrow> string \<Rightarrow> command" where
  "pr_command agents branch dir =
     \<lparr>cm_args = [''gh'', ''pr'', ''create'', ''--title'', ''Integration: '' @ branch,
        ''--body'', ''Merged agents: '' @ intercalate '', '' agents, ''--base'', ''main'', ''--head'', branch],
      cm_cwd = Some dir, cm_timeout = 60\<rparr>"

definition create_pr :: "'w runner \<Rightarrow> agent_id list \<Rightarrow> string \<Rightarrow> string \<Rightarrow> 'w shell \<Rightarrow> ('w shell, string) outcome" where
  "create_pr run agents branch dir sh =
     (case run_process run (pr_command agents branch dir) sh of
        (sh, Inl e) \<Rightarrow> (sh, Inl e)
      | (sh, Inr (rc, out, err)) \<Rightarrow> (sh, Inr (py_strip out)))"

datatype merge_outcome = AllMerged | Conflict agent_id "string list" | MergeRaised py_error

fun merge_loop :: "'w runner \<Rightarrow> string \<Rightarrow> agent_id list \<Rightarrow> agent_id list \<Rightarrow> 'w shell \<Rightarrow> 'w shell \<times> agent_id list \<times> merge_outcome" where
  "merge_loop run dir [] merged sh = (sh, merged, AllMerged)"
| "merge_loop run dir (a # as) merged sh =
     (case git_merge run (agent_branch a) dir False sh of
        (sh, Inl e) \<Rightarrow> (sh, merged, MergeRaised e)
      | (sh, Inr m) \<Rightarrow>
          if gr_success m then merge_loop run dir as (merged @ [a]) sh
          else
            (case merge_abort run dir sh of
               (sh, Inl e) \<Rightarrow> (sh, merged, MergeRaised e)
             | (sh, Inr _) \<Rightarrow> (sh, merged, Conflict a (parse_conflict_files (gr_stderr m)))))"

definition pipeline_error :: "string \<Rightarrow> agent_id list \<Rightarrow> py_error \<Rightarrow> integration_result" where
  "pipeline_error branch merged e = (integration_result_of PipelineError branch merged)\<lparr>ir_error := Inl e\<rparr>"

text \<open>Tests, and then a push with a pull request or the attribution of the failures.\<close>

definition test_and_publish :: "'w runner \<Rightarrow> string \<Rightarrow> string \<Rightarrow> agent_id list \<Rightarrow> agent_id list \<Rightarrow> 'w shell \<Rightarrow> 'w shell \<times> integration_result" where
  "test_and_publish run dir branch agents merged sh =
     (case run_tests run dir sh of
        (sh, Inl e) \<Rightarrow> (sh, pipeline_error branch merged e)
      | (sh, Inr tr) \<Rightarrow>
          if tr_passed tr then
            (case git_push run dir ''origin'' (Some branch) sh of
               (sh, Inl e) \<Rightarrow> (sh, pipeline_error branch merged e)
             | (sh, Inr _) \<Rightarrow>
                 (case create_pr run agents branch dir sh of
                    (sh, Inl e) \<Rightarrow> (sh, pipeline_error branch merged e)
                  | (sh, Inr url) \<Rightarrow>
                      (sh, (integration_result_of Success branch merged)\<lparr>ir_test_results := Some tr, ir_pr_url := Some url\<rparr>)))
          else
            (case attribute_failures run dir (tr_failed_tests tr) agents sh of
               (sh, Inl e) \<Rightarrow> (sh, pipeline_error branch merged e)
             | (sh, Inr attribution) \<Rightarrow>
                 (sh, (integration_result_of TestFailure branch merged)\<lparr>ir_test_results := Some tr, ir_attribution := attribution\<rparr>)))"

definition ip_run :: "'w runner \<Rightarrow> string \<Rightarrow> string \<Rightarrow> agent_id list \<Rightarrow> 'w shell \<Rightarrow> 'w shell \<times> integration_result" where
  "ip_run run dir branch agents sh =
     (case git_fetch run dir ''origin'' sh of
        (sh, Inl e) \<Rightarrow> (sh, pipeline_error branch [] e)
      | (sh, Inr _) \<Rightarrow>
          (case git_checkout run ''main'' dir sh of
             (sh, Inl e) \<Rightarrow> (sh, pipeline_error branch [] e)
           | (sh, Inr _) \<Rightarrow>
               (case checkout_new_branch run branch dir sh of
                  (sh, Inl e) \<Rightarrow> (sh, pipeline_error branch [] e)
                | (sh, Inr _) \<Rightarrow>
                    (case merge_loop run dir agents [] sh of
                       (sh, merged, MergeRaised e) \<Rightarrow> (sh, pipeline_error branch merged e)
                     | (sh, merged, Conflict a files) \<Rightarrow>
                         (sh, (integration_result_of MergeConflict branch merged)\<lparr>ir_conflict_files := files,
                                ir_error := Inr (''Merge conflict with '' @ agent_branch a)\<rparr>)
                     | (sh, merged, AllMerged) \<Rightarrow> test_and_publish run dir branch agents merged sh))))"

section \<open>Lemmas\<close>

lemma isolate_agent_subset:
  assumes "isolate_agent run dir tests a sh = (sh', Inr (Some ts))" and "tests \<noteq> []"
  shows "ts \<noteq> [] \<and> set ts \<subseteq> set tests"
  using assms by (auto simp: isolate_agent_def parse_failed_tests_def Let_def split: prod.splits sum.splits if_splits)

lemma isolate_and_return_result:
  "isolate_and_return run dir tests a sh = (sh', Inr r) \<Longrightarrow> \<exists>sh1. isolate_agent run dir tests a sh = (sh1, Inr r)"
  by (auto simp: isolate_and_return_def split: prod.splits sum.splits)

text \<open>The attribution and the list of the tests attributed so far, as the loop keeps them.\<close>

definition attr_ok :: "string list \<Rightarrow> agent_id list \<Rightarrow> (string, string list) dict \<times> string list \<Rightarrow> bool" where
  "attr_ok tests agents = (\<lambda>(attribution, attributed).
     set (dict_keys attribution) \<subseteq> set agents \<and> set attributed = \<Union> (set ` snd ` set attribution) \<and>
     (\<forall>(a, ts) \<in> set attribution. ts \<noteq> [] \<and> set ts \<subseteq> set tests))"

lemma attribute_loop_ok:
  assumes "attribute_loop run dir tests as acc sh = (sh', Inr acc')" and "tests \<noteq> []"
    and "attr_ok tests done acc" and "distinct (done @ as)"
  shows "attr_ok tests (done @ as) acc'"
  using assms
proof (induction run dir tests as acc sh arbitrary: "done" rule: attribute_loop.induct)
  case (2 run dir tests a as attribution attributed sh)
  obtain sh1 r where iso: "isolate_and_return run dir tests a sh = (sh1, r)" by force
  have a: "a \<notin> set (dict_keys attribution)"
    using "2.prems"(3,4) by (auto simp: attr_ok_def)
  consider e where "r = Inl e" | "r = Inr None" | ts where "r = Inr (Some ts)"
    by (metis old.sum.exhaust not_None_eq)
  then show ?case
  proof cases
    case 1
    then show ?thesis using "2.prems"(1) iso by simp
  next
    case 2
    have "attr_ok tests (done @ [a]) (attribution, attributed)"
      using "2.prems"(3) by (auto simp: attr_ok_def)
    then show ?thesis using "2.IH"(1) [OF iso [symmetric] 2 refl _ "2.prems"(2), of "done @ [a]"] "2.prems" iso 2 by simp
  next
    case 3
    obtain sh2 where "isolate_agent run dir tests a sh = (sh2, Inr (Some ts))"
      using isolate_and_return_result iso 3 by blast
    then have "ts \<noteq> [] \<and> set ts \<subseteq> set tests" using isolate_agent_subset "2.prems"(2) by blast
    then have "attr_ok tests (done @ [a]) (dict_set attribution a ts, attributed @ ts)"
      using "2.prems"(3) a by (auto simp: attr_ok_def dict_set_new)
    then show ?thesis using "2.IH"(2) [OF iso [symmetric] 3 refl _ "2.prems"(2), of "done @ [a]"] "2.prems" iso 3 by simp
  qed
qed simp

text \<open>
  Attribution is complete: when it returns, every failed test is listed under some name and nothing else is listed;
  no list is empty; the names are those of agents and at most one of \<open>_interaction\<close> and \<open>_flaky\<close>, under which exactly the
  tests stand that no agent is blamed for.
\<close>

theorem attribution_complete:
  assumes "attribute_failures run dir tests agents sh = (sh', Inr att)" and "distinct agents"
    and "''_interaction'' \<notin> set agents" "''_flaky'' \<notin> set agents"
  shows "\<Union> (set ` snd ` set att) = set tests \<and> (\<forall>(k, ts) \<in> set att. ts \<noteq> []) \<and>
    (let blamed = \<Union> (set ` snd ` set (filter (\<lambda>(k, ts). k \<in> set agents) att));
         others = filter (\<lambda>(k, ts). k \<notin> set agents) att in
     others = (if set tests \<subseteq> blamed then []
               else [(if length agents > 1 then ''_interaction'' else ''_flaky'', filter (\<lambda>t. t \<notin> blamed) tests)]))"
proof (cases "tests = []")
  case True
  then show ?thesis using assms(1) by (simp add: attribute_failures_def)
next
  case False
  then obtain sh1 attribution attributed where lp: "attribute_loop run dir tests agents ([], []) sh = (sh1, Inr (attribution, attributed))"
    using assms(1) by (auto simp: attribute_failures_def split: prod.splits sum.splits)
  have ok: "attr_ok tests agents (attribution, attributed)"
    using attribute_loop_ok [OF lp False, of "[]"] assms(2) by (simp add: attr_ok_def)
  define un where "un = filter (\<lambda>t. t \<notin> set attributed) tests"
  define k where "k = (if length agents > 1 then ''_interaction'' else ''_flaky'')"
  have k: "k \<notin> set agents" using assms(3,4) by (simp add: k_def)
  have "attribute_failures run dir tests agents sh = (sh1, Inr (if un = [] then attribution else dict_set attribution k un))"
    by (simp add: attribute_failures_def lp False Let_def un_def k_def)
  with assms(1) have att: "att = (if un = [] then attribution else dict_set attribution k un)" by simp
  have keys: "k' \<in> set agents" if "(k', ts) \<in> set attribution" for k' ts
  proof -
    have "set (dict_keys attribution) \<subseteq> set agents" using ok by (simp add: attr_ok_def)
    moreover have "k' \<in> set (dict_keys attribution)" using that by (metis fst_conv image_eqI set_map)
    ultimately show ?thesis by blast
  qed
  have "k \<notin> set (dict_keys attribution)" using keys k by auto
  then have att2: "att = attribution @ (if un = [] then [] else [(k, un)])" using att dict_set_new [of k attribution un] by (cases "un = []") simp_all
  have g1: "filter (\<lambda>(k, ts). k \<in> set agents) attribution = attribution" using keys by (intro filter_True) auto
  have g2: "filter (\<lambda>(k, ts). k \<notin> set agents) attribution = []" using keys by (intro filter_False) auto
  have f1: "filter (\<lambda>(k, ts). k \<in> set agents) att = attribution" unfolding att2 filter_append g1 using k by simp
  have f2: "filter (\<lambda>(k, ts). k \<notin> set agents) att = (if un = [] then [] else [(k, un)])"
    unfolding att2 filter_append g2 using k by simp
  have bl: "set attributed = \<Union> (set ` snd ` set attribution)" using ok by (simp add: attr_ok_def)
  have sub: "set attributed \<subseteq> set tests" using ok by (fastforce simp: attr_ok_def)
  have un: "un = [] \<longleftrightarrow> set tests \<subseteq> set attributed" by (auto simp: un_def filter_empty_conv)
  have "\<Union> (set ` snd ` set att) = set attributed \<union> set un" using att2 bl by auto
  also have "\<dots> = set tests" using sub by (auto simp: un_def)
  finally have t: "\<Union> (set ` snd ` set att) = set tests" .
  have n: "\<forall>(k, ts) \<in> set att. ts \<noteq> []" using ok att2 by (auto simp: attr_ok_def)
  have r: "(if un = [] then [] else [(k, un)])
      = (if set tests \<subseteq> set attributed then []
         else [(if length agents > 1 then ''_interaction'' else ''_flaky'', filter (\<lambda>t. t \<notin> set attributed) tests)])"
    unfolding un unfolding k_def un_def ..
  show ?thesis
    unfolding Let_def f1 f2 bl [symmetric] using t n r by blast
qed

text \<open>A repository in which the second test fails on the branch of agent B only and the first on no branch alone.\<close>

definition demo_repo :: "string runner" where
  "demo_repo c b =
     (let args = cm_args c in
      if length args = 3 \<and> args ! 1 = ''checkout'' then (args ! 2, Completed 0 [] [])
      else if length args = 4 \<and> args ! 1 = ''checkout'' then (args ! 3, Completed 0 [] [])
      else if 2 < length args \<and> args ! 2 = ''pytest'' \<and> b = ''_attr_B'' then (b, Completed 1 (''FAILED t2 - x'') [])
      else (b, Completed 0 [] []))"

lemma demo_attribution:
  "snd (attribute_failures demo_repo ''d'' [''t1'', ''t2''] [''A'', ''B''] \<lparr>sh_world = ''main'', sh_log = []\<rparr>)
     = Inr [(''B'', [''t2'']), (''_interaction'', [''t1''])]"
  by code_simp

theorem attribution_complete_witness:
  "\<Union> (set ` snd ` set [(''B'', [''t2'']), (''_interaction'', [''t1''])]) = set [''t1'', ''t2'']"
proof -
  obtain sh' where "attribute_failures demo_repo ''d'' [''t1'', ''t2''] [''A'', ''B''] \<lparr>sh_world = ''main'', sh_log = []\<rparr>
      = (sh', Inr [(''B'', [''t2'']), (''_interaction'', [''t1''])])"
    using demo_attribution by (metis prod.collapse)
  from attribution_complete [OF this] show ?thesis by auto
qed

section \<open>What a run does\<close>

definition merge_commands :: "string \<Rightarrow> agent_id list \<Rightarrow> command list" where
  "merge_commands dir as = map (\<lambda>a. git_command [''merge'', agent_branch a] (Some dir) 120) as"

definition is_push :: "command \<Rightarrow> bool" where
  "is_push c \<longleftrightarrow> take 2 (cm_args c) = [''git'', ''push'']"

abbreviation quiet :: "command list \<Rightarrow> bool" where
  "quiet cs \<equiv> \<forall>c \<in> set cs. \<not> is_push c"

lemma is_push_git: "is_push (git_command args cwd timeout) \<longleftrightarrow> take 1 args = [''push'']"
  by (simp add: is_push_def git_command_def)

lemma run_process_leads:
  assumes "run_process run c sh = (sh', r)"
  shows "leads run sh [c] sh' \<and> (\<forall>rc out err. r = Inr (rc, out, err) \<longrightarrow> (rc = 0) = exits_ok run (sh_world sh) [c] 0)"
  using assms sh_run_leads [of run c sh] by (auto simp: run_process_def exits_ok_def replay_def split: prod.splits proc_outcome.splits)

text \<open>An operation that only runs commands other than a push.\<close>

definition never_pushes :: "'w runner \<Rightarrow> ('w shell \<Rightarrow> 'w shell \<times> 'a) \<Rightarrow> bool" where
  "never_pushes run f \<longleftrightarrow> (\<forall>sh. \<exists>cs. leads run sh cs (fst (f sh)) \<and> quiet cs)"

lemma never_pushesD: "never_pushes run f \<Longrightarrow> f sh = (sh', r) \<Longrightarrow> \<exists>cs. leads run sh cs sh' \<and> quiet cs"
  by (metis fst_conv never_pushes_def)

lemma never_pushesI: "(\<And>sh sh' r. f sh = (sh', r) \<Longrightarrow> \<exists>cs. leads run sh cs sh' \<and> quiet cs) \<Longrightarrow> never_pushes run f"
  by (metis never_pushes_def prod.collapse)

lemma never_pushes_return: "never_pushes run (\<lambda>sh. (sh, r))"
  by (rule never_pushesI) (use leads_refl in fastforce)

lemma never_pushes_bind:
  assumes "never_pushes run f" and "\<And>r. never_pushes run (g r)"
  shows "never_pushes run (\<lambda>sh. case f sh of (sh', r) \<Rightarrow> g r sh')"
proof (rule never_pushesI)
  fix sh sh2 r2
  assume "(case f sh of (sh', r) \<Rightarrow> g r sh') = (sh2, r2)"
  moreover obtain sh1 r1 where f: "f sh = (sh1, r1)" by force
  ultimately have g: "g r1 sh1 = (sh2, r2)" by simp
  obtain cs1 cs2 where "leads run sh cs1 sh1" "quiet cs1" "leads run sh1 cs2 sh2" "quiet cs2"
    using never_pushesD [OF assms(1) f] never_pushesD [OF assms(2) g] by blast
  then have "leads run sh (cs1 @ cs2) sh2 \<and> quiet (cs1 @ cs2)" using leads_trans by auto
  then show "\<exists>cs. leads run sh cs sh2 \<and> quiet cs" by blast
qed

lemma never_pushes_sum:
  "(\<And>e. never_pushes run (f e)) \<Longrightarrow> (\<And>x. never_pushes run (g x)) \<Longrightarrow>
     never_pushes run (\<lambda>sh. case r of Inl e \<Rightarrow> f e sh | Inr x \<Rightarrow> g x sh)"
  by (cases r) simp_all

lemma never_pushes_option:
  "never_pushes run f \<Longrightarrow> (\<And>x. never_pushes run (g x)) \<Longrightarrow>
     never_pushes run (\<lambda>sh. case r of None \<Rightarrow> f sh | Some x \<Rightarrow> g x sh)"
  by (cases r) simp_all

lemma never_pushes_prod: "(\<And>x y. never_pushes run (f x y)) \<Longrightarrow> never_pushes run (\<lambda>sh. case p of (x, y) \<Rightarrow> f x y sh)"
  by (cases p) simp

lemma never_pushes_if:
  "never_pushes run f \<Longrightarrow> never_pushes run g \<Longrightarrow> never_pushes run (\<lambda>sh. if b then f sh else g sh)"
  by (cases b) simp_all

lemmas never_pushes_case = never_pushes_sum never_pushes_option never_pushes_prod never_pushes_if

lemma never_pushes_git: "take 1 args \<noteq> [''push''] \<Longrightarrow> never_pushes run (run_git run args cwd timeout)"
proof (rule never_pushesI)
  fix sh sh' r
  assume "take 1 args \<noteq> [''push'']" "run_git run args cwd timeout sh = (sh', r)"
  then have "leads run sh [git_command args cwd timeout] sh' \<and> \<not> is_push (git_command args cwd timeout)"
    using run_git_leads is_push_git by metis
  then show "\<exists>cs. leads run sh cs sh' \<and> quiet cs" by (intro exI [of _ "[git_command args cwd timeout]"]) simp
qed

lemma never_pushes_process: "\<not> is_push c \<Longrightarrow> never_pushes run (run_process run c)"
proof (rule never_pushesI)
  fix sh sh' r
  assume c: "\<not> is_push c" and "run_process run c sh = (sh', r)"
  then have "leads run sh [c] sh'" using run_process_leads by blast
  then show "\<exists>cs. leads run sh cs sh' \<and> quiet cs" using c by (intro exI [of _ "[c]"]) simp
qed

lemma not_push_pytest: "\<not> is_push (pytest_command args dir timeout)"
  by (simp add: is_push_def pytest_command_def)

lemmas never_pushes_intros = never_pushes_bind never_pushes_process never_pushes_case never_pushes_return not_push_pytest

lemma git_quiet:
  "never_pushes run (git_checkout run b dir)" "never_pushes run (checkout_new_branch run b dir)" "never_pushes run (git_merge run b dir ff)"
  "never_pushes run (merge_abort run dir)" "never_pushes run (git_fetch run dir remote)"
  unfolding git_defs by (rule never_pushes_git, simp)+

lemma isolate_agent_quiet: "never_pushes run (isolate_agent run dir tests a)"
  unfolding isolate_agent_def [abs_def] Let_def by (intro never_pushes_intros git_quiet)

lemma isolate_and_return_quiet: "never_pushes run (isolate_and_return run dir tests a)"
  unfolding isolate_and_return_def [abs_def] by (intro never_pushes_intros git_quiet isolate_agent_quiet)

lemma attribute_loop_quiet: "never_pushes run (attribute_loop run dir tests as acc)"
proof (induction as arbitrary: acc)
  case (Cons a as)
  obtain attribution attributed where acc: "acc = (attribution, attributed)" by force
  show ?case unfolding acc attribute_loop.simps by (intro never_pushes_intros isolate_and_return_quiet Cons.IH)
qed (rule never_pushesI, auto intro: leads_refl exI [of _ "[]"])

lemma attribute_failures_quiet: "never_pushes run (attribute_failures run dir tests agents)"
  unfolding attribute_failures_def [abs_def] Let_def by (intro never_pushes_intros attribute_loop_quiet)

lemma merge_loop_quiet: "never_pushes run (merge_loop run dir as merged)"
proof (induction as arbitrary: merged)
  case (Cons a as)
  show ?case unfolding merge_loop.simps by (intro never_pushes_intros git_quiet Cons.IH)
qed (rule never_pushesI, auto intro: leads_refl exI [of _ "[]"])

lemma merge_loop_merged:
  assumes "merge_loop run dir as merged sh = (sh', merged', out)"
  shows "\<exists>pre post. as = pre @ post \<and> merged' = merged @ pre \<and>
    (out = AllMerged \<longrightarrow> post = [] \<and> leads run sh (merge_commands dir as) sh' \<and>
       (\<forall>j < length as. exits_ok run (sh_world sh) (merge_commands dir as) j))"
  using assms
proof (induction run dir as merged sh rule: merge_loop.induct)
  case (1 run dir merged sh)
  then show ?case by (simp add: merge_commands_def leads_refl)
next
  case (2 run dir a as merged sh)
  define m where "m = git_command [''merge'', agent_branch a] (Some dir) 120"
  obtain sh1 r where r: "git_merge run (agent_branch a) dir False sh = (sh1, r)" by force
  have l1: "leads run sh [m] sh1" and ok: "\<And>g. r = Inr g \<Longrightarrow> gr_success g = exits_ok run (sh_world sh) [m] 0"
    using run_git_leads [of run "[''merge'', agent_branch a]" "Some dir" 120 sh sh1 r] r by (auto simp: git_merge_def m_def)
  show ?case
  proof (cases "\<exists>g. r = Inr g \<and> gr_success g")
    case True
    then obtain g where g: "r = Inr g" "gr_success g" by blast
    then obtain pre post where pp: "as = pre @ post" "merged' = (merged @ [a]) @ pre"
      "out = AllMerged \<longrightarrow> post = [] \<and> leads run sh1 (merge_commands dir as) sh' \<and>
         (\<forall>j < length as. exits_ok run (sh_world sh1) (merge_commands dir as) j)"
      using "2.IH" [OF r [symmetric] g] "2.prems" r by auto
    have mc: "merge_commands dir (a # as) = [m] @ merge_commands dir as" by (simp add: merge_commands_def m_def)
    have w: "replay run [m] (sh_world sh) = sh_world sh1" using l1 by (simp add: leads_def)
    have "exits_ok run (sh_world sh) (merge_commands dir (a # as)) j" if "out = AllMerged" "j < length (a # as)" for j
      using pp(3) that ok [OF g(1)] g(2) unfolding mc exits_ok_append w by (cases j) auto
    then show ?thesis using pp leads_trans [OF l1] unfolding mc
      by (intro exI [of _ "a # pre"] exI [of _ post]) auto
  next
    case False
    then have "merged' = merged" "out \<noteq> AllMerged" using "2.prems" r by (auto split: sum.splits prod.splits if_splits)
    then show ?thesis by auto
  qed
qed

definition tests_command :: "string \<Rightarrow> command" where
  "tests_command dir = pytest_command [''tests/'', ''-x'', ''-q'', ''--tb=line''] dir 600"

definition push_command :: "string \<Rightarrow> string \<Rightarrow> command" where
  "push_command dir branch = git_command [''push'', ''origin'', branch] (Some dir) 120"

lemma run_tests_leads:
  assumes "run_tests run dir sh = (sh', r)"
  shows "leads run sh [tests_command dir] sh' \<and> (\<forall>tr. r = Inr tr \<longrightarrow> tr_passed tr = exits_ok run (sh_world sh) [tests_command dir] 0)"
proof -
  obtain sh1 p where p: "run_process run (tests_command dir) sh = (sh1, p)" by force
  from run_process_leads [OF this] p assms show ?thesis
    by (auto simp: run_tests_def tests_command_def Let_def split: sum.splits prod.splits)
qed

lemma git_push_leads:
  "git_push run dir ''origin'' (Some branch) sh = (sh', r) \<Longrightarrow> branch \<noteq> [] \<Longrightarrow> leads run sh [push_command dir branch] sh'"
  using run_git_leads [of run "[''push'', ''origin'', branch]" "Some dir" 120 sh sh' r] by (simp add: git_push_def push_command_def)

lemma create_pr_leads: "create_pr run agents branch dir sh = (sh', r) \<Longrightarrow> leads run sh [pr_command agents branch dir] sh'"
  using run_process_leads [of run "pr_command agents branch dir" sh] by (auto simp: create_pr_def split: sum.splits prod.splits)

lemma test_and_publish_leads:
  assumes "test_and_publish run dir branch agents merged sh = (sh', res)" and "branch \<noteq> []"
  shows "ir_merged_agents res = merged \<and> (\<exists>cs. leads run sh cs sh' \<and>
    (quiet cs \<and> ir_status res \<noteq> Success \<or>
     exits_ok run (sh_world sh) cs 0 \<and>
       cs \<in> {[tests_command dir, push_command dir branch], [tests_command dir, push_command dir branch, pr_command agents branch dir]}))"
proof -
  obtain sh1 r where t: "run_tests run dir sh = (sh1, r)" by force
  note l1 = run_tests_leads [OF t, THEN conjunct1]
  have np: "quiet [tests_command dir]" by (simp add: tests_command_def not_push_pytest)
  show ?thesis
  proof (cases r)
    case (Inl e)
    then have "ir_merged_agents res = merged" "ir_status res = PipelineError" "sh' = sh1"
      using assms t by (auto simp: test_and_publish_def pipeline_error_def integration_result_of_def)
    then show ?thesis using l1 np by auto
  next
    case (Inr tr)
    show ?thesis
    proof (cases "tr_passed tr")
      case True
      then have ok: "exits_ok run (sh_world sh) ([tests_command dir] @ cs) 0" for cs
        using run_tests_leads [OF t] Inr by (simp add: exits_ok_def)
      obtain sh2 r2 where p: "git_push run dir ''origin'' (Some branch) sh1 = (sh2, r2)" by force
      obtain sh3 r3 where c: "create_pr run agents branch dir sh2 = (sh3, r3)" by force
      note l2 = leads_trans [OF l1 git_push_leads [OF p assms(2)]]
      note l3 = leads_trans [OF l2 create_pr_leads [OF c]]
      have "sh' = (case r2 of Inl _ \<Rightarrow> sh2 | Inr _ \<Rightarrow> sh3)" "ir_merged_agents res = merged"
        using assms t Inr True p c
        by (auto simp: test_and_publish_def pipeline_error_def integration_result_of_def split: sum.splits)
      then show ?thesis using l2 l3 ok by (cases r2) fastforce+
    next
      case False
      obtain sh2 r2 where f: "attribute_failures run dir (tr_failed_tests tr) agents sh1 = (sh2, r2)" by force
      obtain cs where cs: "leads run sh1 cs sh2" "quiet cs" using never_pushesD [OF attribute_failures_quiet f] by blast
      have "sh' = sh2" "ir_merged_agents res = merged" "ir_status res \<noteq> Success"
        using assms t Inr False f
        by (auto simp: test_and_publish_def pipeline_error_def integration_result_of_def split: sum.splits)
      moreover have "leads run sh ([tests_command dir] @ cs) sh2" "quiet ([tests_command dir] @ cs)"
        using leads_trans [OF l1 cs(1)] np cs(2) by auto
      ultimately show ?thesis by blast
    qed
  qed
qed

definition start_commands :: "string \<Rightarrow> string \<Rightarrow> command list" where
  "start_commands dir branch =
     [git_command [''fetch'', ''origin''] (Some dir) 120, git_command [''checkout'', ''main''] (Some dir) 60,
      git_command [''checkout'', ''-b'', branch] (Some dir) 60]"

text \<open>The part of a run before the merges: it ends early only with an error.\<close>

lemma ip_run_cases:
  assumes "ip_run run dir branch agents sh = (sh', res)"
  obtains (error) cs e where "leads run sh cs sh'" "quiet cs" "res = pipeline_error branch [] e"
  | (merge) sh1 sh2 merged out where "leads run sh (start_commands dir branch) sh1"
      "merge_loop run dir agents [] sh1 = (sh2, merged, out)"
      "(sh', res) = (case out of
          MergeRaised e \<Rightarrow> (sh2, pipeline_error branch merged e)
        | Conflict a files \<Rightarrow> (sh2, (integration_result_of MergeConflict branch merged)\<lparr>ir_conflict_files := files,
                                ir_error := Inr (''Merge conflict with '' @ agent_branch a)\<rparr>)
        | AllMerged \<Rightarrow> test_and_publish run dir branch agents merged sh2)"
proof -
  obtain s1 r1 where 1: "git_fetch run dir ''origin'' sh = (s1, r1)" by force
  obtain s2 r2 where 2: "git_checkout run ''main'' dir s1 = (s2, r2)" by force
  obtain s3 r3 where 3: "checkout_new_branch run branch dir s2 = (s3, r3)" by force
  obtain s4 m4 o4 where 4: "merge_loop run dir agents [] s3 = (s4, m4, o4)" by (metis prod.collapse)
  have l1: "leads run sh [git_command [''fetch'', ''origin''] (Some dir) 120] s1"
    using run_git_leads [OF 1 [unfolded git_fetch_def]] by blast
  have l2: "leads run sh ([git_command [''fetch'', ''origin''] (Some dir) 120] @ [git_command [''checkout'', ''main''] (Some dir) 60]) s2"
    using leads_trans [OF l1] run_git_leads [OF 2 [unfolded git_checkout_def]] by blast
  have l3: "leads run sh (start_commands dir branch) s3"
    using leads_trans [OF l2] run_git_leads [OF 3 [unfolded checkout_new_branch_def]] by (fastforce simp: start_commands_def)
  have q: "quiet (start_commands dir branch)" by (simp add: start_commands_def is_push_git)
  show thesis
  proof (cases "isl r1 \<or> isl r2 \<or> isl r3")
    case True
    then have "(\<exists>e. res = pipeline_error branch [] e) \<and> sh' \<in> {s1, s2, s3}"
      using assms 1 2 3 by (auto simp: ip_run_def split: sum.splits)
    moreover have "\<exists>cs. leads run sh cs s \<and> quiet cs" if "s \<in> {s1, s2, s3}" for s
      using that l1 l2 l3 q by (auto simp: start_commands_def)
    ultimately show thesis using error by blast
  next
    case False
    then have "(sh', res) = (case o4 of
          MergeRaised e \<Rightarrow> (s4, pipeline_error branch m4 e)
        | Conflict a files \<Rightarrow> (s4, (integration_result_of MergeConflict branch m4)\<lparr>ir_conflict_files := files,
                                ir_error := Inr (''Merge conflict with '' @ agent_branch a)\<rparr>)
        | AllMerged \<Rightarrow> test_and_publish run dir branch agents m4 s4)"
      using assms 1 2 3 4 by (auto simp: ip_run_def split: sum.splits merge_outcome.splits)
    then show thesis using merge l3 4 by blast
  qed
qed

lemma push_position:
  assumes "quiet pre" "\<not> is_push t" "quiet r" "i < length (pre @ t # p # r)" "is_push ((pre @ t # p # r) ! i)"
  shows "i = Suc (length pre)"
proof -
  have "\<not> i < length pre" using assms(1,5) by (metis nth_append nth_mem)
  moreover have "i \<noteq> length pre" using assms(2,5) by auto
  moreover have "\<not> Suc (length pre) < i"
  proof
    assume i: "Suc (length pre) < i"
    then have "(pre @ t # p # r) ! i = r ! (i - length pre - 2)" by (simp add: nth_append nth_Cons')
    moreover have "i - length pre - 2 < length r" using assms(4) i by simp
    ultimately show False using assms(3,5) by (metis nth_mem)
  qed
  ultimately show ?thesis by simp
qed

text \<open>
  C23. Only what was merged and tested is published. A run of the pipeline reports as merged the first of the given agents, all
  of them if it got as far as the tests. If it pushes at all, it pushes the integration branch once, right after the fetch, the
  two checkouts, the merges of all agents in order and the test suite, and every merge and the test suite exited with status 0;
  a run that reports success has pushed.
\<close>

theorem pipeline_publishes_tested:
  assumes "ip_run run dir branch agents sh = (sh', res)" and "branch \<noteq> []"
  shows "\<exists>cs. leads run sh cs sh' \<and> (\<exists>rest. agents = ir_merged_agents res @ rest) \<and>
    (ir_status res \<in> {Success, TestFailure} \<longrightarrow> ir_merged_agents res = agents) \<and>
    (let before = start_commands dir branch @ merge_commands dir agents @ [tests_command dir] in
     (\<forall>i < length cs. is_push (cs ! i) \<longrightarrow>
        i = length before \<and> take i cs = before \<and> cs ! i = push_command dir branch \<and>
        (\<forall>j. 3 \<le> j \<and> j < i \<longrightarrow> exits_ok run (sh_world sh) cs j)) \<and>
     (ir_status res = Success \<longrightarrow> length before < length cs \<and> is_push (cs ! length before)))"
  (is "\<exists>cs. ?P cs")
proof -
  have quiet: "?P cs" if "leads run sh cs sh'" "quiet cs" "ir_status res \<noteq> Success"
    "\<exists>rest. agents = ir_merged_agents res @ rest" "ir_status res = TestFailure \<longrightarrow> ir_merged_agents res = agents" for cs
  proof -
    have "\<not> is_push (cs ! i)" if "i < length cs" for i using that \<open>quiet cs\<close> by (metis nth_mem)
    then show ?thesis using that by (auto simp: Let_def)
  qed
  from assms(1) show ?thesis
  proof (cases rule: ip_run_cases)
    case (error cs e)
    then have "?P cs" by (intro quiet) (auto simp: pipeline_error_def integration_result_of_def)
    then show ?thesis by blast
  next
    case (merge sh1 sh2 merged out)
    obtain post where post: "agents = merged @ post" "out = AllMerged \<longrightarrow> post = [] \<and> leads run sh1 (merge_commands dir agents) sh2 \<and>
        (\<forall>j < length agents. exits_ok run (sh_world sh1) (merge_commands dir agents) j)"
      using merge_loop_merged [OF merge(2)] by auto
    show ?thesis
    proof (cases "out = AllMerged")
      case False
      obtain cs where cs: "leads run sh1 cs sh2" "quiet cs" using never_pushesD [OF merge_loop_quiet merge(2)] by blast
      have "sh' = sh2" "ir_status res \<notin> {Success, TestFailure}" "ir_merged_agents res = merged"
        using merge(3) False by (auto simp: pipeline_error_def integration_result_of_def split: merge_outcome.splits)
      moreover have "quiet (start_commands dir branch @ cs)" using cs(2) by (simp add: start_commands_def is_push_git)
      ultimately have "?P (start_commands dir branch @ cs)" using leads_trans [OF merge(1) cs(1)] post(1) by (intro quiet) auto
      then show ?thesis by blast
    next
      case True
      define pre where "pre = start_commands dir branch @ merge_commands dir agents"
      have l: "leads run sh pre sh2" using leads_trans [OF merge(1)] post(2) True by (simp add: pre_def)
      have m: "merged = agents" using post True by simp
      have qp: "quiet pre" by (auto simp: pre_def start_commands_def merge_commands_def is_push_git)
      have w1: "replay run (start_commands dir branch) (sh_world sh) = sh_world sh1" using merge(1) by (simp add: leads_def)
      have w2: "replay run pre (sh_world sh) = sh_world sh2" using l by (simp add: leads_def)
      have ok: "exits_ok run (sh_world sh) (pre @ cs) j" if "3 \<le> j" "j < length pre" for j cs
      proof -
        have "exits_ok run (sh_world sh) pre j"
          unfolding pre_def exits_ok_append w1 using post(2) True that by (simp add: pre_def start_commands_def merge_commands_def)
        then show ?thesis by (simp add: exits_ok_append that)
      qed
      obtain cs where cs: "leads run sh2 cs sh'" and rm: "ir_merged_agents res = agents"
        and c: "quiet cs \<and> ir_status res \<noteq> Success \<or> exits_ok run (sh_world sh2) cs 0 \<and>
          cs \<in> {[tests_command dir, push_command dir branch], [tests_command dir, push_command dir branch, pr_command agents branch dir]}"
        using test_and_publish_leads [of run dir branch agents merged sh2 sh' res] merge(3) True assms(2) m by auto
      note l2 = leads_trans [OF l cs]
      from c show ?thesis
      proof
        assume q: "quiet cs \<and> ir_status res \<noteq> Success"
        have "?P (pre @ cs)" by (rule quiet [OF l2]) (use q qp rm in auto)
        then show ?thesis by blast
      next
        assume q: "exits_ok run (sh_world sh2) cs 0 \<and>
          cs \<in> {[tests_command dir, push_command dir branch], [tests_command dir, push_command dir branch, pr_command agents branch dir]}"
        then obtain r where r: "cs = tests_command dir # push_command dir branch # r" "quiet r"
          by (auto simp: is_push_def pr_command_def)
        have at: "i = Suc (length pre)" if "i < length (pre @ cs)" "is_push ((pre @ cs) ! i)" for i
          using push_position [OF qp _ r(2), of "tests_command dir" i "push_command dir branch"] that r(1)
          by (simp add: tests_command_def not_push_pytest)
        have all: "exits_ok run (sh_world sh) (pre @ cs) j" if "3 \<le> j" "j < Suc (length pre)" for j
        proof (cases "j < length pre")
          case False
          with that have "j = length pre" by simp
          then show ?thesis using q by (simp add: exits_ok_append w2)
        qed (use ok that in simp)
        have p: "is_push (push_command dir branch)" by (simp add: push_command_def is_push_git)
        have b: "start_commands dir branch @ merge_commands dir agents @ [tests_command dir] = pre @ [tests_command dir]"
          by (simp add: pre_def)
        have f: "take (Suc (length pre)) (pre @ cs) = pre @ [tests_command dir]" "(pre @ cs) ! Suc (length pre) = push_command dir branch"
          "Suc (length pre) < length (pre @ cs)"
          using r(1) by (simp_all add: nth_append)
        have "i = length (pre @ [tests_command dir]) \<and> take i (pre @ cs) = pre @ [tests_command dir] \<and> (pre @ cs) ! i = push_command dir branch \<and>
            (\<forall>j. 3 \<le> j \<and> j < i \<longrightarrow> exits_ok run (sh_world sh) (pre @ cs) j)"
          if "i < length (pre @ cs)" "is_push ((pre @ cs) ! i)" for i
          using at [OF that] f all by simp
        then have "?P (pre @ cs)"
          unfolding Let_def b using l2 rm p f by simp
        then show ?thesis by blast
      qed
    qed
  qed
qed

lemma demo_integration:
  "ir_status (snd (ip_run demo_repo ''d'' ''integrate/1'' [''A'', ''B''] \<lparr>sh_world = ''main'', sh_log = []\<rparr>)) = Success"
  by code_simp

theorem pipeline_publishes_tested_witness:
  "\<exists>cs. leads demo_repo \<lparr>sh_world = ''main'', sh_log = []\<rparr> cs (fst (ip_run demo_repo ''d'' ''integrate/1'' [''A'', ''B''] \<lparr>sh_world = ''main'', sh_log = []\<rparr>))
     \<and> cs ! 6 = push_command ''d'' ''integrate/1''"
proof -
  obtain sh' res where r: "ip_run demo_repo ''d'' ''integrate/1'' [''A'', ''B''] \<lparr>sh_world = ''main'', sh_log = []\<rparr> = (sh', res)" by force
  have s: "ir_status res = Success" using demo_integration r by simp
  have "length (start_commands ''d'' ''integrate/1'' @ merge_commands ''d'' [''A'', ''B''] @ [tests_command ''d'']) = 6"
    by (simp add: start_commands_def merge_commands_def)
  then show ?thesis using pipeline_publishes_tested [OF r] s r unfolding Let_def by auto
qed

end
