(* ===== verification/Conflict_Resolver.thy ===== *)
theory Conflict_Resolver
  imports Integration Strategist
begin

text \<open>
  Resolution of merge conflicts by the project manager: \<open>integration/conflict_resolver.py\<close>. A file is the text
  that \<open>read_text\<close> gives, and does not change while the manager thinks; what the manager's process does is an argument with
  a state of its own. The loop over the lines is a \<open>partial_function\<close>, as the \<open>while\<close> loop it is; it is shown to end and to
  give what a scan of the blocks gives.
\<close>

section \<open>Conflict hunks\<close>

definition CONTEXT_LINES :: nat where
  "CONTEXT_LINES = 10"

abbreviation opens :: "string \<Rightarrow> bool" where
  "opens l \<equiv> startswith l ''<<<<<<<''"

abbreviation closes :: "string \<Rightarrow> bool" where
  "closes l \<equiv> startswith l ''>>>>>>>''"

text \<open>The inner loop, which looks for the end marker.\<close>

function find_end :: "string list \<Rightarrow> nat \<Rightarrow> nat" where
  "find_end lines e = (if e < length lines \<and> \<not> closes (lines ! e) then find_end lines (e + 1) else e)"
  by pat_completeness auto
termination
  by (relation "measure (\<lambda>(lines, e). length lines - e)") auto

declare find_end.simps [simp del]

definition hunk_text :: "string list \<Rightarrow> nat \<times> nat \<Rightarrow> string" where
  "hunk_text lines = (\<lambda>(s, e).
     (let ctx_start = s - CONTEXT_LINES; ctx_end = min (length lines) (e + 1 + CONTEXT_LINES) in
      intercalate [CHR 0x0A] (take (ctx_end - ctx_start) (drop ctx_start lines))))"

partial_function (option) scan_hunks :: "string list \<Rightarrow> nat \<Rightarrow> string list \<Rightarrow> string list option" where
  "scan_hunks lines i hunks =
     (if i < length lines then
        if opens (lines ! i) then
          (let e = find_end lines (i + 1) in
           if length lines \<le> e then Some hunks
           else scan_hunks lines (e + 1) (hunks @ [hunk_text lines (i, e)]))
        else scan_hunks lines (i + 1) hunks
      else Some hunks)"

definition extract_conflict_hunks :: "string option \<Rightarrow> string list option" where
  "extract_conflict_hunks file =
     (case file of None \<Rightarrow> Some [] | Some content \<Rightarrow> scan_hunks (py_splitlines content) 0 [])"

section \<open>Replacing a block\<close>

text \<open>\<open>.*?\n>>>>>>>[^\n]*\<close>: what follows the first line of the shortest match.\<close>

fun after_close :: "string \<Rightarrow> string option" where
  "after_close [] = None"
| "after_close (c # s) =
     (if c = CHR 0x0A \<and> closes s then Some (dropWhile (\<lambda>d. d \<noteq> CHR 0x0A) s) else after_close s)"

text \<open>The pattern \<open><<<<<<<[^\n]*\n.*?\n>>>>>>>[^\n]*\<close> matched at the start of a text: what follows the match.\<close>

definition match_block :: "string \<Rightarrow> string option" where
  "match_block s =
     (if \<not> opens s then None
      else (case dropWhile (\<lambda>d. d \<noteq> CHR 0x0A) s of [] \<Rightarrow> None | _ # body \<Rightarrow> after_close body))"

text \<open>The leftmost match: what stands before it, the matched text, what follows.\<close>

fun search_block :: "string \<Rightarrow> (string \<times> string \<times> string) option" where
  "search_block [] = None"
| "search_block (c # s) =
     (case match_block (c # s) of
        Some rest \<Rightarrow> Some ([], take (length (c # s) - length rest) (c # s), rest)
      | None \<Rightarrow> (case search_block s of None \<Rightarrow> None | Some (pre, blk, rest) \<Rightarrow> Some (c # pre, blk, rest)))"

text \<open>
  The replacement of \<open>re.sub\<close> is a template: backslash sequences in it are interpreted. The pattern has no groups, so
  the whole match is the only one that may be named.
\<close>

definition octal :: "char \<Rightarrow> bool" where
  "octal c \<longleftrightarrow> c \<in> set ''01234567''"

definition octal_value :: "string \<Rightarrow> nat" where
  "octal_value ds = foldl (\<lambda>n d. 8 * n + (of_char d - 48)) 0 ds"

definition simple_escape :: "char \<Rightarrow> char option" where
  "simple_escape c =
     map_of [(CHR ''a'', CHR 0x07), (CHR ''b'', CHR 0x08), (CHR ''f'', CHR 0x0C), (CHR ''n'', CHR 0x0A), (CHR ''r'', CHR 0x0D),
             (CHR ''t'', CHR 0x09), (CHR ''v'', CHR 0x0B), (CHR 0x5C, CHR 0x5C)] c"

definition is_letter :: "char \<Rightarrow> bool" where
  "is_letter c \<longleftrightarrow> (let n = of_char c :: nat in (65 \<le> n \<and> n \<le> 90) \<or> (97 \<le> n \<and> n \<le> 122))"

definition py_identifier :: "string \<Rightarrow> bool" where
  "py_identifier name =
     (let other = (\<lambda>c. let n = of_char c :: nat in n \<in> {170, 181, 186} \<or> (192 \<le> n \<and> n \<noteq> 215 \<and> n \<noteq> 247));
          start = (\<lambda>c. is_letter c \<or> c = CHR ''_'' \<or> other c) in
      name \<noteq> [] \<and> start (hd name) \<and> list_all (\<lambda>c. start c \<or> is_digit c \<or> of_char c = (183 :: nat)) name)"

abbreviation re_error :: py_error where
  "re_error \<equiv> RuntimeError ''re.error''"

text \<open>One sequence, without its backslash: what it stands for and the rest of the template.\<close>

definition escape_sequence :: "string \<Rightarrow> string \<Rightarrow> py_error + string \<times> string" where
  "escape_sequence matched s =
     (case s of
        [] \<Rightarrow> Inl re_error
      | c # r \<Rightarrow>
          if c = CHR ''g'' then
            (let name = takeWhile (\<lambda>d. d \<noteq> CHR ''>'') (drop 1 r); rest = dropWhile (\<lambda>d. d \<noteq> CHR ''>'') (drop 1 r) in
             if \<not> startswith r ''<'' \<or> name = [] \<or> rest = [] then Inl re_error
             else if \<not> list_all is_digit name then Inl (if py_identifier name then IndexError else re_error)
             else if nat_of_digits name \<noteq> 0 then Inl re_error
             else Inr (matched, drop 1 rest))
          else if c = CHR ''0'' then
            (let ds = takeWhile octal (take 2 r) in Inr ([char_of (octal_value ds mod 256)], drop (length ds) r))
          else if is_digit c then
            (let ds = c # take 2 r in
             if length ds = 3 \<and> list_all octal ds \<and> octal_value ds \<le> 255 then Inr ([char_of (octal_value ds)], drop 2 r)
             else Inl re_error)
          else
            (case simple_escape c of
               Some d \<Rightarrow> Inr ([d], r)
             | None \<Rightarrow> if is_letter c then Inl re_error else Inr ([CHR 0x5C, c], r)))"

lemma escape_sequence_shorter: "escape_sequence m s = Inr (out, rest) \<Longrightarrow> length rest < length s"
  by (auto simp: escape_sequence_def Let_def split: list.splits if_splits option.splits
      dest: arg_cong [of _ _ length] intro!: le_imp_less_Suc le_trans [OF diff_le_self] le_trans [OF length_dropWhile_le])

function expand_template :: "string \<Rightarrow> string \<Rightarrow> py_error + string" where
  "expand_template matched [] = Inr []"
| "expand_template matched (c # s) =
     (if c \<noteq> CHR 0x5C then (case expand_template matched s of Inl e \<Rightarrow> Inl e | Inr t \<Rightarrow> Inr (c # t))
      else (case escape_sequence matched s of
              Inl e \<Rightarrow> Inl e
            | Inr (out, rest) \<Rightarrow> (case expand_template matched rest of Inl e \<Rightarrow> Inl e | Inr t \<Rightarrow> Inr (out @ t))))"
  by pat_completeness auto
termination
  by (relation "measure (\<lambda>(m, s). length s)") (auto dest: escape_sequence_shorter)

text \<open>A template is compiled, and may be refused, before the text is searched.\<close>

definition apply_resolution :: "string \<Rightarrow> string \<Rightarrow> py_error + string" where
  "apply_resolution content resolved =
     (let template = py_strip resolved in
      case search_block content of
        None \<Rightarrow> (case expand_template [] template of Inl e \<Rightarrow> Inl e | Inr _ \<Rightarrow> Inr content)
      | Some (pre, blk, rest) \<Rightarrow> (case expand_template blk template of Inl e \<Rightarrow> Inl e | Inr t \<Rightarrow> Inr (pre @ t @ rest)))"

section \<open>Resolving files\<close>

text \<open>The manager's process: its state, a question, what becomes of the call.\<close>

type_synonym 'p claude = "'p \<Rightarrow> string \<Rightarrow> 'p \<times> pm_call"

definition hunk_prompt :: "string \<Rightarrow> string" where
  "hunk_prompt hunk =
     ''Resolve this merge conflict. Return ONLY the resolved code, '' @
     ''no explanations or markers. If you cannot confidently resolve it, '' @
     ''respond with exactly 'unsure'.'' @ [CHR 0x0A, CHR 0x0A] @
     ''Conflicting section:'' @ [CHR 0x0A] @ ''```'' @ [CHR 0x0A] @ hunk @ [CHR 0x0A] @ ''```''"

definition UNSURE_KEYWORDS :: "string list" where
  "UNSURE_KEYWORDS = [''unsure'', ''escalate'', ''cannot resolve'', ''not confident'']"

definition unsure :: "string \<Rightarrow> bool" where
  "unsure response = list_ex (\<lambda>k. py_contains k (py_strip (py_lower response))) UNSURE_KEYWORDS"

text \<open>The loop over the hunks; it leaves the last response, or \<open>None\<close> when the manager is not sure.\<close>

fun ask_hunks :: "'p claude \<Rightarrow> string list \<Rightarrow> string \<Rightarrow> 'p \<Rightarrow> ('p, string option) outcome" where
  "ask_hunks claude [] response p = (p, Inr (Some response))"
| "ask_hunks claude (h # hs) response p =
     (case claude p (hunk_prompt h) of
        (p, call) \<Rightarrow>
          (case answer_directly call of
             JStr r \<Rightarrow> if unsure r then (p, Inr None) else ask_hunks claude hs r p
           | _ \<Rightarrow> (p, Inl (AttributeError ''lower''))))"

definition resolve_hunks :: "'p claude \<Rightarrow> string option \<Rightarrow> string list \<Rightarrow> 'p \<Rightarrow> ('p, string option) outcome" where
  "resolve_hunks claude file hunks p =
     (if hunks = [] then (p, Inr None)
      else
        (case ask_hunks claude hunks [] p of
           (p, Inl e) \<Rightarrow> (p, Inl e)
         | (p, Inr None) \<Rightarrow> (p, Inr None)
         | (p, Inr (Some response)) \<Rightarrow>
             (case file of
                None \<Rightarrow> (p, Inl OSError)
              | Some content \<Rightarrow>
                  (case apply_resolution content response of
                     Inl e \<Rightarrow> (p, Inl e)
                   | Inr t \<Rightarrow> (p, Inr (Some t))))))"

text \<open>The outer \<open>None\<close>: the scan for hunks does not end.\<close>

definition cr_resolve :: "'p claude option \<Rightarrow> string option \<Rightarrow> 'p \<Rightarrow> ('p, string option) outcome option" where
  "cr_resolve pm file p =
     (case pm of
        None \<Rightarrow> Some (p, Inr None)
      | Some claude \<Rightarrow> map_option (\<lambda>hunks. resolve_hunks claude file hunks p) (extract_conflict_hunks file))"

text \<open>A path: nothing there, or a file that can be read or not.\<close>

fun resolve_all :: "'p claude option \<Rightarrow> (string \<Rightarrow> string option option) \<Rightarrow> string list \<Rightarrow> (string, string option) dict
    \<Rightarrow> 'p \<Rightarrow> ('p, (string, string option) dict) outcome option" where
  "resolve_all pm files [] results p = Some (p, Inr results)"
| "resolve_all pm files (f # fs) results p =
     (case files f of
        None \<Rightarrow> resolve_all pm files fs (dict_set results f None) p
      | Some file \<Rightarrow>
          (case cr_resolve pm file p of
             None \<Rightarrow> None
           | Some (p, Inl e) \<Rightarrow> Some (p, Inl e)
           | Some (p, Inr r) \<Rightarrow> resolve_all pm files fs (dict_set results f r) p))"

section \<open>The blocks of a file\<close>

text \<open>The line numbers of the markers of every block, by recursion on the lines.\<close>

function conflict_blocks :: "nat \<Rightarrow> string list \<Rightarrow> (nat \<times> nat) list" where
  "conflict_blocks i [] = []"
| "conflict_blocks i (l # ls) =
     (if opens l then
        (let n = length (takeWhile (\<lambda>l. \<not> closes l) ls) in
         if n = length ls then [] else (i, i + 1 + n) # conflict_blocks (i + 2 + n) (drop (n + 1) ls))
      else conflict_blocks (i + 1) ls)"
  by pat_completeness auto
termination
  by (relation "measure (\<lambda>(i, ls). length ls)") auto

lemma find_end_takeWhile:
  "e \<le> length lines \<Longrightarrow> find_end lines e = e + length (takeWhile (\<lambda>l. \<not> closes l) (drop e lines))"
proof (induction lines e rule: find_end.induct)
  case (1 lines e)
  show ?case
  proof (cases "e < length lines")
    case True
    then have d: "drop e lines = lines ! e # drop (Suc e) lines" by (simp add: Cons_nth_drop_Suc)
    show ?thesis using 1 True by (subst find_end.simps) (simp add: d)
  qed (use 1 in \<open>simp add: find_end.simps\<close>)
qed

lemma scan_hunks_blocks:
  assumes "ls = drop i lines" "i \<le> length lines"
  shows "scan_hunks lines i hunks = Some (hunks @ map (hunk_text lines) (conflict_blocks i ls))"
  using assms
proof (induction i ls arbitrary: hunks rule: conflict_blocks.induct)
  case (1 i)
  then show ?case by (subst scan_hunks.simps) simp
next
  case (2 i l ls)
  from "2.prems" have i: "i < length lines" by (metis drop_all le_neq_implies_less list.discI order_refl)
  have l: "lines ! i = l" and ls: "ls = drop (Suc i) lines" using "2.prems"(1) i by (simp_all add: Cons_nth_drop_Suc [symmetric])
  define n where "n = length (takeWhile (\<lambda>l. \<not> closes l) ls)"
  have e: "find_end lines (i + 1) = i + 1 + n" using find_end_takeWhile [of "i + 1" lines] i ls by (simp add: n_def)
  have len: "length lines = i + 1 + length ls" using i ls by simp
  have nl: "n \<le> length ls" by (simp add: n_def length_takeWhile_le)
  show ?case
  proof (cases "opens l")
    case False
    then show ?thesis using "2.IH"(2) [OF False] i l ls by (subst scan_hunks.simps) simp
  next
    case True
    show ?thesis
    proof (cases "n = length ls")
      case True
      then show ?thesis using \<open>opens l\<close> i l e len by (subst scan_hunks.simps) (simp add: n_def)
    next
      case False
      then have lt: "i + 2 + n \<le> length lines" using len nl by simp
      have "drop (n + 1) ls = drop (i + 2 + n) lines" using ls by (simp add: add.commute add.left_commute)
      then show ?thesis using "2.IH"(1) [OF True n_def False _ lt] True False i l e len nl
        by (subst scan_hunks.simps) (simp add: n_def Let_def)
    qed
  qed
qed

text \<open>What the blocks are: every block begins at a marker, ends at the first end marker after it, and they do not overlap.\<close>

definition block_at :: "string list \<Rightarrow> nat \<times> nat \<Rightarrow> bool" where
  "block_at lines = (\<lambda>(s, e). s < e \<and> e < length lines \<and> opens (lines ! s) \<and> closes (lines ! e) \<and> (\<forall>j. s < j \<and> j < e \<longrightarrow> \<not> closes (lines ! j)))"

lemma conflict_blocks_sound:
  assumes "ls = drop i lines" "i \<le> length lines"
  shows "(\<forall>b \<in> set (conflict_blocks i ls). block_at lines b \<and> i \<le> fst b) \<and>
    sorted_wrt (\<lambda>b b'. snd b < fst b') (conflict_blocks i ls) \<and>
    (\<forall>k. i \<le> k \<and> k < length lines \<and> opens (lines ! k) \<longrightarrow>
       (\<exists>(s, e) \<in> set (conflict_blocks i ls). s \<le> k \<and> k \<le> e) \<or> (\<forall>j. k < j \<and> j < length lines \<longrightarrow> \<not> closes (lines ! j)))"
  using assms
proof (induction i ls rule: conflict_blocks.induct)
  case (2 i l ls)
  from "2.prems" have i: "i < length lines" by (metis drop_all le_neq_implies_less list.discI order_refl)
  have l: "lines ! i = l" and ls: "ls = drop (Suc i) lines" using "2.prems" i by (simp_all add: Cons_nth_drop_Suc [symmetric])
  define n where "n = length (takeWhile (\<lambda>l. \<not> closes l) ls)"
  have len: "length lines = i + 1 + length ls" using i ls by simp
  have nl: "n \<le> length ls" by (simp add: n_def length_takeWhile_le)
  have open_body: "\<not> closes (lines ! j)" if "i < j" "j < i + 1 + n" for j
  proof -
    have "ls ! (j - i - 1) = takeWhile (\<lambda>l. \<not> closes l) ls ! (j - i - 1)" using that by (simp add: n_def takeWhile_nth)
    moreover have "\<dots> \<in> set (takeWhile (\<lambda>l. \<not> closes l) ls)" using that by (intro nth_mem) (simp add: n_def)
    ultimately have "\<not> closes (ls ! (j - i - 1))" by (metis set_takeWhileD)
    then show ?thesis using that ls i by simp
  qed
  show ?case
  proof (cases "opens l")
    case False
    have ii: "Suc i \<le> k" if "i \<le> k" "opens (lines ! k)" for k using that False l by (metis le_neq_implies_less Suc_leI)
    have b: "conflict_blocks i (l # ls) = conflict_blocks (i + 1) ls" using False by simp
    have le: "i + 1 \<le> length lines" and d: "ls = drop (i + 1) lines" using i ls by simp_all
    from "2.IH"(2) [OF False d le] show ?thesis unfolding b using ii by fastforce
  next
    case True
    show ?thesis
    proof (cases "n = length ls")
      case True
      then have b: "conflict_blocks i (l # ls) = []" using \<open>opens l\<close> by (simp add: n_def)
      have "\<not> closes (lines ! j)" if "i \<le> k" "k < j" "j < length lines" for k j
        using open_body [of j] that True len by simp
      then show ?thesis unfolding b by (simp, blast)
    next
      case False
      then have lt: "i + 2 + n \<le> length lines" using len nl by simp
      define bs where "bs = conflict_blocks (i + 2 + n) (drop (n + 1) ls)"
      have b: "conflict_blocks i (l # ls) = (i, i + 1 + n) # bs" using True False by (simp add: n_def bs_def Let_def)
      have "drop (n + 1) ls = drop (i + 2 + n) lines" using ls by (simp add: add.commute add.left_commute)
      note IH = "2.IH"(1) [OF True n_def False this lt, folded bs_def]
      have "\<not> \<not> closes (ls ! n)" using nth_length_takeWhile [of "\<lambda>l. \<not> closes l" ls] False nl by (simp add: n_def)
      then have "closes (lines ! (i + 1 + n))" using ls i by simp
      then have first: "block_at lines (i, i + 1 + n)" using True l lt open_body by (simp add: block_at_def)
      have "(\<exists>(s, e) \<in> set ((i, i + 1 + n) # bs). s \<le> k \<and> k \<le> e) \<or> (\<forall>j. k < j \<and> j < length lines \<longrightarrow> \<not> closes (lines ! j))"
        if "i \<le> k" "k < length lines" "opens (lines ! k)" for k
      proof (cases "k \<le> i + 1 + n")
        case False
        then have "i + 2 + n \<le> k" by simp
        with IH that show ?thesis by fastforce
      qed (use that in auto)
      moreover have "\<forall>x \<in> set ((i, i + 1 + n) # bs). block_at lines x \<and> i \<le> fst x" using first IH by (auto dest: add_leD1)
      moreover have "sorted_wrt (\<lambda>x y. snd x < fst y) ((i, i + 1 + n) # bs)" using IH by auto
      ultimately show ?thesis unfolding b by blast
    qed
  qed
qed auto

text \<open>
  C24. The scan for conflicts ends on every file and gives, in order, the text around every conflict block of it, up to ten
  lines before and after. The blocks are disjoint, each runs from a start marker to the first end marker after it, and a start
  marker in no block has no end marker after it.
\<close>

theorem hunks_are_the_blocks:
  "\<exists>bs. extract_conflict_hunks (Some content) = Some (map (hunk_text (py_splitlines content)) bs) \<and>
     (\<forall>b \<in> set bs. block_at (py_splitlines content) b) \<and> sorted_wrt (\<lambda>b b'. snd b < fst b') bs \<and>
     (\<forall>k < length (py_splitlines content). opens (py_splitlines content ! k) \<longrightarrow>
        (\<exists>(s, e) \<in> set bs. s \<le> k \<and> k \<le> e) \<or> (\<forall>j. k < j \<and> j < length (py_splitlines content) \<longrightarrow> \<not> closes (py_splitlines content ! j)))"
  using scan_hunks_blocks [of "py_splitlines content" 0 "py_splitlines content" "[]"]
    conflict_blocks_sound [of "py_splitlines content" 0 "py_splitlines content"]
  by (intro exI [of _ "conflict_blocks 0 (py_splitlines content)"]) (simp add: extract_conflict_hunks_def)

definition demo_conflict :: string where
  "demo_conflict = intercalate [CHR 0x0A] [''a'', ''<<<<<<< HEAD'', ''b'', ''======='', ''c'', ''>>>>>>> x'', ''d'', ''<<<<<<<'']"

lemma demo_conflict_lines:
  "py_splitlines demo_conflict = [''a'', ''<<<<<<< HEAD'', ''b'', ''======='', ''c'', ''>>>>>>> x'', ''d'', ''<<<<<<<'']"
  by code_simp

theorem hunks_are_the_blocks_witness:
  "\<exists>bs. extract_conflict_hunks (Some demo_conflict) = Some (map (hunk_text (py_splitlines demo_conflict)) bs) \<and> (\<exists>(s, e) \<in> set bs. s \<le> 1 \<and> 1 \<le> e)"
proof -
  obtain bs where bs: "extract_conflict_hunks (Some demo_conflict) = Some (map (hunk_text (py_splitlines demo_conflict)) bs)"
    and c: "\<forall>k < length (py_splitlines demo_conflict). opens (py_splitlines demo_conflict ! k) \<longrightarrow>
        (\<exists>(s, e) \<in> set bs. s \<le> k \<and> k \<le> e) \<or> (\<forall>j. k < j \<and> j < length (py_splitlines demo_conflict) \<longrightarrow> \<not> closes (py_splitlines demo_conflict ! j))"
    using hunks_are_the_blocks [of demo_conflict] by blast
  have "(\<exists>(s, e) \<in> set bs. s \<le> 1 \<and> 1 \<le> e) \<or> (\<forall>j. 1 < j \<and> j < length (py_splitlines demo_conflict) \<longrightarrow> \<not> closes (py_splitlines demo_conflict ! j))"
    using c [rule_format, of 1] by (simp add: demo_conflict_lines startswith_def)
  moreover have "\<not> (\<forall>j. 1 < j \<and> j < length (py_splitlines demo_conflict) \<longrightarrow> \<not> closes (py_splitlines demo_conflict ! j))"
    by (intro notI, drule spec [of _ 5]) (simp add: demo_conflict_lines startswith_def)
  ultimately show ?thesis using bs by blast
qed

section \<open>Resolution\<close>

lemma expand_plain: "CHR 0x5C \<notin> set s \<Longrightarrow> expand_template m s = Inr s"
  by (induction s) auto

lemma strip_subset: "set (strip_with P s) \<subseteq> set s"
  unfolding strip_with_def by (metis set_dropWhileD set_rev subsetI)

lemma startswith_before: "startswith (x @ c # y) p \<Longrightarrow> c \<notin> set p \<Longrightarrow> startswith x p"
proof (rule ccontr)
  assume s: "startswith (x @ c # y) p" "c \<notin> set p" "\<not> startswith x p"
  then have t: "take (length p) (x @ c # y) = p" by (simp add: startswith_def)
  have "length x < length p" using s(3) t by (cases "length x < length p") (simp_all add: startswith_def)
  then have "p ! length x = c" by (metis t nth_append_length nth_take)
  with \<open>length x < length p\<close> s(2) show False by (metis nth_mem)
qed

text \<open>A block whose first line is \<open>o\<close>, whose last is \<open>e\<close> and that has no end marker in between.\<close>

lemma after_close_first:
  "\<not> py_contains ([CHR 0x0A] @ ''>>>>>>>'') body \<Longrightarrow> closes e \<Longrightarrow> CHR 0x0A \<notin> set e \<Longrightarrow> rest = [] \<or> hd rest = CHR 0x0A \<Longrightarrow>
     after_close (body @ [CHR 0x0A] @ e @ rest) = Some rest"
proof (induction body)
  case Nil
  have "dropWhile (\<lambda>d. d \<noteq> CHR 0x0A) (e @ rest) = rest" using Nil(3,4) by (cases rest) (auto simp: dropWhile_append)
  moreover have "closes (e @ rest)" using Nil(2) by (auto simp: startswith_iff)
  ultimately show ?case by simp
next
  case (Cons c body)
  have "\<not> (c = CHR 0x0A \<and> closes (body @ [CHR 0x0A] @ e @ rest))"
  proof
    assume a: "c = CHR 0x0A \<and> closes (body @ [CHR 0x0A] @ e @ rest)"
    then have "closes body" using startswith_before [of body "CHR 0x0A" "e @ rest"] by simp
    with a Cons.prems(1) show False by (simp add: startswith_def)
  qed
  then have "after_close ((c # body) @ [CHR 0x0A] @ e @ rest) = after_close (body @ [CHR 0x0A] @ e @ rest)"
    unfolding append_Cons [of c] after_close.simps by (rule if_not_P)
  then show ?case using Cons by simp
qed

lemma match_block_whole:
  assumes "opens ol" "CHR 0x0A \<notin> set ol" "\<not> py_contains ([CHR 0x0A] @ ''>>>>>>>'') body" "closes el" "CHR 0x0A \<notin> set el"
    "post = [] \<or> hd post = CHR 0x0A"
  shows "match_block (ol @ [CHR 0x0A] @ body @ [CHR 0x0A] @ el @ post) = Some post"
proof -
  have "dropWhile (\<lambda>d. d \<noteq> CHR 0x0A) (ol @ [CHR 0x0A] @ body @ [CHR 0x0A] @ el @ post) = CHR 0x0A # body @ [CHR 0x0A] @ el @ post"
    using assms(2) by (simp add: dropWhile_append)
  moreover have "opens (ol @ [CHR 0x0A] @ body @ [CHR 0x0A] @ el @ post)" using assms(1) by (auto simp: startswith_iff)
  ultimately show ?thesis using after_close_first [OF assms(3-6)] by (simp add: match_block_def)
qed

lemma startswith_short: "startswith (x @ y) p \<Longrightarrow> length x \<le> length p \<Longrightarrow> x = take (length x) p"
proof -
  assume "startswith (x @ y) p" "length x \<le> length p"
  then obtain r where "x @ y = p @ r" "length x \<le> length p" by (auto simp: startswith_iff)
  then show ?thesis by (metis append_eq_conv_conj take_all_iff take_append append_Nil2 diff_is_0_eq take0)
qed

lemma search_block_first:
  assumes "match_block (blk @ post) = Some post" "blk \<noteq> []"
    and "\<not> py_contains ''<<<<<<<'' pre" "pre = [] \<or> last pre \<noteq> CHR ''<''"
  shows "search_block (pre @ blk @ post) = Some (pre, blk, post)"
  using assms(3,4)
proof (induction pre)
  case Nil
  obtain c b where "blk = c # b" using assms(2) by (cases blk) auto
  then show ?case using assms(1) by simp
next
  case (Cons c pre)
  have "\<not> opens ((c # pre) @ blk @ post)"
  proof
    assume a: "opens ((c # pre) @ blk @ post)"
    have "opens (c # pre)"
    proof (cases "length (''<<<<<<<'' :: string) \<le> length (c # pre)")
      case True
      then show ?thesis using a by (simp add: startswith_def)
    next
      case False
      then have "c # pre = take (length (c # pre)) (''<<<<<<<'' :: string)"
        using startswith_short [OF a] by simp
      then have "last (c # pre) \<in> set (''<<<<<<<'' :: string)" by (metis in_set_takeD last_in_set list.discI)
      then show ?thesis using Cons.prems(2) by simp
    qed
    with Cons.prems(1) show False by simp
  qed
  then have m: "match_block ((c # pre) @ blk @ post) = None" by (simp add: match_block_def)
  have "pre = [] \<or> last pre \<noteq> CHR ''<''" using Cons.prems(2) by (cases pre) auto
  with Cons have "search_block (pre @ blk @ post) = Some (pre, blk, post)" by simp
  with m show ?case by simp
qed

text \<open>A text with a first conflict block: what is before it, the block's own text, what follows.\<close>

definition first_block :: "string \<Rightarrow> string \<Rightarrow> string \<Rightarrow> string \<Rightarrow> string \<Rightarrow> bool" where
  "first_block pre ol body el post \<longleftrightarrow>
     \<not> py_contains ''<<<<<<<'' pre \<and> (pre = [] \<or> last pre \<noteq> CHR ''<'') \<and>
     opens ol \<and> CHR 0x0A \<notin> set ol \<and> \<not> py_contains ([CHR 0x0A] @ ''>>>>>>>'') body \<and>
     closes el \<and> CHR 0x0A \<notin> set el \<and> (post = [] \<or> hd post = CHR 0x0A)"

lemma apply_resolution_first:
  assumes "first_block pre ol body el post" and "CHR 0x5C \<notin> set r"
  shows "apply_resolution (pre @ (ol @ [CHR 0x0A] @ body @ [CHR 0x0A] @ el) @ post) r = Inr (pre @ py_strip r @ post)"
proof -
  define blk where "blk = ol @ [CHR 0x0A] @ body @ [CHR 0x0A] @ el"
  have "match_block (blk @ post) = Some post"
    using match_block_whole [of ol body el post] assms(1) by (simp add: first_block_def blk_def)
  then have "search_block (pre @ blk @ post) = Some (pre, blk, post)"
    using search_block_first [of blk post pre] assms(1) by (simp add: first_block_def blk_def)
  moreover have "CHR 0x5C \<notin> set (py_strip r)" using strip_subset assms(2) by blast
  ultimately have "apply_resolution (pre @ blk @ post) r = Inr (pre @ py_strip r @ post)"
    by (simp add: apply_resolution_def Let_def expand_plain)
  then show ?thesis unfolding blk_def .
qed

text \<open>
  Resolving a file with one conflict: the manager is asked once, about the text around the block. A response in which none
  of the words of doubt occurs replaces the block, and everything else in the file is kept; a response with one leaves
  the file unresolved. In both cases \<open>resolve\<close> returns.
\<close>

theorem resolve_replaces_block:
  assumes "first_block pre ol body el post"
    and "content = pre @ (ol @ [CHR 0x0A] @ body @ [CHR 0x0A] @ el) @ post"
    and "extract_conflict_hunks (Some content) = Some [h]"
    and "claude p (hunk_prompt h) = (p', call)" and "answer_directly call = JStr r" and "CHR 0x5C \<notin> set r"
  shows "cr_resolve (Some claude) (Some content) p = Some (p', Inr (if unsure r then None else Some (pre @ py_strip r @ post)))"
  using apply_resolution_first [OF assms(1,6)] assms(2-5) by (simp add: cr_resolve_def resolve_hunks_def)

definition single_conflict :: string where
  "single_conflict = [] @ (''<<<<<<<'' @ [CHR 0x0A] @ ''b'' @ [CHR 0x0A] @ ''>>>>>>> x'') @ [CHR 0x0A]"

lemma single_conflict_block: "first_block [] ''<<<<<<<'' ''b'' ''>>>>>>> x'' [CHR 0x0A]"
  by code_simp

lemma single_conflict_hunks: "extract_conflict_hunks (Some single_conflict) = Some [intercalate [CHR 0x0A] [''<<<<<<<'', ''b'', ''>>>>>>> x'']]"
proof -
  have "py_splitlines single_conflict = [''<<<<<<<'', ''b'', ''>>>>>>> x'']" by code_simp
  moreover have "map (hunk_text [''<<<<<<<'', ''b'', ''>>>>>>> x'']) (conflict_blocks 0 [''<<<<<<<'', ''b'', ''>>>>>>> x''])
      = [intercalate [CHR 0x0A] [''<<<<<<<'', ''b'', ''>>>>>>> x'']]" by code_simp
  ultimately show ?thesis using scan_hunks_blocks [of _ 0 "py_splitlines single_conflict" "[]"] by (simp add: extract_conflict_hunks_def)
qed

lemma demo_answer: "answer_directly (Exited 0 (dumps (JObj [(''result'', JStr ''c'')]))) = JStr ''c''"
  by code_simp

theorem resolve_replaces_block_witness:
  "cr_resolve (Some (\<lambda>p q. (p + 1, Exited 0 (dumps (JObj [(''result'', JStr ''c'')]))))) (Some single_conflict) (0 :: nat)
     = Some (1, Inr (Some (''c'' @ [CHR 0x0A])))"
proof -
  have u: "\<not> unsure ''c''" and s: "py_strip ''c'' = ''c''" by code_simp+
  have b: "CHR 0x5C \<notin> set ''c''" by simp
  show ?thesis
    using resolve_replaces_block [where claude = "\<lambda>p q. (p + 1, Exited 0 (dumps (JObj [(''result'', JStr ''c'')])))" and p = "0 :: nat",
        OF single_conflict_block single_conflict_def single_conflict_hunks refl demo_answer b] u s
    by simp
qed

text \<open>
  A manager whose process fails is taken at its word: the apology it returns contains none of the words of doubt,
  so \<open>resolve\<close> puts that sentence into the file in place of the conflict.
\<close>

theorem failed_call_becomes_code:
  assumes "first_block pre ol body el post"
    and "content = pre @ (ol @ [CHR 0x0A] @ body @ [CHR 0x0A] @ el) @ post"
    and "extract_conflict_hunks (Some content) = Some [h]"
    and "claude p (hunk_prompt h) = (p', call)" and "call = CallFailed \<or> (\<exists>rc out. call = Exited rc out \<and> rc \<noteq> 0)"
  shows "cr_resolve (Some claude) (Some content) p
    = Some (p', Inr (Some (pre @ ''PM was unable to generate an answer. Escalating.'' @ post)))"
proof -
  have a: "answer_directly call = JStr PM_FALLBACK" using assms(5) by (auto simp: answer_directly_def)
  have "\<not> unsure PM_FALLBACK" and s: "py_strip PM_FALLBACK = PM_FALLBACK" and b: "CHR 0x5C \<notin> set PM_FALLBACK" by code_simp+
  then have "cr_resolve (Some claude) (Some content) p = Some (p', Inr (Some (pre @ PM_FALLBACK @ post)))"
    using apply_resolution_first [OF assms(1) b] assms(2-4) a by (simp add: cr_resolve_def resolve_hunks_def)
  then show ?thesis unfolding PM_FALLBACK_def .
qed

theorem failed_call_becomes_code_witness:
  "cr_resolve (Some (\<lambda>p q. (p, CallFailed))) (Some single_conflict) ()
     = Some ((), Inr (Some (''PM was unable to generate an answer. Escalating.'' @ [CHR 0x0A])))"
  using failed_call_becomes_code [where claude = "\<lambda>p q. (p, CallFailed)" and p = "()",
      OF single_conflict_block single_conflict_def single_conflict_hunks refl] by simp

end
