(* ===== verification/Py_Path.thy ===== *)
theory Py_Path
  imports Py_String "HOL-Library.List_Lexorder" "HOL-Library.Char_ord"
begin

text \<open>
  Directories as the code scans them: \<open>sorted(dir.rglob("*suffix"))\<close>, ordered by the parts of the paths; and
  \<open>str.upper\<close>, in which the two characters whose capital is not an 8-bit character stay as they are.
\<close>

text \<open>The entries below a directory, by the parts of their paths; \<open>None\<close> for an entry that cannot be read.\<close>

type_synonym 'a tree = "(string list \<times> 'a option) list"

definition endswith :: "string \<Rightarrow> string \<Rightarrow> bool" where
  "endswith s p = (p = drop (length s - length p) s)"

definition sorted_glob :: "string \<Rightarrow> 'a tree \<Rightarrow> 'a tree" where
  "sorted_glob suffix fs = sort_key fst (filter (\<lambda>(path, c). path \<noteq> [] \<and> endswith (last path) suffix) fs)"

definition upper_char :: "char \<Rightarrow> string" where
  "upper_char c =
     (let n = of_char c :: nat in
      if n = 223 then ''SS''
      else if (97 \<le> n \<and> n \<le> 122) \<or> (224 \<le> n \<and> n \<le> 254 \<and> n \<noteq> 247) then [char_of (n - 32)] else [c])"

definition py_upper :: "string \<Rightarrow> string" where
  "py_upper s = concat (map upper_char s)"

lemma set_sorted_glob: "set (sorted_glob suffix fs) = {(path, c) \<in> set fs. path \<noteq> [] \<and> endswith (last path) suffix}"
  by (auto simp: sorted_glob_def)

end
