(* ===== verification/Workflow.thy ===== *)
theory Workflow
  imports Runtime_Api Strategist Py_Path
begin

text \<open>
  The stages of an agent's work: the signals of \<open>shared/workflow_types.py\<close>, the gates of
  \<open>bot/cogs/workflow_orchestrator_cog.py\<close>, and the report of \<open>cli/report_cmd.py\<close> that is meant to be the signal.
  The files below an agent's \<open>.planning/phases\<close> and the project manager's decision are arguments; an event
  counts as sent when it is handed to Discord. Upper case of the two characters whose capital is not an
  8-bit character leaves them as they are.
\<close>

section \<open>Signals\<close>

datatype workflow_stage =
  IDLE | DISCUSS | DISCUSSION_GATE | PLAN | PM_PLAN_REVIEW_GATE | EXECUTE | VERIFY | VERIFY_GATE | PHASE_COMPLETE

definition stage_value :: "workflow_stage \<Rightarrow> string" where
  "stage_value s =
     (case s of
        IDLE \<Rightarrow> ''idle'' | DISCUSS \<Rightarrow> ''discuss'' | DISCUSSION_GATE \<Rightarrow> ''discussion_gate'' | PLAN \<Rightarrow> ''plan''
      | PM_PLAN_REVIEW_GATE \<Rightarrow> ''pm_plan_review_gate'' | EXECUTE \<Rightarrow> ''execute'' | VERIFY \<Rightarrow> ''verify''
      | VERIFY_GATE \<Rightarrow> ''verify_gate'' | PHASE_COMPLETE \<Rightarrow> ''phase_complete'')"

definition STAGE_COMPLETE_PATTERNS :: "(string, string) dict" where
  "STAGE_COMPLETE_PATTERNS =
     [(''discuss'', ''discuss-phase complete''), (''plan'', ''plan-phase complete''),
      (''execute'', ''execute-phase complete''), (''research'', ''research-phase complete'')]"

text \<open>
  The pattern \<open>^\S+\s+(\S+):\s+(.+)$\<close>: two words, the second ends in a colon, and a rest of one line. When only white space
  follows the colon the text that the pattern finds is white space.
\<close>

abbreviation word_char :: "char \<Rightarrow> bool" where
  "word_char c \<equiv> \<not> py_space c"

definition one_line :: "string \<Rightarrow> string option" where
  "one_line s =
     (let l = (if s \<noteq> [] \<and> last s = CHR 0x0A then butlast s else s) in
      if l = [] \<or> CHR 0x0A \<in> set l then None else Some l)"

definition match_report :: "string \<Rightarrow> (agent_id \<times> string) option" where
  "match_report s =
     (let w1 = takeWhile word_char s; r1 = dropWhile word_char s;
          s2 = dropWhile py_space r1;
          w2 = takeWhile word_char s2; r2 = dropWhile word_char s2;
          rest = dropWhile py_space r2 in
      if w1 = [] \<or> r1 = [] \<or> length w2 < 2 \<or> last w2 \<noteq> CHR '':'' \<or> r2 = [] then None
      else map_option (Pair (butlast w2)) (one_line rest))"

definition detect_stage_signal :: "string \<Rightarrow> (agent_id \<times> string) option" where
  "detect_stage_signal content =
     (case match_report content of
        None \<Rightarrow> None
      | Some (a, said) \<Rightarrow>
          map_option (\<lambda>(stage, pattern). (a, stage)) (find (\<lambda>(stage, pattern). py_contains pattern (py_lower said)) STAGE_COMPLETE_PATTERNS))"

section \<open>The cog\<close>

record text_channel =
  tc_name :: string
  tc_category :: "string option"

text \<open>The parts of the bot that the cog reads, and the events it has sent: the channel and the text.\<close>

record 'c workflow_cog =
  wf_runtime_api :: "'c runtime_api option"
  wf_project :: "string option"
  wf_guild :: "text_channel list option"
  wf_pm :: "(string \<Rightarrow> py_error + pm_decision) option"
  wf_project_dir :: "string option"
  wf_sent :: "(text_channel \<times> string) list"

definition set_runtime_context :: "(string \<Rightarrow> py_error + pm_decision) option \<Rightarrow> string \<Rightarrow> 'c workflow_cog \<Rightarrow> 'c workflow_cog" where
  "set_runtime_context pm dir cog = cog\<lparr>wf_pm := pm, wf_project_dir := Some dir\<rparr>"

definition project_category :: "'c workflow_cog \<Rightarrow> string option" where
  "project_category cog = map_option (\<lambda>p. ''vco-'' @ p) (wf_project cog)"

definition find_agent_channel :: "'c workflow_cog \<Rightarrow> text_channel list \<Rightarrow> agent_id \<Rightarrow> text_channel option" where
  "find_agent_channel cog guild a =
     find (\<lambda>ch. tc_name ch = ''agent-'' @ a \<and> (project_category cog = None \<or> tc_category ch = project_category cog)) guild"

definition send_system_event :: "agent_id \<Rightarrow> string \<Rightarrow> 'c workflow_cog \<Rightarrow> 'c workflow_cog" where
  "send_system_event a msg cog =
     (case wf_guild cog of
        None \<Rightarrow> cog
      | Some guild \<Rightarrow>
          (case find_agent_channel cog guild a of
             None \<Rightarrow> cog
           | Some ch \<Rightarrow> cog\<lparr>wf_sent := wf_sent cog @ [(ch, ''[system] '' @ msg)]\<rparr>))"

section \<open>Artifacts\<close>

definition latest_text :: "string \<Rightarrow> string tree option \<Rightarrow> string" where
  "latest_text suffix phases =
     (case phases of
        None \<Rightarrow> []
      | Some fs \<Rightarrow>
          (let found = sorted_glob suffix fs in
           if found = [] then []
           else (case snd (last found) of None \<Rightarrow> [] | Some raw \<Rightarrow> take 3000 raw)))"

definition last_five :: "'a list \<Rightarrow> 'a list" where
  "last_five xs = drop (length xs - 5) xs"

definition plan_section :: "string list \<times> string \<Rightarrow> string" where
  "plan_section = (\<lambda>(path, raw).
     [CHR 0x0A] @ ''--- '' @ last path @ '' ---'' @ [CHR 0x0A] @ take 1000 raw @ [CHR 0x0A])"

definition plan_texts :: "string tree option \<Rightarrow> (string list \<times> string) list" where
  "plan_texts phases =
     (case phases of
        None \<Rightarrow> []
      | Some fs \<Rightarrow> List.map_filter (\<lambda>(path, c). map_option (Pair path) c) (last_five (sorted_glob ''-PLAN.md'' fs)))"

section \<open>Gates\<close>

definition level_name :: "confidence_level \<Rightarrow> string" where
  "level_name l = (case l of HIGH \<Rightarrow> ''HIGH'' | MEDIUM \<Rightarrow> ''MEDIUM'' | LOW \<Rightarrow> ''LOW'')"

text \<open>The manager's level of confidence; \<open>None\<close> without a manager or when the evaluation raises.\<close>

definition pm_level :: "'c workflow_cog \<Rightarrow> string \<Rightarrow> confidence_level option" where
  "pm_level cog prompt =
     (case wf_pm cog of
        None \<Rightarrow> None
      | Some pm \<Rightarrow> (case pm prompt of Inl e \<Rightarrow> None | Inr d \<Rightarrow> Some (cf_level (pd_confidence d))))"

definition discussion_prompt :: "agent_id \<Rightarrow> string \<Rightarrow> string" where
  "discussion_prompt a content =
     ''Review this CONTEXT.md from agent '' @ [CHR 0x27] @ a @ [CHR 0x27] @ '' for completeness '' @
     ''and alignment with the project goals. Is the context research '' @
     ''sufficient to proceed to planning?'' @ [CHR 0x0A, CHR 0x0A] @ content"

definition review_discussion_gate :: "string tree option \<Rightarrow> agent_id \<Rightarrow> 'c workflow_cog \<Rightarrow> 'c workflow_cog" where
  "review_discussion_gate phases a cog =
     (if wf_project_dir cog = None then cog
      else
        (let content = latest_text ''-CONTEXT.md'' phases in
         if content = [] then send_system_event a ''DISCUSSION GATE -- no CONTEXT.md found, auto-advancing to PLAN stage'' cog
         else
           (case pm_level cog (discussion_prompt a content) of
              None \<Rightarrow> send_system_event a ''DISCUSSION GATE -- no PM available, auto-advancing to PLAN stage'' cog
            | Some LOW \<Rightarrow> send_system_event a ''DISCUSSION GATE blocked -- PM confidence LOW on CONTEXT.md. @Owner please review.'' cog
            | Some l \<Rightarrow> send_system_event a (''DISCUSSION GATE passed (PM confidence: '' @ level_name l @ '') -> advancing to PLAN stage'') cog)))"

definition plan_prompt :: "agent_id \<Rightarrow> nat \<Rightarrow> string \<Rightarrow> string" where
  "plan_prompt a n content =
     ''Review these '' @ show_nat n @ '' plan(s) from agent '' @ [CHR 0x27] @ a @ [CHR 0x27] @ ''. '' @
     ''Are they reasonable and aligned with the project? '' @
     ''Answer YES to approve or NO with reason to reject.'' @ [CHR 0x0A, CHR 0x0A] @ content"

definition review_plan_gate :: "string tree option \<Rightarrow> agent_id \<Rightarrow> 'c workflow_cog \<Rightarrow> 'c workflow_cog" where
  "review_plan_gate phases a cog =
     (if wf_project_dir cog = None then cog
      else
        (let plans = plan_texts phases; content = concat (map plan_section plans); n = length plans in
         if content = [] then send_system_event a ''PM PLAN REVIEW GATE -- no plans found, auto-advancing to EXECUTE stage'' cog
         else
           (case pm_level cog (plan_prompt a n content) of
              None \<Rightarrow> send_system_event a ''PM PLAN REVIEW GATE -- no PM available, auto-advancing to EXECUTE stage'' cog
            | Some LOW \<Rightarrow> send_system_event a ''PM PLAN REVIEW GATE blocked -- PM confidence LOW. @Owner please review plans.'' cog
            | Some l \<Rightarrow>
                send_system_event a (''PM PLAN REVIEW GATE passed -- '' @ show_nat n @ '' plan(s) approved (PM confidence: '' @ level_name l @
                  '') -> advancing to EXECUTE stage'') cog)))"

text \<open>The gateway has no method \<open>route_completion_to_pm\<close>.\<close>

definition handle_phase_complete :: "agent_id \<Rightarrow> 'c workflow_cog \<Rightarrow> ('c workflow_cog, unit) outcome" where
  "handle_phase_complete a cog =
     (let cog = send_system_event a ''PHASE COMPLETE -- all stages passed'' cog in
      case wf_runtime_api cog of
        None \<Rightarrow> (cog, Inr ())
      | Some api \<Rightarrow> (cog, Inl (AttributeError ''route_completion_to_pm'')))"

definition verify_prompt :: "agent_id \<Rightarrow> string \<Rightarrow> string" where
  "verify_prompt a content =
     ''Review this VERIFICATION.md from agent '' @ [CHR 0x27] @ a @ [CHR 0x27] @ ''. '' @
     ''It contains test/verification failures. Should the agent '' @
     ''re-execute to fix them, or is manual review needed?'' @ [CHR 0x0A, CHR 0x0A] @ content"

definition review_verify_gate :: "string tree option \<Rightarrow> agent_id \<Rightarrow> 'c workflow_cog \<Rightarrow> ('c workflow_cog, unit) outcome" where
  "review_verify_gate phases a cog =
     (if wf_project_dir cog = None then (cog, Inr ())
      else
        (let content = latest_text ''-VERIFICATION.md'' phases in
         if content = [] then
           handle_phase_complete a
             (send_system_event a ''VERIFY GATE -- no VERIFICATION.md (verifier disabled), auto-advancing to PHASE COMPLETE'' cog)
         else if py_contains ''PASS'' (py_upper content) \<and> \<not> py_contains ''FAIL'' (py_upper content) then
           handle_phase_complete a (send_system_event a ''VERIFY GATE passed -- all checks PASS -> advancing to PHASE COMPLETE'' cog)
         else
           (case pm_level cog (verify_prompt a content) of
              None \<Rightarrow> (cog, Inr ())
            | Some LOW \<Rightarrow>
                (send_system_event a ''VERIFY GATE blocked -- verification failures, PM confidence LOW. @Owner please review.'' cog, Inr ())
            | Some l \<Rightarrow>
                (send_system_event a (''VERIFY GATE -- failures found, PM recommends re-execute (confidence: '' @ level_name l @ '')'') cog, Inr ()))))"

section \<open>Messages\<close>

definition stage_map :: "(string, workflow_stage) dict" where
  "stage_map = [(''discuss'', DISCUSSION_GATE), (''plan'', PM_PLAN_REVIEW_GATE), (''execute'', VERIFY), (''verify'', PHASE_COMPLETE)]"

definition stage_event :: "string \<Rightarrow> workflow_stage \<Rightarrow> string" where
  "stage_event stage new =
     ''Stage '' @ [CHR 0x27] @ stage @ [CHR 0x27] @ '' complete -> entering '' @
     map (\<lambda>c. if c = CHR ''_'' then CHR '' '' else c) (py_upper (stage_value new))"

definition enter_gate :: "string tree option \<Rightarrow> agent_id \<Rightarrow> workflow_stage \<Rightarrow> 'c workflow_cog \<Rightarrow> ('c workflow_cog, unit) outcome" where
  "enter_gate phases a new cog =
     (case new of
        DISCUSSION_GATE \<Rightarrow> (review_discussion_gate phases a cog, Inr ())
      | PM_PLAN_REVIEW_GATE \<Rightarrow> (review_plan_gate phases a cog, Inr ())
      | VERIFY \<Rightarrow> review_verify_gate phases a cog
      | PHASE_COMPLETE \<Rightarrow> handle_phase_complete a cog
      | _ \<Rightarrow> (cog, Inr ()))"

definition wf_on_message :: "(agent_id \<Rightarrow> string tree option) \<Rightarrow> discord_message \<Rightarrow> 'c workflow_cog \<Rightarrow> ('c workflow_cog, unit) outcome" where
  "wf_on_message phases m cog =
     (case (wf_runtime_api cog, dm_channel_name m) of
        (Some api, Some name) \<Rightarrow>
          if \<not> startswith name ''agent-'' \<or> startswith (dm_content m) ''[system]'' then (cog, Inr ())
          else
            (case detect_stage_signal (dm_content m) of
               None \<Rightarrow> (cog, Inr ())
             | Some (a, stage) \<Rightarrow>
                 if name \<noteq> ''agent-'' @ a \<or> get_container_info a api = None then (cog, Inr ())
                 else
                   (case dict_get stage_map stage of
                      None \<Rightarrow> (cog, Inr ())
                    | Some new \<Rightarrow> enter_gate (phases a) a new (send_system_event a (stage_event stage new) cog)))
      | _ \<Rightarrow> (cog, Inr ()))"

definition notify_plan_approved :: "agent_id \<Rightarrow> 'c workflow_cog \<Rightarrow> 'c workflow_cog" where
  "notify_plan_approved a cog =
     (if wf_runtime_api cog = None then cog
      else send_system_event a ''PM PLAN REVIEW GATE passed -- plans approved -> advancing to EXECUTE stage'' cog)"

definition notify_plan_rejected :: "agent_id \<Rightarrow> 'c workflow_cog \<Rightarrow> 'c workflow_cog" where
  "notify_plan_rejected a cog =
     (if wf_runtime_api cog = None then cog
      else send_system_event a ''PM PLAN REVIEW GATE rejected -- plans sent back for replanning'' cog)"

definition start_workflow :: "agent_id \<Rightarrow> int \<Rightarrow> 'c workflow_cog \<Rightarrow> 'c workflow_cog \<times> bool" where
  "start_workflow a n cog =
     (case wf_runtime_api cog of
        None \<Rightarrow> (cog, False)
      | Some api \<Rightarrow>
          if get_container_info a api = None then (cog, False)
          else (send_system_event a (''Workflow started -- Phase '' @ show_int n @ '', entering DISCUSS stage'') cog, True))"

section \<open>The report\<close>

text \<open>What \<open>vco report\<close> posts for an agent at a time of day.\<close>

definition report_text :: "string \<Rightarrow> agent_id \<Rightarrow> string list \<Rightarrow> string" where
  "report_text ts a words = ''`'' @ ts @ ''` **'' @ a @ ''**: '' @ intercalate '' '' words"

section \<open>Lemmas\<close>

lemma takeWhile_word: "\<forall>c \<in> set w. P c \<Longrightarrow> \<not> P d \<Longrightarrow> takeWhile P (w @ d # s) = w \<and> dropWhile P (w @ d # s) = d # s"
  by (simp add: takeWhile_tail dropWhile_append3)

lemma match_report_words:
  assumes "w \<noteq> []" "\<forall>c \<in> set w. word_char c" "a \<noteq> []" "\<forall>c \<in> set a. word_char c"
  shows "match_report (w @ '' '' @ a @ '': '' @ s) = map_option (Pair a) (one_line (dropWhile py_space s))"
proof -
  have sp: "py_space CHR '' ''" "word_char CHR '':''" by (simp_all add: py_space_def)
  have 1: "takeWhile word_char (w @ CHR '' '' # a @ '': '' @ s) = w" "dropWhile word_char (w @ CHR '' '' # a @ '': '' @ s) = CHR '' '' # a @ '': '' @ s"
    using takeWhile_word [of w word_char "CHR '' ''"] assms(2) sp by auto
  obtain b a' where a: "a = b # a'" using assms(3) by (cases a) auto
  have 2: "dropWhile py_space (CHR '' '' # a @ '': '' @ s) = a @ '': '' @ s" using assms(4) sp by (simp add: a)
  have 3: "takeWhile word_char ((a @ '':'') @ CHR '' '' # s) = a @ '':''" "dropWhile word_char ((a @ '':'') @ CHR '' '' # s) = CHR '' '' # s"
    using takeWhile_word [of "a @ '':''" word_char "CHR '' ''"] assms(4) sp by auto
  show ?thesis using 1 2 3 sp assms(1,3) by (simp add: match_report_def Let_def a)
qed

lemma detect_stage_agent: "detect_stage_signal s = Some (a, stage) \<Longrightarrow> \<exists>t. match_report s = Some (a, t)"
  by (auto simp: detect_stage_signal_def split: option.splits prod.splits)

text \<open>
  The report that \<open>vco report\<close> posts is not understood as a signal: whatever the agent says in it, in the agent's own channel,
  the cog does nothing with it, because the name between the two asterisks is read with the asterisks.
\<close>

theorem report_is_no_signal:
  assumes "\<forall>c \<in> set ts. word_char c" and "\<forall>c \<in> set a. word_char c"
    and "dm_channel_name m = Some (''agent-'' @ a)" and "dm_content m = report_text ts a words"
  shows "wf_on_message phases m cog = (cog, Inr ())"
proof -
  have w: "word_char CHR ''`''" "word_char CHR ''*''" by (simp_all add: py_space_def)
  have "report_text ts a words = (''`'' @ ts @ ''`'') @ '' '' @ (''**'' @ a @ ''**'') @ '': '' @ intercalate '' '' words"
    by (simp add: report_text_def)
  then have "match_report (dm_content m) = map_option (Pair (''**'' @ a @ ''**'')) (one_line (dropWhile py_space (intercalate '' '' words)))"
    using match_report_words [of "''`'' @ ts @ ''`''" "''**'' @ a @ ''**''"] assms w by auto
  then have "b = ''**'' @ a @ ''**''" if "detect_stage_signal (dm_content m) = Some (b, stage)" for b stage
    using detect_stage_agent [OF that] by auto
  moreover have "''agent-'' @ a \<noteq> ''agent-'' @ ''**'' @ a @ ''**''" by (auto dest: arg_cong [of _ _ length])
  ultimately show ?thesis using assms(3)
    by (auto simp: wf_on_message_def split: option.splits)
qed

theorem report_is_no_signal_witness:
  "\<forall>phases cog. wf_on_message phases
     (demo_message\<lparr>dm_channel_name := Some (''agent-'' @ ''a''), dm_content := report_text ''12:00:01'' ''a'' [''plan-phase'', ''complete'']\<rparr>)
     (cog :: string workflow_cog) = (cog, Inr ())"
proof (intro allI)
  fix phases and cog :: "string workflow_cog"
  show "wf_on_message phases
     (demo_message\<lparr>dm_channel_name := Some (''agent-'' @ ''a''), dm_content := report_text ''12:00:01'' ''a'' [''plan-phase'', ''complete'']\<rparr>) cog
     = (cog, Inr ())"
    by (rule report_is_no_signal [of "''12:00:01''" "''a''"]) (simp_all add: py_space_def)
qed

section \<open>Where the events go\<close>

text \<open>The events of \<open>cog'\<close> are those of \<open>cog\<close> and at most \<open>n\<close> more, all of them system messages in the agent's channel of the project.\<close>

definition adds_events :: "nat \<Rightarrow> agent_id \<Rightarrow> 'c workflow_cog \<Rightarrow> 'c workflow_cog \<Rightarrow> bool" where
  "adds_events n a cog cog' \<longleftrightarrow>
     (\<exists>evs. cog' = cog\<lparr>wf_sent := wf_sent cog @ evs\<rparr> \<and> length evs \<le> n \<and>
        (\<forall>(ch, t) \<in> set evs. tc_name ch = ''agent-'' @ a \<and> (wf_project cog \<noteq> None \<longrightarrow> tc_category ch = project_category cog) \<and> startswith t ''[system]''))"

lemma adds_refl: "adds_events n a cog cog"
  by (auto simp: adds_events_def intro!: exI [of _ "[]"])

lemma adds_mono: "adds_events n a cog cog' \<Longrightarrow> n \<le> k \<Longrightarrow> adds_events k a cog cog'"
  unfolding adds_events_def using le_trans by blast

lemma adds_trans:
  assumes "adds_events n a cog1 cog2" "adds_events k a cog2 cog3"
  shows "adds_events (n + k) a cog1 cog3"
proof -
  obtain e1 where 1: "cog2 = cog1\<lparr>wf_sent := wf_sent cog1 @ e1\<rparr>" "length e1 \<le> n"
    "\<forall>(ch, t) \<in> set e1. tc_name ch = ''agent-'' @ a \<and> (wf_project cog1 \<noteq> None \<longrightarrow> tc_category ch = project_category cog1) \<and> startswith t ''[system]''"
    using assms(1) unfolding adds_events_def by blast
  obtain e2 where 2: "cog3 = cog2\<lparr>wf_sent := wf_sent cog2 @ e2\<rparr>" "length e2 \<le> k"
    "\<forall>(ch, t) \<in> set e2. tc_name ch = ''agent-'' @ a \<and> (wf_project cog2 \<noteq> None \<longrightarrow> tc_category ch = project_category cog2) \<and> startswith t ''[system]''"
    using assms(2) unfolding adds_events_def by blast
  have "cog3 = cog1\<lparr>wf_sent := wf_sent cog1 @ e1 @ e2\<rparr>" using 1(1) 2(1) by simp
  moreover have "wf_project cog2 = wf_project cog1" "project_category cog2 = project_category cog1" using 1(1) by (simp_all add: project_category_def)
  ultimately show ?thesis unfolding adds_events_def using 1(2,3) 2(2,3) by (intro exI [of _ "e1 @ e2"]) auto
qed

lemma adds_send: "0 < n \<Longrightarrow> adds_events n a cog (send_system_event a msg cog)"
proof -
  assume n: "0 < n"
  show ?thesis
  proof (cases "send_system_event a msg cog = cog")
    case True
    then show ?thesis by (simp add: adds_refl)
  next
    case False
    then obtain guild ch where g: "wf_guild cog = Some guild" "find_agent_channel cog guild a = Some ch"
      by (auto simp: send_system_event_def split: option.splits)
    from g(2) have "tc_name ch = ''agent-'' @ a" "wf_project cog \<noteq> None \<longrightarrow> tc_category ch = project_category cog"
      unfolding find_agent_channel_def find_Some_iff by (auto simp: project_category_def)
    moreover have "startswith (''[system] '' @ msg) ''[system]''" by (simp add: startswith_def)
    ultimately show ?thesis unfolding adds_events_def using g n
      by (intro exI [of _ "[(ch, ''[system] '' @ msg)]"]) (simp add: send_system_event_def)
  qed
qed

lemma adds_phase_complete: "handle_phase_complete a cog = (cog', r) \<Longrightarrow> adds_events 1 a cog cog'"
  using adds_send [of 1 a cog] by (auto simp: handle_phase_complete_def Let_def split: option.splits)

lemma adds_gate:
  assumes "enter_gate phases a new cog = (cog', r)"
  shows "adds_events 2 a cog cog'"
proof -
  have s: "adds_events 2 a cog (send_system_event a msg cog)" for msg by (rule adds_send) simp
  have pc: "adds_events 2 a cog c'" if "handle_phase_complete a (send_system_event a msg cog) = (c', r')" for msg c' r'
    using adds_trans [OF adds_send [of 1 a cog msg] adds_phase_complete [OF that]] unfolding one_add_one by simp
  have "adds_events 2 a cog (review_discussion_gate phases a cog)" "adds_events 2 a cog (review_plan_gate phases a cog)"
    by (auto simp: review_discussion_gate_def review_plan_gate_def Let_def s adds_refl split: option.split confidence_level.split)
  moreover have "adds_events 2 a cog c'" if "review_verify_gate phases a cog = (c', r')" for c' r'
    using that by (auto simp: review_verify_gate_def Let_def s adds_refl split: option.splits confidence_level.splits if_splits intro: pc)
  moreover have "adds_events 2 a cog c'" if "handle_phase_complete a cog = (c', r')" for c' r'
    by (rule adds_mono [OF adds_phase_complete [OF that]]) simp
  ultimately show ?thesis using assms by (auto simp: enter_gate_def adds_refl split: workflow_stage.splits)
qed

text \<open>
  C25. A message makes the cog speak only where it came from: it posts at most three events, all in the project's channel of the same
  name, and only if the message is a signal of the known agent that the channel belongs to. No event it posts is itself
  taken for a signal, whatever the state of the cog when it arrives.
\<close>

theorem events_stay_in_channel:
  fixes cog :: "'c workflow_cog"
  assumes "wf_on_message phases m cog = (cog', r)"
  shows "\<exists>evs. wf_sent cog' = wf_sent cog @ evs \<and> length evs \<le> 3 \<and>
    (\<forall>(ch, t) \<in> set evs. dm_channel_name m = Some (tc_name ch) \<and> (wf_project cog \<noteq> None \<longrightarrow> tc_category ch = project_category cog) \<and>
       (\<exists>a stage api. detect_stage_signal (dm_content m) = Some (a, stage) \<and> tc_name ch = ''agent-'' @ a \<and>
          wf_runtime_api cog = Some api \<and> find_handle a (ra_root api) \<noteq> None) \<and>
       (\<forall>m' cog''. dm_content m' = t \<longrightarrow> wf_on_message phases m' (cog'' :: 'c workflow_cog) = (cog'', Inr ())))"
proof (cases "cog' = cog")
  case True
  then show ?thesis by (intro exI [of _ "[]"]) simp
next
  case False
  then obtain a stage api new where d: "wf_runtime_api cog = Some api" "detect_stage_signal (dm_content m) = Some (a, stage)"
      "dm_channel_name m = Some (''agent-'' @ a)" "get_container_info a api \<noteq> None"
    and g: "enter_gate (phases a) a new (send_system_event a (stage_event stage new) cog) = (cog', r)"
    using assms by (auto simp: wf_on_message_def split: option.splits if_splits)
  have k: "find_handle a (ra_root api) \<noteq> None" using d(4) by (auto simp: get_container_info_def split: option.splits)
  have "adds_events (1 + 2) a cog cog'" by (rule adds_trans [OF adds_send adds_gate [OF g]]) simp
  then obtain evs where e: "cog' = cog\<lparr>wf_sent := wf_sent cog @ evs\<rparr>" "length evs \<le> 3"
    "\<forall>(ch, t) \<in> set evs. tc_name ch = ''agent-'' @ a \<and> (wf_project cog \<noteq> None \<longrightarrow> tc_category ch = project_category cog) \<and> startswith t ''[system]''"
    unfolding adds_events_def by auto
  have quiet: "wf_on_message phases m' cog'' = (cog'', Inr ())" if "startswith (dm_content m') ''[system]''" for m' and cog'' :: "'c workflow_cog"
    using that by (simp add: wf_on_message_def split: option.split)
  have "dm_channel_name m = Some (tc_name ch) \<and> (wf_project cog \<noteq> None \<longrightarrow> tc_category ch = project_category cog) \<and>
       (\<exists>a stage api. detect_stage_signal (dm_content m) = Some (a, stage) \<and> tc_name ch = ''agent-'' @ a \<and>
          wf_runtime_api cog = Some api \<and> find_handle a (ra_root api) \<noteq> None) \<and>
       (\<forall>m' cog''. dm_content m' = t \<longrightarrow> wf_on_message phases m' (cog'' :: 'c workflow_cog) = (cog'', Inr ()))"
    if "(ch, t) \<in> set evs" for ch t
  proof -
    have t: "tc_name ch = ''agent-'' @ a" "wf_project cog \<noteq> None \<longrightarrow> tc_category ch = project_category cog" "startswith t ''[system]''"
      using bspec [OF e(3) that] by auto
    have "\<forall>m' cog''. dm_content m' = t \<longrightarrow> wf_on_message phases m' (cog'' :: 'c workflow_cog) = (cog'', Inr ())"
      using quiet t(3) by blast
    then show ?thesis using t d(1-3) k by metis
  qed
  then show ?thesis using e(1,2) by (intro exI [of _ evs]) auto
qed

definition known_api :: "string runtime_api" where
  "known_api = demo_api\<lparr>ra_root := (ra_root demo_api)\<lparr>cr_agents := [(''a'', new_agent_handle ''a'' ''gsd'' [] None ''session'' JNull)]\<rparr>\<rparr>"

definition demo_cog :: "string workflow_cog" where
  "demo_cog = \<lparr>wf_runtime_api = Some known_api, wf_project = Some ''p'', wf_guild = Some [\<lparr>tc_name = ''agent-a'', tc_category = Some ''vco-p''\<rparr>],
     wf_pm = None, wf_project_dir = Some ''d'', wf_sent = []\<rparr>"

definition signal_message :: "string \<Rightarrow> discord_message" where
  "signal_message s = demo_message\<lparr>dm_channel_name := Some ''agent-a'', dm_content := s\<rparr>"

lemma demo_plan_signal:
  "wf_on_message (\<lambda>a. None) (signal_message ''now a: plan-phase complete'') demo_cog
     = (demo_cog\<lparr>wf_sent := [(\<lparr>tc_name = ''agent-a'', tc_category = Some ''vco-p''\<rparr>, ''[system] Stage '' @ [CHR 0x27] @ ''plan'' @ [CHR 0x27] @ '' complete -> entering PM PLAN REVIEW GATE''),
         (\<lparr>tc_name = ''agent-a'', tc_category = Some ''vco-p''\<rparr>, ''[system] PM PLAN REVIEW GATE -- no plans found, auto-advancing to EXECUTE stage'')]\<rparr>, Inr ())"
proof -
  have "detect_stage_signal ''now a: plan-phase complete'' = Some (''a'', ''plan'')" by code_simp
  moreover have "stage_event ''plan'' PM_PLAN_REVIEW_GATE = ''Stage '' @ [CHR 0x27] @ ''plan'' @ [CHR 0x27] @ '' complete -> entering PM PLAN REVIEW GATE''"
    by code_simp
  ultimately show ?thesis
    by (simp add: wf_on_message_def signal_message_def demo_cog_def known_api_def get_container_info_def find_handle_def stage_map_def enter_gate_def
        review_plan_gate_def plan_texts_def Let_def send_system_event_def find_agent_channel_def project_category_def startswith_def)
qed

theorem events_stay_in_channel_witness:
  "wf_on_message (\<lambda>a. None) (demo_message\<lparr>dm_content := ''[system] PM PLAN REVIEW GATE -- no plans found, auto-advancing to EXECUTE stage''\<rparr>) demo_cog = (demo_cog, Inr ())"
proof -
  let ?t = "''[system] PM PLAN REVIEW GATE -- no plans found, auto-advancing to EXECUTE stage''"
  let ?e = "(\<lparr>tc_name = ''agent-a'', tc_category = Some ''vco-p''\<rparr>, ?t)"
  obtain evs where e: "wf_sent (fst (wf_on_message (\<lambda>a. None) (signal_message ''now a: plan-phase complete'') demo_cog)) = wf_sent demo_cog @ evs"
    and all: "\<forall>(ch, t) \<in> set evs. \<forall>m' cog''. dm_content m' = t \<longrightarrow> wf_on_message (\<lambda>a. None) m' (cog'' :: string workflow_cog) = (cog'', Inr ())"
    using events_stay_in_channel [OF demo_plan_signal] unfolding demo_plan_signal fst_conv by fast
  have "set evs = set (wf_sent (fst (wf_on_message (\<lambda>a. None) (signal_message ''now a: plan-phase complete'') demo_cog)))"
    using e by (simp add: demo_cog_def)
  then have "?e \<in> set evs" unfolding demo_plan_signal by simp
  then have "\<forall>m' cog''. dm_content m' = ?t \<longrightarrow> wf_on_message (\<lambda>a. None) m' (cog'' :: string workflow_cog) = (cog'', Inr ())"
    using all by fast
  then show ?thesis by simp
qed

section \<open>The end of a phase\<close>

text \<open>
  A finished phase is never reported to the project manager: when an agent signals the end of its execution and its verification passed
  (or there is none), the cog announces that the phase is complete and then fails, because the gateway lacks the method
  that would tell the manager.
\<close>

theorem phase_completion_fails:
  assumes "wf_runtime_api cog = Some api" "dm_channel_name m = Some (''agent-'' @ a)" "detect_stage_signal (dm_content m) = Some (a, ''execute'')"
    and "\<not> startswith (dm_content m) ''[system]''" "get_container_info a api \<noteq> None" "wf_project_dir cog \<noteq> None"
    and "wf_guild cog = Some guild" "find_agent_channel cog guild a = Some ch"
    and "content = latest_text ''-VERIFICATION.md'' (phases a)"
  shows "(snd (wf_on_message phases m cog) = Inl (AttributeError ''route_completion_to_pm'')) =
      (content = [] \<or> py_contains ''PASS'' (py_upper content) \<and> \<not> py_contains ''FAIL'' (py_upper content))
    \<and> (snd (wf_on_message phases m cog) \<noteq> Inr () \<longrightarrow>
         last (wf_sent (fst (wf_on_message phases m cog))) = (ch, ''[system] PHASE COMPLETE -- all stages passed''))"
proof -
  define ev where "ev = stage_event ''execute'' VERIFY"
  have s: "send_system_event a msg (cog\<lparr>wf_sent := l\<rparr>) = cog\<lparr>wf_sent := l @ [(ch, ''[system] '' @ msg)]\<rparr>" for msg l
    using assms(7,8) by (simp add: send_system_event_def find_agent_channel_def project_category_def)
  have s0: "send_system_event a ev cog = cog\<lparr>wf_sent := wf_sent cog @ [(ch, ''[system] '' @ ev)]\<rparr>"
    using s [of ev "wf_sent cog"] by simp
  have "startswith (''agent-'' @ a) ''agent-''" by (simp add: startswith_def)
  then have "wf_on_message phases m cog = review_verify_gate (phases a) a (send_system_event a ev cog)"
    using assms(1-5) by (auto simp: wf_on_message_def enter_gate_def stage_map_def ev_def)
  then show ?thesis
    unfolding s0 using assms(1,6,9)
    by (auto simp: review_verify_gate_def handle_phase_complete_def Let_def s split: option.splits confidence_level.splits)
qed

theorem phase_completion_fails_witness:
  "snd (wf_on_message (\<lambda>a. Some [([''1'', ''1-VERIFICATION.md''], Some ''all pass'')]) (signal_message ''now a: Execute-Phase Complete'') demo_cog)
     = Inl (AttributeError ''route_completion_to_pm'')"
proof -
  have d: "detect_stage_signal ''now a: Execute-Phase Complete'' = Some (''a'', ''execute'')" by code_simp
  have l: "latest_text ''-VERIFICATION.md'' (Some [([''1'', ''1-VERIFICATION.md''], Some ''all pass'')]) = ''all pass''" by code_simp
  have u: "py_contains ''PASS'' (py_upper ''all pass'') \<and> \<not> py_contains ''FAIL'' (py_upper ''all pass'')" by code_simp
  show ?thesis
    using phase_completion_fails [of demo_cog known_api "signal_message ''now a: Execute-Phase Complete''" "''a''" _
        "\<lparr>tc_name = ''agent-a'', tc_category = Some ''vco-p''\<rparr>" "''all pass''" "\<lambda>a. Some [([''1'', ''1-VERIFICATION.md''], Some ''all pass'')]"] d l u
    by (simp add: demo_cog_def known_api_def signal_message_def get_container_info_def find_handle_def find_agent_channel_def project_category_def startswith_def)
qed

end
