(* ===== verification/Comm_Port.thy ===== *)
theory Comm_Port
  imports Py_String Py_Json "HOL-Library.Multiset"
begin

text \<open>
  The communication port of the daemon, \<open>daemon/comm.py\<close>, with its implementation that does nothing, and the one for
  Discord, \<open>bot/comm_adapter.py\<close>. Discord itself is a state of categories, channels and posts; which identifiers are text channels,
  how Discord normalises the name of a new channel and which calls fail are arguments. The locale \<open>channel_maker\<close> says what
  hiring relies on; both implementations interpret it.
\<close>

section \<open>Discord\<close>

text \<open>An embed has a title, a description, a colour, fields and a footer; the adapter sets no footer.\<close>

datatype discord_post =
    TextPost string
  | EmbedPost string string "int option" "(string \<times> string \<times> bool) list" "string option"
  | FilePost string string "string option"
  | EditPost int string
  | ThreadPost string "string option"

record discord_state =
  ds_categories :: "(string \<times> (string \<times> nat) list) list"
  ds_next_id :: nat
  ds_posts :: "(int \<times> discord_post) list"

datatype discord_fault = NotFound | HTTPException | OtherFault

text \<open>What a method call meets: the bot's guilds and channels, and the calls that fail, by their names.\<close>

record discord_env =
  de_has_guild :: bool
  de_text_channel :: "int \<Rightarrow> bool"
  de_fault :: "string \<Rightarrow> discord_fault option"
  de_normalise :: "string \<Rightarrow> string"

definition fault_error :: "discord_fault \<Rightarrow> py_error" where
  "fault_error f =
     (case f of NotFound \<Rightarrow> RuntimeError ''NotFound'' | HTTPException \<Rightarrow> RuntimeError ''HTTPException'' | OtherFault \<Rightarrow> RuntimeError ''DiscordException'')"

section \<open>Channel identifiers\<close>

text \<open>\<open>int(s)\<close>: white space around, a sign, digits with single underscores between them.\<close>

definition int_of_string :: "string \<Rightarrow> int option" where
  "int_of_string s =
     (let t = py_strip s;
          neg = startswith t ''-'';
          body = (if neg \<or> startswith t ''+'' then drop 1 t else t);
          groups = py_split_on ''_'' body in
      if list_all (\<lambda>g. g \<noteq> [] \<and> list_all is_digit g) groups
      then Some ((if neg then -1 else 1) * int (nat_of_digits (concat groups))) else None)"

definition resolve_channel :: "discord_env \<Rightarrow> string \<Rightarrow> int option" where
  "resolve_channel env channel_id =
     (case int_of_string channel_id of
        None \<Rightarrow> None
      | Some i \<Rightarrow> if de_text_channel env i then Some i else None)"

section \<open>Sending\<close>

definition ds_post :: "int \<Rightarrow> discord_post \<Rightarrow> discord_state \<Rightarrow> discord_state" where
  "ds_post ch p s = s\<lparr>ds_posts := ds_posts s @ [(ch, p)]\<rparr>"

definition dp_send_message :: "discord_env \<Rightarrow> string \<Rightarrow> string \<Rightarrow> discord_state \<Rightarrow> (discord_state, bool) outcome" where
  "dp_send_message env channel_id content s =
     (case resolve_channel env channel_id of
        None \<Rightarrow> (s, Inr False)
      | Some ch \<Rightarrow>
          (case de_fault env ''send'' of
             Some f \<Rightarrow> (s, Inl (fault_error f))
           | None \<Rightarrow> (ds_post ch (TextPost content) s, Inr True)))"

definition dp_send_embed :: "discord_env \<Rightarrow> string \<Rightarrow> string \<Rightarrow> string \<Rightarrow> int option \<Rightarrow> (string \<times> string \<times> bool) list
    \<Rightarrow> discord_state \<Rightarrow> (discord_state, bool) outcome" where
  "dp_send_embed env channel_id title description color flds s =
     (case resolve_channel env channel_id of
        None \<Rightarrow> (s, Inr False)
      | Some ch \<Rightarrow>
          (case de_fault env ''send'' of
             Some f \<Rightarrow> (s, Inl (fault_error f))
           | None \<Rightarrow> (ds_post ch (EmbedPost title description color flds None) s, Inr True)))"

text \<open>A thread; when only its first message fails it is left behind.\<close>

definition dp_create_thread :: "discord_env \<Rightarrow> string \<Rightarrow> string \<Rightarrow> string option \<Rightarrow> discord_state
    \<Rightarrow> (discord_state, (nat \<times> string) option) outcome" where
  "dp_create_thread env channel_id name initial s =
     (case resolve_channel env channel_id of
        None \<Rightarrow> (s, Inr None)
      | Some ch \<Rightarrow>
          (case de_fault env ''create_thread'' of
             Some f \<Rightarrow> (s, Inl (fault_error f))
           | None \<Rightarrow>
               (let t = ds_next_id s; s = s\<lparr>ds_next_id := Suc t\<rparr> in
                case (initial, de_fault env ''thread_send'') of
                  (Some m, Some f) \<Rightarrow> (ds_post ch (ThreadPost name None) s, Inl (fault_error f))
                | _ \<Rightarrow> (ds_post ch (ThreadPost name initial) s, Inr (Some (t, name))))))"

definition dp_subscribe :: "discord_env \<Rightarrow> string \<Rightarrow> bool" where
  "dp_subscribe env channel_id = (resolve_channel env channel_id \<noteq> None)"

definition dp_edit_message :: "discord_env \<Rightarrow> string \<Rightarrow> string \<Rightarrow> string \<Rightarrow> discord_state \<Rightarrow> (discord_state, bool) outcome" where
  "dp_edit_message env channel_id message_id content s =
     (case resolve_channel env channel_id of
        None \<Rightarrow> (s, Inr False)
      | Some ch \<Rightarrow>
          (case int_of_string message_id of
             None \<Rightarrow> (s, Inl (ValueError message_id))
           | Some i \<Rightarrow>
               (case (de_fault env ''fetch'', de_fault env ''edit'') of
                  (Some OtherFault, _) \<Rightarrow> (s, Inl (fault_error OtherFault))
                | (Some f, _) \<Rightarrow> (s, Inr False)
                | (None, Some OtherFault) \<Rightarrow> (s, Inl (fault_error OtherFault))
                | (None, Some f) \<Rightarrow> (s, Inr False)
                | (None, None) \<Rightarrow> (ds_post ch (EditPost i content) s, Inr True))))"

definition dp_post_embed :: "discord_env \<Rightarrow> string \<Rightarrow> string \<Rightarrow> string \<Rightarrow> int option \<Rightarrow> (string \<times> string \<times> bool) list
    \<Rightarrow> discord_state \<Rightarrow> (discord_state, string option) outcome" where
  "dp_post_embed env channel_id title description color flds s =
     (case resolve_channel env channel_id of
        None \<Rightarrow> (s, Inr None)
      | Some ch \<Rightarrow>
          (case de_fault env ''send'' of
             Some f \<Rightarrow> (s, Inl (fault_error f))
           | None \<Rightarrow>
               (let i = ds_next_id s in
                (ds_post ch (EmbedPost title description color flds None) (s\<lparr>ds_next_id := Suc i\<rparr>), Inr (Some (show_nat i))))))"

text \<open>The file exists or not; the display name defaults to the last part of the path.\<close>

definition path_name :: "string \<Rightarrow> string" where
  "path_name p = last ([] # filter (\<lambda>x. x \<noteq> [] \<and> x \<noteq> ''.'') (py_split_on ''/'' p))"

definition dp_send_file :: "discord_env \<Rightarrow> (string \<Rightarrow> bool) \<Rightarrow> string \<Rightarrow> string \<Rightarrow> string option \<Rightarrow> string \<Rightarrow> discord_state
    \<Rightarrow> (discord_state, bool) outcome" where
  "dp_send_file env exists channel_id path filename content s =
     (case resolve_channel env channel_id of
        None \<Rightarrow> (s, Inr False)
      | Some ch \<Rightarrow>
          if \<not> exists path then (s, Inr False)
          else
            (let name = (case filename of Some n \<Rightarrow> if n = [] then path_name path else n | None \<Rightarrow> path_name path) in
             case de_fault env ''send'' of
               Some OtherFault \<Rightarrow> (s, Inl (fault_error OtherFault))
             | Some f \<Rightarrow> (s, Inr False)
             | None \<Rightarrow> (ds_post ch (FilePost name path (if content = [] then None else Some content)) s, Inr True)))"

section \<open>Waiting for a reply\<close>

text \<open>
  The messages after the question at every poll, at most twenty, each with the message it answers; \<open>None\<close> when Discord refuses.
\<close>

type_synonym history = "(int option \<times> string) list option"

definition find_reply :: "int \<Rightarrow> history \<Rightarrow> string option" where
  "find_reply msg h =
     (case h of None \<Rightarrow> None | Some ms \<Rightarrow> map_option snd (find (\<lambda>(ref, content). ref = Some msg) (take 20 ms)))"

fun poll_loop :: "(nat \<Rightarrow> history) \<Rightarrow> int \<Rightarrow> nat \<Rightarrow> nat \<Rightarrow> string option" where
  "poll_loop history msg polls_done 0 = None"
| "poll_loop history msg polls_done (Suc left) =
     (case find_reply msg (history polls_done) of
        Some content \<Rightarrow> Some content
      | None \<Rightarrow> poll_loop history msg (Suc polls_done) left)"

definition dp_poll_reply :: "discord_env \<Rightarrow> (nat \<Rightarrow> history) \<Rightarrow> string \<Rightarrow> string \<Rightarrow> nat \<Rightarrow> py_error + string option" where
  "dp_poll_reply env history channel_id message_id max_polls =
     (case resolve_channel env channel_id of
        None \<Rightarrow> Inr None
      | Some ch \<Rightarrow>
          (case int_of_string message_id of
             None \<Rightarrow> Inl (ValueError message_id)
           | Some msg \<Rightarrow> Inr (poll_loop history msg 0 max_polls)))"

section \<open>Channels\<close>

definition find_category :: "string \<Rightarrow> discord_state \<Rightarrow> (string \<times> nat) list option" where
  "find_category c s = map_option snd (find (\<lambda>(n, chans). n = c) (ds_categories s))"

definition find_channel :: "string \<Rightarrow> (string \<times> nat) list \<Rightarrow> nat option" where
  "find_channel n chans = map_option snd (find (\<lambda>(m, i). m = n) chans)"

text \<open>A new channel of the first category with that name.\<close>

fun add_channel :: "string \<Rightarrow> string \<times> nat \<Rightarrow> (string \<times> (string \<times> nat) list) list \<Rightarrow> (string \<times> (string \<times> nat) list) list" where
  "add_channel c ch [] = []"
| "add_channel c ch ((n, chans) # cs) = (if n = c then (n, chans @ [ch]) # cs else (n, chans) # add_channel c ch cs)"

definition ensure_category :: "discord_env \<Rightarrow> string \<Rightarrow> discord_state \<Rightarrow> discord_state option" where
  "ensure_category env category s =
     (case find_category category s of
        Some _ \<Rightarrow> Some s
      | None \<Rightarrow>
          (case de_fault env ''create_category'' of
             Some f \<Rightarrow> None
           | None \<Rightarrow> Some (s\<lparr>ds_categories := ds_categories s @ [(category, [])]\<rparr>)))"

definition ensure_channel :: "discord_env \<Rightarrow> string \<Rightarrow> string \<Rightarrow> discord_state \<Rightarrow> discord_state \<times> (string \<times> string) option" where
  "ensure_channel env category name s =
     (case Option.bind (find_category category s) (find_channel name) of
        Some i \<Rightarrow> (s, Some (show_nat i, name))
      | None \<Rightarrow>
          (case de_fault env ''create_text_channel'' of
             Some f \<Rightarrow> (s, None)
           | None \<Rightarrow>
               (let i = ds_next_id s; n = de_normalise env name in
                (s\<lparr>ds_categories := add_channel category (n, i) (ds_categories s), ds_next_id := Suc i\<rparr>, Some (show_nat i, n)))))"

text \<open>Every exception ends in \<open>None\<close>; a category that was created before it stays.\<close>

definition dp_create_channel :: "discord_env \<Rightarrow> string \<Rightarrow> string \<Rightarrow> discord_state \<Rightarrow> discord_state \<times> (string \<times> string) option" where
  "dp_create_channel env category name s =
     (if \<not> de_has_guild env then (s, None)
      else (case ensure_category env category s of None \<Rightarrow> (s, None) | Some s \<Rightarrow> ensure_channel env category name s))"

section \<open>The port that does nothing\<close>

definition noop_send :: "'p \<Rightarrow> bool" where
  "noop_send payload = True"

definition noop_create_thread :: "string \<Rightarrow> (string \<times> string) option" where
  "noop_create_thread name = Some (''noop-thread'', name)"

definition noop_create_channel :: "string \<Rightarrow> string \<Rightarrow> unit \<Rightarrow> unit \<times> (string \<times> string) option" where
  "noop_create_channel category name s = (s, Some (''noop-channel'', name))"

definition noop_post_embed :: "'p \<Rightarrow> string option" where
  "noop_post_embed payload = Some ''noop-msg''"

definition noop_poll_reply :: "'p \<Rightarrow> string option" where
  "noop_poll_reply payload = Some ''noop-reply''"

section \<open>Lemmas\<close>

lemma digits_no_sub: "\<forall>c \<in> set s. is_digit c \<Longrightarrow> \<not> is_digit d \<Longrightarrow> \<not> py_contains [d] s"
  by (induction s) (auto simp: startswith_def)

lemma int_of_show_nat: "int_of_string (show_nat k) = Some (int k)"
proof -
  have d: "\<forall>c \<in> set (show_nat k). is_digit c" by (rule show_nat_digits)
  have sp: "\<not> py_space c" if "is_digit c" for c
    using that by (auto simp: py_space_def is_digit_def)
  have "hd (show_nat k) \<in> set (show_nat k)" "last (show_nat k) \<in> set (show_nat k)" by simp_all
  then have s: "py_strip (show_nat k) = show_nat k" using d sp by (intro strip_with_id) auto
  have h: "\<not> startswith (show_nat k) [c]" if "\<not> is_digit c" for c
    using d that by (cases "show_nat k") (auto simp: startswith_def)
  have "py_split_on ''_'' (show_nat k) = [show_nat k]"
    using split_on_none [OF digits_no_sub [OF d], of "CHR ''_''"] by (simp add: py_split_on_def is_digit_def)
  then show ?thesis using d s h by (simp add: int_of_string_def Let_def is_digit_def list_all_iff)
qed

section \<open>What hiring relies on\<close>

text \<open>
  A port makes a channel or finds it: a channel that exists under the name asked for, or that was made under a name no channel of the
  category had, is found again by its name whenever the port is able to answer, and making other channels in between, in whatever
  circumstances, does not change that.
\<close>

locale channel_maker =
  fixes create :: "'e \<Rightarrow> string \<Rightarrow> string \<Rightarrow> 's \<Rightarrow> 's \<times> (string \<times> string) option"
    and able :: "'e \<Rightarrow> bool"
    and fresh :: "string \<Rightarrow> string \<Rightarrow> 's \<Rightarrow> bool"
  assumes found_again: "create e c n s = (s', Some (i, m)) \<Longrightarrow> m = n \<or> fresh c m s \<Longrightarrow> able e' \<Longrightarrow>
      create e' c m s' = (s', Some (i, m))"
    and kept: "create e c n s = (s, Some (i, n)) \<Longrightarrow> able e' \<Longrightarrow>
      create e' c n (fst (create e'' c' n' s)) = (fst (create e'' c' n' s), Some (i, n))"
    and answers: "create e c n s = (s', Some r) \<Longrightarrow> able e"
begin

lemma kept_all:
  "create e c n s = (s, Some (i, n)) \<Longrightarrow> able e' \<Longrightarrow>
     create e' c n (fold (\<lambda>(e, c, n) s. fst (create e c n s)) later s) = (fold (\<lambda>(e, c, n) s. fst (create e c n s)) later s, Some (i, n))"
proof (induction later arbitrary: s)
  case Nil
  then show ?case using found_again [OF Nil(1)] by simp
next
  case (Cons x later)
  obtain e1 c1 n1 where x: "x = (e1, c1, n1)" by (cases x)
  have "create e c n (fst (create e1 c1 n1 s)) = (fst (create e1 c1 n1 s), Some (i, n))"
    using kept [OF Cons.prems(1) answers [OF Cons.prems(1)]] .
  then show ?case using Cons.IH Cons.prems(2) x by simp
qed

lemma same_channel:
  assumes "create e c n s = (s', Some (i, m))" "m = n \<or> fresh c m s" "able e'"
    and "s'' = fold (\<lambda>(e, c, n) s. fst (create e c n s)) later s'"
  shows "create e' c m s'' = (s'', Some (i, m))"
  using kept_all [OF found_again [OF assms(1,2) answers [OF assms(1)]] assms(3)] assms(4) by simp

end

interpretation np: channel_maker "\<lambda>_ :: unit. noop_create_channel" "\<lambda>_. True" "\<lambda>_ _ _. False"
  by unfold_locales (simp_all add: noop_create_channel_def)

text \<open>The entries of a state: category, name and identifier of every channel; identifiers are given once.\<close>

definition entries :: "discord_state \<Rightarrow> (string \<times> string \<times> nat) list" where
  "entries s = concat (map (\<lambda>(c, chans). map (Pair c) chans) (ds_categories s))"

definition ds_ok :: "discord_state \<Rightarrow> bool" where
  "ds_ok s \<longleftrightarrow> distinct (map (\<lambda>(c, n, i). i) (entries s)) \<and> (\<forall>(c, n, i) \<in> set (entries s). i < ds_next_id s)"

definition channel_in :: "string \<Rightarrow> string \<Rightarrow> (string \<times> (string \<times> nat) list) list \<Rightarrow> nat option" where
  "channel_in c n cats = Option.bind (map_option snd (find (\<lambda>(m, chans). m = c) cats)) (find_channel n)"

lemma channel_in_find: "Option.bind (find_category c s) (find_channel n) = channel_in c n (ds_categories s)"
  by (simp add: channel_in_def find_category_def)

lemma channel_in_entry: "channel_in c n (ds_categories s) = Some i \<Longrightarrow> (c, n, i) \<in> set (entries s)"
proof -
  assume "channel_in c n (ds_categories s) = Some i"
  then obtain chans where "(c, chans) \<in> set (ds_categories s)" "(n, i) \<in> set chans"
    by (force simp: channel_in_def find_channel_def bind_eq_Some_conv find_Some_iff in_set_conv_nth)
  then show ?thesis by (force simp: entries_def)
qed

lemma channel_in_append: "channel_in c n cats = Some i \<Longrightarrow> channel_in c n (cats @ more_cats) = Some i"
  by (auto simp: channel_in_def find_append bind_eq_Some_conv)

lemma channel_in_add_other: "channel_in c n cats = Some i \<Longrightarrow> channel_in c n (add_channel c' ch cats) = Some i"
  by (induction cats) (auto simp: channel_in_def find_channel_def find_append bind_eq_Some_conv)

lemma channel_in_added:
  "find (\<lambda>(m, chans). m = c) cats \<noteq> None \<Longrightarrow> channel_in c n cats = None \<Longrightarrow> channel_in c n (add_channel c (n, i) cats) = Some i"
  by (induction cats) (auto simp: channel_in_def find_channel_def find_append bind_eq_Some_conv bind_eq_None_conv split: option.splits)

text \<open>A call of \<open>create_channel\<close>: it fails, or finds the channel, or makes it; what was there stays.\<close>

lemma ensure_category_has:
  "ensure_category env c s = Some s' \<Longrightarrow> find (\<lambda>(m, chans). m = c) (ds_categories s') \<noteq> None"
  by (auto simp: ensure_category_def find_category_def find_append split: option.splits)

lemma ensure_channel_found:
  assumes "ensure_channel env c n s = (s', Some (i, m))" "find (\<lambda>(m, chans). m = c) (ds_categories s) \<noteq> None"
    and "m = n \<or> channel_in c m (ds_categories s) = None"
  shows "\<exists>k. i = show_nat k \<and> channel_in c m (ds_categories s') = Some k"
proof (cases "channel_in c n (ds_categories s)")
  case None
  then have "s' = s\<lparr>ds_categories := add_channel c (m, ds_next_id s) (ds_categories s), ds_next_id := Suc (ds_next_id s)\<rparr>" "i = show_nat (ds_next_id s)"
    using assms(1) by (auto simp: ensure_channel_def channel_in_find Let_def split: option.splits)
  then show ?thesis using channel_in_added [OF assms(2)] None assms(3) by auto
next
  case (Some k)
  then show ?thesis using assms(1) by (auto simp: ensure_channel_def channel_in_find)
qed

lemma ensure_category_channel_in:
  "ensure_category env c s = Some s' \<Longrightarrow> channel_in c' n (ds_categories s) = None \<Longrightarrow> channel_in c' n (ds_categories s') = None"
  by (auto simp: ensure_category_def find_category_def channel_in_def find_append find_channel_def split: option.splits)

lemma create_channel_found:
  assumes "dp_create_channel env c n s = (s', Some (i, m))" "m = n \<or> channel_in c m (ds_categories s) = None"
  shows "\<exists>k. i = show_nat k \<and> channel_in c m (ds_categories s') = Some k"
proof -
  obtain s1 where s1: "ensure_category env c s = Some s1" "ensure_channel env c n s1 = (s', Some (i, m))"
    using assms(1) by (auto simp: dp_create_channel_def split: if_splits option.splits)
  show ?thesis
  proof (rule ensure_channel_found [OF s1(2) ensure_category_has [OF s1(1)]])
    show "m = n \<or> channel_in c m (ds_categories s1) = None"
      using assms(2) ensure_category_channel_in [OF s1(1), of c m] by auto
  qed
qed

lemma create_channel_again:
  "de_has_guild env \<Longrightarrow> channel_in c n (ds_categories s) = Some k \<Longrightarrow> dp_create_channel env c n s = (s, Some (show_nat k, n))"
proof -
  assume g: "de_has_guild env" and k: "channel_in c n (ds_categories s) = Some k"
  then obtain chans where "find_category c s = Some chans" by (auto simp: channel_in_def find_category_def bind_eq_Some_conv)
  moreover from this have "find_channel n chans = Some k" using k by (simp add: channel_in_find [symmetric])
  ultimately show ?thesis using g by (simp add: dp_create_channel_def ensure_category_def ensure_channel_def)
qed

lemma create_channel_kept:
  "channel_in c n (ds_categories s) = Some k \<Longrightarrow> channel_in c n (ds_categories (fst (dp_create_channel env c' n' s))) = Some k"
  by (auto simp: dp_create_channel_def ensure_category_def ensure_channel_def Let_def split: option.split intro: channel_in_append channel_in_add_other)

lemma dp_guild: "dp_create_channel env c n s = (s', Some r) \<Longrightarrow> de_has_guild env"
  by (auto simp: dp_create_channel_def split: if_splits)

interpretation dp: channel_maker dp_create_channel de_has_guild "\<lambda>c n s. channel_in c n (ds_categories s) = None"
proof unfold_locales
  fix env env' :: discord_env and c n s s' i m
  assume a: "dp_create_channel env c n s = (s', Some (i, m))" "m = n \<or> channel_in c m (ds_categories s) = None" "de_has_guild env'"
  then show "dp_create_channel env' c m s' = (s', Some (i, m))"
    using create_channel_found [OF a(1,2)] create_channel_again by blast
next
  fix env env' env'' :: discord_env and c n s i c' n'
  assume a: "dp_create_channel env c n s = (s, Some (i, n))" "de_has_guild env'"
  then show "dp_create_channel env' c n (fst (dp_create_channel env'' c' n' s)) = (fst (dp_create_channel env'' c' n' s), Some (i, n))"
    using create_channel_found [OF a(1)] create_channel_again create_channel_kept by blast
qed (rule dp_guild)

lemma entries_add:
  "find (\<lambda>(m, chans). m = c) cats \<noteq> None \<Longrightarrow>
     mset (concat (map (\<lambda>(c, chans). map (Pair c) chans) (add_channel c (n, i) cats)))
       = add_mset (c, n, i) (mset (concat (map (\<lambda>(c, chans). map (Pair c) chans) cats)))"
  by (induction cats) auto

lemma ensure_category_ok: "ensure_category env c s = Some s' \<Longrightarrow> entries s' = entries s \<and> ds_next_id s' = ds_next_id s"
  by (auto simp: ensure_category_def entries_def split: option.splits)

lemma ds_ok_add:
  assumes "ds_ok s" and "mset (entries s') = add_mset (c, n, ds_next_id s) (mset (entries s))" and "ds_next_id s' = Suc (ds_next_id s)"
  shows "ds_ok s'"
proof -
  have "mset (map (\<lambda>(c, n, i). i) (entries s')) = mset (ds_next_id s # map (\<lambda>(c, n, i). i) (entries s))"
    using arg_cong [OF assms(2), of "image_mset (\<lambda>(c, n, i). i)"] by simp
  then have "distinct (map (\<lambda>(c, n, i). i) (entries s')) = distinct (ds_next_id s # map (\<lambda>(c, n, i). i) (entries s))"
    by (rule mset_eq_imp_distinct_iff)
  moreover have "set (entries s') = insert (c, n, ds_next_id s) (set (entries s))"
    using arg_cong [OF assms(2), of set_mset] by simp
  ultimately show ?thesis using assms(1,3) by (fastforce simp: ds_ok_def)
qed

lemma create_channel_ok: "ds_ok s \<Longrightarrow> ds_ok (fst (dp_create_channel env c n s))"
proof -
  assume ok: "ds_ok s"
  have "ds_ok (fst (ensure_channel env c n s1))" if e: "ensure_category env c s = Some s1" for s1
  proof (cases "fst (ensure_channel env c n s1) = s1")
    case True
    then show ?thesis using ok ensure_category_ok [OF e] by (simp add: ds_ok_def)
  next
    case False
    then obtain m where s2: "fst (ensure_channel env c n s1) = s1\<lparr>ds_categories := add_channel c (m, ds_next_id s1) (ds_categories s1), ds_next_id := Suc (ds_next_id s1)\<rparr>"
      by (auto simp: ensure_channel_def Let_def split: option.splits)
    have "ds_ok s1" using ok ensure_category_ok [OF e] by (simp add: ds_ok_def)
    then show ?thesis unfolding s2
      by (rule ds_ok_add [of _ _ c m]) (simp_all add: entries_def entries_add [OF ensure_category_has [OF e]])
  qed
  then show ?thesis using ok by (simp add: dp_create_channel_def split: option.split)
qed

lemma create_all_ok: "ds_ok s \<Longrightarrow> ds_ok (fold (\<lambda>(env, c, n) s. fst (dp_create_channel env c n s)) cs s)"
  by (induction cs arbitrary: s) (auto simp: create_channel_ok)

lemma show_nat_inj: "show_nat i = show_nat j \<Longrightarrow> i = j"
  by (metis nat_of_digits_show)

text \<open>What a request answers is the entry of that name in the state after it, or a new one.\<close>

lemma entries_added:
  "find (\<lambda>(m, chans). m = c) cats \<noteq> None \<Longrightarrow> (c, n, i) \<in> set (concat (map (\<lambda>(c, chans). map (Pair c) chans) (add_channel c (n, i) cats)))"
  by (induction cats) auto

lemma create_channel_entry:
  assumes "dp_create_channel env c n s = (s', Some (i, m))"
  shows "\<exists>k. i = show_nat k \<and> (c, m, k) \<in> set (entries s') \<and> (m = n \<or> k = ds_next_id s)"
proof -
  obtain s1 where s1: "ensure_category env c s = Some s1" "ensure_channel env c n s1 = (s', Some (i, m))"
    using assms by (auto simp: dp_create_channel_def split: if_splits option.splits)
  show ?thesis
  proof (cases "channel_in c n (ds_categories s1)")
    case None
    then have "s' = s1\<lparr>ds_categories := add_channel c (m, ds_next_id s1) (ds_categories s1), ds_next_id := Suc (ds_next_id s1)\<rparr>" "i = show_nat (ds_next_id s1)"
      using s1(2) by (auto simp: ensure_channel_def channel_in_find Let_def split: option.splits)
    moreover have "(c, m, ds_next_id s1) \<in> set (entries (s1\<lparr>ds_categories := add_channel c (m, ds_next_id s1) (ds_categories s1), ds_next_id := Suc (ds_next_id s1)\<rparr>))"
      using entries_added [OF ensure_category_has [OF s1(1)], of m "ds_next_id s1"] by (simp add: entries_def del: set_concat)
    ultimately show ?thesis using ensure_category_ok [OF s1(1)] by auto
  next
    case (Some k)
    then have "s' = s1" "i = show_nat k" "m = n" using s1(2) by (simp_all add: ensure_channel_def channel_in_find)
    then show ?thesis using channel_in_entry Some by blast
  qed
qed

lemma create_channel_grows: "set (entries s) \<subseteq> set (entries (fst (dp_create_channel env c n s)))"
proof -
  have "set (entries s1) \<subseteq> set (entries (fst (ensure_channel env c n s1)))" for s1
  proof -
    have "set (concat (map (\<lambda>(c, chans). map (Pair c) chans) cats)) \<subseteq> set (concat (map (\<lambda>(c, chans). map (Pair c) chans) (add_channel c ch cats)))" for ch cats
      by (induction cats) (auto simp del: set_concat)
    then show ?thesis by (simp add: ensure_channel_def entries_def Let_def split: option.split)
  qed
  then show ?thesis using ensure_category_ok by (fastforce simp: dp_create_channel_def split: option.split)
qed

lemma create_all_grows: "set (entries s) \<subseteq> set (entries (fold (\<lambda>(env, c, n) s. fst (dp_create_channel env c n s)) cs s))"
proof (induction cs arbitrary: s)
  case (Cons x cs)
  obtain env c n where "x = (env, c, n)" by (cases x)
  then show ?case using create_channel_grows [of s env c n] Cons [of "fst (dp_create_channel env c n s)"] by auto
qed simp

text \<open>
  C26. A channel keeps its identity on Discord, as long as nobody else renames or deletes channels. Suppose a request under a category was
  answered with a channel, under the name asked for or under the one Discord made of it. After any further requests, each in circumstances of
  its own (faults, name rules, no guild), a request for that category and the channel's name gives the same identifier and changes
  nothing, provided the name is the one that was asked for or was new in the category. A request for any other category or name never gives
  that identifier. In particular, when Discord changed the name, asking again for the name that was asked for never finds the channel.
\<close>

theorem channel_identity:
  assumes "ds_ok s" "dp_create_channel env c n s = (s', Some (i, m))"
    and "s'' = fold (\<lambda>(env, c, n) s. fst (dp_create_channel env c n s)) later s'"
    and "de_has_guild env'"
  shows "(m = n \<or> channel_in c m (ds_categories s) = None \<longrightarrow> dp_create_channel env' c m s'' = (s'', Some (i, m)))
    \<and> (\<forall>c' n' s3 j m'. (c', n') \<noteq> (c, m) \<and> dp_create_channel env' c' n' s'' = (s3, Some (j, m')) \<longrightarrow> j \<noteq> i)"
proof (intro conjI allI impI)
  show "dp_create_channel env' c m s'' = (s'', Some (i, m))" if "m = n \<or> channel_in c m (ds_categories s) = None"
    using dp.same_channel [OF assms(2) that assms(4,3)] .
  fix c' n' s3 j m'
  assume o: "(c', n') \<noteq> (c, m) \<and> dp_create_channel env' c' n' s'' = (s3, Some (j, m'))"
  have ok'': "ds_ok s''" using assms create_channel_ok [OF assms(1), of env c n] create_all_ok by simp
  then have ok: "ds_ok s3" using create_channel_ok [of s'' env' c' n'] o by simp
  obtain k where k: "i = show_nat k" "(c, m, k) \<in> set (entries s'')"
    using create_channel_entry [OF assms(2)] create_all_grows [of s' later] assms(3) by blast
  then have k3: "(c, m, k) \<in> set (entries s3)" "k < ds_next_id s''"
    using create_channel_grows [of s'' env' c' n'] o ok'' by (auto simp: ds_ok_def)
  obtain k' where k': "j = show_nat k'" "(c', m', k') \<in> set (entries s3)" "m' = n' \<or> k' = ds_next_id s''"
    using create_channel_entry o by blast
  have "k \<noteq> k'"
  proof
    assume "k = k'"
    moreover have "inj_on (\<lambda>(c, n, i). i) (set (entries s3))" using ok by (simp add: ds_ok_def distinct_map)
    ultimately have "(c, m, k) = (c', m', k)"
      using k3(1) k'(2) by (intro inj_onD [of "\<lambda>(c, n, i). i"]) auto
    with o k'(3) k3(2) \<open>k = k'\<close> show False by auto
  qed
  then show "j \<noteq> i" using k(1) k'(1) show_nat_inj by blast
qed

definition demo_discord :: discord_env where
  "demo_discord = \<lparr>de_has_guild = True, de_text_channel = (\<lambda>i. True), de_fault = (\<lambda>c. None), de_normalise = py_lower\<rparr>"

definition empty_discord :: discord_state where
  "empty_discord = \<lparr>ds_categories = [], ds_next_id = 7, ds_posts = []\<rparr>"

text \<open>A name with an upper-case letter: its channel is found under the lower-case name, and a second request makes another one.\<close>

theorem channel_identity_witness:
  "(let s = fst (dp_create_channel demo_discord ''vco-tasks'' ''Task'' empty_discord);
        s2 = fst (dp_create_channel (demo_discord\<lparr>de_fault := (\<lambda>_. Some HTTPException)\<rparr>) ''vco-tasks'' ''task-b'' s) in
    dp_create_channel demo_discord ''vco-tasks'' ''task'' s2 = (s2, Some (show_nat 7, ''task''))
    \<and> (\<exists>s3 j. dp_create_channel demo_discord ''vco-tasks'' ''Task'' s2 = (s3, Some (j, ''task'')) \<and> j \<noteq> show_nat 7))"
proof -
  let ?s = "fst (dp_create_channel demo_discord ''vco-tasks'' ''Task'' empty_discord)"
  let ?bad = "demo_discord\<lparr>de_fault := (\<lambda>_. Some HTTPException)\<rparr>"
  let ?s2 = "fst (dp_create_channel ?bad ''vco-tasks'' ''task-b'' ?s)"
  note ev = dp_create_channel_def ensure_category_def ensure_channel_def find_category_def find_channel_def demo_discord_def
    empty_discord_def Let_def
  have l: "py_lower ''Task'' = ''task''" by code_simp
  have ok: "ds_ok empty_discord" by (simp add: ds_ok_def entries_def empty_discord_def)
  have 1: "dp_create_channel demo_discord ''vco-tasks'' ''Task'' empty_discord = (?s, Some (show_nat 7, ''task''))"
    by (simp add: ev l)
  have 2: "?s2 = fold (\<lambda>(env, c, n) s. fst (dp_create_channel env c n s)) [(?bad, ''vco-tasks'', ''task-b'')] ?s" by simp
  have g: "de_has_guild demo_discord" by (simp add: demo_discord_def)
  have 3: "dp_create_channel demo_discord ''vco-tasks'' ''Task'' ?s2
      = (fst (dp_create_channel demo_discord ''vco-tasks'' ''Task'' ?s2), Some (show_nat 8, ''task''))"
    by (simp add: ev l)
  have n: "channel_in ''vco-tasks'' ''task'' (ds_categories empty_discord) = None" by (simp add: channel_in_def empty_discord_def)
  have d: "(''vco-tasks'', ''Task'') \<noteq> (''vco-tasks'', ''task'')" by simp
  note id = channel_identity [OF ok 1 2 g]
  have "dp_create_channel demo_discord ''vco-tasks'' ''task'' ?s2 = (?s2, Some (show_nat 7, ''task''))"
    by (rule conjunct1 [OF id, rule_format, OF disjI2, OF n])
  moreover have "show_nat 8 \<noteq> show_nat 7"
    by (rule conjunct2 [OF id, rule_format, OF conjI, OF d 3])
  ultimately show ?thesis unfolding Let_def using 3 by blast
qed

section \<open>Replies\<close>

lemma dp_poll_reply_least:
  assumes "resolve_channel env ch = Some c" "int_of_string msg_id = Some msg"
  shows "dp_poll_reply env history ch msg_id max_polls =
    Inr (if \<forall>k < max_polls. find_reply msg (history k) = None then None
         else find_reply msg (history (LEAST k. find_reply msg (history k) \<noteq> None)))"
proof -
  have "poll_loop history msg d left =
      (if \<forall>k. d \<le> k \<and> k < d + left \<longrightarrow> find_reply msg (history k) = None then None
       else find_reply msg (history (LEAST k. d \<le> k \<and> find_reply msg (history k) \<noteq> None)))" for d left
  proof (induction left arbitrary: d)
    case (Suc left)
    show ?case
    proof (cases "find_reply msg (history d)")
      case (Some r)
      have "(LEAST k. d \<le> k \<and> find_reply msg (history k) \<noteq> None) = d" by (rule Least_equality) (use Some in auto)
      then show ?thesis using Some by (auto intro!: exI [of _ d])
    next
      case None
      have "(d \<le> k \<and> find_reply msg (history k) \<noteq> None) = (Suc d \<le> k \<and> find_reply msg (history k) \<noteq> None)" for k
        using None by (cases "k = d") auto
      moreover have "(\<forall>k. d \<le> k \<and> k < d + Suc left \<longrightarrow> find_reply msg (history k) = None)
          = (\<forall>k. Suc d \<le> k \<and> k < Suc d + left \<longrightarrow> find_reply msg (history k) = None)"
        using None by (metis Suc_leD Suc_leI add_Suc add_Suc_right le_neq_implies_less)
      ultimately show ?thesis unfolding poll_loop.simps None option.case Suc by presburger
    qed
  qed auto
  from this [of 0 max_polls] show ?thesis
    unfolding dp_poll_reply_def assms option.case by (simp only: le0 simp_thms add_0)
qed

text \<open>
  C27. Waiting for a reply ends after at most the given number of polls, with the reply seen at the first poll that shows one, and
  without an answer exactly if none of them does; polls that Discord refuses count as empty.
\<close>

theorem poll_reply_first:
  assumes "resolve_channel env ch = Some c" "int_of_string msg_id = Some msg"
  shows "dp_poll_reply env history ch msg_id max_polls =
    Inr (if \<forall>k < max_polls. find_reply msg (history k) = None then None
         else find_reply msg (history (LEAST k. find_reply msg (history k) \<noteq> None)))"
  by (rule dp_poll_reply_least [OF assms])

theorem poll_reply_first_witness:
  "dp_poll_reply demo_discord (\<lambda>k. if k < 2 then None else Some [(Some 9, ''yes'')]) ''5'' ''9'' 3 = Inr (Some ''yes'')"
proof -
  have r: "resolve_channel demo_discord ''5'' = Some 5" "int_of_string ''9'' = Some 9" by code_simp+
  let ?h = "\<lambda>k. if k < (2 :: nat) then None else Some [(Some 9, ''yes'')]"
  have "(LEAST k. find_reply 9 (?h k) \<noteq> None) = 2" by (rule Least_equality) (auto simp: find_reply_def split: if_splits)
  moreover have "\<not> (\<forall>k < 3. find_reply 9 (?h k) = None)" by (auto simp: find_reply_def intro!: exI [of _ 2])
  ultimately show ?thesis using poll_reply_first [OF r, of ?h 3] by (simp add: find_reply_def)
qed

end
