(* ===== verification/Daemon.thy ===== *)
theory Daemon
  imports Runtime_Api Daemon_Server Comm_Port
begin

text \<open>
  The daemon, \<open>daemon/daemon.py\<close>: the socket methods that bring requests to the gateway and to the communication port, the
  notifications at boot, the signal endpoint of \<open>daemon/signal_handler.py\<close>, the check for another daemon, and shutdown; and
  \<open>RuntimeAPI.new_project\<close>. Without a registered port the gateway uses the one that does nothing.

  Parameters that the handlers take for strings are strings or absent: a request in which one is
  another JSON value is refused here at once, while the code fails later or uses the value's text. The dash in the
  text of a question's options is written with two hyphens.
\<close>

section \<open>State\<close>

record signal_router =
  sr_handlers :: "(agent_id, nat) dict"
  sr_listeners :: nat

record 'c daemon =
  dn_api :: "'c runtime_api option"
  dn_comm_port :: bool
  dn_discord :: discord_state
  dn_project_dir :: "string option"
  dn_project_config :: "project_config option"
  dn_shutdown :: bool
  dn_announced :: "agent_id list"
  dn_signals :: signal_router
  dn_delivered :: "(nat \<times> string) list"

record daemon_env =
  dv_root :: root_env
  dv_hire :: hire_env
  dv_discord :: discord_env
  dv_task_id :: string
  dv_exists :: "string \<Rightarrow> bool"
  dv_history :: "nat \<Rightarrow> history"

definition set_comm_port :: "'c daemon \<Rightarrow> 'c daemon" where
  "set_comm_port d = d\<lparr>dn_comm_port := True\<rparr>"

definition get_comm_port :: "'c daemon \<Rightarrow> py_error + unit" where
  "get_comm_port d = (if dn_comm_port d then Inr () else Inl (RuntimeError ''CommunicationPort not registered -- is the bot connected?''))"

definition set_runtime_api :: "'c runtime_api \<Rightarrow> 'c daemon \<Rightarrow> 'c daemon" where
  "set_runtime_api api d = d\<lparr>dn_api := Some api\<rparr>"

section \<open>Parameters\<close>

definition str_param :: "string \<Rightarrow> (string, json) dict \<Rightarrow> py_error + string option" where
  "str_param k params =
     (case dict_get params k of
        None \<Rightarrow> Inr None
      | Some JNull \<Rightarrow> Inr None
      | Some (JStr s) \<Rightarrow> Inr (Some s)
      | Some _ \<Rightarrow> Inl (TypeError k))"

text \<open>\<open>params["k"]\<close> and \<open>params.get("k", default)\<close>.\<close>

definition required :: "string \<Rightarrow> (string, json) dict \<Rightarrow> py_error + string" where
  "required k params =
     (case dict_get params k of None \<Rightarrow> Inl (KeyError k) | Some (JStr s) \<Rightarrow> Inr s | Some _ \<Rightarrow> Inl (TypeError k))"

definition optional :: "string \<Rightarrow> string \<Rightarrow> (string, json) dict \<Rightarrow> py_error + string" where
  "optional k d params =
     (case dict_get params k of None \<Rightarrow> Inr d | Some (JStr s) \<Rightarrow> Inr s | Some _ \<Rightarrow> Inl (TypeError k))"

definition not_initialized :: py_error where
  "not_initialized = RuntimeError ''RuntimeAPI not initialized''"

definition daemon_not_initialized :: py_error where
  "daemon_not_initialized = RuntimeError ''Daemon not initialized''"

definition status_json :: "string \<Rightarrow> json" where
  "status_json s = JObj [(''status'', JStr s)]"

definition error_json :: "string \<Rightarrow> string \<Rightarrow> json" where
  "error_json k msg = JObj [(''status'', JStr ''error''), (k, JStr msg)]"

section \<open>Agents\<close>

text \<open>The task channel that the port gives to an agent to be hired.\<close>

definition task_channel :: "daemon_env \<Rightarrow> agent_id \<Rightarrow> 'c daemon \<Rightarrow> 'c daemon \<times> string option" where
  "task_channel env a d =
     (if dn_comm_port d then
        (case dp_create_channel (dv_discord env) ''vco-tasks'' (''task-'' @ a) (dn_discord d) of
           (ds, r) \<Rightarrow> (d\<lparr>dn_discord := ds\<rparr>, map_option fst r))
      else (d, map_option fst (snd (noop_create_channel ''vco-tasks'' (''task-'' @ a) ()))))"

definition with_api :: "('c runtime_api \<Rightarrow> 'c daemon \<Rightarrow> ('c daemon, json) outcome) \<Rightarrow> 'c daemon \<Rightarrow> ('c daemon, json) outcome" where
  "with_api f d = (case dn_api d of None \<Rightarrow> (d, Inl not_initialized) | Some api \<Rightarrow> f api d)"

definition handle_hire :: "daemon_env \<Rightarrow> (string, json) dict \<Rightarrow> 'c daemon \<Rightarrow> ('c daemon, json) outcome" where
  "handle_hire env params = with_api (\<lambda>api d.
     (case (required ''agent_id'' params, optional ''template'' ''generic'' params, str_param ''agent_type'' params) of
        (Inr a, Inr template, Inr ty) \<Rightarrow>
          (case task_channel env a d of
             (d, channel) \<Rightarrow>
               (case ra_hire (dv_root env) (dv_hire env) channel a template ty api of
                  (api, Inl e) \<Rightarrow> (d\<lparr>dn_api := Some api\<rparr>, Inl e)
                | (api, Inr i) \<Rightarrow> (d\<lparr>dn_api := Some api\<rparr>, Inr (JObj [(''agent_id'', JStr i)]))))
      | (Inl e, _, _) \<Rightarrow> (d, Inl e)
      | (_, Inl e, _) \<Rightarrow> (d, Inl e)
      | (_, _, Inl e) \<Rightarrow> (d, Inl e)))"

definition answer_ok :: "'c daemon \<Rightarrow> ('c runtime_api, unit) outcome \<Rightarrow> ('c daemon, json) outcome" where
  "answer_ok d = (\<lambda>(api, r).
     (d\<lparr>dn_api := Some api\<rparr>, case r of Inl e \<Rightarrow> Inl e | Inr _ \<Rightarrow> Inr (status_json ''ok'')))"

definition handle_give_task :: "daemon_env \<Rightarrow> (string, json) dict \<Rightarrow> 'c daemon \<Rightarrow> ('c daemon, json) outcome" where
  "handle_give_task env params = with_api (\<lambda>api d.
     (case (required ''agent_id'' params, required ''task'' params) of
        (Inr a, Inr task) \<Rightarrow> answer_ok d (ra_give_task (dv_root env) (dv_task_id env) a task api)
      | (Inl e, _) \<Rightarrow> (d, Inl e)
      | (_, Inl e) \<Rightarrow> (d, Inl e)))"

definition handle_dismiss :: "daemon_env \<Rightarrow> (string, json) dict \<Rightarrow> 'c daemon \<Rightarrow> ('c daemon, json) outcome" where
  "handle_dismiss env params = with_api (\<lambda>api d.
     (case required ''agent_id'' params of
        Inr a \<Rightarrow> answer_ok d (ra_dismiss (dv_root env) a api)
      | Inl e \<Rightarrow> (d, Inl e)))"

definition handle_status :: "(string, json) dict \<Rightarrow> 'c daemon \<Rightarrow> ('c daemon, json) outcome" where
  "handle_status params = with_api (\<lambda>api d. (d, Inr (ra_status api)))"

section \<open>Messages of agents\<close>

text \<open>The first of the names that has a channel whose identifier is not empty.\<close>

fun first_channel :: "string list \<Rightarrow> 'c runtime_api \<Rightarrow> string option" where
  "first_channel [] api = None"
| "first_channel (n # ns) api =
     (case get_channel_id n api of Some c \<Rightarrow> if c = [] then first_channel ns api else Some c | None \<Rightarrow> first_channel ns api)"

definition resolve_target :: "string list \<Rightarrow> string option \<Rightarrow> agent_id \<Rightarrow> 'c runtime_api \<Rightarrow> string option" where
  "resolve_target names explicit a api =
     (case explicit of
        Some c \<Rightarrow> if c \<noteq> [] then Some c else if a = [] then None else first_channel names api
      | None \<Rightarrow> if a = [] then None else first_channel names api)"

definition no_channel :: "agent_id \<Rightarrow> string" where
  "no_channel a = ''No channel found for agent '' @ a"

definition port_status :: "'c daemon \<Rightarrow> (discord_state, bool) outcome \<Rightarrow> ('c daemon, json) outcome" where
  "port_status d = (\<lambda>(ds, r).
     (d\<lparr>dn_discord := ds\<rparr>, case r of Inl e \<Rightarrow> Inl e | Inr b \<Rightarrow> Inr (status_json (if b then ''ok'' else ''error''))))"

definition with_port :: "('c runtime_api \<Rightarrow> 'c daemon \<Rightarrow> ('c daemon, json) outcome) \<Rightarrow> 'c daemon \<Rightarrow> ('c daemon, json) outcome" where
  "with_port f d =
     (case dn_api d of None \<Rightarrow> (d, Inl daemon_not_initialized) | Some api \<Rightarrow> if dn_comm_port d then f api d else (d, Inl daemon_not_initialized))"

definition handle_send_message :: "daemon_env \<Rightarrow> (string, json) dict \<Rightarrow> 'c daemon \<Rightarrow> ('c daemon, json) outcome" where
  "handle_send_message env params = with_port (\<lambda>api d.
     (case (optional ''content'' [] params, optional ''agent_id'' [] params, str_param ''channel_id'' params) of
        (Inr content, Inr a, Inr explicit) \<Rightarrow>
          (case resolve_target [''task-'' @ a, ''agent-'' @ a, a] explicit a api of
             None \<Rightarrow> (d, Inr (error_json ''message'' (no_channel a)))
           | Some c \<Rightarrow> port_status d (dp_send_message (dv_discord env) c content (dn_discord d)))
      | (Inl e, _, _) \<Rightarrow> (d, Inl e)
      | (_, Inl e, _) \<Rightarrow> (d, Inl e)
      | (_, _, Inl e) \<Rightarrow> (d, Inl e)))"

definition handle_send_file :: "daemon_env \<Rightarrow> (string, json) dict \<Rightarrow> 'c daemon \<Rightarrow> ('c daemon, json) outcome" where
  "handle_send_file env params = with_port (\<lambda>api d.
     (case (optional ''agent_id'' [] params, optional ''file_path'' [] params, str_param ''filename'' params,
            optional ''content'' [] params, str_param ''channel_id'' params) of
        (Inr a, Inr path, Inr filename, Inr content, Inr explicit) \<Rightarrow>
          if path = [] then (d, Inr (error_json ''message'' ''No file_path provided''))
          else
            (case resolve_target [''task-'' @ a, ''agent-'' @ a] explicit a api of
               None \<Rightarrow> (d, Inr (error_json ''message'' (no_channel a)))
             | Some c \<Rightarrow> port_status d (dp_send_file (dv_discord env) (dv_exists env) c path filename content (dn_discord d)))
      | (Inl e, _) \<Rightarrow> (d, Inl e)
      | (_, Inl e, _) \<Rightarrow> (d, Inl e)
      | (_, _, Inl e, _) \<Rightarrow> (d, Inl e)
      | (_, _, _, Inl e, _) \<Rightarrow> (d, Inl e)
      | (_, _, _, _, Inl e) \<Rightarrow> (d, Inl e)))"

section \<open>Questions\<close>

text \<open>A question: its text and its options, each with a label and a description.\<close>

record question =
  qn_text :: string
  qn_options :: "(string \<times> string) list"

definition option_line :: "nat \<Rightarrow> string \<times> string \<Rightarrow> string" where
  "option_line i = (\<lambda>(label, description). ''**'' @ show_nat (Suc i) @ ''. '' @ label @ ''** -- '' @ description)"

definition options_text :: "(string \<times> string) list \<Rightarrow> string" where
  "options_text os = intercalate [CHR 0x0A] (map (\<lambda>(i, opt). option_line i opt) (enumerate 0 os))"

definition parse_option :: "json \<Rightarrow> py_error + string \<times> string" where
  "parse_option j =
     (case j of
        JObj kvs \<Rightarrow>
          (case (required ''label'' kvs, optional ''description'' [] kvs) of
             (Inr l, Inr t) \<Rightarrow> Inr (l, t)
           | (Inl e, _) \<Rightarrow> Inl e
           | (_, Inl e) \<Rightarrow> Inl e)
      | _ \<Rightarrow> Inl (TypeError ''options''))"

fun parse_options :: "json list \<Rightarrow> py_error + (string \<times> string) list" where
  "parse_options [] = Inr []"
| "parse_options (j # js) =
     (case parse_option j of
        Inl e \<Rightarrow> Inl e
      | Inr p \<Rightarrow> (case parse_options js of Inl e \<Rightarrow> Inl e | Inr ps \<Rightarrow> Inr (p # ps)))"

definition parse_question :: "json \<Rightarrow> py_error + question" where
  "parse_question j =
     (case j of
        JObj kvs \<Rightarrow>
          (case (optional ''question'' [] kvs, parse_options (case dict_get kvs ''options'' of Some (JArr os) \<Rightarrow> os | _ \<Rightarrow> [])) of
             (Inr t, Inr os) \<Rightarrow> Inr \<lparr>qn_text = t, qn_options = os\<rparr>
           | (_, Inl e) \<Rightarrow> Inl e
           | (Inl e, _) \<Rightarrow> Inl e)
      | _ \<Rightarrow> Inl (AttributeError ''get''))"

definition timeout_json :: "string \<Rightarrow> question \<Rightarrow> json" where
  "timeout_json mode q =
     JObj [(''status'', JStr ''timeout''),
       (''answer'', JStr (if mode = ''continue'' \<and> qn_options q \<noteq> [] then ''Auto-selected (timeout): '' @ fst (hd (qn_options q))
                          else ''No answer received within timeout''))]"

text \<open>The question is posted and polled for 120 times.\<close>

definition ask_question :: "daemon_env \<Rightarrow> agent_id \<Rightarrow> string \<Rightarrow> string \<Rightarrow> question \<Rightarrow> 'c daemon \<Rightarrow> ('c daemon, json) outcome" where
  "ask_question env a channel mode q d =
     (case dp_post_embed (dv_discord env) channel (''Question from '' @ a) (qn_text q @ [CHR 0x0A, CHR 0x0A] @ options_text (qn_options q))
             (Some 3447003) [] (dn_discord d) of
        (ds, Inl e) \<Rightarrow> (d\<lparr>dn_discord := ds\<rparr>, Inl e)
      | (ds, Inr None) \<Rightarrow> (d\<lparr>dn_discord := ds\<rparr>, Inr (error_json ''answer'' ''Failed to post question''))
      | (ds, Inr (Some msg)) \<Rightarrow>
          (d\<lparr>dn_discord := ds\<rparr>,
           case dp_poll_reply (dv_discord env) (dv_history env) channel msg 120 of
             Inl e \<Rightarrow> Inl e
           | Inr None \<Rightarrow> Inr (timeout_json mode q)
           | Inr (Some t) \<Rightarrow> Inr (JObj [(''status'', JStr ''ok''), (''answer'', JStr t)])))"

definition handle_ask :: "daemon_env \<Rightarrow> (string, json) dict \<Rightarrow> 'c daemon \<Rightarrow> ('c daemon, json) outcome" where
  "handle_ask env params = with_port (\<lambda>api d.
     (case (optional ''agent_id'' [] params, optional ''timeout_mode'' ''continue'' params, dict_get params ''questions'') of
        (Inl e, _, _) \<Rightarrow> (d, Inl e)
      | (_, Inl e, _) \<Rightarrow> (d, Inl e)
      | (Inr a, Inr mode, Some (JArr (q # qs))) \<Rightarrow>
          (case first_channel [''task-'' @ a, ''agent-'' @ a] api of
             None \<Rightarrow> (d, Inr (error_json ''answer'' (no_channel a)))
           | Some c \<Rightarrow>
               (case parse_question q of
                  Inl e \<Rightarrow> (d, Inl e)
                | Inr q \<Rightarrow> ask_question env a c mode q d))
      | _ \<Rightarrow> (d, Inr (error_json ''message'' ''No questions provided''))))"

section \<open>Projects\<close>

definition kind_name :: "agent_kind \<Rightarrow> string" where
  "kind_name k = (case k of GsdKind \<Rightarrow> ''gsd'' | ContinuousKind \<Rightarrow> ''continuous'' | FulltimeKind \<Rightarrow> ''fulltime'' | CompanyKind \<Rightarrow> ''company'')"

definition mode_name :: "gsd_mode \<Rightarrow> string" where
  "mode_name m = (case m of Full \<Rightarrow> ''full'' | Quick \<Rightarrow> ''quick'')"

definition project_spec :: "agent_types_config option \<Rightarrow> string \<Rightarrow> agent_config \<Rightarrow> py_error + child_spec" where
  "project_spec types project a =
     (case (case types of None \<Rightarrow> Inr None | Some cfg \<Rightarrow> (case get_type cfg (kind_name (ac_type a)) of Inl e \<Rightarrow> Inl e | Inr tc \<Rightarrow> Inr (Some tc))) of
        Inl e \<Rightarrow> Inl e
      | Inr tc \<Rightarrow>
          Inr \<lparr>child_id = ac_id a, cs_agent_type = kind_name (ac_type a),
               cs_context = [(''agent_id'', JStr (ac_id a)), (''agent_type'', JStr (kind_name (ac_type a))), (''parent_id'', JStr ''project-supervisor''),
                 (''project_id'', JStr project), (''owned_dirs'', JArr (map JStr (ac_owns a))), (''gsd_mode'', JStr (mode_name (ac_gsd_mode a))),
                 (''system_prompt'', JStr (ac_system_prompt a)), (''gsd_command'', opt_str (Option.bind tc at_gsd_command)),
                 (''uses_tmux'', JBool (case tc of None \<Rightarrow> False | Some c \<Rightarrow> ''uses_tmux'' \<in> set (at_capabilities c)))],
               cs_restart_policy = PERMANENT, cs_max_restarts = 3, cs_restart_window_seconds = 600,
               cs_transport = (case tc of None \<Rightarrow> ''local'' | Some c \<Rightarrow> at_transport c)\<rparr>)"

fun project_specs :: "agent_types_config option \<Rightarrow> string \<Rightarrow> agent_config list \<Rightarrow> py_error + child_spec list" where
  "project_specs types project [] = Inr []"
| "project_specs types project (a # as) =
     (case project_spec types project a of
        Inl e \<Rightarrow> Inl e
      | Inr s \<Rightarrow> (case project_specs types project as of Inl e \<Rightarrow> Inl e | Inr ss \<Rightarrow> Inr (s # ss)))"

text \<open>
  The project's supervisor is started with the only method that starts children. A project that starts has no children
  (\<open>new_project_children\<close>), so the loops over them, which wire a backlog and register agents, have nothing to do.
\<close>

definition new_project :: "root_env \<Rightarrow> hire_env \<Rightarrow> string \<Rightarrow> project_config \<Rightarrow> string \<Rightarrow> 'c runtime_api \<Rightarrow> ('c runtime_api, unit) outcome" where
  "new_project env henv persona cfg dir api =
     (case create_strategist env henv persona (api\<lparr>ra_project_config := Some cfg, ra_project_dir := Some dir\<rparr>) of
        (api, Inl e) \<Rightarrow> (api, Inl e)
      | (api, Inr _) \<Rightarrow>
          (case project_specs (he_types henv) (pc_project cfg) (pc_agents cfg) of
             Inl e \<Rightarrow> (api, Inl e)
           | Inr specs \<Rightarrow>
               (case add_project start_child (pc_project cfg) specs ONE_FOR_ONE 3 600 (ra_root api) of
                  (r, Inl e) \<Rightarrow> (api\<lparr>ra_root := r\<rparr>, Inl e)
                | (r, Inr ps) \<Rightarrow> (api\<lparr>ra_root := r\<rparr>, Inr ()))))"

text \<open>The configuration file of a directory: absent, refused, or read.\<close>

definition handle_new_project :: "daemon_env \<Rightarrow> (string \<Rightarrow> (py_error + project_config) option) \<Rightarrow> (string option \<Rightarrow> string)
    \<Rightarrow> (string, json) dict \<Rightarrow> 'c daemon \<Rightarrow> ('c daemon, json) outcome" where
  "handle_new_project env load_config persona params = with_api (\<lambda>api d.
     (case (required ''project_dir'' params, str_param ''persona_path'' params) of
        (Inl e, _) \<Rightarrow> (d, Inl e)
      | (_, Inl e) \<Rightarrow> (d, Inl e)
      | (Inr dir, Inr path) \<Rightarrow>
          (case load_config dir of
             None \<Rightarrow> (d, Inl OSError)
           | Some (Inl e) \<Rightarrow> (d, Inl e)
           | Some (Inr cfg) \<Rightarrow>
               (case new_project (dv_root env) (dv_hire env) (persona (case path of Some p \<Rightarrow> if p = [] then None else Some p | None \<Rightarrow> None)) cfg dir api of
                  (api, Inl e) \<Rightarrow> (d\<lparr>dn_project_dir := Some dir, dn_project_config := Some cfg, dn_api := Some api\<rparr>, Inl e)
                | (api, Inr _) \<Rightarrow>
                    (d\<lparr>dn_project_dir := Some dir, dn_project_config := Some cfg, dn_api := Some api\<rparr>,
                     Inr (JObj [(''status'', JStr ''ok''), (''project'', JStr (pc_project cfg))]))))))"

text \<open>A project that is known when the daemon starts, or only the strategist.\<close>

definition init_project :: "daemon_env \<Rightarrow> string \<Rightarrow> 'c daemon \<Rightarrow> ('c daemon, unit) outcome" where
  "init_project env persona d =
     (case dn_api d of
        None \<Rightarrow> (d, Inr ())
      | Some api \<Rightarrow>
          (case (case (dn_project_config d, dn_project_dir d) of
                   (Some cfg, Some dir) \<Rightarrow> new_project (dv_root env) (dv_hire env) persona cfg dir api
                 | _ \<Rightarrow> create_strategist (dv_root env) (dv_hire env) persona api) of
             (api, r) \<Rightarrow> (d\<lparr>dn_api := Some api\<rparr>, r)))"

section \<open>Boot notifications\<close>

text \<open>\<open>comm_port_getter().send_message\<close>, or the registered port's; a fault of Discord is raised.\<close>

definition daemon_post :: "daemon_env \<Rightarrow> string option \<Rightarrow> string \<Rightarrow> 'c daemon \<Rightarrow> ('c daemon, unit) outcome" where
  "daemon_post env channel content d =
     (case channel of
        None \<Rightarrow> (d, Inr ())
      | Some c \<Rightarrow>
          if c = [] \<or> \<not> dn_comm_port d then (d, Inr ())
          else
            (case dp_send_message (dv_discord env) c content (dn_discord d) of
               (ds, Inl e) \<Rightarrow> (d\<lparr>dn_discord := ds\<rparr>, Inl e)
             | (ds, Inr b) \<Rightarrow> (d\<lparr>dn_discord := ds\<rparr>, Inr ())))"

definition send_boot_notifications :: "daemon_env \<Rightarrow> bool \<Rightarrow> 'c daemon \<Rightarrow> ('c daemon, unit) outcome" where
  "send_boot_notifications env is_restart d =
     (case dn_api d of
        None \<Rightarrow> (d, Inr ())
      | Some api \<Rightarrow>
          if \<not> dn_comm_port d then (d, Inr ())
          else
            (case daemon_post env (get_channel_id ''alerts'' api)
                    (if is_restart then ''vCompany restarted successfully. All systems online.'' else ''vCompany is online.'') d of
               (d, Inl e) \<Rightarrow> (d, Inl e)
             | (d, Inr _) \<Rightarrow>
                 daemon_post env (get_channel_id ''strategist'' api)
                   (if is_restart then ''[system] `vco restart` complete - vCompany is back online.''
                    else ''[system] `vco up` - vCompany is online.'') d))"

section \<open>Signals\<close>

definition sr_register :: "agent_id \<Rightarrow> nat \<Rightarrow> signal_router \<Rightarrow> signal_router" where
  "sr_register a h r = r\<lparr>sr_handlers := dict_set (sr_handlers r) a h\<rparr>"

definition sr_unregister :: "agent_id \<Rightarrow> signal_router \<Rightarrow> signal_router" where
  "sr_unregister a r = r\<lparr>sr_handlers := dict_pop (sr_handlers r) a\<rparr>"

definition sr_add_listener :: "signal_router \<Rightarrow> signal_router" where
  "sr_add_listener r = r\<lparr>sr_listeners := Suc (sr_listeners r)\<rparr>"

text \<open>The daemon's listener: an agent that is ready is announced once.\<close>

definition on_agent_signal :: "daemon_env \<Rightarrow> agent_id \<Rightarrow> string \<Rightarrow> 'c daemon \<Rightarrow> ('c daemon, unit) outcome" where
  "on_agent_signal env a signal d =
     (if signal \<noteq> ''ready'' \<or> a \<in> set (dn_announced d) then (d, Inr ())
      else
        (let d = d\<lparr>dn_announced := a # dn_announced d\<rparr> in
         daemon_post env (Option.bind (dn_api d) (get_channel_id (''task-'' @ a))) (''**'' @ a @ ''** is online and ready for tasks.'') d))"

definition sr_deliver :: "daemon_env \<Rightarrow> agent_id \<Rightarrow> string \<Rightarrow> 'c daemon \<Rightarrow> 'c daemon \<times> bool" where
  "sr_deliver env a signal d =
     (case dict_get (sr_handlers (dn_signals d)) a of
        None \<Rightarrow> (d, False)
      | Some h \<Rightarrow>
          (((\<lambda>d. fst (on_agent_signal env a signal d)) ^^ sr_listeners (dn_signals d)) (d\<lparr>dn_delivered := dn_delivered d @ [(h, signal)]\<rparr>), True))"

text \<open>The answers of the endpoint, and their status codes.\<close>

datatype signal_response = InvalidJson | MissingField | InvalidSignal string | NoHandler agent_id | SignalOk | ServerError

definition response_status :: "signal_response \<Rightarrow> nat" where
  "response_status r =
     (case r of InvalidJson \<Rightarrow> 400 | MissingField \<Rightarrow> 400 | InvalidSignal s \<Rightarrow> 400 | NoHandler a \<Rightarrow> 404 | SignalOk \<Rightarrow> 200 | ServerError \<Rightarrow> 500)"

text \<open>A body that is JSON but no object, or whose fields are not strings, makes the handler fail.\<close>

definition signal_endpoint :: "daemon_env \<Rightarrow> string \<Rightarrow> 'c daemon \<Rightarrow> 'c daemon \<times> signal_response" where
  "signal_endpoint env body d =
     (case loads body of
        None \<Rightarrow> (d, InvalidJson)
      | Some (JObj kvs) \<Rightarrow>
          (case (str_param ''agent_id'' kvs, str_param ''signal'' kvs) of
             (Inr (Some a), Inr (Some signal)) \<Rightarrow>
               if a = [] \<or> signal = [] then (d, MissingField)
               else if signal \<notin> {''ready'', ''idle''} then (d, InvalidSignal signal)
               else (case sr_deliver env a signal d of (d, True) \<Rightarrow> (d, SignalOk) | (d, False) \<Rightarrow> (d, NoHandler a))
           | (Inr _, Inr _) \<Rightarrow> (d, MissingField)
           | _ \<Rightarrow> (d, ServerError))
      | Some _ \<Rightarrow> (d, ServerError))"

section \<open>Start and end\<close>

text \<open>What sending signal 0 to a process tells.\<close>

datatype process_probe = Running | NoSuchProcess | NotPermitted

datatype start_check = Proceed bool | Refuse string | StartRaises py_error

text \<open>\<open>Proceed\<close> says whether the files of a daemon that is gone were removed.\<close>

definition check_already_running :: "string option \<Rightarrow> (int \<Rightarrow> process_probe) \<Rightarrow> start_check" where
  "check_already_running pid_file probe =
     (case pid_file of
        None \<Rightarrow> Proceed False
      | Some t \<Rightarrow>
          (case int_of_string t of
             None \<Rightarrow> StartRaises (ValueError (py_strip t))
           | Some pid \<Rightarrow>
               (case probe pid of
                  Running \<Rightarrow> Refuse (''Daemon already running (PID '' @ show_int pid @ '')'')
                | NoSuchProcess \<Rightarrow> Proceed True
                | NotPermitted \<Rightarrow> Refuse (''PID '' @ py_strip t @ '' exists but is not ours''))))"

definition handle_shutdown :: "(string, json) dict \<Rightarrow> 'c daemon \<Rightarrow> ('c daemon, json) outcome" where
  "handle_shutdown params d = (d\<lparr>dn_shutdown := True\<rparr>, Inr (status_json ''shutting_down''))"

definition signal_shutdown :: "'c daemon \<Rightarrow> 'c daemon" where
  "signal_shutdown d = (if dn_shutdown d then d else d\<lparr>dn_shutdown := True\<rparr>)"

datatype shutdown_step = StopSignalServer | StopCompanyRoot | StopSocketServer | CloseBot

definition daemon_shutdown :: "daemon_env \<Rightarrow> 'c child_class \<Rightarrow> bool \<Rightarrow> bool \<Rightarrow> bool \<Rightarrow> 'c daemon \<Rightarrow> 'c daemon \<times> shutdown_step list" where
  "daemon_shutdown env C has_runner has_server bot_running d =
     (d\<lparr>dn_api := map_option (\<lambda>api. api\<lparr>ra_root := cr_stop (dv_root env) C (ra_root api)\<rparr>) (dn_api d)\<rparr>,
      (if has_runner then [StopSignalServer] else []) @ (if dn_api d = None then [] else [StopCompanyRoot]) @
      (if has_server then [StopSocketServer] else []) @ (if bot_running then [CloseBot] else []))"

section \<open>The socket methods\<close>

definition daemon_methods :: "daemon_env \<Rightarrow> (string \<Rightarrow> (py_error + project_config) option) \<Rightarrow> (string option \<Rightarrow> string)
    \<Rightarrow> (string, (string, json) dict \<Rightarrow> 'c daemon \<Rightarrow> ('c daemon, json) outcome) dict" where
  "daemon_methods env load_config persona =
     [(''hire'', handle_hire env), (''give_task'', handle_give_task env), (''dismiss'', handle_dismiss env), (''status'', handle_status),
      (''new_project'', handle_new_project env load_config persona), (''send_message'', handle_send_message env),
      (''send_file'', handle_send_file env), (''ask'', handle_ask env)]"

definition register_socket_endpoints :: "daemon_env \<Rightarrow> (string \<Rightarrow> (py_error + project_config) option) \<Rightarrow> (string option \<Rightarrow> string)
    \<Rightarrow> 'c daemon socket_server \<Rightarrow> 'c daemon socket_server" where
  "register_socket_endpoints env load_config persona sv =
     fold (\<lambda>(n, f). register_method n f) (daemon_methods env load_config persona) sv"

section \<open>Hired agents and their channel\<close>

lemma root_hire_channels: "root_hire env henv a template ty chan persona api = (api', r) \<Longrightarrow> ra_channel_ids api' = ra_channel_ids api"
  by (auto simp: root_hire_def split: prod.splits sum.splits)

lemma ra_hire_result:
  assumes "ra_hire env henv chan a template ty api = (api', Inr i)"
  shows "i = a \<and> (\<exists>h. find_handle a (ra_root api') = Some h \<and> ah_channel_id h = chan)
    \<and> (case chan of None \<Rightarrow> True | Some ch \<Rightarrow> get_channel_id (''task-'' @ a) api' = Some ch)"
proof -
  define api0 where "api0 = (case chan of
       None \<Rightarrow> api\<lparr>ra_created := ra_created api @ [(''vco-tasks'', ''task-'' @ a)]\<rparr>
     | Some ch \<Rightarrow> api\<lparr>ra_created := ra_created api @ [(''vco-tasks'', ''task-'' @ a)], ra_channel_ids := dict_set (ra_channel_ids api) (''task-'' @ a) ch\<rparr>)"
  obtain api1 r where 1: "root_hire env henv a template ty chan None api0 = (api1, r)" by force
  obtain h where h: "r = Inr h" using assms 1 by (cases r; cases chan) (auto simp: ra_hire_def api0_def)
  note ok = root_hire_success [OF 1 [unfolded h]]
  have "ra_channel_ids api1 = ra_channel_ids api0" using root_hire_channels [OF 1] .
  moreover have "ra_root api' = ra_root api1 \<and> ra_channel_ids api' = ra_channel_ids api1 \<and> i = ah_agent_id h"
    using assms 1 h by (cases chan) (auto simp: ra_hire_def api0_def register_handle_def Let_def)
  ultimately show ?thesis using ok by (auto simp: get_channel_id_def api0_def dict_simps split: option.split)
qed

text \<open>What becomes of a text that is sent to a channel of Discord in given circumstances.\<close>

definition said_in :: "discord_env \<Rightarrow> nat \<Rightarrow> string \<Rightarrow> 'c daemon \<Rightarrow> ('c daemon, json) outcome" where
  "said_in D k content d =
     (if \<not> de_text_channel D (int k) then (d, Inr (status_json ''error''))
      else case de_fault D ''send'' of
             Some f \<Rightarrow> (d, Inl (fault_error f))
           | None \<Rightarrow> (d\<lparr>dn_discord := ds_post (int k) (TextPost content) (dn_discord d)\<rparr>, Inr (status_json ''ok'')))"

text \<open>
  C28. An agent speaks where it was hired. Suppose a hire through the socket succeeds with the Discord port installed. If Discord did not
  give a channel (no guild, a failing call), the agent has none. Otherwise the agent's handle carries that channel, and when the agent
  next sends a message through the socket under its own name, in whatever circumstances: if the channel's identifier still resolves to a text
  channel and Discord accepts the message, it is posted there unchanged and the answer is ok; if the identifier does not resolve, nothing
  is posted and the answer has the status error; and an exception of Discord reaches the caller with nothing posted.
\<close>

theorem hired_agent_speaks:
  assumes "handle_hire env params d = (d1, Inr j)" and "dict_get params ''agent_id'' = Some (JStr a)" "a \<noteq> []"
    and "dn_comm_port d"
  shows "j = JObj [(''agent_id'', JStr a)] \<and> (\<exists>api h. dn_api d1 = Some api \<and> find_handle a (ra_root api) = Some h \<and>
    (case snd (dp_create_channel (dv_discord env) ''vco-tasks'' (''task-'' @ a) (dn_discord d)) of
       None \<Rightarrow> ah_channel_id h = None
     | Some (ch, name) \<Rightarrow> \<exists>k. ch = show_nat k \<and> ah_channel_id h = Some ch \<and>
         handle_send_message env' [(''agent_id'', JStr a), (''content'', JStr content)] d1
           = (if \<not> de_text_channel (dv_discord env') (int k) then (d1, Inr (status_json ''error''))
              else case de_fault (dv_discord env') ''send'' of
                     Some f \<Rightarrow> (d1, Inl (fault_error f))
                   | None \<Rightarrow> (d1\<lparr>dn_discord := ds_post (int k) (TextPost content) (dn_discord d1)\<rparr>, Inr (status_json ''ok'')))))"
proof -
  obtain api0 where api0: "dn_api d = Some api0" using assms(1) by (auto simp: handle_hire_def with_api_def split: option.splits)
  obtain d2 chan where tc: "task_channel env a d = (d2, chan)" by force
  obtain ds r where cc: "dp_create_channel (dv_discord env) ''vco-tasks'' (''task-'' @ a) (dn_discord d) = (ds, r)" by force
  then have d2: "d2 = d\<lparr>dn_discord := ds\<rparr>" "chan = map_option fst r" using tc assms(4) by (simp_all add: task_channel_def)
  have a: "required ''agent_id'' params = Inr a" using assms(2) by (simp add: required_def)
  obtain template ty where p: "optional ''template'' ''generic'' params = Inr template" "str_param ''agent_type'' params = Inr ty"
    using assms(1) api0 a by (auto simp: handle_hire_def with_api_def split: sum.splits)
  obtain api q where h: "ra_hire (dv_root env) (dv_hire env) chan a template ty api0 = (api, q)" by force
  then obtain i where i: "q = Inr i" "d1 = d2\<lparr>dn_api := Some api\<rparr>" "j = JObj [(''agent_id'', JStr i)]"
    using assms(1) api0 a p tc by (auto simp: handle_hire_def with_api_def split: sum.splits)
  note res = ra_hire_result [OF h [unfolded i(1)]]
  have port: "dn_comm_port d1" using i(2) d2(1) assms(4) by simp
  have speaks: "handle_send_message env' [(''agent_id'', JStr a), (''content'', JStr content)] d1 = said_in (dv_discord env') k content d1"
    if "r = Some (show_nat k, name)" for k name
  proof -
    have "resolve_target [''task-'' @ a, ''agent-'' @ a, a] None a api = Some (show_nat k)"
      using res assms(3) d2(2) that by (simp add: resolve_target_def)
    then show ?thesis
      using i(2) port by (simp add: handle_send_message_def with_port_def optional_def str_param_def port_status_def
          dp_send_message_def resolve_channel_def int_of_show_nat said_in_def split: option.split)
  qed
  have "\<exists>k. ch = show_nat k" if "r = Some (ch, name)" for ch name
    using create_channel_entry [OF cc [unfolded that]] by blast
  then show ?thesis using res i d2(2) speaks cc unfolding said_in_def [symmetric] by (fastforce split: option.split)
qed

definition demo_daemon_env :: daemon_env where
  "demo_daemon_env = \<lparr>dv_root = demo_root_env [], dv_hire = demo_hire_env, dv_discord = demo_discord, dv_task_id = ''t'', dv_exists = (\<lambda>p. False),
     dv_history = (\<lambda>k. None)\<rparr>"

definition new_daemon :: "'c daemon" where
  "new_daemon = \<lparr>dn_api = None, dn_comm_port = False, dn_discord = empty_discord, dn_project_dir = None, dn_project_config = None, dn_shutdown = False,
     dn_announced = [], dn_signals = \<lparr>sr_handlers = [], sr_listeners = 0\<rparr>, dn_delivered = []\<rparr>"

definition demo_daemon :: "string daemon" where
  "demo_daemon = set_comm_port (set_runtime_api demo_api new_daemon)"

lemma demo_daemon_hires: "\<exists>d1 j. handle_hire demo_daemon_env [(''agent_id'', JStr ''a'')] demo_daemon = (d1, Inr j)"
  by (simp add: handle_hire_def with_api_def demo_daemon_def demo_daemon_env_def set_comm_port_def set_runtime_api_def new_daemon_def required_def optional_def str_param_def
      task_channel_def dp_create_channel_def ensure_category_def ensure_channel_def find_category_def find_channel_def demo_discord_def empty_discord_def
      demo_api_def set_mention_router_def new_runtime_api_def ra_hire_def root_hire_def hire_def run_deploy_def demo_hire_env_def
      cr_get_transport_def ah_send_def attach_socket_def hired_handle_def new_agent_handle_def demo_root_def new_company_root_def rs_load_def Let_def split: prod.splits)

theorem hired_agent_speaks_witness:
  "\<exists>d1 d2 j. handle_hire demo_daemon_env [(''agent_id'', JStr ''a'')] demo_daemon = (d1, Inr j) \<and>
     handle_send_message demo_daemon_env [(''agent_id'', JStr ''a''), (''content'', JStr ''hello'')] d1 = (d2, Inr (status_json ''ok'')) \<and>
     ds_posts (dn_discord d2) = ds_posts (dn_discord d1) @ [(7, TextPost ''hello'')]"
proof -
  obtain d1 j where d1: "handle_hire demo_daemon_env [(''agent_id'', JStr ''a'')] demo_daemon = (d1, Inr j)" using demo_daemon_hires by blast
  have port: "dn_comm_port demo_daemon" by (simp add: demo_daemon_def set_comm_port_def)
  have l: "py_lower ''task-a'' = ''task-a''" by code_simp
  have c: "snd (dp_create_channel (dv_discord demo_daemon_env) ''vco-tasks'' ''task-a'' (dn_discord demo_daemon)) = Some (show_nat 7, ''task-a'')"
    by (simp add: demo_daemon_env_def demo_daemon_def set_comm_port_def set_runtime_api_def new_daemon_def l dp_create_channel_def
        ensure_category_def ensure_channel_def find_category_def find_channel_def demo_discord_def empty_discord_def Let_def)
  have inj: "show_nat 7 = show_nat k \<Longrightarrow> k = 7" for k using show_nat_inj by blast
  have e: "de_text_channel (dv_discord demo_daemon_env) i" "de_fault (dv_discord demo_daemon_env) x = None" for i x
    by (simp_all add: demo_daemon_env_def demo_discord_def)
  from hired_agent_speaks [OF d1 _ _ port, of "''a''" demo_daemon_env "''hello''"] show ?thesis
    using d1 by (auto simp: c e ds_post_def dest!: inj)
qed

section \<open>Signals are never delivered\<close>

text \<open>
  Everything that happens to the daemon's state: socket requests, signals, boot, and what the other components do with the
  signal router, to which the supervisors only ever unregister a child and the daemon adds its listener.
\<close>

datatype 'c daemon_op =
    Method string "(string, json) dict"
  | Shutdown
  | Signal string
  | Unregister agent_id
  | AddListener
  | BotReady "'c runtime_api"
  | InitProject string
  | BootNotifications bool

fun daemon_step :: "(string \<Rightarrow> (py_error + project_config) option) \<Rightarrow> (string option \<Rightarrow> string) \<Rightarrow> daemon_env \<times> 'c daemon_op \<Rightarrow> 'c daemon \<Rightarrow> 'c daemon" where
  "daemon_step cfg persona (env, Method n params) d =
     (case dict_get (daemon_methods env cfg persona) n of None \<Rightarrow> d | Some f \<Rightarrow> fst (f params d))"
| "daemon_step cfg persona (env, Shutdown) d = fst (handle_shutdown [] d)"
| "daemon_step cfg persona (env, Signal body) d = fst (signal_endpoint env body d)"
| "daemon_step cfg persona (env, Unregister a) d = d\<lparr>dn_signals := sr_unregister a (dn_signals d)\<rparr>"
| "daemon_step cfg persona (env, AddListener) d = d\<lparr>dn_signals := sr_add_listener (dn_signals d)\<rparr>"
| "daemon_step cfg persona (env, BotReady api) d = set_runtime_api api (set_comm_port d)"
| "daemon_step cfg persona (env, InitProject text) d = fst (init_project env text d)"
| "daemon_step cfg persona (env, BootNotifications r) d = fst (send_boot_notifications env r d)"

text \<open>The signal router and the announcements are as before.\<close>

definition keeps_signals :: "'c daemon \<Rightarrow> 'c daemon \<Rightarrow> bool" where
  "keeps_signals d d' \<longleftrightarrow> dn_signals d' = dn_signals d \<and> dn_announced d' = dn_announced d \<and> dn_delivered d' = dn_delivered d"

lemma keeps_signals_simps:
  "keeps_signals d d" "keeps_signals d (d\<lparr>dn_api := x\<rparr>) " "keeps_signals d (d\<lparr>dn_discord := ds\<rparr>)"
  "keeps_signals d (d\<lparr>dn_comm_port := b\<rparr>)" "keeps_signals d (d\<lparr>dn_shutdown := b\<rparr>)"
  by (simp_all add: keeps_signals_def)

lemma keeps_agent_methods:
  "keeps_signals d (fst (handle_hire env params d))" "keeps_signals d (fst (handle_give_task env params d))"
  "keeps_signals d (fst (handle_dismiss env params d))" "keeps_signals d (fst (handle_status params d))"
  "keeps_signals d (fst (handle_new_project env cfg persona params d))"
  by (auto simp: handle_hire_def handle_give_task_def handle_dismiss_def handle_status_def handle_new_project_def with_api_def answer_ok_def
      task_channel_def keeps_signals_def split: option.splits sum.splits prod.splits)

lemma keeps_message_methods:
  "keeps_signals d (fst (handle_send_message env params d))" "keeps_signals d (fst (handle_send_file env params d))"
  by (auto simp: handle_send_message_def handle_send_file_def with_port_def port_status_def keeps_signals_def split: option.splits sum.splits prod.splits)

lemma keeps_ask: "keeps_signals d (fst (handle_ask env params d))"
proof -
  have "keeps_signals d (fst (ask_question env a c mode q d))" for a c mode q
    by (auto simp: ask_question_def keeps_signals_def split: option.splits sum.splits prod.splits)
  then show ?thesis by (auto simp: handle_ask_def with_port_def keeps_signals_simps split: option.split sum.split json.split list.split)
qed

lemma keeps_methods: "(n, f) \<in> set (daemon_methods env cfg persona) \<Longrightarrow> keeps_signals d (fst (f params d))"
  unfolding daemon_methods_def by (auto intro: keeps_agent_methods keeps_message_methods keeps_ask)

lemma keeps_post: "daemon_post env ch t d = (d', r) \<Longrightarrow> keeps_signals d d'"
  by (auto simp: daemon_post_def keeps_signals_def split: option.splits sum.splits prod.splits if_splits)

lemma keeps_boot: "keeps_signals d (fst (send_boot_notifications env b d))"
proof (cases "\<exists>api. dn_api d = Some api \<and> dn_comm_port d")
  case True
  then obtain api where api: "dn_api d = Some api" "dn_comm_port d" by blast
  obtain d1 r1 where 1: "daemon_post env (get_channel_id ''alerts'' api)
      (if b then ''vCompany restarted successfully. All systems online.'' else ''vCompany is online.'') d = (d1, r1)" by force
  obtain d2 r2 where 2: "daemon_post env (get_channel_id ''strategist'' api)
      (if b then ''[system] `vco restart` complete - vCompany is back online.'' else ''[system] `vco up` - vCompany is online.'') d1 = (d2, r2)" by force
  have "fst (send_boot_notifications env b d) = (case r1 of Inl _ \<Rightarrow> d1 | Inr _ \<Rightarrow> d2)"
    using api 1 2 by (simp add: send_boot_notifications_def split: sum.split)
  then show ?thesis using keeps_post [OF 1] keeps_post [OF 2] by (auto simp: keeps_signals_def split: sum.splits)
qed (auto simp: send_boot_notifications_def keeps_signals_simps split: option.split)

lemma signal_unheard: "sr_handlers (dn_signals d) = [] \<Longrightarrow> fst (signal_endpoint env body d) = d"
  by (auto simp: signal_endpoint_def sr_deliver_def split: option.split json.split sum.split)

lemma daemon_step_silent:
  assumes "sr_handlers (dn_signals d) = []"
  shows "sr_handlers (dn_signals (daemon_step cfg persona (env, op) d)) = [] \<and> dn_announced (daemon_step cfg persona (env, op) d) = dn_announced d
    \<and> dn_delivered (daemon_step cfg persona (env, op) d) = dn_delivered d"
proof (cases op)
  case (Method n params)
  then have "keeps_signals d (daemon_step cfg persona (env, op) d)"
    by (auto simp: keeps_signals_simps split: option.split dest!: map_of_SomeD intro: keeps_methods)
  then show ?thesis using assms by (simp add: keeps_signals_def)
next
  case (Signal body)
  then show ?thesis using assms signal_unheard [OF assms] by simp
next
  case (BootNotifications b)
  then show ?thesis using assms keeps_boot [of d env b] by (simp add: keeps_signals_def)
next
  case (InitProject t)
  then show ?thesis using assms by (auto simp: init_project_def split: option.split prod.split)
qed (use assms in \<open>auto simp: handle_shutdown_def sr_unregister_def sr_add_listener_def set_runtime_api_def set_comm_port_def\<close>)

text \<open>
  C29. The signals of the agents are lost: no component registers a handler for an agent, so after any history every signal that is well
  formed is answered with status 404 and changes nothing, and no agent was ever announced as online.
\<close>

theorem signals_never_delivered:
  assumes "d = fold (daemon_step cfg persona) ops new_daemon"
    and "loads body = Some (JObj kvs)" "dict_get kvs ''agent_id'' = Some (JStr a)" "dict_get kvs ''signal'' = Some (JStr s)"
    and "a \<noteq> []" "s \<in> {''ready'', ''idle''}"
  shows "signal_endpoint env body d = (d, NoHandler a) \<and> response_status (snd (signal_endpoint env body d)) = 404 \<and> dn_announced d = [] \<and> dn_delivered d = []"
proof -
  have "sr_handlers (dn_signals d') = [] \<and> dn_announced d' = [] \<and> dn_delivered d' = [] \<Longrightarrow>
      sr_handlers (dn_signals (fold (daemon_step cfg persona) ops d')) = [] \<and> dn_announced (fold (daemon_step cfg persona) ops d') = []
      \<and> dn_delivered (fold (daemon_step cfg persona) ops d') = []" for d'
  proof (induction ops arbitrary: d')
    case (Cons p ops)
    obtain e op where p: "p = (e, op)" by force
    show ?case using Cons.IH daemon_step_silent [of d' cfg persona e op] Cons.prems by (simp add: p)
  qed simp
  then have d: "sr_handlers (dn_signals d) = []" "dn_announced d = []" "dn_delivered d = []"
    unfolding assms(1) by (simp_all add: new_daemon_def)
  have "signal_endpoint env body d = (d, NoHandler a)"
    using assms(2-6) d by (auto simp: signal_endpoint_def str_param_def sr_deliver_def)
  then show ?thesis using d by (simp add: response_status_def)
qed

theorem signals_never_delivered_witness:
  "response_status (snd (signal_endpoint demo_daemon_env (dumps (JObj [(''agent_id'', JStr ''a''), (''signal'', JStr ''ready'')]))
     (fold (daemon_step (\<lambda>p. None) (\<lambda>p. [])) [(demo_daemon_env, AddListener), (demo_daemon_env, BotReady demo_api)] new_daemon))) = 404"
proof -
  have "loads (dumps (JObj [(''agent_id'', JStr ''a''), (''signal'', JStr ''ready'')])) = Some (JObj [(''agent_id'', JStr ''a''), (''signal'', JStr ''ready'')])"
    by code_simp
  from signals_never_delivered [where cfg = "\<lambda>p. None" and persona = "\<lambda>p. []" and env = demo_daemon_env
      and ops = "[(demo_daemon_env, AddListener), (demo_daemon_env, BotReady demo_api)]" and a = "''a''" and s = "''ready''", OF refl this]
  show ?thesis by (simp add: response_status_def)
qed

section \<open>Projects cannot be created\<close>

lemma project_specs_length: "project_specs types project as = Inr specs \<Longrightarrow> length specs = length as"
  by (induction as arbitrary: specs) (auto split: sum.splits)

lemma new_project_children:
  assumes "add_project start_child project specs strat m w r = (r', Inr ps)"
  shows "specs = [] \<and> children ps = []"
  using assms by (cases specs) (auto simp: add_project_def sup_start_def new_project_supervisor_def new_supervisor_def start_child_def
      split: if_splits prod.splits sum.splits)

lemma add_project_fails:
  assumes "add_project start_child project (spec # specs) strat m w r = (r', res)"
  shows "isl res \<and> r' = r"
  using assms by (auto simp: add_project_def sup_start_def new_project_supervisor_def new_supervisor_def start_child_def
      split: if_splits prod.splits sum.splits)

lemma create_strategist_frame:
  assumes "create_strategist env henv persona api = (api', r)"
  shows "cr_projects (ra_root api') = cr_projects (ra_root api)" "ra_project_config api' = ra_project_config api" "ra_project_dir api' = ra_project_dir api"
proof -
  let ?chan = "get_channel_id ''strategist'' api"
  obtain r1 res where h: "hire (env) henv ''strategist'' ''generic'' (Some ''company'') ?chan ''native'' (Some persona) (ra_root api) = (r1, res)" by force
  have p: "cr_projects r1 = cr_projects (ra_root api)" using h by (cases rule: hire_cases) (auto simp: save_routing_def Let_def)
  show "cr_projects (ra_root api') = cr_projects (ra_root api)" "ra_project_config api' = ra_project_config api" "ra_project_dir api' = ra_project_dir api"
    using assms h p by (auto simp: create_strategist_def root_hire_def register_handle_def Let_def split: sum.splits)
qed

lemma create_strategist_hired:
  assumes "create_strategist env henv persona api = (api', Inr u)"
  shows "find_handle ''strategist'' (ra_root api') \<noteq> None"
proof -
  obtain api1 h where r: "root_hire env henv ''strategist'' ''generic'' (Some ''company'') (get_channel_id ''strategist'' api) (Some persona) api = (api1, Inr h)"
    "api' = register_handle ''Strategist'' ''strategist'' (get_channel_id ''strategist'' api) api1"
    using assms by (auto simp: create_strategist_def Let_def split: prod.splits sum.splits)
  then show ?thesis using root_hire_success(1) [OF r(1)] by (simp add: register_handle_def)
qed

text \<open>
  C30. A project with agents cannot be created: \<open>new_project\<close> always raises, no project is added to the root, and the
  gateway keeps the configuration of the project that failed; a strategist whose hire succeeded stays hired.
\<close>

theorem new_project_always_fails:
  assumes "new_project env henv persona cfg dir api = (api', res)" and "pc_agents cfg \<noteq> []"
  shows "isl res \<and> cr_projects (ra_root api') = cr_projects (ra_root api)
    \<and> ra_project_config api' = Some cfg \<and> ra_project_dir api' = Some dir
    \<and> (\<forall>api1. create_strategist env henv persona (api\<lparr>ra_project_config := Some cfg, ra_project_dir := Some dir\<rparr>) = (api1, Inr ())
          \<longrightarrow> find_handle ''strategist'' (ra_root api') \<noteq> None)"
proof -
  obtain api1 r1 where 1: "create_strategist env henv persona (api\<lparr>ra_project_config := Some cfg, ra_project_dir := Some dir\<rparr>) = (api1, r1)" by force
  have same: "cr_projects (ra_root api1) = cr_projects (ra_root api)" "ra_project_config api1 = Some cfg" "ra_project_dir api1 = Some dir"
    using create_strategist_frame [OF 1] by simp_all
  show ?thesis
  proof (cases r1)
    case (Inl e)
    then show ?thesis using assms(1) 1 same by (auto simp: new_project_def)
  next
    case (Inr u)
    have h: "find_handle ''strategist'' (ra_root api1) \<noteq> None" using create_strategist_hired [of env henv persona _ api1] 1 Inr by auto
    show ?thesis
    proof (cases "project_specs (he_types henv) (pc_project cfg) (pc_agents cfg)")
      case (Inl e)
      then show ?thesis using assms(1) 1 Inr same h by (auto simp: new_project_def)
    next
      case specs: (Inr specs)
      then obtain sp sps where "specs = sp # sps" using project_specs_length assms(2) by (cases specs) fastforce+
      moreover obtain r2 res2 where 2: "add_project start_child (pc_project cfg) specs ONE_FOR_ONE 3 600 (ra_root api1) = (r2, res2)" by force
      ultimately have "isl res2" "r2 = ra_root api1" using add_project_fails by blast+
      then have "api' = api1" "isl res" using assms(1) 1 Inr specs 2 by (auto simp: new_project_def split: sum.splits)
      then show ?thesis using same h 1 by simp
    qed
  qed
qed

definition one_agent_project :: project_config where
  "one_agent_project = \<lparr>pc_project = ''p'', pc_repo = ''r'', pc_agents = [\<lparr>ac_id = ''x'', ac_role = ''dev'', ac_owns = [''src/''], ac_consumes = [], ac_gsd_mode = Full,
     ac_system_prompt = [], ac_type = GsdKind, ac_transport = ''local'', ac_docker_image = None\<rparr>], pc_shared_readonly = []\<rparr>"

theorem new_project_always_fails_witness:
  "isl (snd (new_project (demo_root_env []) demo_hire_env ''persona'' one_agent_project ''d'' demo_api))"
proof -
  obtain api' res where n: "new_project (demo_root_env []) demo_hire_env ''persona'' one_agent_project ''d'' demo_api = (api', res)" by force
  show ?thesis using new_project_always_fails [OF n] n by (simp add: one_agent_project_def)
qed

end
