(* ===== verification/Monitor.thy ===== *)
theory Monitor
  imports Git_Ops Py_Path Project_Config
begin

text \<open>
  The monitor: the checks of \<open>monitor/checks.py\<close>, the reading of roadmaps and the status file of
  \<open>monitor/status_generator.py\<close>, the heartbeat of \<open>monitor/heartbeat.py\<close> and the validator of safety tables
  (\<open>monitor/safety_validator.py\<close>, and the same code in \<open>shared/safety_validator.py\<close>).

  Times are seconds since the epoch; how a time is written and read in ISO format is an argument. A path is the list
  of its parts. The text of an exception is left out of a detail. Characters of the status file outside the 8-bit range are written as the bytes of their UTF-8 encoding.
\<close>

section \<open>Check results\<close>

datatype check_type = Liveness | Stuck | PlanGate

record check_result =
  ck_type :: check_type
  ck_agent_id :: agent_id
  ck_passed :: bool
  ck_detail :: string
  ck_new_plans :: "string list list"

definition check_result_of :: "check_type \<Rightarrow> agent_id \<Rightarrow> bool \<Rightarrow> string \<Rightarrow> check_result" where
  "check_result_of t a passed detail =
     \<lparr>ck_type = t, ck_agent_id = a, ck_passed = passed, ck_detail = detail, ck_new_plans = []\<rparr>"

text \<open>What the monitor keeps of an agent between its cycles.\<close>

datatype gate_status = GateIdle | AwaitingReview | GateApproved | GateRejected

record agent_monitor_state =
  ms_agent_id :: agent_id
  ms_last_commit_time :: "seconds option"
  ms_last_plan_mtimes :: "(string list, seconds) dict"
  ms_current_phase :: string
  ms_phase_status :: string
  ms_plan_gate_status :: gate_status
  ms_pending_plans :: "string list"
  ms_approved_plans :: "string list"
  ms_integration_pending :: bool
  ms_checkin_sent :: bool

section \<open>Liveness\<close>

text \<open>What asking tmux for a pane and the system for a process gives.\<close>

datatype pane_state = PaneAlive | PaneDead | PaneRaises string

datatype pid_state = PidAlive | PidMissing | PidError string

definition check_liveness :: "agent_id \<Rightarrow> pane_state option \<Rightarrow> int option \<Rightarrow> (int \<Rightarrow> pid_state) \<Rightarrow> check_result" where
  "check_liveness a pane agent_pid kill =
     (case pane of
        None \<Rightarrow> check_result_of Liveness a True ''Pane not resolved yet -- skipping liveness check''
      | Some (PaneRaises e) \<Rightarrow> check_result_of Liveness a False (''Liveness check error: '' @ e)
      | Some PaneDead \<Rightarrow> check_result_of Liveness a False ''Tmux pane is dead''
      | Some PaneAlive \<Rightarrow>
          (case agent_pid of
             None \<Rightarrow> check_result_of Liveness a True ''Pane alive; agent PID not tracked yet''
           | Some pid \<Rightarrow>
               (case kill pid of
                  PidMissing \<Rightarrow> check_result_of Liveness a False (''Pane alive but agent process (PID '' @ show_int pid @ '') is dead'')
                | PidError e \<Rightarrow> check_result_of Liveness a False (''Pane alive but agent process PID check failed: '' @ e)
                | PidAlive \<Rightarrow> check_result_of Liveness a True ''Pane and agent process alive'')))"

section \<open>Stuck agents\<close>

text \<open>The dash is three bytes long.\<close>

definition em_dash :: string where
  "em_dash = [CHR 0xE2, CHR 0x80, CHR 0x94]"

definition minutes_of :: "seconds \<Rightarrow> int" where
  "minutes_of s = py_int (s / 60)"

definition check_stuck :: "'w runner \<Rightarrow> (string \<Rightarrow> seconds option) \<Rightarrow> agent_id \<Rightarrow> string \<Rightarrow> int \<Rightarrow> seconds \<Rightarrow> 'w shell \<Rightarrow> 'w shell \<times> check_result" where
  "check_stuck run fromisoformat a clone threshold now sh =
     (case git_log run clone [''--format=%aI'', ''-1''] sh of
        (sh, Inl e) \<Rightarrow> (sh, check_result_of Stuck a False (''Stuck check error: ''))
      | (sh, Inr g) \<Rightarrow>
          (sh,
           if \<not> gr_success g \<or> py_strip (gr_stdout g) = []
           then check_result_of Stuck a True (''No commits found yet '' @ em_dash @ '' skipping stuck check'')
           else
             (case fromisoformat (py_strip (gr_stdout g)) of
                None \<Rightarrow> check_result_of Stuck a False (''Stuck check error: '')
              | Some commit \<Rightarrow>
                  (let elapsed = now - commit in
                   if elapsed > of_int threshold * 60
                   then check_result_of Stuck a False (''Last commit '' @ show_int (minutes_of elapsed) @ '' minutes ago (threshold: '' @ show_int threshold @ ''m)'')
                   else check_result_of Stuck a True (''Last commit '' @ show_int (minutes_of elapsed) @ '' minutes ago'')))))"

section \<open>The plan gate\<close>

type_synonym mtimes = "(string list, seconds) dict"

text \<open>The times of the plans; \<open>None\<close> when one of them cannot be asked for.\<close>

fun plan_mtimes :: "seconds tree \<Rightarrow> mtimes \<Rightarrow> mtimes option" where
  "plan_mtimes [] acc = Some acc"
| "plan_mtimes ((path, None) # fs) acc = None"
| "plan_mtimes ((path, Some t) # fs) acc = plan_mtimes fs (dict_set acc path t)"

definition changed_plans :: "mtimes \<Rightarrow> mtimes \<Rightarrow> string list list" where
  "changed_plans last_mtimes current =
     map fst (filter (\<lambda>(path, t). case dict_get last_mtimes path of None \<Rightarrow> True | Some t' \<Rightarrow> t' < t) current)"

definition check_plan_gate :: "agent_id \<Rightarrow> seconds tree option \<Rightarrow> mtimes \<Rightarrow> check_result \<times> mtimes" where
  "check_plan_gate a phases last_mtimes =
     (case phases of
        None \<Rightarrow> (check_result_of PlanGate a True ''No phases directory found'', [])
      | Some fs \<Rightarrow>
          (case plan_mtimes (sorted_glob ''-PLAN.md'' fs) [] of
             None \<Rightarrow> (check_result_of PlanGate a False ''Plan gate check error: '', [])
           | Some current \<Rightarrow>
               if last_mtimes = []
               then (check_result_of PlanGate a True (''First run: seeded '' @ show_nat (length current) @ '' plan mtimes''), current)
               else
                 (let new = changed_plans last_mtimes current in
                  ((check_result_of PlanGate a True
                     (if new \<noteq> [] then ''Found '' @ show_nat (length new) @ '' new/modified plan(s)'' else ''No new plans''))\<lparr>ck_new_plans := new\<rparr>,
                   current))))"

section \<open>Roadmaps\<close>

datatype phase_status = Complete | Executing | Pending | Unknown

record roadmap_phase =
  rp_number :: nat
  rp_description :: string
  rp_status :: phase_status

text \<open>\<open>- \[(x| )\] \*\*Phase (\d+): (.+?)\*\*\<close> matched at the start of a text.\<close>

definition match_phase_item :: "string \<Rightarrow> (bool \<times> nat \<times> string) option" where
  "match_phase_item s =
     (let checked = startswith s ''- [x] **Phase ''; r = drop 14 s;
          digits = takeWhile is_digit r; t = dropWhile is_digit r in
      if \<not> (checked \<or> startswith s ''- [ ] **Phase '') \<or> digits = [] \<or> \<not> startswith t '': '' then None
      else
        (case drop 2 t of
           [] \<Rightarrow> None
         | c # u \<Rightarrow> map_option (\<lambda>d. (checked, nat_of_digits digits, c # d)) (before_sub ''**'' u)))"

fun search_phase_item :: "string \<Rightarrow> (bool \<times> nat \<times> string) option" where
  "search_phase_item [] = None"
| "search_phase_item (c # s) = (case match_phase_item (c # s) of Some m \<Rightarrow> Some m | None \<Rightarrow> search_phase_item s)"

fun checklist_loop :: "bool \<Rightarrow> string list \<Rightarrow> roadmap_phase list" where
  "checklist_loop found [] = []"
| "checklist_loop found (l # ls) =
     (case search_phase_item l of
        None \<Rightarrow> checklist_loop found ls
      | Some (checked, n, d) \<Rightarrow>
          (let st = (if checked then Complete else if \<not> found then Executing else Pending) in
           \<lparr>rp_number = n, rp_description = d, rp_status = st\<rparr> # checklist_loop (found \<or> \<not> checked) ls))"

definition parse_checklist_format :: "string \<Rightarrow> roadmap_phase list" where
  "parse_checklist_format content = checklist_loop False (py_splitlines content)"

text \<open>\<open>^###\s+Phase\s+(\d+):\s+(.+)\<close>: when only white space follows the colon, the description is white space and is stripped.\<close>

definition match_heading :: "string \<Rightarrow> (nat \<times> string) option" where
  "match_heading s =
     (let r1 = drop 3 s; r2 = dropWhile py_space r1; r3 = drop 5 r2; r4 = dropWhile py_space r3;
          digits = takeWhile is_digit r4; r5 = dropWhile is_digit r4; r6 = drop 1 r5 in
      if startswith s ''###'' \<and> takeWhile py_space r1 \<noteq> [] \<and> startswith r2 ''Phase'' \<and> takeWhile py_space r3 \<noteq> [] \<and> digits \<noteq> []
         \<and> startswith r5 '':'' \<and> takeWhile py_space r6 \<noteq> [] \<and> (dropWhile py_space r6 \<noteq> [] \<or> 1 < length (takeWhile py_space r6))
      then Some (nat_of_digits digits, py_strip r6) else None)"

definition checklist_item :: "string \<Rightarrow> bool option" where
  "checklist_item l = (if startswith l ''- [x]'' then Some True else if startswith l ''- [ ]'' then Some False else None)"

text \<open>The phases with the number of their items and of the checked ones, the current one last.\<close>

fun heading_loop :: "(nat \<times> string \<times> nat \<times> nat) list \<Rightarrow> string list \<Rightarrow> (nat \<times> string \<times> nat \<times> nat) list" where
  "heading_loop acc [] = acc"
| "heading_loop acc (l # ls) =
     (case match_heading l of
        Some (n, d) \<Rightarrow> heading_loop (acc @ [(n, d, 0, 0)]) ls
      | None \<Rightarrow>
          (case (acc, checklist_item l) of
             ([], _) \<Rightarrow> heading_loop acc ls
           | (_, None) \<Rightarrow> heading_loop acc ls
           | (_, Some checked) \<Rightarrow>
               (case last acc of (n, d, t, k) \<Rightarrow>
                  heading_loop (butlast acc @ [(n, d, Suc t, if checked then Suc k else k)]) ls)))"

fun assign_statuses :: "bool \<Rightarrow> (nat \<times> string \<times> bool) list \<Rightarrow> roadmap_phase list" where
  "assign_statuses found [] = []"
| "assign_statuses found ((n, d, is_done) # ps) =
     \<lparr>rp_number = n, rp_description = d, rp_status = (if is_done then Complete else if \<not> found then Executing else Pending)\<rparr>
       # assign_statuses (found \<or> \<not> is_done) ps"

definition parse_heading_format :: "string \<Rightarrow> roadmap_phase list" where
  "parse_heading_format content =
     assign_statuses False (map (\<lambda>(n, d, t, k). (n, d, 0 < t \<and> k = t)) (heading_loop [] (py_splitlines content)))"

definition unknown_phase :: roadmap_phase where
  "unknown_phase = \<lparr>rp_number = 0, rp_description = ''Status unknown'', rp_status = Unknown\<rparr>"

text \<open>The roadmap's text; \<open>None\<close> when it cannot be read.\<close>

definition parse_roadmap :: "string option \<Rightarrow> roadmap_phase list" where
  "parse_roadmap file =
     (case file of
        None \<Rightarrow> [unknown_phase]
      | Some content \<Rightarrow>
          (let phases = parse_checklist_format content;
               phases = (if phases = [] then parse_heading_format content else phases) in
           if phases = [] then [unknown_phase] else phases))"

text \<open>The file, if there is one, and whether it can be read.\<close>

definition check_phase_completion :: "string option option \<Rightarrow> string \<Rightarrow> string \<times> string" where
  "check_phase_completion roadmap previous =
     (case roadmap of
        None \<Rightarrow> (''unknown'', ''unknown'')
      | Some file \<Rightarrow>
          (let phases = parse_roadmap file;
               executing = filter (\<lambda>p. rp_status p = Executing) phases;
               completed = filter (\<lambda>p. rp_status p = Complete) phases in
           if phases = [] \<or> rp_status (hd phases) = Unknown then (''unknown'', ''unknown'')
           else if executing \<noteq> [] then (''Phase '' @ show_nat (rp_number (hd executing)), ''executing'')
           else if completed \<noteq> [] then (''Phase '' @ show_nat (rp_number (last completed)), ''completed'')
           else (''unknown'', ''unknown'')))"

section \<open>The status file\<close>

definition status_emoji :: "phase_status \<Rightarrow> string" where
  "status_emoji st =
     (case st of
        Complete \<Rightarrow> [CHR 0xE2, CHR 0x9C, CHR 0x85]
      | Executing \<Rightarrow> [CHR 0xF0, CHR 0x9F, CHR 0x94, CHR 0x84]
      | Pending \<Rightarrow> [CHR 0xE2, CHR 0x8C, CHR 0x9B]
      | Unknown \<Rightarrow> [CHR 0xE2, CHR 0x9D, CHR 0x93])"

definition get_agent_activity :: "'w runner \<Rightarrow> string \<Rightarrow> 'w shell \<Rightarrow> ('w shell, string) outcome" where
  "get_agent_activity run clone sh =
     (case git_log run clone [''--oneline'', ''-5''] sh of
        (sh, Inl e) \<Rightarrow> (sh, Inl e)
      | (sh, Inr g) \<Rightarrow> (sh, Inr (if gr_success g \<and> py_strip (gr_stdout g) \<noteq> [] then py_strip (gr_stdout g) else ''No recent activity'')))"

definition tmux_command :: "string \<Rightarrow> command" where
  "tmux_command project =
     \<lparr>cm_args = [''tmux'', ''list-windows'', ''-t'', ''vco-'' @ project, ''-F'', ''#{window_name}''], cm_cwd = None, cm_timeout = 3\<rparr>"

definition check_agent_alive :: "'w runner \<Rightarrow> string \<Rightarrow> agent_id \<Rightarrow> 'w shell \<Rightarrow> 'w shell \<times> bool" where
  "check_agent_alive run project a sh =
     (case sh_run run (tmux_command project) sh of
        (sh, Completed rc out err) \<Rightarrow> (sh, rc = 0 \<and> a \<in> set (py_splitlines out))
      | (sh, _) \<Rightarrow> (sh, False))"

text \<open>The number and status of the current phase: the first one that executes, or else the last that is complete.\<close>

fun current_phase :: "nat \<times> string \<Rightarrow> roadmap_phase list \<Rightarrow> nat \<times> string" where
  "current_phase cur [] = cur"
| "current_phase cur (p # ps) =
     (case rp_status p of
        Executing \<Rightarrow> (rp_number p, ''executing'')
      | Complete \<Rightarrow> current_phase (rp_number p, ''complete'') ps
      | _ \<Rightarrow> current_phase cur ps)"

definition agent_header :: "agent_id \<Rightarrow> bool \<Rightarrow> nat \<Rightarrow> nat \<times> string \<Rightarrow> string" where
  "agent_header a alive n_phases = (\<lambda>(n, st).
     (let progress = show_nat n @ ''/'' @ show_nat n_phases in
      if \<not> alive then ''## '' @ py_upper a @ '' (NOT RUNNING '' @ em_dash @ '' Phase '' @ progress @ '')''
      else if n_phases > 0 then ''## '' @ py_upper a @ '' (Phase '' @ progress @ '' '' @ em_dash @ '' '' @ st @ '')''
      else ''## '' @ py_upper a @ '' (status unknown)''))"

definition phase_line :: "roadmap_phase \<Rightarrow> string" where
  "phase_line p = ''- '' @ status_emoji (rp_status p) @ '' Phase '' @ show_nat (rp_number p) @ '': '' @ rp_description p"

definition agent_section :: "'w runner \<Rightarrow> (agent_id \<Rightarrow> string option) \<Rightarrow> string \<Rightarrow> string \<Rightarrow> agent_config \<Rightarrow> 'w shell
    \<Rightarrow> ('w shell, string list) outcome" where
  "agent_section run roadmaps project dir ac sh =
     (let a = ac_id ac; phases = parse_roadmap (roadmaps a) in
      case get_agent_activity run (dir @ ''/clones/'' @ a) sh of
        (sh, Inl e) \<Rightarrow> (sh, Inl e)
      | (sh, Inr activity) \<Rightarrow>
          (let n_phases = (if rp_status (hd phases) \<noteq> Unknown then length phases else 0); cur = current_phase (0, ''unknown'') phases in
           case check_agent_alive run project a sh of
             (sh, alive) \<Rightarrow>
               (sh, Inr ([agent_header a alive n_phases cur] @ map phase_line phases @ [[], ''**Recent activity:**'']
                         @ map (\<lambda>l. ''  '' @ l) (py_splitlines activity) @ [[]]))))"

fun agent_sections :: "'w runner \<Rightarrow> (agent_id \<Rightarrow> string option) \<Rightarrow> string \<Rightarrow> string \<Rightarrow> agent_config list \<Rightarrow> 'w shell
    \<Rightarrow> ('w shell, string list) outcome" where
  "agent_sections run roadmaps project dir [] sh = (sh, Inr [])"
| "agent_sections run roadmaps project dir (ac # acs) sh =
     (case agent_section run roadmaps project dir ac sh of
        (sh, Inl e) \<Rightarrow> (sh, Inl e)
      | (sh, Inr ls) \<Rightarrow>
          (case agent_sections run roadmaps project dir acs sh of
             (sh, Inl e) \<Rightarrow> (sh, Inl e)
           | (sh, Inr rest) \<Rightarrow> (sh, Inr (ls @ rest))))"

definition generate_project_status :: "'w runner \<Rightarrow> (agent_id \<Rightarrow> string option) \<Rightarrow> string \<Rightarrow> project_config \<Rightarrow> string \<Rightarrow> 'w shell
    \<Rightarrow> ('w shell, string) outcome" where
  "generate_project_status run roadmaps dir cfg timestamp sh =
     (case agent_sections run roadmaps (pc_project cfg) dir (pc_agents cfg) sh of
        (sh, Inl e) \<Rightarrow> (sh, Inl e)
      | (sh, Inr ls) \<Rightarrow>
          (sh, Inr (intercalate [CHR 0x0A]
            ([''# Project Status '' @ em_dash @ '' auto-generated by vco, do not edit'', ''# Last updated: '' @ timestamp @ '' UTC'', []] @ ls
             @ [''## Key Dependencies'', ''- (none detected yet)'', [], ''## Notes'', ''- (no notes)'', []]))))"

text \<open>Files are written atomically: a write succeeds as a whole or raises and changes nothing.\<close>

definition write_atomic :: "('p \<Rightarrow> bool) \<Rightarrow> 'p \<Rightarrow> string \<Rightarrow> ('p, string) dict \<Rightarrow> (('p, string) dict, unit) outcome" where
  "write_atomic writable path content files =
     (if writable path then (dict_set files path content, Inr ()) else (files, Inl OSError))"

fun distribute_clones :: "(string \<Rightarrow> bool) \<Rightarrow> string \<Rightarrow> string \<Rightarrow> agent_config list \<Rightarrow> nat \<Rightarrow> (string, string) dict \<Rightarrow> (string, string) dict \<times> nat" where
  "distribute_clones writable dir content [] n files = (files, n)"
| "distribute_clones writable dir content (ac # acs) n files =
     (case write_atomic writable (dir @ ''/clones/'' @ ac_id ac @ ''/PROJECT-STATUS.md'') content files of
        (files, Inl e) \<Rightarrow> distribute_clones writable dir content acs n files
      | (files, Inr _) \<Rightarrow> distribute_clones writable dir content acs (Suc n) files)"

definition distribute_project_status :: "(string \<Rightarrow> bool) \<Rightarrow> string \<Rightarrow> project_config \<Rightarrow> string \<Rightarrow> (string, string) dict
    \<Rightarrow> ((string, string) dict, nat) outcome" where
  "distribute_project_status writable dir cfg content files =
     (case write_atomic writable (dir @ ''/context/PROJECT-STATUS.md'') content files of
        (files, Inl e) \<Rightarrow> (files, Inl e)
      | (files, Inr _) \<Rightarrow>
          (case distribute_clones writable dir content (pc_agents cfg) 0 files of (files, n) \<Rightarrow> (files, Inr n)))"

section \<open>Heartbeat\<close>

definition heartbeat_path :: "string \<Rightarrow> string" where
  "heartbeat_path dir = dir @ ''/state/monitor_heartbeat''"

definition write_heartbeat :: "(string \<Rightarrow> bool) \<Rightarrow> (seconds \<Rightarrow> string) \<Rightarrow> string \<Rightarrow> seconds \<Rightarrow> (string, string) dict
    \<Rightarrow> ((string, string) dict, unit) outcome" where
  "write_heartbeat writable isoformat dir now files = write_atomic writable (heartbeat_path dir) (isoformat now) files"

definition check_heartbeat :: "(string \<Rightarrow> seconds option) \<Rightarrow> string \<Rightarrow> int \<Rightarrow> seconds \<Rightarrow> (string, string) dict \<Rightarrow> bool" where
  "check_heartbeat fromisoformat dir max_age now files =
     (case dict_get files (heartbeat_path dir) of
        None \<Rightarrow> False
      | Some content \<Rightarrow> (case fromisoformat (py_strip content) of None \<Rightarrow> False | Some t \<Rightarrow> now - t \<le> of_int max_age))"

section \<open>Safety tables\<close>

definition REQUIRED_COLUMNS :: "string list" where
  "REQUIRED_COLUMNS = [''Agent/Component'', ''Circumstance'', ''Action'', ''Concurrent With'', ''Safe?'', ''Mitigation'']"

text \<open>
  \<open>^##\s+Interaction Safety\s*$\<close> at the start of a line: what follows the match. The white space after the title may span lines;
  the match ends at the end of the text or before the last line feed of that white space.
\<close>

definition from_last_newline :: "string \<Rightarrow> string" where
  "from_last_newline ws = rev (takeWhile (\<lambda>c. c \<noteq> CHR 0x0A) (rev ws))"

definition match_safety_heading :: "string \<Rightarrow> string option" where
  "match_safety_heading s =
     (let r1 = drop 2 s; r2 = dropWhile py_space r1; r3 = drop 18 r2; ws = takeWhile py_space r3; rest = dropWhile py_space r3 in
      if \<not> startswith s ''##'' \<or> takeWhile py_space r1 = [] \<or> \<not> startswith r2 ''Interaction Safety'' then None
      else if rest = [] then Some []
      else if CHR 0x0A \<in> set ws then Some (CHR 0x0A # from_last_newline ws @ rest)
      else None)"

text \<open>The first match at the start of a line; the argument says whether the text is at one.\<close>

fun search_safety_heading :: "bool \<Rightarrow> string \<Rightarrow> string option" where
  "search_safety_heading at_start [] = None"
| "search_safety_heading at_start (c # s) =
     (case (if at_start then match_safety_heading (c # s) else None) of
        Some rest \<Rightarrow> Some rest
      | None \<Rightarrow> search_safety_heading (c = CHR 0x0A) s)"

text \<open>The text before the next line that starts with \<open>##\<close> and white space.\<close>

fun until_h2 :: "bool \<Rightarrow> string \<Rightarrow> string" where
  "until_h2 at_start [] = []"
| "until_h2 at_start (c # s) =
     (if at_start \<and> startswith (c # s) ''##'' \<and> 2 < length (c # s) \<and> py_space ((c # s) ! 2) then []
      else c # until_h2 (c = CHR 0x0A) s)"

definition table_row :: "string \<Rightarrow> bool" where
  "table_row l \<longleftrightarrow> 2 < length l \<and> hd l = CHR ''|'' \<and> last l = CHR ''|''"

definition separator_row :: "string \<Rightarrow> bool" where
  "separator_row l \<longleftrightarrow> table_row l \<and> list_all (\<lambda>c. py_space c \<or> c \<in> {CHR ''-'', CHR '':'', CHR ''|''}) l"

definition missing_columns :: "string \<Rightarrow> string list" where
  "missing_columns header = filter (\<lambda>c. \<not> py_contains (py_lower c) (py_lower header)) REQUIRED_COLUMNS"

definition validate_safety_table :: "string \<Rightarrow> bool \<times> string" where
  "validate_safety_table content =
     (case search_safety_heading True content of
        None \<Rightarrow> (False, ''Missing '' @ [CHR 0x27] @ ''## Interaction Safety'' @ [CHR 0x27] @ '' section'')
      | Some after \<Rightarrow>
          (let rows = filter table_row (py_split_on [CHR 0x0A] (until_h2 True after)) in
           if rows = [] then (False, ''No table found in Interaction Safety section'')
           else if missing_columns (hd rows) \<noteq> []
           then (False, ''Safety table missing required columns: '' @ intercalate '', '' (missing_columns (hd rows)))
           else if filter (\<lambda>r. \<not> separator_row r) (tl rows) = [] then (False, ''Safety table has no data rows'')
           else (True, ''Safety table validated'')))"

section \<open>What the roadmap says\<close>

text \<open>A roadmap as the planning tools write it: a heading and one item of a checklist for every phase.\<close>

definition checklist_line :: "bool \<times> nat \<times> string \<Rightarrow> string" where
  "checklist_line = (\<lambda>(checked, n, d). (if checked then ''- [x] **Phase '' else ''- [ ] **Phase '') @ show_nat n @ '': '' @ d @ ''**'')"

definition checklist_text :: "(bool \<times> nat \<times> string) list \<Rightarrow> string" where
  "checklist_text items = concat (map (\<lambda>i. checklist_line i @ [CHR 0x0A]) items)"

text \<open>A description that fits on a line and has no asterisk.\<close>

definition plain_item :: "bool \<times> nat \<times> string \<Rightarrow> bool" where
  "plain_item = (\<lambda>(checked, n, d). d \<noteq> [] \<and> list_all (\<lambda>c. \<not> line_break c \<and> c \<noteq> CHR ''*'') d)"

definition phases_of :: "(bool \<times> nat \<times> string) list \<Rightarrow> roadmap_phase list" where
  "phases_of items = assign_statuses False (map (\<lambda>(checked, n, d). (n, d, checked)) items)"

lemma before_sub_stars: "CHR ''*'' \<notin> set d \<Longrightarrow> before_sub ''**'' (d @ ''**'') = Some d"
  by (induction d) (auto simp: startswith_def)

lemma digits_then: "\<not> is_digit c \<Longrightarrow> takeWhile is_digit (show_nat n @ c # r) = show_nat n \<and> dropWhile is_digit (show_nat n @ c # r) = c # r"
  using show_nat_digits [of n] by simp

lemma match_phase_item_line:
  assumes "plain_item (checked, n, d)"
  shows "match_phase_item (checklist_line (checked, n, d)) = Some (checked, n, d)"
proof -
  obtain c u where d: "d = c # u" "CHR ''*'' \<notin> set u" using assms by (cases d) (auto simp: plain_item_def list_all_iff)
  have colon: "\<not> is_digit CHR '':''" by (simp add: is_digit_def)
  show ?thesis
    using digits_then [OF colon, of n "CHR '' '' # c # u @ ''**''"] before_sub_stars [OF d(2)]
    by (simp add: match_phase_item_def checklist_line_def d(1) startswith_def Let_def)
qed

lemma search_phase_item_match: "match_phase_item l = Some i \<Longrightarrow> l \<noteq> [] \<Longrightarrow> search_phase_item l = Some i"
  by (cases l) auto

lemma search_phase_item_line: "plain_item i \<Longrightarrow> search_phase_item (checklist_line i) = Some i"
  by (rule search_phase_item_match, cases i, simp only: match_phase_item_line, cases i, simp add: checklist_line_def)

lemma digit_no_break: "is_digit c \<Longrightarrow> \<not> line_break c"
  by (auto simp: is_digit_def line_break_def)

lemma checklist_line_unbroken: "plain_item i \<Longrightarrow> \<forall>c \<in> set (checklist_line i). \<not> line_break c"
  using show_nat_digits digit_no_break by (cases i) (auto simp: plain_item_def checklist_line_def list_all_iff line_break_def split: if_splits)

lemma splitlines_checklist: "list_all plain_item items \<Longrightarrow> py_splitlines (checklist_text items) = map checklist_line items"
proof (induction items)
  case (Cons i items)
  then show ?case
    using split_lines_line [OF checklist_line_unbroken, of i "[]" "checklist_text items"] by (simp add: checklist_text_def py_splitlines_def)
qed (simp add: checklist_text_def py_splitlines_def)

lemma checklist_loop_lines:
  "list_all plain_item items \<Longrightarrow>
     checklist_loop found (map checklist_line items) = assign_statuses found (map (\<lambda>(checked, n, d). (n, d, checked)) items)"
  by (induction items arbitrary: found) (auto simp: search_phase_item_line split: prod.splits)

lemma parse_roadmap_checklist:
  assumes "list_all plain_item items" "items \<noteq> []"
  shows "parse_roadmap (Some (checklist_text items)) = phases_of items"
proof -
  have "parse_checklist_format (checklist_text items) = phases_of items"
    by (simp only: parse_checklist_format_def splitlines_checklist [OF assms(1)] checklist_loop_lines [OF assms(1)] phases_of_def)
  moreover have "phases_of items \<noteq> []" using assms(2) by (cases items) (auto simp: phases_of_def)
  ultimately show ?thesis by (simp add: parse_roadmap_def)
qed


text \<open>The statuses: complete up to the first phase that is not, which executes; of the others none executes.\<close>

lemma assign_statuses_found: "p \<in> set (assign_statuses True ps) \<Longrightarrow> rp_status p \<noteq> Executing"
  by (induction ps) (auto split: if_splits)

lemma assign_statuses_filter:
  "filter (\<lambda>p. rp_status p = Complete) (assign_statuses found ps)
     = map (\<lambda>(n, d, k). \<lparr>rp_number = n, rp_description = d, rp_status = Complete\<rparr>) (filter (\<lambda>(n, d, k). k) ps)"
  by (induction ps arbitrary: found) auto

lemma assign_statuses_executing:
  "filter (\<lambda>p. rp_status p = Executing) (assign_statuses found ps)
     = (case find (\<lambda>(n, d, k). \<not> k) ps of
          Some (n, d, k) \<Rightarrow> if found then [] else [\<lparr>rp_number = n, rp_description = d, rp_status = Executing\<rparr>]
        | None \<Rightarrow> [])"
proof (induction ps arbitrary: found)
  case (Cons q ps)
  obtain n d k where q: "q = (n, d, k)" by (cases q)
  have none: "filter (\<lambda>p. rp_status p = Executing) (assign_statuses True ps) = []"
    using assign_statuses_found by (auto simp: filter_empty_conv)
  show ?case using Cons none by (cases k) (simp_all add: q)
qed simp

text \<open>
  The phase the check reports for a checklist, and what the current phase of the status file is: the first item that is
  not checked, or else the last one.
\<close>

definition frontier :: "string \<Rightarrow> (bool \<times> nat \<times> string) list \<Rightarrow> nat \<times> string" where
  "frontier finished items =
     (case find (\<lambda>(checked, n, d). \<not> checked) items of
        Some (checked, n, d) \<Rightarrow> (n, ''executing'')
      | None \<Rightarrow> (fst (snd (last items)), finished))"

lemma find_map_checked:
  "find (\<lambda>(n, d, k). \<not> k) (map (\<lambda>(checked, n, d). (n, d, checked)) items)
     = map_option (\<lambda>(checked, n, d). (n, d, checked)) (find (\<lambda>(checked, n, d). \<not> checked) items)"
  by (induction items) auto

lemma filter_all_checked:
  "find (\<lambda>(checked, n, d). \<not> checked) items = None \<Longrightarrow> filter (\<lambda>(n, d, k). k) (map (\<lambda>(checked, n, d). (n, d, checked)) items)
     = map (\<lambda>(checked, n, d). (n, d, checked)) items"
  by (induction items) (auto split: if_splits)

lemma current_phase_statuses:
  "current_phase cur (assign_statuses False (map (\<lambda>(checked, n, d). (n, d, checked)) items))
     = (if items = [] then cur else frontier ''complete'' items)"
  by (induction items arbitrary: cur) (auto simp: frontier_def split: option.splits)

lemma phases_of_known: "items \<noteq> [] \<Longrightarrow> phases_of items \<noteq> [] \<and> rp_status (hd (phases_of items)) \<noteq> Unknown"
  by (cases items) (auto simp: phases_of_def split: if_splits)

text \<open>
  C31. The reader of roadmaps agrees with their writer. A roadmap with one checklist item per phase, whose descriptions fit on a line
  and hold no asterisk, is read back phase by phase with number, description and check mark; the monitor then reports the first
  phase that is not checked as executing or, when all are checked, the last one as completed, whatever it reported before;
  and the phase that the status file shows in the agent's header is the same.
\<close>

theorem roadmap_frontier:
  assumes "list_all plain_item items" "items \<noteq> []"
  shows "map (\<lambda>p. (rp_status p = Complete, rp_number p, rp_description p)) (parse_roadmap (Some (checklist_text items))) = items \<and>
    check_phase_completion (Some (Some (checklist_text items))) previous
      = (case frontier ''completed'' items of (n, st) \<Rightarrow> (''Phase '' @ show_nat n, st)) \<and>
    current_phase (0, ''unknown'') (parse_roadmap (Some (checklist_text items))) = frontier ''complete'' items"
proof (intro conjI)
  let ?ps = "map (\<lambda>(checked, n, d). (n, d, checked)) items"
  have read: "parse_roadmap (Some (checklist_text items)) = phases_of items" by (rule parse_roadmap_checklist [OF assms])
  have same: "map (\<lambda>p. (rp_status p = Complete, rp_number p, rp_description p)) (assign_statuses found ?ps) = items" for found
    by (induction items arbitrary: found) auto
  show "map (\<lambda>p. (rp_status p = Complete, rp_number p, rp_description p)) (parse_roadmap (Some (checklist_text items))) = items"
    unfolding read phases_of_def by (rule same)
  show "current_phase (0, ''unknown'') (parse_roadmap (Some (checklist_text items))) = frontier ''complete'' items"
    unfolding read phases_of_def using assms(2) by (simp add: current_phase_statuses)
  show "check_phase_completion (Some (Some (checklist_text items))) previous
      = (case frontier ''completed'' items of (n, st) \<Rightarrow> (''Phase '' @ show_nat n, st))"
  proof (cases "find (\<lambda>(checked, n, d). \<not> checked) items")
    case None
    have "filter (\<lambda>p. rp_status p = Complete) (phases_of items) = map (\<lambda>(n, d, k). \<lparr>rp_number = n, rp_description = d, rp_status = Complete\<rparr>) ?ps"
      unfolding phases_of_def assign_statuses_filter filter_all_checked [OF None] ..
    moreover have "filter (\<lambda>p. rp_status p = Executing) (phases_of items) = []"
      unfolding phases_of_def assign_statuses_executing find_map_checked None by simp
    ultimately show ?thesis using phases_of_known [OF assms(2)] assms(2) None
      by (simp add: check_phase_completion_def read frontier_def Let_def last_map split: prod.splits)
  next
    case (Some i)
    have "filter (\<lambda>p. rp_status p = Executing) (phases_of items) = [\<lparr>rp_number = fst (snd i), rp_description = snd (snd i), rp_status = Executing\<rparr>]"
      unfolding phases_of_def assign_statuses_executing find_map_checked Some by (simp split: prod.splits)
    then show ?thesis using phases_of_known [OF assms(2)] Some
      by (simp add: check_phase_completion_def read frontier_def Let_def split: prod.splits)
  qed
qed

theorem roadmap_frontier_witness:
  "check_phase_completion (Some (Some (checklist_text [(True, 1, ''Core''), (False, 2, ''Tests''), (True, 3, ''Docs'')]))) [] = (''Phase 2'', ''executing'')"
proof -
  have "list_all plain_item [(True, 1, ''Core''), (False, 2, ''Tests''), (True, 3, ''Docs'')]" by code_simp
  moreover have "show_nat 2 = ''2''" by code_simp
  ultimately show ?thesis using roadmap_frontier [of "[(True, 1, ''Core''), (False, 2, ''Tests''), (True, 3, ''Docs'')]" "[]"] by (simp add: frontier_def)
qed


section \<open>What the plan gate reports\<close>

definition plan_of :: "seconds tree \<Rightarrow> string list \<Rightarrow> seconds \<Rightarrow> bool" where
  "plan_of fs p t \<longleftrightarrow> (p, Some t) \<in> set fs \<and> p \<noteq> [] \<and> endswith (last p) ''-PLAN.md''"

lemma plan_mtimes_get:
  "plan_mtimes xs acc = Some m \<Longrightarrow> distinct (map fst xs) \<Longrightarrow>
     dict_get m p = Some t \<longleftrightarrow> (p, Some t) \<in> set xs \<or> (p \<notin> fst ` set xs \<and> dict_get acc p = Some t)"
proof (induction xs acc rule: plan_mtimes.induct)
  case (3 path s fs acc)
  then show ?case by (cases "p = path") (auto simp: update_conv' image_iff)
qed auto

lemma plan_mtimes_distinct: "plan_mtimes xs acc = Some m \<Longrightarrow> distinct (map fst acc) \<Longrightarrow> distinct (map fst m)"
  by (induction xs acc rule: plan_mtimes.induct) (auto simp: distinct_update)

lemma sorted_glob_distinct: "distinct (map fst fs) \<Longrightarrow> distinct (map fst (sorted_glob suffix fs))"
  by (simp add: sorted_glob_def distinct_map inj_on_def)

text \<open>
  C32. The plan gate. A scan that succeeds remembers exactly the plans that are there, with their times; it reports exactly the plans that
  are new or have been modified since the scan before, none of them twice; but when no plan was remembered it reports none, so the
  plans that appear after a scan without plans are never reported: the next scan of the same files reports nothing either way.
\<close>

theorem plan_gate_exact:
  assumes "distinct (map fst fs)" "check_plan_gate a (Some fs) seen = (r, now)" "ck_passed r"
  shows "(\<forall>p t. dict_get now p = Some t \<longleftrightarrow> plan_of fs p t) \<and> distinct (ck_new_plans r) \<and>
    set (ck_new_plans r) = (if seen = [] then {} else {p. \<exists>t. plan_of fs p t \<and> (\<forall>t'. dict_get seen p = Some t' \<longrightarrow> t' < t)}) \<and>
    ck_new_plans (fst (check_plan_gate a (Some fs) now)) = []"
proof -
  have m: "plan_mtimes (sorted_glob ''-PLAN.md'' fs) [] = Some now"
    using assms(2,3) by (auto simp: check_plan_gate_def check_result_of_def Let_def split: option.splits if_splits)
  have get: "dict_get now p = Some t \<longleftrightarrow> plan_of fs p t" for p t
    using plan_mtimes_get [OF m sorted_glob_distinct [OF assms(1)], of p t] by (auto simp: set_sorted_glob plan_of_def)
  have d: "distinct (map fst now)" using plan_mtimes_distinct [OF m] by simp
  have new: "ck_new_plans r = (if seen = [] then [] else changed_plans seen now)"
    using assms(2) m by (auto simp: check_plan_gate_def check_result_of_def Let_def)
  have "set (changed_plans seen now) = {p. \<exists>t. plan_of fs p t \<and> (\<forall>t'. dict_get seen p = Some t' \<longrightarrow> t' < t)}"
    unfolding get [symmetric] changed_plans_def using d by (force split: option.splits)
  moreover have "distinct (changed_plans seen now)"
    unfolding changed_plans_def by (rule distinct_map_filter [OF d])
  moreover have "changed_plans now now = []"
    unfolding changed_plans_def using d by (auto simp: filter_empty_conv)
  then have "ck_new_plans (fst (check_plan_gate a (Some fs) now)) = []"
    using m by (simp add: check_plan_gate_def check_result_of_def Let_def)
  ultimately show ?thesis using get new by simp
qed

definition demo_plans :: "seconds tree" where
  "demo_plans = [([''01'', ''01-PLAN.md''], Some 5), ([''02'', ''02-PLAN.md''], Some 7), ([''02'', ''notes.md''], None)]"

theorem plan_gate_exact_witness:
  "set (ck_new_plans (fst (check_plan_gate ''a'' (Some demo_plans) [([''01'', ''01-PLAN.md''], 5)]))) = {[''02'', ''02-PLAN.md'']} \<and>
   ck_new_plans (fst (check_plan_gate ''a'' (Some demo_plans) (snd (check_plan_gate ''a'' (Some []) [])))) = []"
proof -
  have d: "distinct (map fst demo_plans)" by (simp add: demo_plans_def)
  have p: "ck_passed (fst (check_plan_gate ''a'' (Some demo_plans) [([''01'', ''01-PLAN.md''], 5)]))"
    "ck_passed (fst (check_plan_gate ''a'' (Some demo_plans) (snd (check_plan_gate ''a'' (Some []) []))))"
    "snd (check_plan_gate ''a'' (Some []) []) = []"
    by code_simp+
  have "{q. \<exists>t. plan_of demo_plans q t \<and> (\<forall>t'. dict_get [([''01'', ''01-PLAN.md''], 5)] q = Some t' \<longrightarrow> t' < t)} = {[''02'', ''02-PLAN.md'']}"
    by (auto simp: plan_of_def demo_plans_def endswith_def split: if_splits)
  then show ?thesis
    using plan_gate_exact [OF d surjective_pairing p(1)] plan_gate_exact [OF d surjective_pairing p(2)] p(3) by simp
qed

end
