(* ===== verification/Plan_Gate.thy ===== *)
theory Plan_Gate
  imports Workflow Monitor Plan_Review Comm_Port
begin

text \<open>
  The gate for plans on Discord, \<open>bot/cogs/plan_review.py\<close>, with the embed it posts (\<open>bot/embeds.py\<close>), the answer of its
  buttons (\<open>bot/views/plan_review.py\<close>) and \<open>RuntimeAPI.verify_agent_execution\<close>.

  Arguments: which posts Discord accepts, the files of an agent's clone, the time, and how a reviewer answers a post. The
  gateway is the one object that the bot shares with the workflow cog. What happens between posting a plan
  and its answer is not part of one step: \<open>post_new_plan\<close> ends where the code starts to wait and \<open>answer_plan\<close> is the rest.
  The knowledge file of the manager can be read if it is there. The time stamp of an embed is left out.
\<close>

section \<open>Plans and embeds\<close>

text \<open>\<open>^field:\s*(.+)$\<close>, searched at the starts of lines; the white space may span lines. A value of only white space counts as empty.\<close>

definition match_field :: "string \<Rightarrow> string \<Rightarrow> string option" where
  "match_field fld s =
     (let r = drop (Suc (length fld)) s; rest = dropWhile py_space r in
      if \<not> startswith s (fld @ '':'') then None
      else if rest \<noteq> [] then Some (takeWhile (\<lambda>c. c \<noteq> CHR 0x0A) rest)
      else if list_ex (\<lambda>c. c \<noteq> CHR 0x0A) r then Some []
      else None)"

fun search_field :: "string \<Rightarrow> bool \<Rightarrow> string \<Rightarrow> string option" where
  "search_field fld at_start [] = None"
| "search_field fld at_start (c # s) =
     (case (if at_start then match_field fld (c # s) else None) of
        Some v \<Rightarrow> Some v
      | None \<Rightarrow> search_field fld (c = CHR 0x0A) s)"

definition extract_frontmatter_field :: "string \<Rightarrow> string \<Rightarrow> string option" where
  "extract_frontmatter_field content fld =
     map_option (\<lambda>v. strip_with (\<lambda>c. c = CHR 0x27) (strip_with (\<lambda>c. c = CHR 0x22) (py_strip v))) (search_field fld True content)"

text \<open>\<open>value or default\<close>.\<close>

definition or_else :: "string option \<Rightarrow> string \<Rightarrow> string" where
  "or_else v d = (case v of None \<Rightarrow> d | Some s \<Rightarrow> if s = [] then d else s)"

definition plan_objective :: "string \<Rightarrow> string" where
  "plan_objective content =
     (case Option.bind (after_sub ''<objective>'' content) (before_sub ''</objective>'') of
        None \<Rightarrow> ''No objective found''
      | Some g \<Rightarrow> take 500 (py_strip g))"

text \<open>\<open>len(re.findall(r'<task\s+type=', content))\<close>; two matches cannot overlap.\<close>

fun task_count :: "string \<Rightarrow> nat" where
  "task_count [] = 0"
| "task_count (c # s) =
     (let r = drop 5 (c # s) in
      (if startswith (c # s) ''<task'' \<and> takeWhile py_space r \<noteq> [] \<and> startswith (dropWhile py_space r) ''type='' then 1 else 0) + task_count s)"

record plan_embed =
  eb_title :: string
  eb_description :: string
  eb_green :: bool
  eb_fields :: "(string \<times> string) list"
  eb_footer :: string

definition build_plan_review_embed :: "agent_id \<Rightarrow> string \<Rightarrow> string \<Rightarrow> nat \<Rightarrow> string \<Rightarrow> string \<Rightarrow> bool \<times> string \<Rightarrow> plan_embed" where
  "build_plan_review_embed a ph plan_number n goal plan_path = (\<lambda>(safety_valid, safety_message).
     \<lparr>eb_title = ''Plan Review: '' @ a,
      eb_description = (if goal \<noteq> [] then take 4096 goal else ''No objective found''),
      eb_green = safety_valid,
      eb_fields = [(''Phase'', ph), (''Plan'', plan_number), (''Tasks'', show_nat n)]
        @ (if safety_valid then [] else [(''Safety Warning'', ''Missing or incomplete interaction safety table: '' @ safety_message)]),
      eb_footer = ''Path: '' @ plan_path\<rparr>)"

definition add_field :: "string \<Rightarrow> string \<Rightarrow> plan_embed \<Rightarrow> plan_embed" where
  "add_field name v e = e\<lparr>eb_fields := eb_fields e @ [(name, v)]\<rparr>"

section \<open>The cog\<close>

record pg_post =
  po_channel :: text_channel
  po_content :: string
  po_embed :: "plan_embed option"
  po_buttons :: bool
  po_files :: "string list"

record ('c, 'w) plan_cog =
  pg_api :: "'c runtime_api option"
  pg_project_dir :: "string option"
  pg_project_config :: "project_config option"
  pg_guild :: "text_channel list option"
  pg_plan_review_channel :: "text_channel option"
  pg_alerts_channel :: "text_channel option"
  pg_reviewer :: "(agent_id \<Rightarrow> string \<Rightarrow> py_error + pm_decision) option"
  pg_workflow_cog :: "'c workflow_cog option"
  pg_last_review_time :: "(agent_id, seconds) dict"
  pg_agent_states :: "(agent_id, agent_monitor_state) dict option"
  pg_pm_context :: "string option"
  pg_shell :: "'w shell"
  pg_sent :: "pg_post list"

record 'w plan_env =
  pv_root :: root_env
  pv_accepts :: "pg_post \<Rightarrow> bool"
  pv_phases :: "agent_id \<Rightarrow> string tree option"
  pv_size :: "agent_id \<Rightarrow> string list \<Rightarrow> nat"
  pv_roadmap :: "agent_id \<Rightarrow> string option option"
  pv_can_append :: bool
  pv_timestamp :: string
  pv_now :: seconds
  pv_bot_id :: int
  pv_run :: "'w runner"

definition new_plan_cog :: "'c runtime_api option \<Rightarrow> string option \<Rightarrow> project_config option \<Rightarrow> text_channel list option \<Rightarrow> string option \<Rightarrow> 'w shell
    \<Rightarrow> ('c, 'w) plan_cog" where
  "new_plan_cog api dir cfg guild ctx sh =
     \<lparr>pg_api = api, pg_project_dir = dir, pg_project_config = cfg, pg_guild = guild, pg_plan_review_channel = None, pg_alerts_channel = None,
      pg_reviewer = None, pg_workflow_cog = None, pg_last_review_time = [], pg_agent_states = None, pg_pm_context = ctx, pg_shell = sh, pg_sent = []\<rparr>"

definition set_plan_reviewer :: "(agent_id \<Rightarrow> string \<Rightarrow> py_error + pm_decision) \<Rightarrow> ('c, 'w) plan_cog \<Rightarrow> ('c, 'w) plan_cog" where
  "set_plan_reviewer judge cog = cog\<lparr>pg_reviewer := Some judge\<rparr>"

definition resolve_channels :: "('c, 'w) plan_cog \<Rightarrow> ('c, 'w) plan_cog" where
  "resolve_channels cog =
     (case pg_guild cog of
        None \<Rightarrow> cog
      | Some chs \<Rightarrow>
          fold (\<lambda>ch cog. if tc_name ch = ''plan-review'' then cog\<lparr>pg_plan_review_channel := Some ch\<rparr>
                         else if tc_name ch = ''alerts'' then cog\<lparr>pg_alerts_channel := Some ch\<rparr> else cog) chs cog)"

definition pg_send :: "'w plan_env \<Rightarrow> pg_post \<Rightarrow> ('c, 'w) plan_cog \<Rightarrow> (('c, 'w) plan_cog, unit) outcome" where
  "pg_send env p cog = (if pv_accepts env p then (cog\<lparr>pg_sent := pg_sent cog @ [p]\<rparr>, Inr ()) else (cog, Inl OSError))"

definition text_post :: "text_channel \<Rightarrow> string \<Rightarrow> pg_post" where
  "text_post ch content = \<lparr>po_channel = ch, po_content = content, po_embed = None, po_buttons = False, po_files = []\<rparr>"

definition say :: "'w plan_env \<Rightarrow> text_channel \<Rightarrow> string \<Rightarrow> ('c, 'w) plan_cog \<Rightarrow> (('c, 'w) plan_cog, unit) outcome" where
  "say env ch content = pg_send env (text_post ch content)"

definition say_in :: "'w plan_env \<Rightarrow> text_channel option \<Rightarrow> string \<Rightarrow> ('c, 'w) plan_cog \<Rightarrow> (('c, 'w) plan_cog, unit) outcome" where
  "say_in env ch content cog = (case ch of None \<Rightarrow> (cog, Inr ()) | Some c \<Rightarrow> say env c content cog)"

text \<open>What the cog asks of the gateway, when there is one.\<close>

definition call_api :: "('c runtime_api \<Rightarrow> ('c runtime_api, unit) outcome) \<Rightarrow> ('c, 'w) plan_cog \<Rightarrow> (('c, 'w) plan_cog, unit) outcome" where
  "call_api f cog =
     (case pg_api cog of
        None \<Rightarrow> (cog, Inr ())
      | Some api \<Rightarrow> (case f api of (api', r) \<Rightarrow> (cog\<lparr>pg_api := Some api'\<rparr>, r)))"

definition pg_relay :: "'w plan_env \<Rightarrow> agent_id \<Rightarrow> string \<Rightarrow> ('c, 'w) plan_cog \<Rightarrow> (('c, 'w) plan_cog, unit) outcome" where
  "pg_relay env a content = call_api (\<lambda>api. (fst (relay_channel_message (pv_root env) a content api), Inr ()))"

definition append_pm_context :: "'w plan_env \<Rightarrow> string \<Rightarrow> ('c, 'w) plan_cog \<Rightarrow> (('c, 'w) plan_cog, unit) outcome" where
  "append_pm_context env entry cog =
     (if pv_can_append env
      then (cog\<lparr>pg_pm_context := Some (or_else (pg_pm_context cog) [] @ [CHR 0x0A] @ entry @ [CHR 0x0A])\<rparr>, Inr ())
      else (cog, Inl OSError))"

section \<open>Plans announced in a channel\<close>

definition review_prompt :: "agent_id \<Rightarrow> string \<Rightarrow> string \<Rightarrow> string \<Rightarrow> string" where
  "review_prompt a knowledge roadmap content =
     ''You are reviewing a plan from agent '' @ [CHR 0x27] @ a @ [CHR 0x27] @ ''.'' @ [CHR 0x0A, CHR 0x0A] @
     ''## Your accumulated project knowledge'' @ [CHR 0x0A] @ or_else (Some knowledge) ''(first review -- no prior knowledge)'' @ [CHR 0x0A, CHR 0x0A] @
     ''## Project roadmap'' @ [CHR 0x0A] @ take 1500 roadmap @ [CHR 0x0A, CHR 0x0A] @
     ''## New plan to review'' @ [CHR 0x0A] @ content @ [CHR 0x0A, CHR 0x0A] @
     ''Review this plan for:'' @ [CHR 0x0A] @
     ''1. Does it conflict with any approved work from other agents?'' @ [CHR 0x0A] @
     ''2. Are the file paths within this agent'' @ [CHR 0x27] @ ''s owned directories?'' @ [CHR 0x0A] @
     ''3. Is the scope appropriate for the phase?'' @ [CHR 0x0A] @
     ''4. Any interface/dependency risks?'' @ [CHR 0x0A, CHR 0x0A] @
     ''After your review, provide a CONDENSED SUMMARY (3-5 lines) of what this agent '' @
     ''plans to do, which directories/files it touches, and any interfaces it creates. '' @
     ''This summary will be saved to your knowledge doc for future reviews.''"

definition reviewed_entry :: "agent_id \<Rightarrow> string \<Rightarrow> string \<Rightarrow> pm_decision \<Rightarrow> string" where
  "reviewed_entry a name ts d =
     ''---'' @ [CHR 0x0A] @ ''## '' @ a @ '' -- '' @ name @ '' (reviewed '' @ ts @ '')'' @ [CHR 0x0A] @
     ''Decision: '' @ (if cf_level (pd_confidence d) = HIGH then ''APPROVED'' else ''NEEDS REVISION'') @ [CHR 0x0A] @
     ''Note: '' @ pd_note d @ [CHR 0x0A]"

definition auto_approved_entry :: "agent_id \<Rightarrow> string \<Rightarrow> string \<Rightarrow> string \<Rightarrow> string" where
  "auto_approved_entry a name ts path =
     ''---'' @ [CHR 0x0A] @ ''## '' @ a @ '' -- '' @ name @ '' (auto-approved '' @ ts @ '')'' @ [CHR 0x0A] @ ''Plan file: '' @ path @ [CHR 0x0A]"

definition EXECUTE_COMMAND :: string where
  "EXECUTE_COMMAND = ''/gsd:execute-phase 1''"

definition reviewer_verdict :: "'w plan_env \<Rightarrow> agent_id \<Rightarrow> text_channel \<Rightarrow> string \<Rightarrow> pm_decision \<Rightarrow> ('c, 'w) plan_cog \<Rightarrow> (('c, 'w) plan_cog, unit) outcome" where
  "reviewer_verdict env a ch name d cog =
     and_then (append_pm_context env (reviewed_entry a name (pv_timestamp env) d) cog) (\<lambda>cog.
       if cf_level (pd_confidence d) = HIGH
       then and_then (say env ch (''[PM] Plan approved for '' @ a @ ''. '' @ pd_note d @ [CHR 0x0A] @ ''Sending execute command.'') cog)
              (pg_relay env a EXECUTE_COMMAND)
       else say env ch (''[PM] Plan needs revision for '' @ a @ '': '' @ pd_note d) cog)"

definition auto_approve :: "'w plan_env \<Rightarrow> agent_id \<Rightarrow> text_channel \<Rightarrow> string list \<Rightarrow> string \<Rightarrow> ('c, 'w) plan_cog \<Rightarrow> (('c, 'w) plan_cog, unit) outcome" where
  "auto_approve env a ch path dir cog =
     and_then (say env ch (''[PM] Auto-approving plan for '' @ a @ '' (no PM tier configured). Sending execute command.'') cog) (\<lambda>cog.
       and_then (append_pm_context env
           (auto_approved_entry a (last path) (pv_timestamp env) (dir @ ''/clones/'' @ a @ ''/.planning/phases/'' @ intercalate ''/'' path)) cog)
         (pg_relay env a EXECUTE_COMMAND))"

definition review_agent_plans :: "'w plan_env \<Rightarrow> agent_id \<Rightarrow> text_channel \<Rightarrow> ('c, 'w) plan_cog \<Rightarrow> (('c, 'w) plan_cog, unit) outcome" where
  "review_agent_plans env a ch cog =
     (case (pg_project_dir cog, pg_project_config cog) of
        (Some dir, Some cfg) \<Rightarrow>
          (let plans = (case pv_phases env a of None \<Rightarrow> [] | Some fs \<Rightarrow> sorted_glob ''-PLAN.md'' fs) in
           if plans = [] then say env ch (''[PM] No PLAN.md files found for '' @ a @ ''.'') cog
           else
             (case (last plans, pv_roadmap env a) of
                ((path, None), _) \<Rightarrow> (cog, Inl OSError)
              | ((path, Some content), Some None) \<Rightarrow> (cog, Inl OSError)
              | ((path, Some content), roadmap) \<Rightarrow>
                  (case pg_reviewer cog of
                     None \<Rightarrow> auto_approve env a ch path dir cog
                   | Some judge \<Rightarrow>
                       catching
                         (case judge a (review_prompt a (or_else (pg_pm_context cog) []) (or_else (Option.bind roadmap id) []) content) of
                            Inl e \<Rightarrow> (cog, Inl e)
                          | Inr d \<Rightarrow> reviewer_verdict env a ch (last path) d cog)
                         (auto_approve env a ch path dir))))
      | _ \<Rightarrow> say env ch ''[PM] No project loaded, cannot review.'' cog)"

definition verify_agent_execution :: "'w runner \<Rightarrow> agent_id \<Rightarrow> 'c runtime_api \<Rightarrow> 'w shell \<Rightarrow> ('w shell, bool \<times> string) outcome" where
  "verify_agent_execution run a api sh =
     (case ra_project_dir api of
        None \<Rightarrow> (sh, Inr (False, []))
      | Some dir \<Rightarrow>
          (case git_log run (dir @ ''/clones/'' @ a) [''--oneline'', ''-5''] sh of
             (sh, Inl e) \<Rightarrow> (sh, Inl e)
           | (sh, Inr g) \<Rightarrow> (sh, Inr (gr_success g, py_strip (gr_stdout g)))))"

definition cog_verify_execution :: "'w plan_env \<Rightarrow> agent_id \<Rightarrow> text_channel \<Rightarrow> ('c, 'w) plan_cog \<Rightarrow> (('c, 'w) plan_cog, unit) outcome" where
  "cog_verify_execution env a ch cog =
     (case pg_api cog of
        None \<Rightarrow> say env ch ''[PM] Daemon not available for verification.'' cog
      | Some api \<Rightarrow>
          (case verify_agent_execution (pv_run env) a api (pg_shell cog) of
             (sh, Inl e) \<Rightarrow> (cog\<lparr>pg_shell := sh\<rparr>, Inl e)
           | (sh, Inr (ok, out)) \<Rightarrow>
               (let cog = cog\<lparr>pg_shell := sh\<rparr> in
                if ok \<and> out \<noteq> []
                then say env ch (''[PM] Execution verified for '' @ a @ ''. Recent commits:'' @ [CHR 0x0A] @ ''```'' @ [CHR 0x0A] @ out @ [CHR 0x0A] @ ''```'') cog
                else say env ch (''[PM] Warning: No commits found for '' @ a @ '' after execution.'') cog)))"

section \<open>The state of the gate\<close>

definition get_agent_state :: "agent_id \<Rightarrow> ('c, 'w) plan_cog \<Rightarrow> agent_monitor_state option" where
  "get_agent_state a cog = (case pg_agent_states cog of None \<Rightarrow> None | Some d \<Rightarrow> dict_get d a)"

text \<open>A change of the object that the monitor's table holds for an agent.\<close>

definition set_agent_state :: "agent_id \<Rightarrow> agent_monitor_state \<Rightarrow> ('c, 'w) plan_cog \<Rightarrow> ('c, 'w) plan_cog" where
  "set_agent_state a st cog = cog\<lparr>pg_agent_states := map_option (\<lambda>d. dict_set d a st) (pg_agent_states cog)\<rparr>"

definition append_new :: "'a \<Rightarrow> 'a list \<Rightarrow> 'a list" where
  "append_new x xs = (if x \<in> set xs then xs else xs @ [x])"

definition gate_update :: "gate_status \<Rightarrow> string \<Rightarrow> agent_monitor_state \<Rightarrow> agent_monitor_state" where
  "gate_update gs plan st =
     (case gs of
        AwaitingReview \<Rightarrow> st\<lparr>ms_plan_gate_status := AwaitingReview, ms_pending_plans := append_new plan (ms_pending_plans st)\<rparr>
      | GateApproved \<Rightarrow>
          st\<lparr>ms_plan_gate_status := GateApproved, ms_pending_plans := remove1 plan (ms_pending_plans st),
             ms_approved_plans := append_new plan (ms_approved_plans st)\<rparr>
      | GateRejected \<Rightarrow> st\<lparr>ms_plan_gate_status := GateRejected, ms_pending_plans := remove1 plan (ms_pending_plans st)\<rparr>
      | GateIdle \<Rightarrow> st)"

definition update_gate_state :: "agent_id \<Rightarrow> string \<Rightarrow> gate_status \<Rightarrow> ('c, 'w) plan_cog \<Rightarrow> ('c, 'w) plan_cog" where
  "update_gate_state a plan gs cog =
     (case get_agent_state a cog of None \<Rightarrow> cog | Some st \<Rightarrow> set_agent_state a (gate_update gs plan st) cog)"

definition execute_command :: "agent_monitor_state \<Rightarrow> string" where
  "execute_command st = ''/gsd:execute-phase '' @ ms_current_phase st"

definition trigger_execution :: "'w plan_env \<Rightarrow> agent_id \<Rightarrow> agent_monitor_state \<Rightarrow> ('c, 'w) plan_cog \<Rightarrow> (('c, 'w) plan_cog, unit) outcome" where
  "trigger_execution env a st cog =
     and_then (pg_relay env a (execute_command st) cog) (\<lambda>cog.
       let cog = set_agent_state a (st\<lparr>ms_plan_gate_status := GateIdle, ms_approved_plans := []\<rparr>) cog in
       say_in env (pg_alerts_channel cog) (''All plans approved for `'' @ a @ ''`. Execution triggered.'') cog)"

text \<open>The workflow cog reads the gateway off the same bot.\<close>

definition notify_workflow :: "('c workflow_cog \<Rightarrow> 'c workflow_cog) \<Rightarrow> ('c, 'w) plan_cog \<Rightarrow> ('c, 'w) plan_cog" where
  "notify_workflow f cog =
     cog\<lparr>pg_workflow_cog := map_option (\<lambda>wf. f (wf\<lparr>wf_runtime_api := pg_api cog\<rparr>)) (pg_workflow_cog cog)\<rparr>"

definition human_approval :: "agent_id \<Rightarrow> string" where
  "human_approval a = ''[Review] Plan for '' @ a @ '': APPROVED (human review)''"

definition handle_approval :: "'w plan_env \<Rightarrow> agent_id \<Rightarrow> string \<Rightarrow> ('c, 'w) plan_cog \<Rightarrow> (('c, 'w) plan_cog, unit) outcome" where
  "handle_approval env a plan cog =
     and_then (call_api (handle_plan_approval (pv_root env) a (path_name plan)) (update_gate_state a plan GateApproved cog)) (\<lambda>cog.
       let cog = notify_workflow (notify_plan_approved a) cog in
       and_then
         (case get_agent_state a cog of
            None \<Rightarrow> (cog, Inr ())
          | Some st \<Rightarrow> if ms_pending_plans st = [] then trigger_execution env a st cog else (cog, Inr ()))
         (\<lambda>cog. say_in env (pg_plan_review_channel cog) (human_approval a) cog))"

definition handle_rejection :: "'w plan_env \<Rightarrow> agent_id \<Rightarrow> string \<Rightarrow> string \<Rightarrow> ('c, 'w) plan_cog \<Rightarrow> (('c, 'w) plan_cog, unit) outcome" where
  "handle_rejection env a plan feedback cog =
     and_then (call_api (handle_plan_rejection (pv_root env) a (path_name plan) feedback) (update_gate_state a plan GateRejected cog)) (\<lambda>cog.
       let cog = notify_workflow (notify_plan_rejected a) cog in
       say_in env (pg_plan_review_channel cog) (''[Review] Plan for '' @ a @ '': REJECTED. Feedback: '' @ feedback) cog)"

section \<open>Plans the monitor detects\<close>

definition new_plan_embed :: "agent_id \<Rightarrow> string \<Rightarrow> string \<Rightarrow> plan_embed" where
  "new_plan_embed a plan content =
     build_plan_review_embed a (or_else (extract_frontmatter_field content ''phase'') ''unknown'') (or_else (extract_frontmatter_field content ''plan'') ''?'')
       (task_count content) (plan_objective content) plan (validate_safety_table content)"

definition embed_post :: "text_channel \<Rightarrow> plan_embed \<Rightarrow> pg_post" where
  "embed_post ch e = \<lparr>po_channel = ch, po_content = [], po_embed = Some e, po_buttons = False, po_files = []\<rparr>"

definition review_post :: "text_channel \<Rightarrow> plan_embed \<Rightarrow> string \<Rightarrow> pg_post" where
  "review_post ch e plan = \<lparr>po_channel = ch, po_content = [], po_embed = Some e, po_buttons = True, po_files = [path_name plan]\<rparr>"

definition quietly :: "(('c, 'w) plan_cog, unit) outcome \<Rightarrow> (('c, 'w) plan_cog, unit) outcome" where
  "quietly r = catching r (\<lambda>cog. (cog, Inr ()))"

definition auto_approval :: "'w plan_env \<Rightarrow> agent_id \<Rightarrow> string \<Rightarrow> text_channel \<Rightarrow> plan_embed \<Rightarrow> pm_decision \<Rightarrow> ('c, 'w) plan_cog \<Rightarrow> (('c, 'w) plan_cog, unit) outcome" where
  "auto_approval env a plan ch e d cog =
     and_then (handle_approval env a plan (update_gate_state a plan GateApproved cog)) (\<lambda>cog.
       and_then (quietly (pg_send env (embed_post ch (add_field ''PM Review'' ''Auto-approved (HIGH confidence)'' e)) cog)) (\<lambda>cog.
         quietly (say env ch (''[Review] Plan for '' @ a @ '': APPROVED (confidence: HIGH). '' @ or_else (Some (pd_note d)) ''Auto-approved by PM'') cog)))"

text \<open>What the reviewer leaves for the human: nothing when the plan was approved, or else the embed to post.\<close>

definition pm_intercept :: "'w plan_env \<Rightarrow> agent_id \<Rightarrow> string \<Rightarrow> string \<Rightarrow> text_channel \<Rightarrow> plan_embed \<Rightarrow> ('c, 'w) plan_cog \<Rightarrow> ('c, 'w) plan_cog \<times> plan_embed option" where
  "pm_intercept env a plan content ch e cog =
     (case pg_reviewer cog of
        None \<Rightarrow> (cog, Some e)
      | Some judge \<Rightarrow>
          (case judge a content of
             Inl _ \<Rightarrow> (cog, Some e)
           | Inr d \<Rightarrow>
               if cf_level (pd_confidence d) = HIGH
               then (case auto_approval env a plan ch e d cog of (cog, Inl _) \<Rightarrow> (cog, Some e) | (cog, Inr _) \<Rightarrow> (cog, None))
               else (cog, Some (add_field ''PM Review'' (''Needs review: '' @ pd_note d) e))))"

text \<open>
  Up to the point where the code waits for an answer; the result says whether it does. The file can be attached if it could be read.
\<close>

definition post_new_plan :: "'w plan_env \<Rightarrow> agent_id \<Rightarrow> string \<Rightarrow> string option \<Rightarrow> ('c, 'w) plan_cog \<Rightarrow> ('c, 'w) plan_cog \<times> bool" where
  "post_new_plan env a plan file_text cog =
     (let cog = (if pg_plan_review_channel cog = None then resolve_channels cog else cog) in
      case (pg_plan_review_channel cog, file_text) of
        (Some ch, Some content) \<Rightarrow>
          (case pm_intercept env a plan content ch (new_plan_embed a plan content) cog of
             (cog, None) \<Rightarrow> (cog, False)
           | (cog, Some e) \<Rightarrow>
               (case pg_send env (review_post ch e plan) cog of
                  (cog, Inl _) \<Rightarrow> (cog, False)
                | (cog, Inr _) \<Rightarrow> (update_gate_state a plan AwaitingReview cog, True)))
      | _ \<Rightarrow> (cog, False))"

datatype review_answer = TimedOut | AnswerApproved | AnswerRejected string

definition answer_plan :: "'w plan_env \<Rightarrow> agent_id \<Rightarrow> string \<Rightarrow> review_answer \<Rightarrow> ('c, 'w) plan_cog \<Rightarrow> (('c, 'w) plan_cog, unit) outcome" where
  "answer_plan env a plan ans cog =
     (case ans of
        TimedOut \<Rightarrow> (cog, Inr ())
      | AnswerApproved \<Rightarrow> handle_approval env a plan cog
      | AnswerRejected feedback \<Rightarrow> handle_rejection env a plan feedback cog)"

definition handle_new_plan :: "'w plan_env \<Rightarrow> agent_id \<Rightarrow> string \<Rightarrow> string option \<Rightarrow> review_answer \<Rightarrow> ('c, 'w) plan_cog \<Rightarrow> (('c, 'w) plan_cog, unit) outcome" where
  "handle_new_plan env a plan file_text ans cog =
     (case post_new_plan env a plan file_text cog of (cog, waits) \<Rightarrow> if waits then answer_plan env a plan ans cog else (cog, Inr ()))"

section \<open>Reviews of stages\<close>

definition REVIEW_THROTTLE :: seconds where
  "REVIEW_THROTTLE = 30"

text \<open>The time at which a message is posted: after the pause that the throttle asks for.\<close>

definition post_time :: "agent_id \<Rightarrow> seconds \<Rightarrow> ('c, 'w) plan_cog \<Rightarrow> seconds" where
  "post_time a now cog =
     (let last_time = (case dict_get (pg_last_review_time cog) a of None \<Rightarrow> 0 | Some t \<Rightarrow> t); wait = REVIEW_THROTTLE - (now - last_time) in
      if wait > 0 then now + wait else now)"

definition post_throttled :: "'w plan_env \<Rightarrow> agent_id \<Rightarrow> text_channel \<Rightarrow> string \<Rightarrow> string list \<Rightarrow> ('c, 'w) plan_cog \<Rightarrow> (('c, 'w) plan_cog, unit) outcome" where
  "post_throttled env a ch content attached cog =
     pg_send env ((text_post ch content)\<lparr>po_files := attached\<rparr>)
       (cog\<lparr>pg_last_review_time := dict_set (pg_last_review_time cog) a (post_time a (pv_now env) cog)\<rparr>)"

definition stage_globs :: "(string, string) dict" where
  "stage_globs = [(''discuss'', ''-CONTEXT.md''), (''plan'', ''-PLAN.md''), (''execute'', ''-SUMMARY.md''), (''uat'', ''-SUMMARY.md''), (''ship'', ''-SUMMARY.md'')]"

text \<open>\<open>sorted(phases_dir.glob("*/*suffix"))\<close>: the entries exactly two levels down.\<close>

definition glob2 :: "string \<Rightarrow> 'a tree \<Rightarrow> 'a tree" where
  "glob2 suffix fs = sort_key fst (filter (\<lambda>(path, c). length path = 2 \<and> endswith (last path) suffix) fs)"

definition stage_matches :: "string \<Rightarrow> 'a tree option \<Rightarrow> 'a tree" where
  "stage_matches stage phases =
     (case (phases, dict_get stage_globs stage) of (Some fs, Some suffix) \<Rightarrow> glob2 suffix fs | _ \<Rightarrow> [])"

definition build_review_attachments :: "'w plan_env \<Rightarrow> agent_id \<Rightarrow> string \<Rightarrow> ('c, 'w) plan_cog \<Rightarrow> py_error + string list" where
  "build_review_attachments env a stage cog =
     (if pg_project_dir cog = None then Inr []
      else
        (let found = stage_matches stage (pv_phases env a) in
         if found = [] \<or> \<not> pv_size env a (fst (last found)) < 1000000 then Inr []
         else if snd (last found) = None then Inl OSError
         else Inr [last (fst (last found))]))"

definition guild_channel :: "string \<Rightarrow> ('c, 'w) plan_cog \<Rightarrow> text_channel option" where
  "guild_channel name cog = Option.bind (pg_guild cog) (find (\<lambda>ch. tc_name ch = name))"

definition post_review_request :: "'w plan_env \<Rightarrow> agent_id \<Rightarrow> string \<Rightarrow> ('c, 'w) plan_cog \<Rightarrow> (('c, 'w) plan_cog, unit) outcome" where
  "post_review_request env a stage cog =
     (case guild_channel (''agent-'' @ a) cog of
        None \<Rightarrow> (cog, Inr ())
      | Some ch \<Rightarrow>
          (case build_review_attachments env a stage cog of
             Inl e \<Rightarrow> (cog, Inl e)
           | Inr attached \<Rightarrow> post_throttled env a ch (''['' @ a @ ''] @PM, finished '' @ stage @ '', need your review'') attached cog))"

text \<open>The artifact of a stage, cut to 3000 characters.\<close>

definition stage_artifact :: "string \<Rightarrow> string tree option \<Rightarrow> py_error + string" where
  "stage_artifact stage phases =
     (let found = stage_matches stage phases in
      if found = [] then Inr []
      else (case snd (last found) of None \<Rightarrow> Inl OSError | Some raw \<Rightarrow> Inr (take 3000 raw)))"

definition stage_response :: "string \<Rightarrow> pm_decision \<Rightarrow> string" where
  "stage_response stage d =
     (if cf_level (pd_confidence d) = HIGH then ''[PM] APPROVED: '' @ or_else (Some (pd_note d)) (stage @ '' stage approved'')
      else ''[PM] NEEDS CHANGES: '' @ pd_note d)"

definition stage_verdict :: "'w plan_env \<Rightarrow> agent_id \<Rightarrow> string \<Rightarrow> text_channel \<Rightarrow> pm_decision \<Rightarrow> ('c, 'w) plan_cog \<Rightarrow> (('c, 'w) plan_cog, unit) outcome" where
  "stage_verdict env a stage ch d cog =
     and_then (append_pm_context env (''## '' @ a @ '' '' @ stage @ '' review: '' @ (if pd_note d \<noteq> [] then take 200 (pd_note d) else ''approved'')) cog)
       (post_throttled env a ch (stage_response stage d) [])"

definition stage_auto_approve :: "'w plan_env \<Rightarrow> agent_id \<Rightarrow> string \<Rightarrow> text_channel \<Rightarrow> ('c, 'w) plan_cog \<Rightarrow> (('c, 'w) plan_cog, unit) outcome" where
  "stage_auto_approve env a stage ch cog =
     and_then (append_pm_context env (''## '' @ a @ '' '' @ stage @ '' auto-approved'') cog)
       (post_throttled env a ch (''[PM] APPROVED: '' @ stage @ '' stage looks good for '' @ a) [])"

definition dispatch_pm_review :: "'w plan_env \<Rightarrow> agent_id \<Rightarrow> string \<Rightarrow> ('c, 'w) plan_cog \<Rightarrow> (('c, 'w) plan_cog, unit) outcome" where
  "dispatch_pm_review env a stage cog =
     (case guild_channel (''agent-'' @ a) cog of
        None \<Rightarrow> (cog, Inr ())
      | Some ch \<Rightarrow>
          if pg_project_dir cog = None then post_throttled env a ch ''[PM] APPROVED (no project context)'' [] cog
          else
            (case stage_artifact stage (pv_phases env a) of
               Inl e \<Rightarrow> (cog, Inl e)
             | Inr artifact \<Rightarrow>
                 (case pg_reviewer cog of
                    None \<Rightarrow> stage_auto_approve env a stage ch cog
                  | Some judge \<Rightarrow>
                      if artifact = [] then stage_auto_approve env a stage ch cog
                      else
                        catching (case judge a artifact of Inl e \<Rightarrow> (cog, Inl e) | Inr d \<Rightarrow> stage_verdict env a stage ch d cog)
                          (stage_auto_approve env a stage ch))))"

section \<open>Messages\<close>

definition response_decision :: "string \<Rightarrow> string" where
  "response_decision content =
     (let s = py_lower content in
      if py_contains ''approved'' s \<or> py_contains ''approve'' s then ''approve''
      else if py_contains ''needs changes'' s \<or> py_contains ''modify'' s then ''modify''
      else ''clarify'')"

definition response_feedback :: "string \<Rightarrow> string" where
  "response_feedback content = (case after_sub '':'' content of Some t \<Rightarrow> py_strip t | None \<Rightarrow> content)"

definition handle_review_response :: "'w plan_env \<Rightarrow> agent_id \<Rightarrow> string \<Rightarrow> ('c, 'w) plan_cog \<Rightarrow> (('c, 'w) plan_cog, unit) outcome" where
  "handle_review_response env a content cog =
     (case pg_api cog of
        None \<Rightarrow> (cog, Inr ())
      | Some api \<Rightarrow>
          (case resolve_review (pv_root env) a (response_decision content) api of
             (api, Inl e) \<Rightarrow> (cog\<lparr>pg_api := Some api\<rparr>, Inl e)
           | (api, Inr resolved) \<Rightarrow>
               if resolved \<and> response_decision content = ''modify''
               then pg_relay env a (''PM feedback: '' @ response_feedback content) (cog\<lparr>pg_api := Some api\<rparr>)
               else (cog\<lparr>pg_api := Some api\<rparr>, Inr ())))"

definition announces_plan :: "string \<Rightarrow> bool" where
  "announces_plan s \<longleftrightarrow> py_contains ''plan'' s \<and> (py_contains ''complete'' s \<or> py_contains ''ready'' s \<or> py_contains ''review'' s)"

text \<open>The channel of the message is one of the guild's; a direct message has a channel without a name.\<close>

definition plan_on_message :: "'w plan_env \<Rightarrow> text_channel \<Rightarrow> discord_message \<Rightarrow> ('c, 'w) plan_cog \<Rightarrow> (('c, 'w) plan_cog, unit) outcome" where
  "plan_on_message env ch m cog =
     (case dm_channel_name m of
        None \<Rightarrow> (cog, Inl (AttributeError ''name''))
      | Some name \<Rightarrow>
          (let a = drop 6 name; s = py_lower (dm_content m) in
           if \<not> startswith name ''agent-'' then (cog, Inr ())
           else if dm_author_id m = pv_bot_id env then
             (if startswith (dm_content m) ''[PM]'' then handle_review_response env a (dm_content m) cog else (cog, Inr ()))
           else if \<not> py_contains ''@PM'' (dm_content m) then (cog, Inr ())
           else if announces_plan s then
             and_then (say env ch (''[PM] Reviewing '' @ a @ [CHR 0x27] @ ''s plan...'') cog) (review_agent_plans env a ch)
           else if py_contains ''execute'' s \<and> py_contains ''complete'' s then
             and_then (say env ch (''[PM] Verifying '' @ a @ [CHR 0x27] @ ''s execution...'') cog) (cog_verify_execution env a ch)
           else (cog, Inr ())))"

section \<open>Lemmas\<close>

lemma py_lower_append: "py_lower (x @ y) = py_lower x @ py_lower y"
  by (simp add: py_lower_def)

lemma contains_after_lower: "py_lower w = w \<Longrightarrow> py_contains w (py_lower (x @ w @ y))"
  by (simp add: py_lower_append py_contains_append)

lemma lower_approve: "py_lower ''approve'' = ''approve''"
  by (simp add: py_lower_def lower_char_def)

lemma says_approved: "response_decision (x @ ''approve'' @ y) = ''approve''"
  using contains_after_lower [OF lower_approve] by (simp only: response_decision_def Let_def simp_thms if_True)

lemma say_accepted: "pv_accepts env p \<Longrightarrow> pg_send env p cog = (cog\<lparr>pg_sent := pg_sent cog @ [p]\<rparr>, Inr ())"
  by (simp add: pg_send_def)

lemma append_accepted: "pv_can_append env \<Longrightarrow> append_pm_context env entry cog
    = (cog\<lparr>pg_pm_context := Some (or_else (pg_pm_context cog) [] @ [CHR 0x0A] @ entry @ [CHR 0x0A])\<rparr>, Inr ())"
  by (simp add: append_pm_context_def)

text \<open>What a relayed message does to the handle of its agent.\<close>

lemma relay_handle:
  "find_handle a (ra_root api) = Some h \<Longrightarrow>
     find_handle a (ra_root (fst (relay_channel_message env a content api)))
       = Some (fst (ah_send (re_up env a) (InboundMessage ''system'' ''relay'' content None) h))"
  by (simp add: relay_channel_message_def handle_send_def set_handle_def find_handle_def dict_simps split: prod.splits sum.splits)

lemma resolve_review_handle:
  "find_handle a (ra_root api) = Some h \<Longrightarrow>
     find_handle a (ra_root (fst (resolve_review env a d api))) = Some (fst (ah_send (re_up env a) (review_message d) h))"
  by (simp add: resolve_review_def handle_send_def set_handle_def find_handle_def dict_simps split: prod.splits sum.splits)

text \<open>A plan that fails the check for duplicates is said to resemble an approved plan.\<close>

definition names_approved :: "string \<Rightarrow> bool" where
  "names_approved msg \<longleftrightarrow> (\<exists>x y. msg = x @ ''approve'' @ y)"

lemma names_approved_intro: "names_approved (x @ ''approve'' @ y)"
  by (auto simp: names_approved_def)

lemma names_approved_append: "names_approved s \<Longrightarrow> names_approved (x @ s @ y)"
  unfolding names_approved_def by (metis append.assoc)

lemma duplicate_line_names:
  assumes "duplicate_line a fs obj j = Inr (Some msg)"
  shows "names_approved msg"
proof -
  have "names_approved (''Possible duplicate: >70% file overlap with approved plan from '' @ t)" for t
    using names_approved_intro [of "''Possible duplicate: >70% file overlap with ''" "''d plan from '' @ t"] by simp
  moreover have "names_approved (''Possible duplicate: similar objective to approved plan from '' @ t)" for t
    using names_approved_intro [of "''Possible duplicate: similar objective to ''" "''d plan from '' @ t"] by simp
  ultimately show ?thesis using assms unfolding duplicate_line_def by (auto split: sum.splits if_splits)
qed

lemma duplicate_loop_names: "duplicate_loop a fs obj ls = Inr (False, msg) \<Longrightarrow> names_approved msg"
  by (induction ls) (auto simp: Let_def dest: duplicate_line_names split: if_splits option.splits sum.splits)

lemma duplicate_check_names: "duplicate_check yaml approvals a content = Inr (False, msg) \<Longrightarrow> names_approved msg"
  by (auto simp: duplicate_check_def Let_def dest: duplicate_loop_names split: option.splits sum.splits if_splits)

lemma intercalate_names: "m \<in> set xs \<Longrightarrow> names_approved m \<Longrightarrow> names_approved (intercalate sep xs)"
proof (induction sep xs rule: intercalate.induct)
  case (2 sep x)
  then show ?case by simp
next
  case (3 sep x y xs)
  show ?case
  proof (cases "m = x")
    case True
    then show ?thesis using names_approved_append [of m "[]"] 3(3) by simp
  next
    case False
    then show ?thesis using 3 names_approved_append [of "intercalate sep (y # xs)" "x @ sep" "[]"] by simp
  qed
qed simp

lemma duplicate_verdict:
  assumes "review_plan yaml pr a content = Inr d" "duplicate_check yaml (pr_approved pr) a content = Inr (False, msg)"
  shows "cf_level (pd_confidence d) = LOW \<and> names_approved (pd_note d)"
proof -
  obtain scope dep where d: "d = verdict [(''scope'', scope), (''dependency'', dep), (''duplicate'', False, msg)]"
    using assms by (auto simp: review_plan_def split: sum.splits)
  let ?failed = "filter (\<lambda>(name, ok, msg). \<not> ok) [(''scope'', scope), (''dependency'', dep), (''duplicate'', False, msg)]"
  have dup: "(''duplicate'', False, msg) \<in> set ?failed" by simp
  then have ne: "?failed \<noteq> []" by (rule list.set_cases) simp_all
  have m: "names_approved (''duplicate'' @ '': '' @ msg)"
    using names_approved_append [OF duplicate_check_names [OF assms(2)], of "''duplicate: ''" "[]"] by simp
  have "''duplicate'' @ '': '' @ msg \<in> set (map (\<lambda>(name, ok, msg). name @ '': '' @ msg) ?failed)"
    using imageI [OF dup, of "\<lambda>(name, ok, msg). name @ '': '' @ msg"] by (simp only: set_map prod.case)
  from intercalate_names [OF this m]
  have "names_approved (''Failed checks: '' @ intercalate '', '' (map fst ?failed) @ ''. '' @ intercalate ''; '' (map (\<lambda>(name, ok, msg). name @ '': '' @ msg) ?failed))"
    using names_approved_append [of _ "''Failed checks: '' @ intercalate '', '' (map fst ?failed) @ ''. ''" "[]"] by (simp only: append.assoc append_Nil2)
  then show ?thesis using ne unfolding d verdict_def Let_def by (simp only: if_False pm_decision.simps confidence_result.simps)
qed

text \<open>
  C33. A duplicate plan passes the gate. When the manager's reviewer objects to a stage's artifact because it duplicates work that another
  agent was allowed to do, the cog posts that changes are needed; but the post names the \<open>approved\<close> plan, and the cog, which reads
  its own posts as the review's result, sends the agent the decision \<open>approve\<close>.
\<close>

theorem duplicate_plan_is_approved:
  assumes "guild_channel (''agent-'' @ a) cog = Some ch" "pg_project_dir cog = Some dir" "pg_reviewer cog = Some (review_plan yaml pr)"
    and "stage_artifact stage (pv_phases env a) = Inr plan" "plan \<noteq> []" "review_plan yaml pr a plan = Inr d"
    and "duplicate_check yaml (pr_approved pr) a plan = Inr (False, msg)"
    and "pv_accepts env = (\<lambda>p. True)" "pv_can_append env" "pg_api cog = Some api" "find_handle a (ra_root api) = Some h"
    and "dm_channel_name m = Some (''agent-'' @ a)" "dm_author_id m = pv_bot_id env" "dm_content m = ''[PM] NEEDS CHANGES: '' @ pd_note d"
  shows "\<exists>cog' api'. dispatch_pm_review env a stage cog = (cog', Inr ())
    \<and> pg_sent cog' = pg_sent cog @ [text_post ch (dm_content m)]
    \<and> pg_api (fst (plan_on_message env ch m cog')) = Some api'
    \<and> find_handle a (ra_root api') = Some (fst (ah_send (re_up (pv_root env) a) (review_message ''approve'') h))"
proof -
  note dv = duplicate_verdict [OF assms(6,7)]
  obtain x y where note': "pd_note d = x @ ''approve'' @ y" using dv by (auto simp: names_approved_def)
  have dec: "response_decision (dm_content m) = ''approve''"
    using says_approved [of "''[PM] NEEDS CHANGES: '' @ x" y] by (simp add: assms(14) note')
  have resp: "stage_response stage d = dm_content m" using dv by (simp add: stage_response_def assms(14))
  obtain cog' where c: "dispatch_pm_review env a stage cog = (cog', Inr ())" "pg_sent cog' = pg_sent cog @ [text_post ch (dm_content m)]" "pg_api cog' = Some api"
    using assms(1-6,8-10) by (simp add: dispatch_pm_review_def stage_verdict_def append_accepted post_throttled_def say_accepted resp text_post_def)
  have "startswith (''agent-'' @ a) ''agent-''" "startswith (dm_content m) ''[PM]''" by (simp_all add: startswith_def assms(14))
  moreover have "drop 6 (''agent-'' @ a) = a" by simp
  ultimately have om: "plan_on_message env ch m cog' = handle_review_response env a (dm_content m) cog'"
    unfolding plan_on_message_def assms(12,13) option.case Let_def by (simp only: simp_thms if_True if_False)
  have "pg_api (fst (handle_review_response env a (dm_content m) cog')) = Some (fst (resolve_review (pv_root env) a ''approve'' api))"
    by (simp add: handle_review_response_def c(3) dec split: prod.splits sum.splits)
  then show ?thesis using c om resolve_review_handle [OF assms(11)] by auto
qed


text \<open>A project with one agent, whose reviewer knows one plan that another agent was allowed to follow.\<close>

definition agent_channel :: text_channel where
  "agent_channel = \<lparr>tc_name = ''agent-a'', tc_category = None\<rparr>"

definition plan_cog_with :: "(agent_id \<Rightarrow> string \<Rightarrow> py_error + pm_decision) \<Rightarrow> (string, unit) plan_cog" where
  "plan_cog_with judge =
     set_plan_reviewer judge (new_plan_cog (Some known_api) (Some ''d'') (Some demo_project) (Some [agent_channel]) None \<lparr>sh_world = (), sh_log = []\<rparr>)"

definition plan_env_with :: "string \<Rightarrow> unit plan_env" where
  "plan_env_with plan =
     \<lparr>pv_root = demo_root_env [], pv_accepts = (\<lambda>p. True), pv_phases = (\<lambda>a. Some [([''01'', ''01-PLAN.md''], Some plan)]), pv_size = (\<lambda>a p. 1),
      pv_roadmap = (\<lambda>a. None), pv_can_append = True, pv_timestamp = ''now'', pv_now = 100, pv_bot_id = 1, pv_run = (\<lambda>c w. (w, NotStarted))\<rparr>"

definition twice_planned :: string where
  "twice_planned = ''<objective>log in</objective>''"

definition wary_reviewer :: plan_reviewer where
  "wary_reviewer = demo_reviewer\<lparr>pr_approved := Some (''{'' @ [CHR 0x22] @ ''objective'' @ [CHR 0x22] @ '':'' @ [CHR 0x22] @ ''log in'' @ [CHR 0x22] @ ''}'')\<rparr>"

lemma wary_objects:
  "duplicate_check (\<lambda>t. None) (pr_approved wary_reviewer) ''a'' twice_planned = Inr (False, ''Possible duplicate: similar objective to approved plan from ?'')"
  by code_simp

lemma demo_cog_facts:
  "guild_channel (''agent-'' @ ''a'') (plan_cog_with judge) = Some agent_channel" "pg_project_dir (plan_cog_with judge) = Some ''d''"
  "pg_project_config (plan_cog_with judge) = Some demo_project"
  "pg_reviewer (plan_cog_with judge) = Some judge" "pg_api (plan_cog_with judge) = Some known_api" "pg_sent (plan_cog_with judge) = []"
  "pv_accepts (plan_env_with plan) = (\<lambda>p. True)" "pv_can_append (plan_env_with plan)" "re_up (pv_root (plan_env_with plan)) ''a''"
  by (simp_all add: plan_cog_with_def set_plan_reviewer_def new_plan_cog_def guild_channel_def agent_channel_def plan_env_with_def demo_root_env_def)

lemma known_handle: "\<exists>h. find_handle ''a'' (ra_root known_api) = Some h"
  by (simp add: known_api_def find_handle_def)

theorem duplicate_plan_is_approved_witness:
  "\<exists>note cog api h. dispatch_pm_review (plan_env_with twice_planned) ''a'' ''plan'' (plan_cog_with (review_plan (\<lambda>t. None) wary_reviewer)) = (cog, Inr ())
     \<and> pg_sent cog = [text_post agent_channel (''[PM] NEEDS CHANGES: '' @ note)]
     \<and> pg_api (fst (plan_on_message (plan_env_with twice_planned) agent_channel
          (demo_message\<lparr>dm_channel_name := Some ''agent-a'', dm_author_id := 1, dm_content := ''[PM] NEEDS CHANGES: '' @ note\<rparr>) cog)) = Some api
     \<and> find_handle ''a'' (ra_root api) = Some (fst (ah_send True (review_message ''approve'') h))"
proof -
  obtain d where d: "review_plan (\<lambda>t. None) wary_reviewer ''a'' twice_planned = Inr d"
  proof -
    have "\<not> isl (review_plan (\<lambda>t. None) wary_reviewer ''a'' twice_planned)" by code_simp
    then show thesis using that by (cases "review_plan (\<lambda>t. None) wary_reviewer ''a'' twice_planned") auto
  qed
  have art: "stage_artifact ''plan'' (pv_phases (plan_env_with twice_planned) ''a'') = Inr twice_planned" "twice_planned \<noteq> []"
    by (simp_all add: plan_env_with_def stage_artifact_def stage_matches_def stage_globs_def glob2_def endswith_def twice_planned_def)
  have bid: "dm_author_id (demo_message\<lparr>dm_channel_name := Some ''agent-a'', dm_author_id := 1, dm_content := ''[PM] NEEDS CHANGES: '' @ pd_note d\<rparr>)
      = pv_bot_id (plan_env_with twice_planned)" by (simp add: plan_env_with_def)
  obtain h where h: "find_handle ''a'' (ra_root known_api) = Some h" using known_handle by blast
  have "\<exists>cog' api'. dispatch_pm_review (plan_env_with twice_planned) ''a'' ''plan'' (plan_cog_with (review_plan (\<lambda>t. None) wary_reviewer)) = (cog', Inr ())
     \<and> pg_sent cog' = [] @ [text_post agent_channel (''[PM] NEEDS CHANGES: '' @ pd_note d)]
     \<and> pg_api (fst (plan_on_message (plan_env_with twice_planned) agent_channel
          (demo_message\<lparr>dm_channel_name := Some ''agent-a'', dm_author_id := 1, dm_content := ''[PM] NEEDS CHANGES: '' @ pd_note d\<rparr>) cog')) = Some api'
     \<and> find_handle ''a'' (ra_root api') = Some (fst (ah_send True (review_message ''approve'') h))"
    using duplicate_plan_is_approved [OF demo_cog_facts(1,2,4) art d wary_objects demo_cog_facts(7,8,5) h _ bid] demo_cog_facts(6,9) by simp
  then show ?thesis by auto
qed

lemma prompt_without_frontmatter: "extract_frontmatter yaml (review_prompt a knowledge roadmap content) = JObj []"
  by (simp add: extract_frontmatter_def review_prompt_def startswith_def)

lemma prompt_reviewed:
  "review_plan yaml pr a (review_prompt a' knowledge roadmap content) =
     (case duplicate_check yaml (pr_approved pr) a (review_prompt a' knowledge roadmap content) of
        Inl e \<Rightarrow> Inl e
      | Inr dup \<Rightarrow> Inr (verdict [(''scope'', True, ''No files modified''), (''dependency'', True, ''No dependencies''), (''duplicate'', dup)]))"
  by (simp add: review_plan_def scope_check_def dependency_check_def prompt_without_frontmatter)

text \<open>
  What the cog answers, and whether the agent is told to execute, when the reviewer's check for duplicates of the prompt gives a result;
  without a reviewer, or when the check raises, the plan is approved automatically.
\<close>

definition mention_reply :: "agent_id \<Rightarrow> check option \<Rightarrow> string \<times> bool" where
  "mention_reply a checked =
     (case checked of
        Some (Inr (True, msg)) \<Rightarrow> (''[PM] Plan approved for '' @ a @ ''. '' @ [CHR 0x0A] @ ''Sending execute command.'', True)
      | Some (Inr (False, msg)) \<Rightarrow> (''[PM] Plan needs revision for '' @ a @ '': Failed checks: duplicate. duplicate: '' @ msg, False)
      | _ \<Rightarrow> (''[PM] Auto-approving plan for '' @ a @ '' (no PM tier configured). Sending execute command.'', True))"

lemma mention_verdict:
  "cf_level (pd_confidence (verdict [(''scope'', True, m1), (''dependency'', True, m2), (''duplicate'', True, m3)])) = HIGH"
  "pd_note (verdict [(''scope'', True, m1), (''dependency'', True, m2), (''duplicate'', True, m3)]) = []"
  "cf_level (pd_confidence (verdict [(''scope'', True, m1), (''dependency'', True, m2), (''duplicate'', False, m3)])) = LOW"
  "pd_note (verdict [(''scope'', True, m1), (''dependency'', True, m2), (''duplicate'', False, m3)]) = ''Failed checks: duplicate. duplicate: '' @ m3"
  by (simp_all add: verdict_def)

lemma review_agent_plans_answer:
  assumes "pg_project_dir cog = Some dir" "pg_project_config cog = Some cfg"
    and "pv_phases env a = Some fs" "sorted_glob ''-PLAN.md'' fs \<noteq> []" "last (sorted_glob ''-PLAN.md'' fs) = (path, Some plan)" "pv_roadmap env a \<noteq> Some None"
    and "pv_accepts env = (\<lambda>p. True)" "pv_can_append env" "pg_api cog = Some api"
    and "pg_reviewer cog = map_option (review_plan yaml) reviewer"
    and "checked = map_option (\<lambda>pr. duplicate_check yaml (pr_approved pr) a
           (review_prompt a (or_else (pg_pm_context cog) []) (or_else (Option.bind (pv_roadmap env a) id) []) plan)) reviewer"
  obtains cog' where "review_agent_plans env a ch cog = (cog', Inr ())" "pg_sent cog' = pg_sent cog @ [text_post ch (fst (mention_reply a checked))]"
    "pg_api cog' = Some (if snd (mention_reply a checked) then fst (relay_channel_message (pv_root env) a EXECUTE_COMMAND api) else api)"
proof -
  let ?prompt = "review_prompt a (or_else (pg_pm_context cog) []) (or_else (Option.bind (pv_roadmap env a) id) []) plan"
  have run: "review_agent_plans env a ch cog =
      (case reviewer of
         None \<Rightarrow> auto_approve env a ch path dir cog
       | Some pr \<Rightarrow> catching (case review_plan yaml pr a ?prompt of Inl e \<Rightarrow> (cog, Inl e) | Inr d \<Rightarrow> reviewer_verdict env a ch (last path) d cog)
           (auto_approve env a ch path dir))"
    using assms(1-6,10) by (auto simp: review_agent_plans_def Let_def split: option.splits)
  have auto_ok: "\<exists>cog'. auto_approve env a ch path dir cog = (cog', Inr ()) \<and>
      pg_sent cog' = pg_sent cog @ [text_post ch (''[PM] Auto-approving plan for '' @ a @ '' (no PM tier configured). Sending execute command.'')] \<and>
      pg_api cog' = Some (fst (relay_channel_message (pv_root env) a EXECUTE_COMMAND api))"
    using assms(7-9) by (simp add: auto_approve_def append_accepted say_def say_accepted pg_relay_def call_api_def)
  have verdict_ok: "\<exists>cog'. reviewer_verdict env a ch name d cog = (cog', Inr ()) \<and>
      pg_sent cog' = pg_sent cog @ [text_post ch (if cf_level (pd_confidence d) = HIGH
        then ''[PM] Plan approved for '' @ a @ ''. '' @ pd_note d @ [CHR 0x0A] @ ''Sending execute command.''
        else ''[PM] Plan needs revision for '' @ a @ '': '' @ pd_note d)] \<and>
      pg_api cog' = Some (if cf_level (pd_confidence d) = HIGH then fst (relay_channel_message (pv_root env) a EXECUTE_COMMAND api) else api)" for name d
    using assms(7-9) by (simp add: reviewer_verdict_def append_accepted say_def say_accepted pg_relay_def call_api_def)
  have "\<exists>cog'. review_agent_plans env a ch cog = (cog', Inr ()) \<and> pg_sent cog' = pg_sent cog @ [text_post ch (fst (mention_reply a checked))] \<and>
    pg_api cog' = Some (if snd (mention_reply a checked) then fst (relay_channel_message (pv_root env) a EXECUTE_COMMAND api) else api)"
  proof (cases reviewer)
    case None
    then show ?thesis using auto_ok by (simp add: run assms(11) mention_reply_def)
  next
    case (Some pr)
    show ?thesis
    proof (cases "duplicate_check yaml (pr_approved pr) a ?prompt")
      case (Inl e)
      then show ?thesis using auto_ok Some by (simp add: run assms(11) mention_reply_def prompt_reviewed catching_def)
    next
      case (Inr dup)
      obtain ok msg where dup: "dup = (ok, msg)" by (cases dup)
      let ?d = "verdict [(''scope'', True, ''No files modified''), (''dependency'', True, ''No dependencies''), (''duplicate'', ok, msg)]"
      obtain cog' where c: "reviewer_verdict env a ch (last path) ?d cog = (cog', Inr ())"
        "pg_sent cog' = pg_sent cog @ [text_post ch (if cf_level (pd_confidence ?d) = HIGH
          then ''[PM] Plan approved for '' @ a @ ''. '' @ pd_note ?d @ [CHR 0x0A] @ ''Sending execute command.''
          else ''[PM] Plan needs revision for '' @ a @ '': '' @ pd_note ?d)]"
        "pg_api cog' = Some (if cf_level (pd_confidence ?d) = HIGH then fst (relay_channel_message (pv_root env) a EXECUTE_COMMAND api) else api)"
        using verdict_ok by blast
      have "review_agent_plans env a ch cog = (cog', Inr ())"
        using Some Inr dup c(1) by (simp add: run prompt_reviewed catching_def)
      then show ?thesis using c(2,3) Some Inr dup by (cases ok) (simp_all add: assms(11) mention_reply_def mention_verdict)
    qed
  qed
  then show thesis using that by blast
qed

text \<open>
  C34. What becomes of a plan announced by mention. The cog hands the reviewer its own prompt, which has no frontmatter, instead of the
  plan: neither the files the plan modifies nor what it depends on are ever checked. When Discord accepts the posts and the knowledge file
  can be written, the announcement is answered with an approval and the agent is sent the command to execute, whatever the plan; the one
  exception is a reviewer whose check for duplicates takes the text of the prompt for an approved plan of another agent: then the answer asks for
  a revision and the agent is sent nothing. Without a reviewer, and when the check raises, the plan is approved automatically.
\<close>

theorem mention_executes_any_plan:
  assumes "pg_project_dir cog = Some dir" "pg_project_config cog = Some cfg" "pg_reviewer cog = map_option (review_plan yaml) reviewer"
    and "pv_phases env a = Some fs" "sorted_glob ''-PLAN.md'' fs \<noteq> []" "snd (last (sorted_glob ''-PLAN.md'' fs)) = Some plan" "pv_roadmap env a \<noteq> Some None"
    and "pv_accepts env = (\<lambda>p. True)" "pv_can_append env" "pg_api cog = Some api" "find_handle a (ra_root api) = Some h"
    and "dm_channel_name m = Some (''agent-'' @ a)" "dm_author_id m \<noteq> pv_bot_id env" "py_contains ''@PM'' (dm_content m)" "announces_plan (py_lower (dm_content m))"
    and "checked = map_option (\<lambda>pr. duplicate_check yaml (pr_approved pr) a
           (review_prompt a (or_else (pg_pm_context cog) []) (or_else (Option.bind (pv_roadmap env a) id) []) plan)) reviewer"
  shows "\<exists>cog' api'. plan_on_message env ch m cog = (cog', Inr ()) \<and> pg_api cog' = Some api'
    \<and> pg_sent cog' = pg_sent cog @ [text_post ch (''[PM] Reviewing '' @ a @ [CHR 0x27] @ ''s plan...''), text_post ch (fst (mention_reply a checked))]
    \<and> find_handle a (ra_root api') =
        Some (if \<exists>msg. checked = Some (Inr (False, msg)) then h
              else fst (ah_send (re_up (pv_root env) a) (InboundMessage ''system'' ''relay'' EXECUTE_COMMAND None) h))"
proof -
  obtain path where path: "last (sorted_glob ''-PLAN.md'' fs) = (path, Some plan)" using assms(6) by (cases "last (sorted_glob ''-PLAN.md'' fs)") auto
  let ?cog = "cog\<lparr>pg_sent := pg_sent cog @ [text_post ch (''[PM] Reviewing '' @ a @ [CHR 0x27] @ ''s plan...'')]\<rparr>"
  obtain cog' where c: "review_agent_plans env a ch ?cog = (cog', Inr ())" "pg_sent cog' = pg_sent ?cog @ [text_post ch (fst (mention_reply a checked))]"
    "pg_api cog' = Some (if snd (mention_reply a checked) then fst (relay_channel_message (pv_root env) a EXECUTE_COMMAND api) else api)"
    by (rule review_agent_plans_answer [where cog = ?cog and fs = fs and path = path and plan = plan and yaml = yaml and reviewer = reviewer and checked = checked])
      (use assms path in simp_all)
  have told: "snd (mention_reply a checked) = (\<not> (\<exists>msg. checked = Some (Inr (False, msg))))"
    by (auto simp: mention_reply_def split: option.splits sum.splits prod.splits bool.splits)
  have "drop 6 (''agent-'' @ a) = a" "startswith (''agent-'' @ a) ''agent-''" by (simp_all add: startswith_def)
  then have "plan_on_message env ch m cog = and_then (say env ch (''[PM] Reviewing '' @ a @ [CHR 0x27] @ ''s plan...'') cog) (review_agent_plans env a ch)"
    unfolding plan_on_message_def assms(12) option.case Let_def using assms(13-15) by (simp only: simp_thms if_True if_False)
  also have "\<dots> = review_agent_plans env a ch ?cog" using assms(8) by (simp add: say_def say_accepted)
  finally show ?thesis using c told relay_handle [OF assms(11)] assms(11) by auto
qed

theorem mention_executes_any_plan_witness:
  "\<exists>cog api h d. plan_on_message (plan_env_with (demo_plan ''src/y/b'')) agent_channel (demo_message\<lparr>dm_channel_name := Some ''agent-a'', dm_author_id := 2, dm_content := ''@PM plan ready''\<rparr>)
       (plan_cog_with (review_plan demo_yaml demo_reviewer)) = (cog, Inr ())
     \<and> pg_api cog = Some api \<and> find_handle ''a'' (ra_root api) = Some (fst (ah_send True (InboundMessage ''system'' ''relay'' EXECUTE_COMMAND None) h))
     \<and> review_plan demo_yaml demo_reviewer ''a'' (demo_plan ''src/y/b'') = Inr d \<and> cf_level (pd_confidence d) = LOW"
proof -
  let ?env = "plan_env_with (demo_plan ''src/y/b'')" and ?m = "demo_message\<lparr>dm_channel_name := Some ''agent-a'', dm_author_id := 2, dm_content := ''@PM plan ready''\<rparr>"
  have none: "pr_approved demo_reviewer = None" by (simp add: demo_reviewer_def)
  have plans: "pv_phases ?env ''a'' = Some [([''01'', ''01-PLAN.md''], Some (demo_plan ''src/y/b''))]" "pv_roadmap ?env ''a'' \<noteq> Some None"
    "sorted_glob ''-PLAN.md'' [([''01'', ''01-PLAN.md''], Some (demo_plan ''src/y/b''))] = [([''01'', ''01-PLAN.md''], Some (demo_plan ''src/y/b''))]"
    by (simp_all add: plan_env_with_def sorted_glob_def endswith_def)
  have m: "dm_channel_name ?m = Some (''agent-'' @ ''a'')" "dm_author_id ?m \<noteq> pv_bot_id ?env" "py_contains ''@PM'' (dm_content ?m)" "announces_plan (py_lower (dm_content ?m))"
    by (simp_all add: plan_env_with_def announces_plan_def py_lower_def lower_char_def startswith_def)
  obtain h where h: "find_handle ''a'' (ra_root known_api) = Some h" using known_handle by blast
  have rev: "pg_reviewer (plan_cog_with (review_plan demo_yaml demo_reviewer)) = map_option (review_plan demo_yaml) (Some demo_reviewer)"
    using demo_cog_facts(4) by simp
  have low: "\<exists>d. review_plan demo_yaml demo_reviewer ''a'' (demo_plan ''src/y/b'') = Inr d \<and> cf_level (pd_confidence d) = LOW"
    by (simp add: review_plan_def scope_check_def dependency_check_def duplicate_check_def demo_frontmatter verdict_def demo_reviewer_def demo_project_def demo_agent_def)
  have passes: "duplicate_check demo_yaml (pr_approved demo_reviewer) ''a'' t = Inr (True, ''No approved plans to compare'')" for t
    by (simp add: none duplicate_check_def)
  have g: "sorted_glob ''-PLAN.md'' [([''01'', ''01-PLAN.md''], Some (demo_plan ''src/y/b''))] \<noteq> []"
    "snd (last (sorted_glob ''-PLAN.md'' [([''01'', ''01-PLAN.md''], Some (demo_plan ''src/y/b''))])) = Some (demo_plan ''src/y/b'')"
    unfolding plans(3) by simp_all
  obtain cog api where c: "plan_on_message ?env agent_channel ?m (plan_cog_with (review_plan demo_yaml demo_reviewer)) = (cog, Inr ())" "pg_api cog = Some api"
    "find_handle ''a'' (ra_root api) = Some (fst (ah_send (re_up (pv_root ?env) ''a'') (InboundMessage ''system'' ''relay'' EXECUTE_COMMAND None) h))"
    using mention_executes_any_plan [OF demo_cog_facts(2,3) rev plans(1) g plans(2) demo_cog_facts(7,8,5) h m refl, of agent_channel]
    unfolding option.map passes by force
  from low obtain d where "review_plan demo_yaml demo_reviewer ''a'' (demo_plan ''src/y/b'') = Inr d" "cf_level (pd_confidence d) = LOW" by blast
  with c show ?thesis unfolding eqTrueI [OF demo_cog_facts(9)] by blast
qed

section \<open>When execution starts\<close>

text \<open>
  The gate's state after a history of posted, approved and rejected plans, and what it stands for: a plan is unanswered when the last
  thing that happened to it is that it was posted.
\<close>

definition gate_history :: "(gate_status \<times> string) list \<Rightarrow> agent_monitor_state \<Rightarrow> agent_monitor_state" where
  "gate_history evs st = fold (\<lambda>(gs, plan). gate_update gs plan) evs st"

definition unanswered :: "(gate_status \<times> string) list \<Rightarrow> string \<Rightarrow> bool" where
  "unanswered evs plan \<longleftrightarrow> find (\<lambda>(gs, q). q = plan \<and> gs \<noteq> GateIdle) (rev evs) = Some (AwaitingReview, plan)"

lemma gate_history_pending:
  "ms_pending_plans st = [] \<Longrightarrow>
     distinct (ms_pending_plans (gate_history evs st)) \<and> (\<forall>p. p \<in> set (ms_pending_plans (gate_history evs st)) \<longleftrightarrow> unanswered evs p)"
proof (induction evs rule: rev_induct)
  case (snoc ev evs)
  obtain gs plan where ev: "ev = (gs, plan)" by (cases ev)
  have step: "gate_history (evs @ [ev]) st = gate_update gs plan (gate_history evs st)" by (simp add: gate_history_def ev)
  have last_ev: "unanswered (evs @ [ev]) p \<longleftrightarrow> (if p = plan \<and> gs \<noteq> GateIdle then gs = AwaitingReview else unanswered evs p)" for p
    by (auto simp: unanswered_def ev)
  show ?case using snoc unfolding step by (cases gs) (auto simp: gate_update_def append_new_def last_ev)
qed (simp add: gate_history_def unanswered_def)

definition linked :: "agent_handle \<Rightarrow> bool" where
  "linked h \<longleftrightarrow> ah_socket h \<noteq> None \<or> ah_process h \<noteq> None"

lemma ah_send_connected: "linked h \<Longrightarrow> \<exists>h'. ah_send True msg h = (h', Inr ()) \<and> linked h'"
  by (cases "ah_socket h"; cases "ah_process h") (simp_all add: ah_send_def linked_def)

lemma approval_handle:
  assumes "find_handle a (ra_root api) = Some h" "linked h" "re_up env a"
  obtains api' where "handle_plan_approval env a plan api = (api', Inr ())" "find_handle a (ra_root api') = Some (fst (ah_send True (review_message ''approve'') h))"
proof -
  have same: "find_handle a (ra_root (post_if ch t api)) = Some h" for ch t
    using assms(1) by (auto simp: post_if_def ra_post_def split: option.splits)
  obtain h' where "ah_send True (review_message ''approve'') h = (h', Inr ())" using ah_send_connected [OF assms(2)] by blast
  then have "\<exists>api'. handle_plan_approval env a plan api = (api', Inr ()) \<and> find_handle a (ra_root api') = Some h'"
    unfolding handle_plan_approval_def send_review_def same option.case handle_send_def using assms(3)
    by (simp add: set_handle_def find_handle_def dict_simps)
  then show thesis using that \<open>ah_send True (review_message ''approve'') h = (h', Inr ())\<close> by auto
qed

lemma gate_state_kept [simp]:
  "get_agent_state a (cog\<lparr>pg_api := x\<rparr>) = get_agent_state a cog"
  "get_agent_state a (cog\<lparr>pg_sent := y\<rparr>) = get_agent_state a cog"
  "get_agent_state a (notify_workflow f cog) = get_agent_state a cog"
  "pg_api (set_agent_state a st cog) = pg_api cog"
  "pg_api (notify_workflow f cog) = pg_api cog"
  by (simp_all add: get_agent_state_def notify_workflow_def set_agent_state_def)

lemma get_set_agent_state: "get_agent_state a cog = Some st \<Longrightarrow> get_agent_state a (set_agent_state a st' cog) = Some st'"
  by (auto simp: get_agent_state_def set_agent_state_def dict_simps split: option.splits)

lemma say_in_keeps:
  "pv_accepts env = (\<lambda>p. True) \<Longrightarrow> \<exists>posts. say_in env ch t cog = (cog\<lparr>pg_sent := posts\<rparr>, Inr ())"
  by (cases ch) (auto simp: say_in_def say_def pg_send_def intro: exI [of _ "pg_sent cog"])

lemma trigger_execution_effect:
  assumes "pv_accepts env = (\<lambda>p. True)" "pg_api cog = Some api" "get_agent_state a cog = Some st"
  obtains cog' where "trigger_execution env a st cog = (cog', Inr ())"
    "pg_api cog' = Some (fst (relay_channel_message (pv_root env) a (execute_command st) api))"
    "get_agent_state a cog' = Some (st\<lparr>ms_plan_gate_status := GateIdle, ms_approved_plans := []\<rparr>)"
proof -
  let ?cog = "set_agent_state a (st\<lparr>ms_plan_gate_status := GateIdle, ms_approved_plans := []\<rparr>)
    (cog\<lparr>pg_api := Some (fst (relay_channel_message (pv_root env) a (execute_command st) api))\<rparr>)"
  obtain posts where "say_in env (pg_alerts_channel ?cog) (''All plans approved for `'' @ a @ ''`. Execution triggered.'') ?cog = (?cog\<lparr>pg_sent := posts\<rparr>, Inr ())"
    using say_in_keeps [OF assms(1)] by blast
  then show thesis using that assms(2,3)
    by (simp add: trigger_execution_def pg_relay_def call_api_def Let_def get_set_agent_state)
qed

text \<open>
  Were the monitor's states attached to the bot, execution would start when nothing is left to answer. When a plan is approved by hand after any
  history of the gate, the agent gets the decision; it also gets the command to execute its current phase exactly if no other plan waits for an
  answer, and then the gate is idle and has forgotten its plans. A plan that was rejected does not hold execution back.
\<close>

theorem execution_when_none_pending:
  assumes "get_agent_state a cog = Some (gate_history evs st)" "ms_pending_plans st = []"
    and "pv_accepts env = (\<lambda>p. True)" "pg_api cog = Some api" "find_handle a (ra_root api) = Some h" "linked h" "re_up (pv_root env) a"
  shows "\<exists>cog' api' st'. handle_approval env a plan cog = (cog', Inr ()) \<and> pg_api cog' = Some api' \<and> get_agent_state a cog' = Some st'
    \<and> (let told = fst (ah_send True (review_message ''approve'') h); cmd = InboundMessage ''system'' ''relay'' (execute_command (gate_history evs st)) None in
       if \<exists>q. q \<noteq> plan \<and> unanswered evs q
       then find_handle a (ra_root api') = Some told \<and> st' = gate_history (evs @ [(GateApproved, plan)]) st
       else find_handle a (ra_root api') = Some (fst (ah_send True cmd told)) \<and> ms_plan_gate_status st' = GateIdle
         \<and> ms_pending_plans st' = [] \<and> ms_approved_plans st' = [])"
proof -
  let ?st = "gate_history (evs @ [(GateApproved, plan)]) st" and ?cog = "update_gate_state a plan GateApproved cog"
  have upd: "?st = gate_update GateApproved plan (gate_history evs st)" by (simp add: gate_history_def)
  have gs: "get_agent_state a ?cog = Some ?st" "pg_api ?cog = Some api"
    using assms(1,4) by (simp_all add: update_gate_state_def upd get_set_agent_state)
  have "set (ms_pending_plans ?st) = {q. q \<noteq> plan \<and> unanswered evs q}"
    using gate_history_pending [OF assms(2), of evs] unfolding upd by (auto simp: gate_update_def)
  then have pend: "ms_pending_plans ?st = [] \<longleftrightarrow> \<not> (\<exists>q. q \<noteq> plan \<and> unanswered evs q)" by (auto simp: set_empty [symmetric] simp del: set_empty)
  have cmd: "execute_command ?st = execute_command (gate_history evs st)" unfolding upd by (simp add: gate_update_def execute_command_def)
  obtain api1 where api1: "handle_plan_approval (pv_root env) a (path_name plan) api = (api1, Inr ())"
    "find_handle a (ra_root api1) = Some (fst (ah_send True (review_message ''approve'') h))"
    using approval_handle [OF assms(5-7)] by blast
  let ?cog1 = "notify_workflow (notify_plan_approved a) (?cog\<lparr>pg_api := Some api1\<rparr>)"
  have cog1: "get_agent_state a ?cog1 = Some ?st" "pg_api ?cog1 = Some api1" using gs by simp_all
  have run: "handle_approval env a plan cog = and_then (if ms_pending_plans ?st = [] then trigger_execution env a ?st ?cog1 else (?cog1, Inr ()))
      (\<lambda>cog. say_in env (pg_plan_review_channel cog) (human_approval a) cog)"
    unfolding handle_approval_def call_api_def gs option.case api1 prod.case and_then_simps Let_def cog1 ..
  show ?thesis
  proof (cases "ms_pending_plans ?st = []")
    case True
    obtain cog2 where c: "trigger_execution env a ?st ?cog1 = (cog2, Inr ())"
      "pg_api cog2 = Some (fst (relay_channel_message (pv_root env) a (execute_command ?st) api1))"
      "get_agent_state a cog2 = Some (?st\<lparr>ms_plan_gate_status := GateIdle, ms_approved_plans := []\<rparr>)"
      by (rule trigger_execution_effect [OF assms(3) cog1(2,1)])
    obtain posts where s: "say_in env (pg_plan_review_channel cog2) (human_approval a) cog2 = (cog2\<lparr>pg_sent := posts\<rparr>, Inr ())"
      using say_in_keeps [OF assms(3)] by blast
    have "\<not> (\<exists>q. q \<noteq> plan \<and> unanswered evs q)" using pend True by blast
    moreover have "handle_approval env a plan cog = (cog2\<lparr>pg_sent := posts\<rparr>, Inr ())"
      unfolding run if_P [OF True] c(1) and_then_simps by (rule s)
    ultimately show ?thesis
      using relay_handle [OF api1(2), of "pv_root env" "execute_command ?st"] assms(7) True c(2,3)
      by (intro exI [of _ "cog2\<lparr>pg_sent := posts\<rparr>"]) (simp add: cmd Let_def, blast)
  next
    case False
    obtain posts where s: "say_in env (pg_plan_review_channel ?cog1) (human_approval a) ?cog1 = (?cog1\<lparr>pg_sent := posts\<rparr>, Inr ())"
      using say_in_keeps [OF assms(3)] by blast
    have "\<exists>q. q \<noteq> plan \<and> unanswered evs q" using pend False by blast
    moreover have "handle_approval env a plan cog = (?cog1\<lparr>pg_sent := posts\<rparr>, Inr ())"
      unfolding run if_not_P [OF False] and_then_simps by (rule s)
    ultimately show ?thesis using cog1 api1(2) by (intro exI [of _ "?cog1\<lparr>pg_sent := posts\<rparr>"]) (simp add: Let_def)
  qed
qed


definition linked_handle :: agent_handle where
  "linked_handle = (new_agent_handle ''a'' ''gsd'' [] None ''session'' JNull)\<lparr>ah_socket := Some \<lparr>so_written = [], so_closing = False\<rparr>\<rparr>"

definition linked_api :: "string runtime_api" where
  "linked_api = demo_api\<lparr>ra_root := (ra_root demo_api)\<lparr>cr_agents := [(''a'', linked_handle)]\<rparr>\<rparr>"

definition idle_state :: agent_monitor_state where
  "idle_state = \<lparr>ms_agent_id = ''a'', ms_last_commit_time = None, ms_last_plan_mtimes = [], ms_current_phase = ''2'', ms_phase_status = ''unknown'',
     ms_plan_gate_status = GateIdle, ms_pending_plans = [], ms_approved_plans = [], ms_integration_pending = False, ms_checkin_sent = False\<rparr>"

definition one_rejected :: "(gate_status \<times> string) list" where
  "one_rejected = [(AwaitingReview, ''p1''), (AwaitingReview, ''p2''), (GateRejected, ''p1'')]"

definition gated_cog :: "(string, unit) plan_cog" where
  "gated_cog = (plan_cog_with (\<lambda>a t. Inl OSError))\<lparr>pg_api := Some linked_api, pg_agent_states := Some [(''a'', gate_history one_rejected idle_state)]\<rparr>"

theorem execution_when_none_pending_witness:
  "\<exists>cog api st. handle_approval (plan_env_with []) ''a'' ''p2'' gated_cog = (cog, Inr ()) \<and> pg_api cog = Some api
     \<and> find_handle ''a'' (ra_root api) = Some (fst (ah_send True (InboundMessage ''system'' ''relay'' ''/gsd:execute-phase 2'' None)
          (fst (ah_send True (review_message ''approve'') linked_handle))))
     \<and> get_agent_state ''a'' cog = Some st \<and> ms_plan_gate_status st = GateIdle"
proof -
  have g: "get_agent_state ''a'' gated_cog = Some (gate_history one_rejected idle_state)" "ms_pending_plans idle_state = []" "pg_api gated_cog = Some linked_api"
    "find_handle ''a'' (ra_root linked_api) = Some linked_handle" "linked linked_handle"
    by (simp_all add: gated_cog_def get_agent_state_def idle_state_def linked_api_def find_handle_def linked_def linked_handle_def)
  have none: "\<not> (\<exists>q. q \<noteq> ''p2'' \<and> unanswered one_rejected q)" by (auto simp: unanswered_def one_rejected_def)
  have cmd: "execute_command (gate_history one_rejected idle_state) = ''/gsd:execute-phase 2''"
    by (simp add: execute_command_def gate_history_def one_rejected_def gate_update_def idle_state_def)
  show ?thesis
    using execution_when_none_pending [OF g(1,2) demo_cog_facts(7) g(3-5) demo_cog_facts(9), of _ "''p2''"] unfolding if_not_P [OF none] cmd Let_def by blast
qed

section \<open>No approval triggers execution\<close>

text \<open>
  Everything that happens to the cog: calls of its methods, each in circumstances of its own, and changes that other components make to the gateway.
  None of them attaches the monitor's states to the bot.
\<close>

datatype ('c, 'w) plan_op =
    SetReviewer "agent_id \<Rightarrow> string \<Rightarrow> py_error + pm_decision"
  | ResolveChannels
  | NewPlan agent_id string "string option" review_answer
  | Approve agent_id string
  | Reject agent_id string string
  | RequestReview agent_id string
  | DispatchReview agent_id string
  | Message text_channel discord_message
  | GatewayChanges "'c runtime_api option"

fun plan_step :: "'w plan_env \<Rightarrow> ('c, 'w) plan_op \<Rightarrow> ('c, 'w) plan_cog \<Rightarrow> ('c, 'w) plan_cog" where
  "plan_step env (SetReviewer judge) cog = set_plan_reviewer judge cog"
| "plan_step env ResolveChannels cog = resolve_channels cog"
| "plan_step env (NewPlan a plan file_text ans) cog = fst (handle_new_plan env a plan file_text ans cog)"
| "plan_step env (Approve a plan) cog = fst (handle_approval env a plan cog)"
| "plan_step env (Reject a plan feedback) cog = fst (handle_rejection env a plan feedback cog)"
| "plan_step env (RequestReview a stage) cog = fst (post_review_request env a stage cog)"
| "plan_step env (DispatchReview a stage) cog = fst (dispatch_pm_review env a stage cog)"
| "plan_step env (Message ch m) cog = fst (plan_on_message env ch m cog)"
| "plan_step env (GatewayChanges api) cog = cog\<lparr>pg_api := api\<rparr>"

definition detached :: "('c, 'w) plan_cog \<Rightarrow> bool" where
  "detached cog \<longleftrightarrow> pg_agent_states cog = None"

text \<open>A result is detached when the cog it leaves is.\<close>

definition detached_result :: "(('c, 'w) plan_cog, 'a) outcome \<Rightarrow> bool" where
  "detached_result r \<longleftrightarrow> detached (fst r)"

lemma detached_seq [intro]:
  "detached_result r \<Longrightarrow> (\<And>cog. detached cog \<Longrightarrow> detached_result (f cog)) \<Longrightarrow> detached_result (and_then r f)"
  "detached_result r \<Longrightarrow> (\<And>cog. detached cog \<Longrightarrow> detached_result (g cog)) \<Longrightarrow> detached_result (catching r g)"
  by (auto simp: detached_result_def and_then_def catching_def split: prod.splits sum.splits)

lemma detached_if: "(b \<Longrightarrow> detached_result r) \<Longrightarrow> (\<not> b \<Longrightarrow> detached_result q) \<Longrightarrow> detached_result (if b then r else q)"
  by simp

lemma detached_pair [simp]: "detached_result (cog, x) = detached cog"
  by (simp add: detached_result_def)

lemma detached_done: "detached cog \<Longrightarrow> detached_result (cog, x)"
  by simp

lemma detached_state: "detached cog \<Longrightarrow> get_agent_state a cog = None" "detached cog \<Longrightarrow> detached (set_agent_state a st cog)"
  "detached cog \<Longrightarrow> update_gate_state a plan gs cog = cog"
  by (simp_all add: detached_def get_agent_state_def set_agent_state_def update_gate_state_def)

lemma detached_basic:
  "detached cog \<Longrightarrow> detached_result (pg_send env p cog)"
  "detached cog \<Longrightarrow> detached_result (call_api f cog)"
  "detached cog \<Longrightarrow> detached_result (append_pm_context env entry cog)"
  "detached cog \<Longrightarrow> detached (notify_workflow g cog)"
  by (simp_all add: pg_send_def call_api_def append_pm_context_def notify_workflow_def detached_def split: option.split prod.split)

lemma detached_say:
  "detached cog \<Longrightarrow> detached_result (say env ch t cog)" "detached cog \<Longrightarrow> detached_result (say_in env c t cog)"
  "detached cog \<Longrightarrow> detached_result (pg_relay env a t cog)" "detached cog \<Longrightarrow> detached_result (post_throttled env a ch t fs cog)"
  using detached_basic
  by (auto simp: say_def say_in_def pg_relay_def post_throttled_def detached_def detached_result_def pg_send_def split: option.split)

lemmas detached_calls = detached_basic detached_say detached_state(2)

text \<open>Approving a plan then only tells the agent the decision.\<close>

lemma detached_approval:
  assumes "detached cog"
  shows "handle_approval env a plan cog = and_then (call_api (handle_plan_approval (pv_root env) a (path_name plan)) cog)
    (\<lambda>cog. say_in env (pg_plan_review_channel cog) (human_approval a) (notify_workflow (notify_plan_approved a) cog))"
proof -
  have "pg_plan_review_channel (notify_workflow f c) = pg_plan_review_channel c" for f and c :: "('a, 'b) plan_cog"
    by (simp add: notify_workflow_def)
  moreover have "get_agent_state a (notify_workflow (notify_plan_approved a) c) = None" if "detached c" for c :: "('a, 'b) plan_cog"
    using detached_state(1) detached_basic(4) that by blast
  moreover have "detached_result (call_api (handle_plan_approval (pv_root env) a (path_name plan)) cog)"
    using assms by (rule detached_basic)
  ultimately show ?thesis
    by (auto simp: handle_approval_def detached_state(3) [OF assms] and_then_def detached_result_def split: prod.split sum.split)
qed

lemma detached_decisions:
  "detached cog \<Longrightarrow> detached_result (handle_approval env a plan cog)"
  "detached cog \<Longrightarrow> detached_result (handle_rejection env a plan feedback cog)"
  by (auto simp: detached_approval handle_rejection_def detached_state(3) Let_def intro!: detached_calls)

lemma detached_resolve: "detached cog \<Longrightarrow> detached (resolve_channels cog)"
proof -
  have "detached (fold (\<lambda>ch cog. if tc_name ch = ''plan-review'' then cog\<lparr>pg_plan_review_channel := Some ch\<rparr>
      else if tc_name ch = ''alerts'' then cog\<lparr>pg_alerts_channel := Some ch\<rparr> else cog) chs cog)" if "detached cog" for chs and cog :: "('a, 'b) plan_cog"
    using that by (induction chs arbitrary: cog) (simp_all add: detached_def)
  then show "detached cog \<Longrightarrow> detached (resolve_channels cog)" by (simp add: resolve_channels_def split: option.split)
qed

lemma detached_intercept: "detached cog \<Longrightarrow> detached (fst (pm_intercept env a plan content ch e cog))"
proof -
  assume c: "detached cog"
  have "detached_result (auto_approval env a plan ch e d cog)" for d
    unfolding auto_approval_def quietly_def detached_state(3) [OF c]
    by (intro detached_seq detached_decisions detached_basic detached_say detached_done; (assumption | rule c))
  then show ?thesis using c
    by (auto simp: pm_intercept_def detached_result_def split: option.split sum.split prod.split) (metis fst_conv)+
qed

lemma detached_new_plan: "detached cog \<Longrightarrow> detached_result (handle_new_plan env a plan file_text ans cog)"
proof -
  assume c: "detached cog"
  define cog1 where "cog1 = (if pg_plan_review_channel cog = None then resolve_channels cog else cog)"
  have 1: "detached cog1" using c detached_resolve [OF c] by (simp add: cog1_def)
  have send: "detached (fst (pg_send env p c))" if "detached c" for p and c :: "('a, 'b) plan_cog"
    using detached_basic(1) [OF that] by (simp add: detached_result_def)
  have "detached (fst (post_new_plan env a plan file_text cog))"
  proof (cases "pg_plan_review_channel cog1")
    case None
    then show ?thesis using 1 by (simp add: post_new_plan_def cog1_def [symmetric] Let_def)
  next
    case (Some ch)
    show ?thesis
    proof (cases file_text)
      case None
      then show ?thesis using 1 Some by (simp add: post_new_plan_def cog1_def [symmetric] Let_def)
    next
      case (Some content)
      obtain cog2 e where i: "pm_intercept env a plan content ch (new_plan_embed a plan content) cog1 = (cog2, e)" by force
      then have 2: "detached cog2" using detached_intercept [OF 1] by (metis fst_conv)
      show ?thesis
      proof (cases e)
        case None
        then show ?thesis using \<open>pg_plan_review_channel cog1 = Some ch\<close> Some i 2 by (simp add: post_new_plan_def cog1_def [symmetric] Let_def)
      next
        case (Some e')
        obtain cog3 r where "pg_send env (review_post ch e' plan) cog2 = (cog3, r)" by force
        then show ?thesis using \<open>pg_plan_review_channel cog1 = Some ch\<close> \<open>file_text = Some content\<close> Some i send [OF 2, of "review_post ch e' plan"]
          by (cases r) (simp_all add: post_new_plan_def cog1_def [symmetric] Let_def detached_state(3))
      qed
    qed
  qed
  then show ?thesis
    by (auto simp: handle_new_plan_def answer_plan_def detached_decisions split: prod.splits review_answer.split)
qed

lemma detached_reviews:
  "detached cog \<Longrightarrow> detached_result (post_review_request env a stage cog)"
  "detached cog \<Longrightarrow> detached_result (dispatch_pm_review env a stage cog)"
  by (auto simp: post_review_request_def dispatch_pm_review_def stage_auto_approve_def stage_verdict_def
      split: option.split sum.split intro!: detached_calls detached_seq)

lemma detached_review_plans: "detached cog \<Longrightarrow> detached_result (review_agent_plans env a ch cog)"
proof -
  assume c: "detached cog"
  have a: "detached_result (auto_approve env a ch path dir c)" if "detached c" for path dir and c :: "('a, 'b) plan_cog"
    using that by (auto simp: auto_approve_def intro!: detached_calls)
  have v: "detached_result (reviewer_verdict env a ch name d cog)" for name d
    unfolding reviewer_verdict_def
    by (intro detached_seq detached_if detached_basic detached_say; (assumption | rule c))
  show ?thesis using c a v detached_say
    by (auto simp: review_agent_plans_def Let_def split: option.split sum.split prod.split intro!: detached_seq)
qed

lemma detached_message: "detached cog \<Longrightarrow> detached_result (plan_on_message env ch m cog)"
proof -
  assume c: "detached cog"
  have r: "detached_result (handle_review_response env a t cog)" for a t
    using c by (auto simp: handle_review_response_def detached_def detached_result_def pg_relay_def call_api_def
        split: option.split sum.split prod.split)
  have v: "detached_result (cog_verify_execution env a ch c)" if "detached c" for a and c :: "('a, 'b) plan_cog"
  proof -
    have "detached (c\<lparr>pg_shell := sh\<rparr>)" for sh using that by (simp add: detached_def)
    then show ?thesis using that by (auto simp: cog_verify_execution_def Let_def split: option.split sum.split prod.split intro!: detached_say)
  qed
  show ?thesis
  proof (cases "dm_channel_name m")
    case None
    then show ?thesis using c by (simp add: plan_on_message_def)
  next
    case (Some name)
    show ?thesis unfolding plan_on_message_def Some option.case Let_def
      by (intro detached_seq detached_if detached_say detached_done r v detached_review_plans; (assumption | rule c))
  qed
qed

lemma detached_step: "detached cog \<Longrightarrow> detached (plan_step env op cog)"
proof (cases op)
  case (SetReviewer judge)
  then show "detached cog \<Longrightarrow> detached (plan_step env op cog)" by (simp add: detached_def set_plan_reviewer_def)
next
  case (GatewayChanges api)
  then show "detached cog \<Longrightarrow> detached (plan_step env op cog)" by (simp add: detached_def)
qed (use detached_new_plan detached_decisions detached_reviews detached_message detached_resolve in \<open>simp_all add: detached_result_def\<close>)

lemma approval_told:
  "find_handle a (ra_root api) = Some h \<Longrightarrow> find_handle a (ra_root (fst (handle_plan_approval env a plan api)))
     = Some (fst (ah_send (re_up env a) (review_message ''approve'') h))"
proof -
  assume h: "find_handle a (ra_root api) = Some h"
  have "find_handle a (ra_root (post_if ch t api)) = Some h" for ch t
    using h by (auto simp: post_if_def ra_post_def split: option.splits)
  then show ?thesis by (simp add: handle_plan_approval_def send_review_def handle_send_def set_handle_def find_handle_def dict_simps split: prod.split)
qed

text \<open>
  C35. No approval triggers execution. Nothing in the program attaches the monitor's states to the bot: after any sequence of calls of the cog,
  in any circumstances, it finds no state for any agent. So approving a plan sends the agent the decision and nothing else, whether or
  not other plans wait: the command to execute, which the cog sends when no plan is pending, is never sent.
\<close>

theorem approval_never_executes:
  assumes "cog = fold (\<lambda>(env, op). plan_step env op) ops (new_plan_cog api0 dir cfg guild ctx sh)"
    and "pg_api cog = Some api" "find_handle a (ra_root api) = Some h"
  shows "get_agent_state a cog = None \<and> (\<exists>api'. pg_api (fst (handle_approval env a plan cog)) = Some api' \<and>
    find_handle a (ra_root api') = Some (fst (ah_send (re_up (pv_root env) a) (review_message ''approve'') h)))"
proof -
  have "detached (new_plan_cog api0 dir cfg guild ctx sh)" by (simp add: detached_def new_plan_cog_def)
  moreover have "detached c \<Longrightarrow> detached (fold (\<lambda>(env, op). plan_step env op) ops c)" for c :: "('a, 'b) plan_cog"
    by (induction ops arbitrary: c) (auto simp: detached_step simp del: plan_step.simps)
  ultimately have d: "detached cog" unfolding assms(1) by blast
  have keep: "pg_api (fst (say_in e ch t c)) = pg_api c" for e ch t and c :: "('a, 'b) plan_cog"
    by (simp add: say_in_def say_def pg_send_def split: option.split)
  have "pg_api (fst (handle_approval env a plan cog)) = Some (fst (handle_plan_approval (pv_root env) a (path_name plan) api))"
    unfolding detached_approval [OF d] call_api_def assms(2) option.case
    by (auto simp: and_then_def keep split: prod.split sum.split)
  then show ?thesis using detached_state(1) [OF d] approval_told [OF assms(3)] by blast
qed

theorem approval_never_executes_witness:
  "\<exists>cog :: (string, unit) plan_cog. \<exists>api. cog = fold (\<lambda>(env, op). plan_step env op)
       [(plan_env_with [], Approve ''a'' ''p1''), (plan_env_with [], GatewayChanges (Some linked_api))]
       (new_plan_cog (Some linked_api) None None None None \<lparr>sh_world = (), sh_log = []\<rparr>)
     \<and> pg_api (fst (handle_approval (plan_env_with []) ''a'' ''p2'' cog)) = Some api
     \<and> find_handle ''a'' (ra_root api) = Some (fst (ah_send True (review_message ''approve'') linked_handle))"
proof -
  let ?cog = "fold (\<lambda>(env, op). plan_step env op)
       [(plan_env_with [], Approve ''a'' ''p1''), (plan_env_with [], GatewayChanges (Some linked_api))]
       (new_plan_cog (Some linked_api) None None None None \<lparr>sh_world = (), sh_log = []\<rparr>)"
  have "pg_api ?cog = Some linked_api" by simp
  moreover have "find_handle ''a'' (ra_root linked_api) = Some linked_handle" by (simp add: linked_api_def find_handle_def)
  ultimately show ?thesis
    using approval_never_executes [OF refl, of _ _ _ _ _ _ _ linked_api "''a''" linked_handle "plan_env_with []" "''p2''"] demo_cog_facts(9) by metis
qed

end
