(* ===== verification/Alerts.thy ===== *)
theory Alerts
  imports Workflow Comm_Port
begin

text \<open>
  The alerts of the bot, \<open>bot/cogs/alerts.py\<close>, with \<open>build_alert_embed\<close> of \<open>bot/embeds.py\<close>. Which posts Discord accepts is an
  argument of every step, and so is whether the bot is connected. An embed's time stamp is left out.
\<close>

section \<open>The cog\<close>

datatype alert_type = ErrorAlert | WarningAlert | InfoAlert

datatype colour = Red | Orange | Yellow

record alert_embed =
  ae_title :: string
  ae_description :: string
  ae_colour :: colour

definition build_alert_embed :: "string \<Rightarrow> string \<Rightarrow> alert_type \<Rightarrow> alert_embed" where
  "build_alert_embed heading body t =
     \<lparr>ae_title = heading, ae_description = body,
      ae_colour = (case t of ErrorAlert \<Rightarrow> Red | WarningAlert \<Rightarrow> Orange | InfoAlert \<Rightarrow> Yellow)\<rparr>"

record alerts_cog =
  at_guild :: "text_channel list option"
  at_buffer :: "alert_embed list"
  at_alerts_channel :: "text_channel option"
  at_plan_review_channel :: "text_channel option"
  at_sent :: "(text_channel \<times> alert_embed) list"

definition new_alerts_cog :: "text_channel list option \<Rightarrow> alerts_cog" where
  "new_alerts_cog guild = \<lparr>at_guild = guild, at_buffer = [], at_alerts_channel = None, at_plan_review_channel = None, at_sent = []\<rparr>"

definition at_resolve_channels :: "alerts_cog \<Rightarrow> alerts_cog" where
  "at_resolve_channels cog =
     (case at_guild cog of
        None \<Rightarrow> cog
      | Some chs \<Rightarrow>
          fold (\<lambda>ch cog. if tc_name ch = ''alerts'' then cog\<lparr>at_alerts_channel := Some ch\<rparr>
                         else if tc_name ch = ''plan-review'' then cog\<lparr>at_plan_review_channel := Some ch\<rparr> else cog) chs cog)"

definition at_post :: "text_channel \<Rightarrow> alert_embed \<Rightarrow> alerts_cog \<Rightarrow> alerts_cog" where
  "at_post ch e cog = cog\<lparr>at_sent := at_sent cog @ [(ch, e)]\<rparr>"

definition buffer_alert :: "alert_embed \<Rightarrow> alerts_cog \<Rightarrow> alerts_cog" where
  "buffer_alert e cog = cog\<lparr>at_buffer := at_buffer cog @ [e]\<rparr>"

text \<open>The bot is online: it is not closed and it is ready.\<close>

definition send_or_buffer :: "bool \<Rightarrow> (alert_embed \<Rightarrow> bool) \<Rightarrow> alert_embed \<Rightarrow> alerts_cog \<Rightarrow> alerts_cog" where
  "send_or_buffer online accepts e cog =
     (if \<not> online then buffer_alert e cog
      else
        (case at_alerts_channel cog of
           None \<Rightarrow> buffer_alert e cog
         | Some ch \<Rightarrow> if accepts e then at_post ch e cog else buffer_alert e cog))"

text \<open>The loop of a flush ends at the first post that fails; the buffer is cleared in any case.\<close>

fun flush :: "(alert_embed \<Rightarrow> bool) \<Rightarrow> text_channel \<Rightarrow> alert_embed list \<Rightarrow> alerts_cog \<Rightarrow> alerts_cog" where
  "flush accepts ch [] cog = cog"
| "flush accepts ch (e # es) cog = (if accepts e then flush accepts ch es (at_post ch e cog) else cog)"

definition on_resumed :: "(alert_embed \<Rightarrow> bool) \<Rightarrow> alerts_cog \<Rightarrow> alerts_cog" where
  "on_resumed accepts cog =
     (let cog = at_resolve_channels cog in
      case at_alerts_channel cog of
        None \<Rightarrow> cog
      | Some ch \<Rightarrow> if at_buffer cog = [] then cog else (flush accepts ch (at_buffer cog) cog)\<lparr>at_buffer := []\<rparr>)"

section \<open>Alerts\<close>

definition dead_embed :: "agent_id \<Rightarrow> alert_embed" where
  "dead_embed a = build_alert_embed ''Agent Dead'' (''Agent **'' @ a @ ''** is no longer responding. Automatic relaunch will be attempted.'') ErrorAlert"

definition stuck_embed :: "agent_id \<Rightarrow> alert_embed" where
  "stuck_embed a = build_alert_embed ''Agent Stuck'' (''Agent **'' @ a @ ''** has had no git commits for 30+ minutes.'') WarningAlert"

definition circuit_embed :: "agent_id \<Rightarrow> nat \<Rightarrow> alert_embed" where
  "circuit_embed a n = build_alert_embed ''Circuit Breaker Open''
     (''Agent **'' @ a @ ''** has crashed '' @ show_nat n @ '' times in the last hour. Automatic relaunch disabled.'') ErrorAlert"

definition hook_embed :: "agent_id \<Rightarrow> string \<Rightarrow> string \<Rightarrow> alert_embed" where
  "hook_embed a request fallback = build_alert_embed ''Hook Timeout: Auto-fallback''
     (''Agent **'' @ a @ ''** question (request `'' @ request @ ''`) timed out.'' @ [CHR 0x0A] @ ''Fallback answer: '' @ fallback) WarningAlert"

definition detected_embed :: "agent_id \<Rightarrow> string \<Rightarrow> alert_embed" where
  "detected_embed a path = build_alert_embed ''New Plan Detected'' (''Agent **'' @ a @ ''** created: `'' @ path_name path @ ''`'') InfoAlert"

definition alert_plan_detected :: "(alert_embed \<Rightarrow> bool) \<Rightarrow> agent_id \<Rightarrow> string \<Rightarrow> alerts_cog \<Rightarrow> alerts_cog" where
  "alert_plan_detected accepts a path cog =
     (case at_plan_review_channel cog of
        None \<Rightarrow> buffer_alert (detected_embed a path) cog
      | Some ch \<Rightarrow> if accepts (detected_embed a path) then at_post ch (detected_embed a path) cog else buffer_alert (detected_embed a path) cog)"

text \<open>What happens to the cog.\<close>

datatype alert_event =
    AgentDead agent_id | AgentStuck agent_id | CircuitOpen agent_id nat | HookTimeout agent_id string string
  | PlanDetected agent_id string | Resumed | Ready

type_synonym alert_step = "bool \<times> (alert_embed \<Rightarrow> bool) \<times> alert_event"

definition alert_step :: "alert_step \<Rightarrow> alerts_cog \<Rightarrow> alerts_cog" where
  "alert_step = (\<lambda>(online, accepts, ev) cog.
     case ev of
       AgentDead a \<Rightarrow> send_or_buffer online accepts (dead_embed a) cog
     | AgentStuck a \<Rightarrow> send_or_buffer online accepts (stuck_embed a) cog
     | CircuitOpen a n \<Rightarrow> send_or_buffer online accepts (circuit_embed a n) cog
     | HookTimeout a r f \<Rightarrow> send_or_buffer online accepts (hook_embed a r f) cog
     | PlanDetected a p \<Rightarrow> alert_plan_detected accepts a p cog
     | Resumed \<Rightarrow> on_resumed accepts cog
     | Ready \<Rightarrow> at_resolve_channels cog)"

section \<open>Every alert is accounted for\<close>

definition raised :: "alert_event \<Rightarrow> alert_embed list" where
  "raised ev =
     (case ev of
        AgentDead a \<Rightarrow> [dead_embed a] | AgentStuck a \<Rightarrow> [stuck_embed a] | CircuitOpen a n \<Rightarrow> [circuit_embed a n]
      | HookTimeout a r f \<Rightarrow> [hook_embed a r f] | PlanDetected a p \<Rightarrow> [detected_embed a p] | Resumed \<Rightarrow> [] | Ready \<Rightarrow> [])"

text \<open>What a flush drops: the buffered alerts from the first one on that Discord refuses.\<close>

definition dropped :: "alert_step \<Rightarrow> alerts_cog \<Rightarrow> alert_embed list" where
  "dropped = (\<lambda>(online, accepts, ev) cog.
     if ev = Resumed \<and> at_alerts_channel (at_resolve_channels cog) \<noteq> None then dropWhile accepts (at_buffer cog) else [])"

definition known_alerts :: "alerts_cog \<Rightarrow> alert_embed multiset" where
  "known_alerts cog = mset (map snd (at_sent cog)) + mset (at_buffer cog)"

fun all_dropped :: "alert_step list \<Rightarrow> alerts_cog \<Rightarrow> alert_embed list" where
  "all_dropped [] cog = []"
| "all_dropped (s # ss) cog = dropped s cog @ all_dropped ss (alert_step s cog)"

lemma resolve_fold_keeps:
  "at_buffer (fold (\<lambda>ch cog. if tc_name ch = ''alerts'' then cog\<lparr>at_alerts_channel := Some ch\<rparr>
      else if tc_name ch = ''plan-review'' then cog\<lparr>at_plan_review_channel := Some ch\<rparr> else cog) chs cog) = at_buffer cog"
  "at_sent (fold (\<lambda>ch cog. if tc_name ch = ''alerts'' then cog\<lparr>at_alerts_channel := Some ch\<rparr>
      else if tc_name ch = ''plan-review'' then cog\<lparr>at_plan_review_channel := Some ch\<rparr> else cog) chs cog) = at_sent cog"
  by (induction chs arbitrary: cog) simp_all

lemma resolve_keeps: "at_buffer (at_resolve_channels cog) = at_buffer cog" "at_sent (at_resolve_channels cog) = at_sent cog"
  by (simp_all add: at_resolve_channels_def resolve_fold_keeps split: option.splits)

lemma flush_sent: "at_sent (flush accepts ch es cog) = at_sent cog @ map (Pair ch) (takeWhile accepts es)"
  by (induction es arbitrary: cog) (simp_all add: at_post_def)

lemma alert_step_accounted:
  "known_alerts (alert_step s cog) + mset (dropped s cog) = known_alerts cog + mset (case s of (_, _, ev) \<Rightarrow> raised ev)"
proof -
  obtain con acc ev where s: "s = (con, acc, ev)" by (cases s)
  have send: "known_alerts (send_or_buffer con acc e cog) = known_alerts cog + {#e#}" for e
    by (simp add: known_alerts_def send_or_buffer_def at_post_def buffer_alert_def split: option.splits)
  show ?thesis
  proof (cases "ev = Resumed")
    case True
    have split: "mset (takeWhile acc (at_buffer cog)) + mset (dropWhile acc (at_buffer cog)) = mset (at_buffer cog)"
      by (simp flip: mset_append)
    have posted: "image_mset snd (image_mset (Pair ch) M) = M" for ch :: text_channel and M :: "alert_embed multiset"
      by (simp add: multiset.map_comp comp_def)
    show ?thesis using split
      by (auto simp: posted s True alert_step_def on_resumed_def dropped_def raised_def known_alerts_def resolve_keeps flush_sent Let_def comp_def
          ac_simps split: option.splits)
  next
    case False
    then show ?thesis using send
      by (cases ev) (auto simp: s alert_step_def dropped_def raised_def known_alerts_def alert_plan_detected_def at_post_def buffer_alert_def
          resolve_keeps split: option.splits)
  qed
qed

text \<open>
  C37. No alert disappears unnoticed except in a flush. After any sequence of alerts, reconnections and refused posts, the alerts that were raised
  are exactly those that were posted, those that wait in the buffer, and those that a flush dropped: a flush that is refused at some
  alert clears the buffer anyway and loses that alert and all later ones. While every flush is accepted nothing is lost.
\<close>

theorem alerts_accounted:
  "known_alerts (fold alert_step steps cog) + mset (all_dropped steps cog)
     = known_alerts cog + mset (concat (map (\<lambda>(online, accepts, ev). raised ev) steps)) \<and>
   ((\<forall>(online, accepts, ev) \<in> set steps. ev = Resumed \<longrightarrow> accepts = (\<lambda>e. True)) \<longrightarrow> all_dropped steps cog = [])"
proof
  show "known_alerts (fold alert_step steps cog) + mset (all_dropped steps cog)
     = known_alerts cog + mset (concat (map (\<lambda>(online, accepts, ev). raised ev) steps))"
  proof (induction steps arbitrary: cog)
    case (Cons s ss)
    have "known_alerts (fold alert_step (s # ss) cog) + mset (all_dropped (s # ss) cog)
        = (known_alerts (fold alert_step ss (alert_step s cog)) + mset (all_dropped ss (alert_step s cog))) + mset (dropped s cog)"
      by (simp add: ac_simps)
    also have "\<dots> = (known_alerts (alert_step s cog) + mset (dropped s cog)) + mset (concat (map (\<lambda>(online, accepts, ev). raised ev) ss))"
      unfolding Cons.IH by (simp add: ac_simps)
    finally show ?case unfolding alert_step_accounted by (cases s) (simp add: ac_simps)
  qed simp
  show "(\<forall>(online, accepts, ev) \<in> set steps. ev = Resumed \<longrightarrow> accepts = (\<lambda>e. True)) \<longrightarrow> all_dropped steps cog = []"
    by (induction steps arbitrary: cog) (auto simp: dropped_def)
qed

definition lossy_steps :: "alert_step list" where
  "lossy_steps = [(False, \<lambda>e. True, AgentDead ''a''), (False, \<lambda>e. True, AgentStuck ''b''), (True, \<lambda>e. e = stuck_embed ''b'', Resumed)]"

definition alert_channels :: "text_channel list" where
  "alert_channels = [\<lparr>tc_name = ''alerts'', tc_category = None\<rparr>]"

theorem alerts_accounted_witness:
  "known_alerts (fold alert_step lossy_steps (new_alerts_cog (Some alert_channels))) + {#dead_embed ''a'', stuck_embed ''b''#} = {#dead_embed ''a'', stuck_embed ''b''#} \<and>
   all_dropped [(False, \<lambda>e. False, AgentDead ''a''), (True, \<lambda>e. True, Resumed)] (new_alerts_cog (Some alert_channels)) = []"
proof
  have ne: "dead_embed ''a'' \<noteq> stuck_embed ''b''" by (simp add: dead_embed_def stuck_embed_def build_alert_embed_def)
  have "all_dropped lossy_steps (new_alerts_cog (Some alert_channels)) = [dead_embed ''a'', stuck_embed ''b'']"
    using ne by (simp add: lossy_steps_def alert_channels_def new_alerts_cog_def dropped_def alert_step_def send_or_buffer_def buffer_alert_def at_resolve_channels_def)
  then show "known_alerts (fold alert_step lossy_steps (new_alerts_cog (Some alert_channels))) + {#dead_embed ''a'', stuck_embed ''b''#} = {#dead_embed ''a'', stuck_embed ''b''#}"
    using alerts_accounted [of lossy_steps "new_alerts_cog (Some alert_channels)"]
    by (simp add: lossy_steps_def raised_def known_alerts_def new_alerts_cog_def)
  show "all_dropped [(False, \<lambda>e. False, AgentDead ''a''), (True, \<lambda>e. True, Resumed)] (new_alerts_cog (Some alert_channels)) = []"
    using alerts_accounted [of "[(False, \<lambda>e. False, AgentDead ''a''), (True, \<lambda>e. True, Resumed)]" "new_alerts_cog (Some alert_channels)"] by simp
qed

end
