(* ===== verification/Question_Handler.thy ===== *)
theory Question_Handler
  imports Daemon Workflow
begin

text \<open>
  Questions of agents and their escalation: \<open>bot/cogs/question_handler.py\<close> and \<open>bot/cogs/strategist.py\<close>.

  The project manager is an argument, as is which posts Discord accepts. An escalation waits without a limit: the operation that posts it
  ends there, and the reply that resolves it is a later message. A future that was resolved is the text it was resolved with.
  Identifiers of messages are numbers that Discord gives. The callbacks that hand a call to the event loop are the calls themselves.
\<close>

section \<open>The question handler\<close>

text \<open>A reply to a message, or a message in its channel.\<close>

datatype qh_post = Reply string string | Say string

record 'c question_cog =
  qc_api :: "'c runtime_api option"
  qc_pm :: "(string \<Rightarrow> agent_id \<Rightarrow> py_error + pm_decision) option"
  qc_out :: "qh_post list"

record qh_env =
  qe_bot_id :: int
  qe_accepts :: "qh_post \<Rightarrow> bool"
  qe_owner_role :: "string option"
  qe_given :: int
  qe_arrivals :: "discord_message list"

definition set_pm :: "(string \<Rightarrow> agent_id \<Rightarrow> py_error + pm_decision) \<Rightarrow> 'c question_cog \<Rightarrow> 'c question_cog" where
  "set_pm pm cog = cog\<lparr>qc_pm := Some pm\<rparr>"

definition qh_send :: "qh_env \<Rightarrow> qh_post \<Rightarrow> 'c question_cog \<Rightarrow> ('c question_cog, bool) outcome" where
  "qh_send env p cog = (if qe_accepts env p then (cog\<lparr>qc_out := qc_out cog @ [p]\<rparr>, Inr True) else (cog, Inl OSError))"

text \<open>\<open>f"{x:.0%}"\<close>: rounded to even when halfway.\<close>

definition percent_text :: "rat \<Rightarrow> string" where
  "percent_text x =
     (let y = x * 100; n = floor y; r = y - of_int n in
      show_int (if r < 1/2 then n else if r > 1/2 then n + 1 else if even n then n else n + 1) @ ''%'')"

definition owner_mention :: "string option \<Rightarrow> string" where
  "owner_mention role = (case role of None \<Rightarrow> ''@Owner'' | Some i \<Rightarrow> ''<@&'' @ i @ ''>'')"

definition owner_question :: "string option \<Rightarrow> agent_id \<Rightarrow> string \<Rightarrow> rat \<Rightarrow> string" where
  "owner_question role a q s =
     owner_mention role @ '' -- Strategic decision needed'' @ [CHR 0x0A, CHR 0x0A] @ ''**Agent:** '' @ a @ [CHR 0x0A] @ ''**Question:** '' @ q @ [CHR 0x0A] @
     ''**PM confidence:** '' @ percent_text s @ [CHR 0x0A, CHR 0x0A] @ ''Please reply to this message with your decision.''"

text \<open>The gateway has no method \<open>handle_pm_escalation\<close>, and the strategist's handle no logger of decisions.\<close>

definition ra_handle_pm_escalation :: "'c runtime_api \<Rightarrow> py_error + string option" where
  "ra_handle_pm_escalation api = Inl (AttributeError ''handle_pm_escalation'')"

definition ra_log_decision :: "'c runtime_api \<Rightarrow> 'c runtime_api" where
  "ra_log_decision api = (case dict_get (cr_agents (ra_root api)) ''strategist'' of None \<Rightarrow> api | Some h \<Rightarrow> api)"

definition qh_log_decision :: "'c question_cog \<Rightarrow> ('c question_cog, bool) outcome" where
  "qh_log_decision cog = (cog\<lparr>qc_api := map_option ra_log_decision (qc_api cog)\<rparr>, Inr True)"

text \<open>
  What the bot waits for after the escalation: a reply to that message by an author who is not a bot. The identifier Discord gives to the
  escalation and the messages that arrive later are arguments; the result says whether the operation came to its end, which it does not
  without such a reply.
\<close>

definition escalation_check :: "int \<Rightarrow> discord_message \<Rightarrow> bool" where
  "escalation_check mid m \<longleftrightarrow> dm_reference m = Some mid \<and> \<not> dm_author_bot m"

definition owner_escalation :: "qh_env \<Rightarrow> string \<Rightarrow> agent_id \<Rightarrow> string \<Rightarrow> rat \<Rightarrow> 'c question_cog \<Rightarrow> ('c question_cog, bool) outcome" where
  "owner_escalation env mid a q s cog =
     and_then (qh_send env (Say (owner_question (qe_owner_role env) a q s)) cog) (\<lambda>cog.
       case find (escalation_check (qe_given env)) (qe_arrivals env) of
         None \<Rightarrow> (cog, Inr False)
       | Some m \<Rightarrow> and_then (qh_send env (Reply mid (''Owner decided: '' @ dm_content m)) cog) qh_log_decision)"

definition escalation_notice :: "string \<Rightarrow> string" where
  "escalation_notice q = ''[PM] Escalating to @Strategist -- confidence too low for: '' @ take 200 q"

definition or_empty :: "string option \<Rightarrow> string" where
  "or_empty v = (case v of None \<Rightarrow> [] | Some s \<Rightarrow> s)"

definition handle_pm_evaluation :: "qh_env \<Rightarrow> (string \<Rightarrow> agent_id \<Rightarrow> py_error + pm_decision) \<Rightarrow> string \<Rightarrow> agent_id \<Rightarrow> string \<Rightarrow> 'c question_cog
    \<Rightarrow> ('c question_cog, bool) outcome" where
  "handle_pm_evaluation env pm mid a q cog =
     (case pm q a of
        Inl e \<Rightarrow> (cog, Inl e)
      | Inr d \<Rightarrow>
          (case cf_level (pd_confidence d) of
             HIGH \<Rightarrow> qh_send env (Reply mid (''[PM] '' @ take 1900 (or_empty (pd_answer d)))) cog
           | MEDIUM \<Rightarrow>
               and_then (qh_send env (Reply mid (''[PM] '' @ take 1800 (or_empty (pd_answer d)) @ [CHR 0x0A] @ ''*'' @ pd_note d @ ''*'')) cog) qh_log_decision
           | LOW \<Rightarrow>
               and_then (qh_send env (Say (escalation_notice q)) cog) (\<lambda>cog.
                 case qc_api cog of
                   None \<Rightarrow> (cog, Inr True)
                 | Some api \<Rightarrow>
                     (case ra_handle_pm_escalation api of
                        Inl e \<Rightarrow> (cog, Inl e)
                      | Inr ans \<Rightarrow>
                          if or_empty ans \<noteq> [] then and_then (qh_send env (Reply mid (or_empty ans)) cog) qh_log_decision
                          else owner_escalation env mid a q (cf_score (pd_confidence d)) cog))))"

text \<open>The text of the message's first embed is an argument.\<close>

definition qh_on_message :: "qh_env \<Rightarrow> discord_message \<Rightarrow> string option \<Rightarrow> 'c question_cog \<Rightarrow> ('c question_cog, bool) outcome" where
  "qh_on_message env m embed_text cog =
     (if dm_author_id m \<noteq> qe_bot_id env then (cog, Inr True)
      else
        (case is_question_embed (dm_embeds m) of
           None \<Rightarrow> (cog, Inr True)
         | Some (a, request) \<Rightarrow>
             (case qc_pm cog of
                None \<Rightarrow> (cog, Inr True)
              | Some pm \<Rightarrow>
                  if or_empty embed_text = [] then (cog, Inr True)
                  else catching (handle_pm_evaluation env pm (dm_id m) a (or_empty embed_text) cog) (\<lambda>cog. (cog, Inr True)))))"

section \<open>The strategist's channel\<close>

datatype escalation_future = Waiting | Resolved string

record strategist_cog =
  sg_guild :: "text_channel list option"
  sg_strategist_channel :: "text_channel option"
  sg_decisions_channel :: "text_channel option"
  sg_pending :: "(int, escalation_future) dict"
  sg_resolved :: "(int \<times> string) list"
  sg_sent :: "(text_channel \<times> int \<times> string) list"

definition new_strategist_cog :: "text_channel list option \<Rightarrow> strategist_cog" where
  "new_strategist_cog guild =
     \<lparr>sg_guild = guild, sg_strategist_channel = None, sg_decisions_channel = None, sg_pending = [], sg_resolved = [], sg_sent = []\<rparr>"

definition sg_resolve_channels :: "strategist_cog \<Rightarrow> strategist_cog" where
  "sg_resolve_channels cog =
     (case sg_guild cog of
        None \<Rightarrow> cog
      | Some chs \<Rightarrow>
          fold (\<lambda>ch cog. if tc_name ch = ''strategist'' then cog\<lparr>sg_strategist_channel := Some ch\<rparr>
                         else if tc_name ch = ''decisions'' then cog\<lparr>sg_decisions_channel := Some ch\<rparr> else cog) chs cog)"

text \<open>A pending escalation is removed and its future resolved unless it is done.\<close>

definition resolve_escalation :: "int \<Rightarrow> string \<Rightarrow> strategist_cog \<Rightarrow> strategist_cog" where
  "resolve_escalation ref content cog =
     (case dict_get (sg_pending cog) ref of
        None \<Rightarrow> cog
      | Some fut \<Rightarrow>
          (let cog = cog\<lparr>sg_pending := dict_pop (sg_pending cog) ref\<rparr> in
           if fut = Waiting then cog\<lparr>sg_resolved := sg_resolved cog @ [(ref, content)]\<rparr> else cog))"

definition has_owner_role :: "discord_message \<Rightarrow> bool" where
  "has_owner_role m = (case dm_author_roles m of None \<Rightarrow> False | Some rs \<Rightarrow> ''vco-owner'' \<in> set rs)"

definition is_system_message :: "int \<Rightarrow> discord_message \<Rightarrow> bool" where
  "is_system_message bot_id m \<longleftrightarrow> dm_author_id m = bot_id \<and> startswith (dm_content m) ''[system]''"

text \<open>The content of the message that is replied to is an argument: \<open>None\<close> when it cannot be fetched.\<close>

definition sg_on_message :: "int \<Rightarrow> string option \<Rightarrow> discord_message \<Rightarrow> strategist_cog \<Rightarrow> strategist_cog" where
  "sg_on_message bot_id replied m cog =
     (let route = route_message m (or_empty (dm_channel_name m)) \<lparr>er_bot_user_id = bot_id, er_strategist_user_ids = []\<rparr>
                    (if dm_reference m = None then None else replied);
          reply = (\<lambda>cog. case dm_reference m of None \<Rightarrow> cog | Some ref \<Rightarrow> resolve_escalation ref (dm_content m) cog) in
      if rr_target route \<noteq> STRATEGIST then reply cog
      else if \<not> is_system_message bot_id m \<and> \<not> has_owner_role m then cog
      else reply cog)"

definition strategist_content :: "string \<Rightarrow> discord_message \<Rightarrow> string" where
  "strategist_content dir m =
     (if dm_attachments m = [] then dm_content m
      else
        (let refs = intercalate [CHR 0x0A] (map (attachment_ref dir) (dm_attachments m)) in
         if dm_content m \<noteq> [] then dm_content m @ [CHR 0x0A] @ refs else refs))"

definition sg_handle_pm_escalation :: "'c runtime_api option \<Rightarrow> py_error + string option" where
  "sg_handle_pm_escalation api = (case api of None \<Rightarrow> Inr None | Some r \<Rightarrow> ra_handle_pm_escalation r)"

definition escalation_text :: "string option \<Rightarrow> agent_id \<Rightarrow> string \<Rightarrow> rat \<Rightarrow> string" where
  "escalation_text role a q s =
     owner_mention role @ '' -- Strategic decision needed'' @ [CHR 0x0A, CHR 0x0A] @ ''**Agent:** '' @ a @ [CHR 0x0A] @ ''**Question:** '' @ q @ [CHR 0x0A] @
     ''**PM confidence:** '' @ percent_text s @ [CHR 0x0A] @ ''**Both PM and Strategist could not answer with confidence.**'' @ [CHR 0x0A, CHR 0x0A] @
     ''Please reply to this message with your decision.''"

text \<open>Discord gives the message an identifier, or refuses it.\<close>

definition post_owner_escalation :: "string option \<Rightarrow> int option \<Rightarrow> agent_id \<Rightarrow> string \<Rightarrow> rat \<Rightarrow> text_channel option \<Rightarrow> strategist_cog
    \<Rightarrow> (strategist_cog, unit) outcome" where
  "post_owner_escalation role given a q s ch cog =
     (case (if ch = None then sg_strategist_channel cog else ch) of
        None \<Rightarrow> (cog, Inl (RuntimeError ''No channel available for owner escalation''))
      | Some target \<Rightarrow>
          (case given of
             None \<Rightarrow> (cog, Inl OSError)
           | Some mid \<Rightarrow>
               (cog\<lparr>sg_sent := sg_sent cog @ [(target, mid, escalation_text role a q s)], sg_pending := dict_set (sg_pending cog) mid Waiting\<rparr>, Inr ())))"

section \<open>Questions asked through the daemon\<close>

text \<open>The embeds of a message as Discord shows it: title and footer.\<close>

definition embeds_of :: "discord_post \<Rightarrow> (string option \<times> string option) list" where
  "embeds_of p = (case p of EmbedPost t d c flds footer \<Rightarrow> [(Some t, footer)] | _ \<Rightarrow> [])"

text \<open>
  C38. What becomes of a question that an agent asks through the daemon. When the agent has a channel and the first question is well formed: if the
  channel does not resolve, the answer is that the question could not be posted; if Discord refuses the post, its exception reaches the agent;
  otherwise the question is posted as one embed under the agent's name, and the answer is the text of the reply found at the first of 120 polls that
  shows a reply to that very post, or the timeout answer if none does. The question handler of the bot, with whatever manager, does nothing
  about that post, since it has no footer with a request.
\<close>

theorem asked_question_answered:
  assumes "dn_api d = Some api" "dn_comm_port d" "first_channel [''task-'' @ a, ''agent-'' @ a] api = Some ch" "parse_question j = Inr q"
    and "mid = int (ds_next_id (dn_discord d))"
    and "post = EmbedPost (''Question from '' @ a) (qn_text q @ [CHR 0x0A, CHR 0x0A] @ options_text (qn_options q)) (Some 3447003) [] None"
  shows "handle_ask env [(''agent_id'', JStr a), (''timeout_mode'', JStr mode), (''questions'', JArr (j # js))] d =
      (case resolve_channel (dv_discord env) ch of
         None \<Rightarrow> (d, Inr (error_json ''answer'' ''Failed to post question''))
       | Some c \<Rightarrow>
           (case de_fault (dv_discord env) ''send'' of
              Some f \<Rightarrow> (d, Inl (fault_error f))
            | None \<Rightarrow>
                (d\<lparr>dn_discord := ds_post c post ((dn_discord d)\<lparr>ds_next_id := Suc (ds_next_id (dn_discord d))\<rparr>)\<rparr>,
                 Inr (if \<forall>k < 120. find_reply mid (dv_history env k) = None then timeout_json mode q
                      else JObj [(''status'', JStr ''ok''),
                        (''answer'', JStr (the (find_reply mid (dv_history env (LEAST k. find_reply mid (dv_history env k) \<noteq> None)))))])))) \<and>
    (dm_embeds m = embeds_of post \<longrightarrow> qh_on_message qenv m embed_text cog = (cog, Inr True))"
proof
  let ?D = "dv_discord env"
  have ask: "handle_ask env [(''agent_id'', JStr a), (''timeout_mode'', JStr mode), (''questions'', JArr (j # js))] d = ask_question env a ch mode q d"
    using assms(1-4) by (simp add: handle_ask_def with_port_def optional_def)
  show "handle_ask env [(''agent_id'', JStr a), (''timeout_mode'', JStr mode), (''questions'', JArr (j # js))] d =
      (case resolve_channel (dv_discord env) ch of
         None \<Rightarrow> (d, Inr (error_json ''answer'' ''Failed to post question''))
       | Some c \<Rightarrow>
           (case de_fault (dv_discord env) ''send'' of
              Some f \<Rightarrow> (d, Inl (fault_error f))
            | None \<Rightarrow>
                (d\<lparr>dn_discord := ds_post c post ((dn_discord d)\<lparr>ds_next_id := Suc (ds_next_id (dn_discord d))\<rparr>)\<rparr>,
                 Inr (if \<forall>k < 120. find_reply mid (dv_history env k) = None then timeout_json mode q
                      else JObj [(''status'', JStr ''ok''),
                        (''answer'', JStr (the (find_reply mid (dv_history env (LEAST k. find_reply mid (dv_history env k) \<noteq> None)))))]))))"
  proof (cases "resolve_channel ?D ch")
    case None
    then show ?thesis unfolding ask by (simp add: ask_question_def dp_post_embed_def)
  next
    case (Some c)
    show ?thesis
    proof (cases "de_fault ?D ''send''")
      case None
      have i: "int_of_string (show_nat (ds_next_id (dn_discord d))) = Some mid" by (simp add: assms(5) int_of_show_nat)
      show ?thesis
      proof (cases "\<forall>k < 120. find_reply mid (dv_history env k) = None")
        case True
        then have "dp_poll_reply ?D (dv_history env) ch (show_nat (ds_next_id (dn_discord d))) 120 = Inr None"
          using dp_poll_reply_least [OF Some i, of "dv_history env" 120] by simp
        then show ?thesis unfolding ask if_P [OF True] by (simp add: ask_question_def dp_post_embed_def Some None assms(6) Let_def)
      next
        case False
        then have "find_reply mid (dv_history env (LEAST k. find_reply mid (dv_history env k) \<noteq> None)) \<noteq> None"
          using LeastI_ex [of "\<lambda>k. find_reply mid (dv_history env k) \<noteq> None"] by blast
        then obtain t where t: "find_reply mid (dv_history env (LEAST k. find_reply mid (dv_history env k) \<noteq> None)) = Some t" by blast
        then have "dp_poll_reply ?D (dv_history env) ch (show_nat (ds_next_id (dn_discord d))) 120 = Inr (Some t)"
          using dp_poll_reply_least [OF Some i, of "dv_history env" 120] False by simp
        then show ?thesis unfolding ask if_not_P [OF False] t by (simp add: ask_question_def dp_post_embed_def Some None assms(6) Let_def)
      qed
    next
      case f: (Some f)
      then show ?thesis unfolding ask by (simp add: ask_question_def dp_post_embed_def Some)
    qed
  qed
  show "dm_embeds m = embeds_of post \<longrightarrow> qh_on_message qenv m embed_text cog = (cog, Inr True)"
    by (simp add: qh_on_message_def assms(6) embeds_of_def)
qed

text \<open>A manager that is never sure, were it injected.\<close>

definition unsure :: pm_decision where
  "unsure = \<lparr>pd_answer = None, pd_confidence = \<lparr>cf_score = 0, cf_level = LOW, cf_coverage = 0, cf_prior_match = 0\<rparr>, pd_decided_by = ''PM'', pd_note = [],
     pd_escalate_to = Some ''strategist''\<rparr>"

definition unsure_cog :: "string question_cog" where
  "unsure_cog = set_pm (\<lambda>q a. Inr unsure) \<lparr>qc_api = Some demo_api, qc_pm = None, qc_out = []\<rparr>"

definition question_env :: qh_env where
  "question_env = \<lparr>qe_bot_id = 1, qe_accepts = (\<lambda>p. True), qe_owner_role = None, qe_given = 9, qe_arrivals = []\<rparr>"

definition asking_daemon :: "string daemon" where
  "asking_daemon = set_comm_port (set_runtime_api (demo_api\<lparr>ra_channel_ids := [(''task-a'', ''5'')]\<rparr>) new_daemon)"

definition replying_env :: daemon_env where
  "replying_env = demo_daemon_env\<lparr>dv_history := (\<lambda>k. if k < 2 then None else Some [(Some 7, ''the first'')])\<rparr>"

theorem asked_question_answered_witness:
  "(\<exists>d. handle_ask replying_env [(''agent_id'', JStr ''a''), (''timeout_mode'', JStr ''continue''), (''questions'', JArr [JObj [(''question'', JStr ''which?'')]])]
       asking_daemon = (d, Inr (JObj [(''status'', JStr ''ok''), (''answer'', JStr ''the first'')]))
     \<and> ds_posts (dn_discord d) = [(5, EmbedPost ''Question from a'' (''which?'' @ [CHR 0x0A, CHR 0x0A]) (Some 3447003) [] None)])
   \<and> qh_on_message question_env (demo_message\<lparr>dm_author_id := 1, dm_embeds := [(Some ''Question from a'', None)]\<rparr>) (Some ''which?'') unsure_cog = (unsure_cog, Inr True)"
proof -
  let ?api = "demo_api\<lparr>ra_channel_ids := [(''task-a'', ''5'')]\<rparr>"
  let ?q = "\<lparr>qn_text = ''which?'', qn_options = []\<rparr>"
  let ?post = "EmbedPost (''Question from '' @ ''a'') (qn_text ?q @ [CHR 0x0A, CHR 0x0A] @ options_text (qn_options ?q)) (Some 3447003) [] None"
  let ?m = "demo_message\<lparr>dm_author_id := 1, dm_embeds := [(Some ''Question from a'', None)]\<rparr>"
  let ?find = "\<lambda>k. find_reply 7 (dv_history replying_env k)"
  have d: "dn_api asking_daemon = Some ?api" "dn_comm_port asking_daemon" "first_channel [''task-'' @ ''a'', ''agent-'' @ ''a''] ?api = Some ''5''"
    "parse_question (JObj [(''question'', JStr ''which?'')]) = Inr ?q" "7 = int (ds_next_id (dn_discord asking_daemon))" "ds_posts (dn_discord asking_daemon) = []"
    by (simp_all add: asking_daemon_def set_comm_port_def set_runtime_api_def new_daemon_def empty_discord_def get_channel_id_def
        parse_question_def optional_def)
  have e: "resolve_channel (dv_discord replying_env) ''5'' = Some 5" "de_fault (dv_discord replying_env) ''send'' = None"
    by code_simp+
  have f: "?find k = (if k < 2 then None else Some ''the first'')" for k
    by (simp add: replying_env_def find_reply_def)
  have least: "(LEAST k. ?find k \<noteq> None) = 2" by (rule Least_equality) (auto simp: f split: if_splits)
  have some: "\<not> (\<forall>k < 120. ?find k = None)" by (auto simp: f intro!: exI [of _ 2])
  have f2: "?find 2 = Some ''the first''" by (simp add: f)
  note both = asked_question_answered [OF d(1-5) refl, of replying_env "''continue''" "[]" ?m question_env "Some ''which?''" unsure_cog]
  have "handle_ask replying_env [(''agent_id'', JStr ''a''), (''timeout_mode'', JStr ''continue''), (''questions'', JArr [JObj [(''question'', JStr ''which?'')]])] asking_daemon
      = (asking_daemon\<lparr>dn_discord := ds_post 5 ?post ((dn_discord asking_daemon)\<lparr>ds_next_id := Suc (ds_next_id (dn_discord asking_daemon))\<rparr>)\<rparr>,
         Inr (JObj [(''status'', JStr ''ok''), (''answer'', JStr ''the first'')]))"
    using conjunct1 [OF both] unfolding e option.case if_not_P [OF some] least f2 option.sel .
  moreover have "dm_embeds ?m = embeds_of ?post" by (simp add: embeds_of_def)
  then have "qh_on_message question_env ?m (Some ''which?'') unsure_cog = (unsure_cog, Inr True)"
    by (rule mp [OF conjunct2 [OF both]])
  ultimately show ?thesis by (simp add: d(6) ds_post_def options_text_def)
qed

section \<open>Escalations of the question handler\<close>

text \<open>
  A question of low confidence, were a manager injected, gets the notice that it is escalated and nothing else: the gateway lacks the method
  that asks the strategist, and the exception is logged.
\<close>

lemma low_confidence_stalls:
  assumes "qe_accepts env = (\<lambda>p. True)" "qc_pm cog = Some pm" "qc_api cog = Some api" "pm q a = Inr d" "cf_level (pd_confidence d) = LOW" "q \<noteq> []"
    and "dm_author_id m = qe_bot_id env" "dm_embeds m = [(Some (''Question from '' @ a), Some (''Request: '' @ rid))]"
  shows "qh_on_message env m (Some q) cog = (cog\<lparr>qc_out := qc_out cog @ [Say (escalation_notice q)]\<rparr>, Inr True)"
proof -
  have "is_question_embed [(Some (''Question from '' @ a), Some (''Request: '' @ rid))] = Some (a, rid)" by (simp add: startswith_def)
  then show ?thesis
    using assms by (simp only: qh_on_message_def)
      (simp add: handle_pm_evaluation_def qh_send_def or_empty_def ra_handle_pm_escalation_def)
qed

text \<open>Whoever replies first to an escalation to the owner decides, unless it is a bot: the author's roles play no part.\<close>

lemma anyone_decides:
  assumes "qe_accepts env = (\<lambda>p. True)" "qe_arrivals env = before @ m # later" "\<forall>x \<in> set before. dm_reference x \<noteq> Some (qe_given env)"
    and "dm_reference m = Some (qe_given env)" "\<not> dm_author_bot m" "qc_api cog = None"
  shows "owner_escalation env mid a q s cog =
    (cog\<lparr>qc_out := qc_out cog @ [Say (owner_question (qe_owner_role env) a q s), Reply mid (''Owner decided: '' @ dm_content m)]\<rparr>, Inr True)"
proof -
  have "find (escalation_check (qe_given env)) (before @ m # later) = Some m"
    using assms(3-5) by (induction before) (auto simp: escalation_check_def)
  then show ?thesis using assms(1,2,6) by (simp add: owner_escalation_def qh_send_def qh_log_decision_def)
qed

section \<open>The owner decides in the strategist's cog\<close>

text \<open>
  The cog that asks for the owner's role is not among the extensions that the bot loads (\<open>_COG_EXTENSIONS\<close> in bot/client.py): what follows
  holds of the cog as it is written. Fetching the message that is replied to is one step with the handling of the reply.
\<close>

definition strategist_hears :: "int \<Rightarrow> (string option \<times> discord_message) list \<Rightarrow> strategist_cog \<Rightarrow> strategist_cog" where
  "strategist_hears bot_id ms cog = fold (\<lambda>(replied, m). sg_on_message bot_id replied m) ms cog"

text \<open>A message of a person; when it replies to the escalation, the text it replies to was fetched or not.\<close>

definition from_person :: "int \<Rightarrow> int \<Rightarrow> string \<Rightarrow> string option \<times> discord_message \<Rightarrow> bool" where
  "from_person bot_id mid asked = (\<lambda>(replied, m).
     \<not> dm_webhook m \<and> dm_author_id m \<noteq> bot_id \<and> (dm_reference m = Some mid \<longrightarrow> replied = None \<or> replied = Some asked))"

definition owner_reply :: "int \<Rightarrow> string option \<times> discord_message \<Rightarrow> bool" where
  "owner_reply mid = (\<lambda>(replied, m). dm_reference m = Some mid \<and> has_owner_role m)"

definition answers_to :: "int \<Rightarrow> strategist_cog \<Rightarrow> (int \<times> string) list" where
  "answers_to mid cog = filter (\<lambda>(r, t). r = mid) (sg_resolved cog)"

lemma escalation_no_prefix: "extract_entity_from_prefix (escalation_text role a q s) = None"
  by (cases role) (simp_all add: extract_entity_from_prefix_def escalation_text_def owner_mention_def startswith_def PM_PREFIX_def match_agent_prefix_def)

lemma reply_routed:
  assumes "from_person bot_id mid (escalation_text role a q s) (replied, m)" "dm_reference m = Some mid"
  shows "rr_target (route_message m n \<lparr>er_bot_user_id = bot_id, er_strategist_user_ids = []\<rparr> replied) = STRATEGIST"
  using assms by (auto simp: from_person_def route_message_def route_to_def escalation_no_prefix)

lemma reply_heard:
  assumes "from_person bot_id mid (escalation_text role a q s) (replied, m)" "dm_reference m = Some mid"
  shows "sg_on_message bot_id replied m cog = (if has_owner_role m then resolve_escalation mid (dm_content m) cog else cog)"
proof -
  have "\<not> is_system_message bot_id m" using assms(1) by (simp add: from_person_def is_system_message_def)
  then show ?thesis using reply_routed [OF assms] assms(2) by (simp add: sg_on_message_def Let_def)
qed

lemma resolve_other:
  "ref \<noteq> mid \<Longrightarrow> answers_to mid (resolve_escalation ref t cog) = answers_to mid cog
     \<and> dict_get (sg_pending (resolve_escalation ref t cog)) mid = dict_get (sg_pending cog) mid"
  by (auto simp: resolve_escalation_def answers_to_def Let_def dict_simps split: option.splits)

lemma other_heard:
  assumes "dm_reference m \<noteq> Some mid"
  shows "answers_to mid (sg_on_message bot_id replied m cog) = answers_to mid cog
    \<and> dict_get (sg_pending (sg_on_message bot_id replied m cog)) mid = dict_get (sg_pending cog) mid"
  using assms resolve_other by (auto simp: sg_on_message_def Let_def split: option.splits)

lemma resolve_pending:
  "dict_get (sg_pending cog) mid = Some Waiting \<Longrightarrow>
     answers_to mid (resolve_escalation mid t cog) = answers_to mid cog @ [(mid, t)] \<and> dict_get (sg_pending (resolve_escalation mid t cog)) mid = None"
  "dict_get (sg_pending cog) mid = None \<Longrightarrow> resolve_escalation mid t cog = cog"
  by (simp_all add: resolve_escalation_def answers_to_def Let_def dict_simps)

lemma hears_settled:
  "list_all (from_person bot_id mid (escalation_text role a q s)) ms \<Longrightarrow> dict_get (sg_pending cog) mid = None \<Longrightarrow>
     answers_to mid (strategist_hears bot_id ms cog) = answers_to mid cog \<and> dict_get (sg_pending (strategist_hears bot_id ms cog)) mid = None"
proof (induction ms arbitrary: cog)
  case (Cons x ms)
  obtain replied m where x: "x = (replied, m)" by (cases x)
  have "answers_to mid (sg_on_message bot_id replied m cog) = answers_to mid cog \<and> dict_get (sg_pending (sg_on_message bot_id replied m cog)) mid = None"
    using Cons.prems other_heard [of m mid] reply_heard [of bot_id mid role a q s replied m cog] resolve_pending(2)
    by (cases "dm_reference m = Some mid") (auto simp: x)
  then show ?case using Cons by (simp add: strategist_hears_def x)
qed (simp add: strategist_hears_def)

lemma hears_waiting:
  "list_all (from_person bot_id mid (escalation_text role a q s)) ms \<Longrightarrow> dict_get (sg_pending cog) mid = Some Waiting \<Longrightarrow>
     answers_to mid (strategist_hears bot_id ms cog) = answers_to mid cog @ (case find (owner_reply mid) ms of None \<Rightarrow> [] | Some (_, m) \<Rightarrow> [(mid, dm_content m)])
     \<and> dict_get (sg_pending (strategist_hears bot_id ms cog)) mid = (if find (owner_reply mid) ms = None then Some Waiting else None)"
proof (induction ms arbitrary: cog)
  case (Cons x ms)
  obtain replied m where x: "x = (replied, m)" by (cases x)
  let ?cog = "sg_on_message bot_id replied m cog"
  have step: "strategist_hears bot_id (x # ms) cog = strategist_hears bot_id ms ?cog" by (simp add: strategist_hears_def x)
  show ?case
  proof (cases "owner_reply mid x")
    case True
    then have "?cog = resolve_escalation mid (dm_content m) cog"
      using reply_heard [of bot_id mid role a q s replied m cog] Cons.prems by (simp add: owner_reply_def x)
    then have "answers_to mid ?cog = answers_to mid cog @ [(mid, dm_content m)] \<and> dict_get (sg_pending ?cog) mid = None"
      using resolve_pending(1) [OF Cons.prems(2)] by simp
    then show ?thesis using True hears_settled [of bot_id mid role a q s ms ?cog] Cons.prems(1) unfolding step by (simp add: x)
  next
    case False
    have "answers_to mid ?cog = answers_to mid cog \<and> dict_get (sg_pending ?cog) mid = Some Waiting"
      using False Cons.prems other_heard [of m mid] reply_heard [of bot_id mid role a q s replied m cog]
      by (cases "dm_reference m = Some mid") (auto simp: x owner_reply_def)
    then show ?thesis using False Cons.IH [of ?cog] Cons.prems(1) unfolding step by simp
  qed
qed (simp add: strategist_hears_def)

text \<open>
  In the strategist's cog only the owner decides among people. An escalation that was posted to the owner waits, whatever people write, until the first reply
  to it by somebody with the owner's role; it is then resolved with the text of that reply, once, and later replies change nothing.
\<close>

theorem owner_decides:
  assumes "post_owner_escalation role (Some mid) a q s ch cog = (cog', Inr ())" "answers_to mid cog = []"
    and "list_all (from_person bot_id mid (escalation_text role a q s)) ms"
  shows "answers_to mid (strategist_hears bot_id ms cog') = (case find (owner_reply mid) ms of None \<Rightarrow> [] | Some (_, m) \<Rightarrow> [(mid, dm_content m)])
    \<and> dict_get (sg_pending (strategist_hears bot_id ms cog')) mid = (if find (owner_reply mid) ms = None then Some Waiting else None)"
proof -
  have "dict_get (sg_pending cog') mid = Some Waiting" "answers_to mid cog' = []"
    using assms(1,2) by (auto simp: post_owner_escalation_def answers_to_def dict_simps split: option.splits)
  then show ?thesis using hears_waiting [OF assms(3)] by simp
qed

definition reply_by :: "string list \<Rightarrow> string \<Rightarrow> string option \<times> discord_message" where
  "reply_by roles t = (None, demo_message\<lparr>dm_author_roles := Some roles, dm_reference := Some 7, dm_content := t\<rparr>)"

theorem owner_decides_witness:
  "let cog = fst (post_owner_escalation None (Some 7) ''a'' ''which?'' (1/2) None (sg_resolve_channels (new_strategist_cog (Some [\<lparr>tc_name = ''strategist'', tc_category = None\<rparr>]))))
   in answers_to 7 (strategist_hears 1 [reply_by [] ''no'', reply_by [''vco-owner''] ''yes'', reply_by [''vco-owner''] ''later''] cog) = [(7, ''yes'')]"
proof -
  let ?cog = "sg_resolve_channels (new_strategist_cog (Some [\<lparr>tc_name = ''strategist'', tc_category = None\<rparr>]))"
  let ?ms = "[reply_by [] ''no'', reply_by [''vco-owner''] ''yes'', reply_by [''vco-owner''] ''later'']"
  obtain cog' where p: "post_owner_escalation None (Some 7) ''a'' ''which?'' (1/2) None ?cog = (cog', Inr ())" "answers_to 7 ?cog = []"
    by (simp add: post_owner_escalation_def sg_resolve_channels_def new_strategist_cog_def answers_to_def)
  have ms: "list_all (from_person 1 7 (escalation_text None ''a'' ''which?'' (1/2))) ?ms" by (simp add: from_person_def reply_by_def demo_message_def)
  have "find (owner_reply 7) ?ms = Some (reply_by [''vco-owner''] ''yes'')" by (simp add: owner_reply_def reply_by_def has_owner_role_def)
  then show ?thesis using owner_decides [OF p ms] p(1) by (simp add: reply_by_def)
qed

end
