(* ===== verification/Coordination.thy ===== *)
theory Coordination
  imports Monitor Py_Value Channel
begin

text \<open>
  What the agents of a project share: the context files that are copied to their clones (\<open>coordination/sync_context.py\<close>), the manager's context
  (\<open>strategist/context_builder.py\<close>), the log of interface changes (\<open>coordination/interfaces.py\<close>, \<open>models/coordination_state.py\<close>),
  and the two rituals: check-ins (\<open>communication/checkin.py\<close>) and stand-ups (\<open>communication/standup.py\<close>).

  A path is the list of its parts below the project's directory; files that are there can be read. The codec of the log is an argument.
  Files hold texts: reading one translates its line ends, writing one does not, on a system whose line end is LF; both ends
  use UTF-8, which for reading is the locale's encoding.
\<close>

type_synonym path = "string list"
type_synonym files = "(path, string) dict"

definition read_text :: "files \<Rightarrow> path \<Rightarrow> string option" where
  "read_text fs p = map_option universal_newlines (dict_get fs p)"

section \<open>The manager's context\<close>

definition CONTEXT_SOURCES :: "(string \<times> string) list" where
  "CONTEXT_SOURCES =
     [(''PROJECT-BLUEPRINT.md'', ''## Project Blueprint''), (''INTERFACES.md'', ''## Interface Contracts''),
      (''MILESTONE-SCOPE.md'', ''## Current Milestone Scope''), (''PROJECT-STATUS.md'', ''## Project Status'')]"

definition MAX_DECISIONS :: nat where
  "MAX_DECISIONS = 50"

definition source_section :: "files \<Rightarrow> string \<times> string \<Rightarrow> string list" where
  "source_section fs = (\<lambda>(name, header).
     case read_text fs [''context'', name] of
       None \<Rightarrow> []
     | Some content \<Rightarrow> [[CHR 0x0A] @ header @ [CHR 0x0A, CHR 0x0A] @ content @ [CHR 0x0A]])"

definition decision_entries :: "string \<Rightarrow> json list" where
  "decision_entries content = List.map_filter (\<lambda>l. let l = py_strip l in if l = [] then None else loads l) (py_splitlines content)"

definition decision_line :: "json \<Rightarrow> py_error + string" where
  "decision_line e =
     (case (json_get e ''timestamp'' (JStr ''?''), json_get e ''decided_by'' (JStr ''?''), json_get e ''decision'' (JStr ''?''),
            json_get e ''confidence_level'' (JStr ''?'')) of
        (Inr ts, Inr by', Inr d, Inr c) \<Rightarrow>
          Inr (''- ['' @ json_str ts @ ''] '' @ json_str by' @ '': '' @ json_str d @ '' (confidence: '' @ json_str c @ '')'')
      | (Inl e, _) \<Rightarrow> Inl e
      | _ \<Rightarrow> Inl (AttributeError ''get''))"

fun decision_lines :: "json list \<Rightarrow> py_error + string list" where
  "decision_lines [] = Inr []"
| "decision_lines (e # es) =
     (case decision_line e of
        Inl x \<Rightarrow> Inl x
      | Inr l \<Rightarrow> (case decision_lines es of Inl x \<Rightarrow> Inl x | Inr ls \<Rightarrow> Inr (l # ls)))"

definition decisions_section :: "files \<Rightarrow> py_error + string list" where
  "decisions_section fs =
     (case read_text fs [''state'', ''decisions.jsonl''] of
        None \<Rightarrow> Inr []
      | Some content \<Rightarrow>
          (let entries = decision_entries content; recent = drop (length entries - MAX_DECISIONS) entries in
           if recent = [] then Inr []
           else
             (case decision_lines recent of
                Inl x \<Rightarrow> Inl x
              | Inr ls \<Rightarrow> Inr [intercalate [CHR 0x0A] (([CHR 0x0A] @ ''## Recent Decisions'' @ [CHR 0x0A]) # ls) @ [CHR 0x0A]])))"

definition build_pm_context :: "files \<Rightarrow> py_error + string" where
  "build_pm_context fs =
     (case decisions_section fs of
        Inl x \<Rightarrow> Inl x
      | Inr ds \<Rightarrow>
          Inr (intercalate [CHR 0x0A]
            ((''# PM Context -- auto-generated, do not edit'' @ [CHR 0x0A]) # concat (map (source_section fs) CONTEXT_SOURCES) @ ds)))"

definition write_pm_context :: "(path \<Rightarrow> bool) \<Rightarrow> files \<Rightarrow> (files, unit) outcome" where
  "write_pm_context writable fs =
     (case build_pm_context fs of Inl x \<Rightarrow> (fs, Inl x) | Inr content \<Rightarrow> write_atomic writable [''context'', ''PM-CONTEXT.md''] content fs)"

section \<open>Copying to the clones\<close>

definition SYNC_FILES :: "string list" where
  "SYNC_FILES = [''INTERFACES.md'', ''MILESTONE-SCOPE.md'', ''PM-CONTEXT.md'']"

record sync_result =
  sy_clones_updated :: nat
  sy_files_synced :: nat
  sy_errors :: "string list"

definition rename_old_prompt :: "files \<Rightarrow> files" where
  "rename_old_prompt fs =
     (case (dict_get fs [''context'', ''STRATEGIST-PROMPT.md''], dict_get fs [''context'', ''PM-CONTEXT.md'']) of
        (Some content, None) \<Rightarrow> dict_set (dict_pop fs [''context'', ''STRATEGIST-PROMPT.md'']) [''context'', ''PM-CONTEXT.md''] content
      | _ \<Rightarrow> fs)"

definition source_files :: "files \<Rightarrow> (string \<times> string) list" where
  "source_files fs = List.map_filter (\<lambda>n. map_option (Pair n) (read_text fs [''context'', n])) SYNC_FILES"

text \<open>The files of one clone; the number that was written, and the errors without the texts of the exceptions.\<close>

fun sync_clone :: "(path \<Rightarrow> bool) \<Rightarrow> agent_id \<Rightarrow> (string \<times> string) list \<Rightarrow> files \<Rightarrow> files \<times> nat \<times> string list" where
  "sync_clone writable a [] fs = (fs, 0, [])"
| "sync_clone writable a ((name, content) # src) fs =
     (case write_atomic writable [''clones'', a, name] content fs of
        (fs, Inl x) \<Rightarrow>
          (case sync_clone writable a src fs of (fs, n, errs) \<Rightarrow> (fs, n, (''Failed to sync '' @ name @ '' to '' @ a @ '': '') # errs))
      | (fs, Inr _) \<Rightarrow> (case sync_clone writable a src fs of (fs, n, errs) \<Rightarrow> (fs, Suc n, errs)))"

fun sync_clones :: "(path \<Rightarrow> bool) \<Rightarrow> (agent_id \<Rightarrow> bool) \<Rightarrow> (string \<times> string) list \<Rightarrow> agent_config list \<Rightarrow> files \<Rightarrow> files \<times> sync_result" where
  "sync_clones writable is_dir src [] fs = (fs, \<lparr>sy_clones_updated = 0, sy_files_synced = 0, sy_errors = []\<rparr>)"
| "sync_clones writable is_dir src (ac # acs) fs =
     (if \<not> is_dir (ac_id ac) then
        (case sync_clones writable is_dir src acs fs of
           (fs, r) \<Rightarrow> (fs, r\<lparr>sy_errors := (''Clone directory missing for '' @ ac_id ac @ '': '') # sy_errors r\<rparr>))
      else
        (case sync_clone writable (ac_id ac) src fs of
           (fs, n, errs) \<Rightarrow>
             (case sync_clones writable is_dir src acs fs of
                (fs, r) \<Rightarrow>
                  (fs, \<lparr>sy_clones_updated = (if n > 0 then 1 else 0) + sy_clones_updated r, sy_files_synced = n + sy_files_synced r,
                        sy_errors = errs @ sy_errors r\<rparr>))))"

definition sync_context_files :: "(path \<Rightarrow> bool) \<Rightarrow> (agent_id \<Rightarrow> bool) \<Rightarrow> project_config \<Rightarrow> files \<Rightarrow> files \<times> sync_result" where
  "sync_context_files writable is_dir cfg fs =
     (let fs = fst (write_pm_context writable (rename_old_prompt fs)) in
      sync_clones writable is_dir (source_files fs) (pc_agents cfg) fs)"

section \<open>Interface changes\<close>

datatype change_action = Proposed | ChangeApproved | ChangeRejected | Applied

record interface_change_record =
  ic_timestamp :: string
  ic_agent_id :: agent_id
  ic_action :: change_action
  ic_description :: string
  ic_diff :: string
  ic_reviewer_note :: string

record interface_change_log =
  il_project :: string
  il_records :: "interface_change_record list"

definition CHANGES :: path where
  "CHANGES = [''context'', ''interface_changes.json'']"

definition log_interface_change :: "interface_change_log json_codec \<Rightarrow> (path \<Rightarrow> bool) \<Rightarrow> interface_change_record \<Rightarrow> files \<Rightarrow> (files, unit) outcome" where
  "log_interface_change C writable rc fs =
     (case (case read_text fs CHANGES of None \<Rightarrow> Some \<lparr>il_project = [], il_records = []\<rparr> | Some content \<Rightarrow> validate_json C content) of
        None \<Rightarrow> (fs, Inl ValidationError)
      | Some l \<Rightarrow> write_atomic writable CHANGES (dump_json C (l\<lparr>il_records := il_records l @ [rc]\<rparr>)) fs)"

definition apply_interface_change :: "interface_change_log json_codec \<Rightarrow> (path \<Rightarrow> bool) \<Rightarrow> (agent_id \<Rightarrow> bool) \<Rightarrow> project_config \<Rightarrow> string
    \<Rightarrow> interface_change_record \<Rightarrow> files \<Rightarrow> (files, sync_result) outcome" where
  "apply_interface_change C writable is_dir cfg new_content rc fs =
     (case write_atomic writable [''context'', ''INTERFACES.md''] new_content fs of
        (fs, Inl x) \<Rightarrow> (fs, Inl x)
      | (fs, Inr _) \<Rightarrow>
          (case log_interface_change C writable rc fs of
             (fs, Inl x) \<Rightarrow> (fs, Inl x)
           | (fs, Inr _) \<Rightarrow> (case sync_context_files writable is_dir cfg fs of (fs, r) \<Rightarrow> (fs, Inr r))))"

section \<open>Check-ins\<close>

record checkin_data =
  ci_agent_id :: agent_id
  ci_commit_count :: nat
  ci_summary :: string
  ci_gaps :: string
  ci_next_phase :: string
  ci_dependency_status :: string

record roadmap_row =
  rw_phase :: string
  rw_name :: string
  rw_status :: string
  rw_depends_on :: string

text \<open>\<open>xs[1:-1]\<close>.\<close>

definition inner :: "'a list \<Rightarrow> 'a list" where
  "inner xs = tl (butlast xs)"

definition roadmap_row_of :: "string \<Rightarrow> roadmap_row option" where
  "roadmap_row_of l =
     (let l = py_strip l; cells = map py_strip (inner (py_split_on ''|'' l)) in
      if \<not> startswith l ''|'' \<or> length cells < 3 then None
      else if cells ! 0 \<in> {''Phase'', ''-------'', ''---'', []} \<or> py_contains ''---'' (cells ! 0) then None
      else Some \<lparr>rw_phase = cells ! 0, rw_name = cells ! 1, rw_status = cells ! 2, rw_depends_on = (if length cells > 3 then cells ! 3 else ''-'')\<rparr>)"

definition parse_roadmap_phases :: "string \<Rightarrow> roadmap_row list" where
  "parse_roadmap_phases content = List.map_filter roadmap_row_of (py_splitlines content)"

text \<open>
  \<open>## Blockers/Concerns\s*\n(.*?)(?=\n## |\Z)\<close>: the white space after the heading is matched up to its last line feed; the group
  extends to the next line that starts a section, or to the end.
\<close>

definition match_blockers :: "string \<Rightarrow> string option" where
  "match_blockers s =
     (let r = drop 20 s; ws = takeWhile py_space r; t = from_last_newline ws @ dropWhile py_space r in
      if startswith s ''## Blockers/Concerns'' \<and> CHR 0x0A \<in> set ws
      then Some (case before_sub (CHR 0x0A # ''## '') t of None \<Rightarrow> t | Some g \<Rightarrow> g)
      else None)"

fun search_blockers :: "string \<Rightarrow> string option" where
  "search_blockers [] = None"
| "search_blockers (c # s) = (case match_blockers (c # s) of Some g \<Rightarrow> Some g | None \<Rightarrow> search_blockers s)"

definition extract_blockers :: "string \<Rightarrow> string" where
  "extract_blockers content = (case search_blockers content of None \<Rightarrow> [] | Some g \<Rightarrow> py_strip g)"

text \<open>The next phase and what it depends on: the first that is not complete after one in progress.\<close>

fun next_phase :: "bool \<Rightarrow> roadmap_row list \<Rightarrow> string \<times> string" where
  "next_phase found [] = (''unknown'', [])"
| "next_phase found (r # rs) =
     (let st = py_lower (rw_status r) in
      if py_contains ''in progress'' st then next_phase True rs
      else if found \<and> \<not> py_contains ''complete'' st
      then (rw_phase r, if rw_depends_on r \<noteq> [] \<and> rw_depends_on r \<noteq> ''-'' then ''Depends on '' @ rw_depends_on r else [])
      else next_phase found rs)"

definition gather_checkin_data :: "'w runner \<Rightarrow> agent_id \<Rightarrow> string \<Rightarrow> string option \<Rightarrow> string option \<Rightarrow> 'w shell \<Rightarrow> ('w shell, checkin_data) outcome" where
  "gather_checkin_data run a clone roadmap state_md sh =
     (case git_log run clone [''--oneline'', ''main..HEAD''] sh of
        (sh, Inl x) \<Rightarrow> (sh, Inl x)
      | (sh, Inr g) \<Rightarrow>
          (let commits = (if gr_success g \<and> py_strip (gr_stdout g) \<noteq> [] then py_splitlines (py_strip (gr_stdout g)) else []);
               (nxt, dep) = (case roadmap of None \<Rightarrow> (''unknown'', []) | Some t \<Rightarrow> next_phase False (parse_roadmap_phases t)) in
           (sh, Inr \<lparr>ci_agent_id = a, ci_commit_count = length commits, ci_summary = intercalate [CHR 0x0A] (take 10 commits),
                    ci_gaps = (case state_md of None \<Rightarrow> [] | Some t \<Rightarrow> extract_blockers t), ci_next_phase = nxt, ci_dependency_status = dep\<rparr>)))"

section \<open>Stand-ups\<close>

text \<open>
  A call that blocks an agent waits for a future of its own; the calls that still wait are part of the state. A task that waits is
  not cancelled in the model: its future would then be done without a release.
\<close>

record standup_session =
  sd_pending :: "(agent_id, nat) dict"
  sd_threads :: "(agent_id, int) dict"
  sd_next :: nat
  sd_waiting :: "(agent_id \<times> nat) list"

definition new_standup :: standup_session where
  "new_standup = \<lparr>sd_pending = [], sd_threads = [], sd_next = 0, sd_waiting = []\<rparr>"

definition is_active :: "standup_session \<Rightarrow> bool" where
  "is_active s \<longleftrightarrow> sd_pending s \<noteq> []"

definition block_agent :: "agent_id \<Rightarrow> standup_session \<Rightarrow> standup_session" where
  "block_agent a s =
     s\<lparr>sd_pending := dict_set (sd_pending s) a (sd_next s), sd_next := Suc (sd_next s), sd_waiting := sd_waiting s @ [(a, sd_next s)]\<rparr>"

definition release_agent :: "agent_id \<Rightarrow> standup_session \<Rightarrow> standup_session" where
  "release_agent a s =
     (case dict_get (sd_pending s) a of
        None \<Rightarrow> s
      | Some f \<Rightarrow> s\<lparr>sd_pending := dict_pop (sd_pending s) a, sd_waiting := filter (\<lambda>(b, g). g \<noteq> f) (sd_waiting s)\<rparr>)"

definition release_all :: "standup_session \<Rightarrow> standup_session" where
  "release_all s = fold release_agent (dict_keys (sd_pending s)) s"

definition register_thread :: "agent_id \<Rightarrow> int \<Rightarrow> standup_session \<Rightarrow> standup_session" where
  "register_thread a t s = s\<lparr>sd_threads := dict_set (sd_threads s) a t\<rparr>"

definition get_agent_for_thread :: "int \<Rightarrow> standup_session \<Rightarrow> agent_id option" where
  "get_agent_for_thread t s = map_option fst (find (\<lambda>(a, tid). tid = t) (sd_threads s))"

definition standup_prompt :: "string \<Rightarrow> string" where
  "standup_prompt msg = ''/gsd:quick Owner standup message: '' @ msg @ ''. '' @ ''Update ROADMAP.md or STATE.md if this changes your priorities or scope.''"

definition route_message_to_agent :: "(string \<Rightarrow> string \<Rightarrow> bool) option \<Rightarrow> string \<Rightarrow> string \<Rightarrow> bool" where
  "route_message_to_agent tmux msg pane = (case tmux of None \<Rightarrow> False | Some send \<Rightarrow> send pane (standup_prompt msg))"

section \<open>Who is released\<close>

datatype standup_op = Block agent_id | Release agent_id | ReleaseAll | Thread agent_id int

fun standup_step :: "standup_op \<Rightarrow> standup_session \<Rightarrow> standup_session" where
  "standup_step (Block a) s = block_agent a s"
| "standup_step (Release a) s = release_agent a s"
| "standup_step ReleaseAll s = release_all s"
| "standup_step (Thread a t) s = register_thread a t s"

definition standup_run :: "standup_op list \<Rightarrow> standup_session \<Rightarrow> standup_session" where
  "standup_run ops s = fold standup_step ops s"

definition standup_ok :: "standup_session \<Rightarrow> bool" where
  "standup_ok s \<longleftrightarrow> distinct (map snd (sd_waiting s)) \<and> (\<forall>(a, f) \<in> set (sd_waiting s). f < sd_next s)
     \<and> (\<forall>a f. dict_get (sd_pending s) a = Some f \<longrightarrow> (a, f) \<in> set (sd_waiting s))"

definition superseded :: "standup_session \<Rightarrow> agent_id \<times> nat \<Rightarrow> bool" where
  "superseded s = (\<lambda>(a, f). (a, f) \<in> set (sd_waiting s) \<and> dict_get (sd_pending s) a \<noteq> Some f)"

lemma waiting_future_unique:
  "standup_ok s \<Longrightarrow> (a, f) \<in> set (sd_waiting s) \<Longrightarrow> (b, f) \<in> set (sd_waiting s) \<Longrightarrow> a = b"
  using inj_onD [of snd "set (sd_waiting s)" "(a, f)" "(b, f)"] by (auto simp: standup_ok_def distinct_map)

lemma release_agent_keeps:
  assumes "standup_ok s"
  shows "standup_ok (release_agent a s) \<and> (superseded s w \<longrightarrow> superseded (release_agent a s) w)"
proof (cases "dict_get (sd_pending s) a")
  case (Some f)
  have a: "(a, f) \<in> set (sd_waiting s)" using assms Some by (auto simp: standup_ok_def)
  have keep: "g \<noteq> f" if "(b, g) \<in> set (sd_waiting s)" "dict_get (sd_pending s) b \<noteq> Some g \<or> b \<noteq> a" for b g
    using waiting_future_unique [OF assms a] that Some by blast
  have "standup_ok (release_agent a s)"
    using assms keep Some by (fastforce simp: release_agent_def standup_ok_def dict_simps distinct_map_filter split: if_splits)
  moreover have "superseded (release_agent a s) w" if "superseded s w"
    using that keep Some by (cases w) (auto simp: release_agent_def superseded_def dict_simps)
  ultimately show ?thesis by blast
qed (use assms in \<open>simp add: release_agent_def\<close>)

lemma release_fold_keeps:
  "standup_ok s \<Longrightarrow> standup_ok (fold release_agent as s) \<and> (superseded s w \<longrightarrow> superseded (fold release_agent as s) w)"
  by (induction as arbitrary: s) (auto simp: release_agent_keeps)

lemma standup_step_keeps:
  assumes "standup_ok s"
  shows "standup_ok (standup_step op s) \<and> (superseded s w \<longrightarrow> superseded (standup_step op s) w)"
proof (cases op)
  case (Block a)
  have fresh: "(b, sd_next s) \<notin> set (sd_waiting s)" for b using assms by (auto simp: standup_ok_def)
  have "standup_ok (block_agent a s)"
    using assms fresh by (auto simp: block_agent_def standup_ok_def dict_simps less_Suc_eq split: if_splits)
  moreover have "superseded s w \<longrightarrow> superseded (block_agent a s) w"
    using fresh by (cases w) (auto simp: block_agent_def superseded_def dict_simps)
  ultimately show ?thesis by (simp add: Block)
next
  case (Thread a t)
  then show ?thesis using assms by (cases w) (simp add: register_thread_def standup_ok_def superseded_def)
qed (use release_agent_keeps [OF assms] release_fold_keeps [OF assms] in \<open>simp_all add: release_all_def\<close>)

lemma standup_run_keeps: "standup_ok s \<Longrightarrow> standup_ok (standup_run ops s) \<and> (superseded s w \<longrightarrow> superseded (standup_run ops s) w)"
  by (induction ops arbitrary: s) (simp_all add: standup_run_def standup_step_keeps)

lemma new_standup_ok: "standup_ok new_standup"
  by (simp add: standup_ok_def new_standup_def)

text \<open>
  C40. Who a stand-up releases. After any sequence of calls, every call that still waits either waits for the future that its agent's release
  resolves, and then releasing the agent ends it, or it was superseded by a later call for the same agent, and then no sequence of
  calls, releasing everybody included, ever ends it.
\<close>

theorem standup_releases_last:
  assumes "(a, f) \<in> set (sd_waiting (standup_run ops new_standup))"
  shows "if dict_get (sd_pending (standup_run ops new_standup)) a = Some f
    then (a, f) \<notin> set (sd_waiting (release_agent a (standup_run ops new_standup)))
    else (\<forall>ops'. (a, f) \<in> set (sd_waiting (standup_run ops' (standup_run ops new_standup))))"
proof (cases "dict_get (sd_pending (standup_run ops new_standup)) a = Some f")
  case True
  then show ?thesis by (simp add: release_agent_def)
next
  case False
  have ok: "standup_ok (standup_run ops new_standup)" using standup_run_keeps [OF new_standup_ok] by blast
  have "superseded (standup_run ops new_standup) (a, f)" using assms False by (simp add: superseded_def)
  then have "superseded (standup_run ops' (standup_run ops new_standup)) (a, f)" for ops'
    using standup_run_keeps [OF ok] by blast
  then show ?thesis using False by (auto simp: superseded_def)
qed

theorem standup_releases_last_witness:
  "(''a'', 0) \<in> set (sd_waiting (standup_run [ReleaseAll] (standup_run [Block ''a'', Block ''a''] new_standup))) \<and>
   \<not> is_active (standup_run [ReleaseAll] (standup_run [Block ''a'', Block ''a''] new_standup))"
proof
  have w: "(''a'', 0) \<in> set (sd_waiting (standup_run [Block ''a'', Block ''a''] new_standup))"
    and p: "dict_get (sd_pending (standup_run [Block ''a'', Block ''a''] new_standup)) ''a'' \<noteq> Some 0"
    by (simp_all add: standup_run_def block_agent_def new_standup_def)
  from standup_releases_last [OF w] p
  show "(''a'', 0) \<in> set (sd_waiting (standup_run [ReleaseAll] (standup_run [Block ''a'', Block ''a''] new_standup)))" by auto
  show "\<not> is_active (standup_run [ReleaseAll] (standup_run [Block ''a'', Block ''a''] new_standup))"
    by (simp add: is_active_def standup_run_def block_agent_def new_standup_def release_all_def release_agent_def)
qed

section \<open>Interface changes reach the clones\<close>

lemma write_atomic_get:
  "dict_get (fst (write_atomic writable p c fs)) q = (if q = p \<and> writable p then Some c else dict_get fs q)"
  by (simp add: write_atomic_def dict_simps)

lemma sync_clone_rest:
  "fst (sync_clone writable a ((m, d) # src) fs) = fst (sync_clone writable a src (fst (write_atomic writable [''clones'', a, m] d fs)))"
  by (simp split: prod.splits sum.splits)

lemma sync_clone_other:
  "\<forall>(n, c) \<in> set src. q \<noteq> [''clones'', a, n] \<Longrightarrow> dict_get (fst (sync_clone writable a src fs)) q = dict_get fs q"
proof (induction src arbitrary: fs)
  case (Cons x src)
  obtain m d where x: "x = (m, d)" by (cases x)
  have "q \<noteq> [''clones'', a, m]" "\<forall>(n, c) \<in> set src. q \<noteq> [''clones'', a, n]" using Cons.prems by (simp_all add: x)
  then show ?case unfolding x sync_clone_rest by (simp add: Cons.IH write_atomic_get)
qed simp

lemma sync_clone_copies:
  "(n, c) \<in> set src \<Longrightarrow> distinct (map fst src) \<Longrightarrow> writable [''clones'', a, n] \<Longrightarrow>
     dict_get (fst (sync_clone writable a src fs)) [''clones'', a, n] = Some c"
proof (induction src arbitrary: fs)
  case (Cons x src)
  obtain m d where x: "x = (m, d)" by (cases x)
  show ?case
  proof (cases "(n, c) = x")
    case True
    then have "\<forall>(k, e) \<in> set src. [''clones'', a, n] \<noteq> [''clones'', a, k]" using Cons.prems(2) by (force simp: x)
    then show ?thesis using True Cons.prems(3) unfolding x sync_clone_rest by (simp add: sync_clone_other write_atomic_get)
  next
    case False
    then have "(n, c) \<in> set src" "distinct (map fst src)" using Cons.prems by auto
    then show ?thesis using Cons.IH Cons.prems(3) unfolding x sync_clone_rest by blast
  qed
qed simp

lemma sync_clones_rest:
  "fst (sync_clones writable is_dir src (b # acs) fs)
     = fst (sync_clones writable is_dir src acs (if is_dir (ac_id b) then fst (sync_clone writable (ac_id b) src fs) else fs))"
  by (simp split: prod.splits)

lemma sync_clones_other:
  "(\<And>ac n. ac \<in> set acs \<Longrightarrow> q \<noteq> [''clones'', ac_id ac, n]) \<Longrightarrow> dict_get (fst (sync_clones writable is_dir src acs fs)) q = dict_get fs q"
proof (induction acs arbitrary: fs)
  case (Cons ac acs)
  have "dict_get (fst (sync_clone writable (ac_id ac) src fs)) q = dict_get fs q" by (rule sync_clone_other) (use Cons.prems in auto)
  then show ?case using Cons unfolding sync_clones_rest by simp
qed simp

lemma sync_clones_copies:
  "ac \<in> set acs \<Longrightarrow> distinct (map ac_id acs) \<Longrightarrow> is_dir (ac_id ac) \<Longrightarrow> (n, c) \<in> set src \<Longrightarrow> distinct (map fst src) \<Longrightarrow>
     writable [''clones'', ac_id ac, n] \<Longrightarrow> dict_get (fst (sync_clones writable is_dir src acs fs)) [''clones'', ac_id ac, n] = Some c"
proof (induction acs arbitrary: fs)
  case (Cons b acs)
  let ?fs = "if is_dir (ac_id b) then fst (sync_clone writable (ac_id b) src fs) else fs"
  show ?case
  proof (cases "ac = b")
    case True
    have "dict_get (fst (sync_clones writable is_dir src acs ?fs)) [''clones'', ac_id ac, n] = dict_get ?fs [''clones'', ac_id ac, n]"
      by (rule sync_clones_other) (use Cons.prems(2) True in force)
    then show ?thesis using Cons.prems True sync_clone_copies [of n c src writable "ac_id b" fs] unfolding sync_clones_rest by simp
  next
    case False
    then show ?thesis using Cons unfolding sync_clones_rest by simp
  qed
qed simp


lemma source_files_mem: "read_text fs [''context'', n] = Some c \<Longrightarrow> n \<in> set SYNC_FILES \<Longrightarrow> (n, c) \<in> set (source_files fs)"
  by (force simp: source_files_def List.map_filter_def)

lemma source_files_distinct: "distinct (map fst (source_files fs))"
proof -
  have filtered: "set (map fst (List.map_filter (\<lambda>n. map_option (Pair n) (g n)) ns)) \<subseteq> set ns
      \<and> (distinct ns \<longrightarrow> distinct (map fst (List.map_filter (\<lambda>n. map_option (Pair n) (g n)) ns)))" for g and ns :: "string list"
    by (induction ns) (auto simp: List.map_filter_simps split: option.splits)
  have "distinct SYNC_FILES" by (simp add: SYNC_FILES_def)
  then show ?thesis unfolding source_files_def using filtered [of "\<lambda>n. read_text fs [''context'', n]" SYNC_FILES] by simp
qed

lemma prepared_get:
  "p \<noteq> [''context'', ''PM-CONTEXT.md''] \<Longrightarrow> p \<noteq> [''context'', ''STRATEGIST-PROMPT.md''] \<Longrightarrow>
     dict_get (fst (write_pm_context writable (rename_old_prompt fs))) p = dict_get fs p"
  by (auto simp: write_pm_context_def rename_old_prompt_def write_atomic_get dict_simps split: sum.splits option.splits)

lemma sync_context_keeps:
  assumes "p \<noteq> [''context'', ''PM-CONTEXT.md'']" "p \<noteq> [''context'', ''STRATEGIST-PROMPT.md'']" "hd p = ''context''"
  shows "dict_get (fst (sync_context_files writable is_dir cfg fs)) p = dict_get fs p"
proof -
  have "p \<noteq> [''clones'', a, n]" for a n using assms(3) by auto
  then show ?thesis using prepared_get [OF assms(1,2)] unfolding sync_context_files_def Let_def by (subst sync_clones_other) simp_all
qed

lemma sync_context_copies:
  assumes "dict_get fs [''context'', ''INTERFACES.md''] = Some c" "ac \<in> set (pc_agents cfg)" "distinct (map ac_id (pc_agents cfg))"
    and "is_dir (ac_id ac)" "writable [''clones'', ac_id ac, ''INTERFACES.md'']"
  shows "dict_get (fst (sync_context_files writable is_dir cfg fs)) [''clones'', ac_id ac, ''INTERFACES.md''] = Some (universal_newlines c)"
proof -
  let ?fs = "fst (write_pm_context writable (rename_old_prompt fs))"
  have "dict_get ?fs [''context'', ''INTERFACES.md''] = Some c" using prepared_get assms(1) by simp
  then have "(''INTERFACES.md'', universal_newlines c) \<in> set (source_files ?fs)"
    by (intro source_files_mem) (simp_all add: SYNC_FILES_def read_text_def)
  then show ?thesis
    unfolding sync_context_files_def Let_def using sync_clones_copies [where is_dir = is_dir, OF assms(2-4)] source_files_distinct assms(5) by blast
qed

text \<open>What the log of changes holds; a missing file is an empty log.\<close>

definition read_changes :: "interface_change_log json_codec \<Rightarrow> files \<Rightarrow> interface_change_record list option" where
  "read_changes C fs = (case read_text fs CHANGES of None \<Rightarrow> Some [] | Some t \<Rightarrow> map_option il_records (validate_json C t))"

text \<open>What the log relies on: a log that was written is read back.\<close>

locale change_log_codec =
  fixes C :: "interface_change_log json_codec"
  assumes read_back: "validate_json C (dump_json C l) = Some l"
    and no_cr: "CHR 0x0D \<notin> set (dump_json C l)"
begin

lemma logged:
  assumes "log_interface_change C writable rc fs = (fs', Inr ())"
  shows "\<exists>rs. read_changes C fs = Some rs \<and> read_changes C fs' = Some (rs @ [rc])"
  using assms read_back no_cr
  by (auto simp: log_interface_change_def read_changes_def read_text_def write_atomic_def dict_simps universal_newlines_id split: option.splits if_splits)

lemma log_keeps: "log_interface_change C writable rc fs = (fs', r) \<Longrightarrow> p \<noteq> CHANGES \<Longrightarrow> dict_get fs' p = dict_get fs p"
  by (auto simp: log_interface_change_def write_atomic_def dict_simps split: option.splits if_splits)

lemma applied:
  assumes "apply_interface_change C writable is_dir cfg content rc fs = (fs', Inr r)" "distinct (map ac_id (pc_agents cfg))"
  shows "dict_get fs' [''context'', ''INTERFACES.md''] = Some content
    \<and> (\<exists>rs. read_changes C fs = Some rs \<and> read_changes C fs' = Some (rs @ [rc]))
    \<and> (\<forall>ac \<in> set (pc_agents cfg). is_dir (ac_id ac) \<and> writable [''clones'', ac_id ac, ''INTERFACES.md''] \<longrightarrow>
         dict_get fs' [''clones'', ac_id ac, ''INTERFACES.md''] = Some (universal_newlines content))"
proof -
  let ?fs1 = "dict_set fs [''context'', ''INTERFACES.md''] content"
  obtain fs2 where fs2: "log_interface_change C writable rc ?fs1 = (fs2, Inr ())" "fs' = fst (sync_context_files writable is_dir cfg fs2)"
    using assms(1) by (auto simp: apply_interface_change_def write_atomic_def split: if_splits prod.splits sum.splits)
  have i: "dict_get fs2 [''context'', ''INTERFACES.md''] = Some content"
    using log_keeps [OF fs2(1)] by (simp add: CHANGES_def dict_simps)
  have "read_changes C ?fs1 = read_changes C fs" by (simp add: read_changes_def read_text_def CHANGES_def dict_simps)
  moreover have "read_changes C fs' = read_changes C fs2" unfolding fs2(2) read_changes_def read_text_def by (simp add: sync_context_keeps CHANGES_def)
  ultimately have "\<exists>rs. read_changes C fs = Some rs \<and> read_changes C fs' = Some (rs @ [rc])" using logged [OF fs2(1)] by simp
  moreover have "dict_get fs' [''context'', ''INTERFACES.md''] = Some content" unfolding fs2(2) using i by (simp add: sync_context_keeps)
  ultimately show ?thesis using sync_context_copies [OF i _ assms(2)] unfolding fs2(2) by blast
qed

end

text \<open>The log as JSON.\<close>

definition action_name :: "change_action \<Rightarrow> string" where
  "action_name x = (case x of Proposed \<Rightarrow> ''proposed'' | ChangeApproved \<Rightarrow> ''approved'' | ChangeRejected \<Rightarrow> ''rejected'' | Applied \<Rightarrow> ''applied'')"

definition action_of :: "string \<Rightarrow> change_action option" where
  "action_of s = find (\<lambda>x. action_name x = s) [Proposed, ChangeApproved, ChangeRejected, Applied]"

definition change_json :: "interface_change_record \<Rightarrow> json" where
  "change_json r = JObj [(''timestamp'', JStr (ic_timestamp r)), (''agent_id'', JStr (ic_agent_id r)), (''action'', JStr (action_name (ic_action r))),
     (''description'', JStr (ic_description r)), (''diff'', JStr (ic_diff r)), (''reviewer_note'', JStr (ic_reviewer_note r))]"

definition change_of_json :: "json \<Rightarrow> interface_change_record option" where
  "change_of_json j =
     Option.bind (json_field j ''timestamp'' as_str) (\<lambda>ts.
     Option.bind (json_field j ''agent_id'' as_str) (\<lambda>a.
     Option.bind (Option.bind (json_field j ''action'' as_str) action_of) (\<lambda>x.
     Option.bind (json_field j ''description'' as_str) (\<lambda>d.
     Option.bind (json_field j ''diff'' as_str) (\<lambda>df.
     Option.bind (json_field j ''reviewer_note'' as_str) (\<lambda>n.
       Some \<lparr>ic_timestamp = ts, ic_agent_id = a, ic_action = x, ic_description = d, ic_diff = df, ic_reviewer_note = n\<rparr>))))))"

fun changes_of_json :: "json \<Rightarrow> interface_change_record list option" where
  "changes_of_json (JArr js) = those (map change_of_json js)"
| "changes_of_json _ = None"

definition change_log_json :: "interface_change_log \<Rightarrow> json" where
  "change_log_json l = JObj [(''project'', JStr (il_project l)), (''records'', JArr (map change_json (il_records l)))]"

definition change_log_file :: "interface_change_log json_codec" where
  "change_log_file =
     \<lparr>dump_json = (\<lambda>l. dumps (change_log_json l)),
      validate_json = (\<lambda>s. Option.bind (loads s) (\<lambda>j.
        Option.bind (json_field j ''project'' as_str) (\<lambda>p.
        Option.bind (json_field j ''records'' changes_of_json) (\<lambda>rs. Some \<lparr>il_project = p, il_records = rs\<rparr>))))\<rparr>"

lemma change_read_back: "change_of_json (change_json r) = Some r"
proof -
  have "action_of (action_name x) = Some x" for x by (cases x) (simp_all add: action_of_def action_name_def)
  then show ?thesis by (simp add: change_of_json_def change_json_def json_field_def)
qed

lemma dumps_no_cr: "CHR 0x0D \<notin> set (dumps j)" "CHR 0x0D \<notin> set (dumps_items xs)" "CHR 0x0D \<notin> set (dumps_fields kvs)"
proof -
  have hex: "CHR 0x0D \<noteq> hex_char d" if "d < 16" for d
    using that by (auto simp: hex_char_def char_eq_code)
  have esc: "CHR 0x0D \<notin> set (esc_char c)" for c
  proof -
    have "CHR 0x0D \<noteq> hex_char (of_char c div 16)" "CHR 0x0D \<noteq> hex_char (of_char c mod 16)"
      using hex [of "of_char c div 16"] hex [of "of_char c mod 16"] by (simp_all add: less_mult_imp_div_less)
    moreover have "(of_char c :: nat) \<noteq> 13 \<Longrightarrow> CHR 0x0D \<noteq> c" by auto
    ultimately show ?thesis by (auto simp: esc_char_def Let_def)
  qed
  have str: "CHR 0x0D \<notin> set (show_str s)" for s using esc by (auto simp: show_str_def)
  have num: "CHR 0x0D \<notin> set (show_int i)" for i
  proof -
    have "CHR 0x0D \<notin> set (show_nat n)" for n using show_nat_digits [of n] by (auto simp: is_digit_def)
    then show ?thesis by (simp add: show_int_def)
  qed
  show "CHR 0x0D \<notin> set (dumps j)" "CHR 0x0D \<notin> set (dumps_items xs)" "CHR 0x0D \<notin> set (dumps_fields kvs)"
    by (induction j and xs and kvs rule: dumps_dumps_items_dumps_fields.induct) (auto simp: num str)
qed

interpretation cl: change_log_codec change_log_file
proof
  fix l
  have items: "wf_items (map change_json rs)" for rs by (induction rs) (simp_all add: change_json_def)
  have those: "those (map change_of_json (map change_json rs)) = Some rs" for rs by (induction rs) (simp_all add: change_read_back)
  have "wf_json (change_log_json l)" by (simp add: change_log_json_def items)
  then have "loads (dumps (change_log_json l)) = Some (change_log_json l)" by (rule loads_dumps)
  then show "validate_json change_log_file (dump_json change_log_file l) = Some l"
    using those [of "il_records l"] by (simp add: change_log_file_def change_log_json_def json_field_def del: dumps.simps)
  show "CHR 0x0D \<notin> set (dump_json change_log_file l)" by (simp add: change_log_file_def dumps_no_cr del: dumps.simps)
qed

text \<open>
  C39. A contract that is applied reaches everybody. When applying a change of the interfaces succeeds, the canonical file has the new text as it was
  given, the record is appended to the log of changes with nothing of it lost, and every clone that is there and whose file can be written has
  the new text as Python reads it, with its line ends translated to LF, whatever goes wrong in other clones: the very same text if it has no
  carriage return. This holds for every codec of the log that reads back what it writes and writes no carriage return.
\<close>

theorem interface_change_applied:
  assumes "\<And>l. validate_json C (dump_json C l) = Some l" "\<And>l. CHR 0x0D \<notin> set (dump_json C l)"
    and "apply_interface_change C writable is_dir cfg content rc fs = (fs', Inr r)" "distinct (map ac_id (pc_agents cfg))"
  shows "dict_get fs' [''context'', ''INTERFACES.md''] = Some content
    \<and> (\<exists>rs. read_changes C fs = Some rs \<and> read_changes C fs' = Some (rs @ [rc]))
    \<and> (\<forall>ac \<in> set (pc_agents cfg). is_dir (ac_id ac) \<and> writable [''clones'', ac_id ac, ''INTERFACES.md''] \<longrightarrow>
         dict_get fs' [''clones'', ac_id ac, ''INTERFACES.md''] = Some (universal_newlines content))
    \<and> (CHR 0x0D \<notin> set content \<longrightarrow> universal_newlines content = content)"
  using change_log_codec.applied [OF change_log_codec.intro [OF assms(1,2)] assms(3,4)] universal_newlines_id by blast

definition two_clones :: project_config where
  "two_clones =
     (let ag = (\<lambda>a. \<lparr>ac_id = a, ac_role = [], ac_owns = [a], ac_consumes = [], ac_gsd_mode = Full, ac_system_prompt = [], ac_type = GsdKind, ac_transport = [],
        ac_docker_image = None\<rparr>) in
      \<lparr>pc_project = ''p'', pc_repo = ''r'', pc_agents = [ag ''x'', ag ''y''], pc_shared_readonly = []\<rparr>)"

definition demo_change :: interface_change_record where
  "demo_change = \<lparr>ic_timestamp = ''t'', ic_agent_id = ''x'', ic_action = Applied, ic_description = [], ic_diff = [], ic_reviewer_note = []\<rparr>"

theorem interface_change_applied_witness:
  "\<exists>fs' r. apply_interface_change change_log_file (\<lambda>p. p \<noteq> [''clones'', ''x'', ''INTERFACES.md'']) (\<lambda>a. True) two_clones (''new'' @ [CHR 0x0D, CHR 0x0A]) demo_change []
       = (fs', Inr r)
     \<and> read_changes change_log_file fs' = Some [demo_change] \<and> dict_get fs' [''clones'', ''y'', ''INTERFACES.md''] = Some (''new'' @ [CHR 0x0A])"
proof -
  let ?w = "\<lambda>p. p \<noteq> [''clones'', ''x'', ''INTERFACES.md'']"
  obtain fs' r where ap: "apply_interface_change change_log_file ?w (\<lambda>a. True) two_clones (''new'' @ [CHR 0x0D, CHR 0x0A]) demo_change [] = (fs', Inr r)"
    by (cases "sync_context_files ?w (\<lambda>a. True) two_clones [([''context'', ''INTERFACES.md''], ''new'' @ [CHR 0x0D, CHR 0x0A]), (CHANGES, dump_json change_log_file \<lparr>il_project = [], il_records = [demo_change]\<rparr>)]")
      (simp add: apply_interface_change_def write_atomic_def log_interface_change_def CHANGES_def read_text_def)
  have d: "distinct (map ac_id (pc_agents two_clones))" "\<exists>ac \<in> set (pc_agents two_clones). ac_id ac = ''y''" by (simp_all add: two_clones_def)
  have e: "read_changes change_log_file [] = Some []" by (simp add: read_changes_def read_text_def)
  have n: "universal_newlines (''new'' @ [CHR 0x0D, CHR 0x0A]) = ''new'' @ [CHR 0x0A]" by simp
  have w: "?w [''clones'', ''y'', ''INTERFACES.md'']" by simp
  have "read_changes change_log_file fs' = Some [demo_change] \<and> dict_get fs' [''clones'', ''y'', ''INTERFACES.md''] = Some (''new'' @ [CHR 0x0A])"
    using interface_change_applied [OF cl.read_back cl.no_cr ap d(1)] d(2) e w unfolding n by fastforce
  then show ?thesis using ap by blast
qed

end
