(* ===== verification/Model_Routing.thy ===== *)
theory Model_Routing
  imports Vco_Prelude
begin

text \<open>
  The routing policy for models, \<open>models/model_routing.py\<close>: its schema, the checks of its references and the two lookups.
  The YAML parser and the conversion of its values to the fields' types are not modelled; a configuration is the typed value
  that the constructor validates. The fields with a single allowed value are left out.
\<close>

section \<open>The schema\<close>

record provider_config =
  pv_notes :: string

record model_profile =
  mf_provider :: string
  mf_model :: string
  mf_purpose :: string
  mf_max_attempts :: int
  mf_allowed_actions :: "string list"

record escalation_chain =
  ec_steps :: "string list"

record situation_route =
  si_description :: string
  si_profile :: string
  si_chain :: string
  si_when :: "string list"

record routing_thresholds =
  rt_default_max_files :: int
  rt_default_max_changed_lines :: int
  rt_reviewer_max_files :: int
  rt_reviewer_max_changed_lines :: int
  rt_worker_failed_attempts_before_reviewer :: int
  rt_worker_failed_attempts_before_premium :: int
  rt_premium_failed_attempts_before_strategist :: int
  rt_strategist_failed_attempts_before_human :: int

definition default_thresholds :: routing_thresholds where
  "default_thresholds =
     \<lparr>rt_default_max_files = 5, rt_default_max_changed_lines = 600, rt_reviewer_max_files = 8, rt_reviewer_max_changed_lines = 1000,
      rt_worker_failed_attempts_before_reviewer = 1, rt_worker_failed_attempts_before_premium = 2,
      rt_premium_failed_attempts_before_strategist = 1, rt_strategist_failed_attempts_before_human = 1\<rparr>"

record model_alias =
  al_current :: string
  al_candidate :: string
  al_cutover_requirements :: "string list"

record model_routing_config =
  rc_version :: int
  rc_providers :: "(string, provider_config) dict"
  rc_profiles :: "(string, model_profile) dict"
  rc_escalation_chains :: "(string, escalation_chain) dict"
  rc_situations :: "(string, situation_route) dict"
  rc_thresholds :: routing_thresholds
  rc_high_risk_paths :: "string list"
  rc_strategic_triggers :: "string list"
  rc_model_aliases :: "(string, model_alias) dict"

section \<open>Validation\<close>

text \<open>The bounds of the fields.\<close>

definition thresholds_ok :: "routing_thresholds \<Rightarrow> bool" where
  "thresholds_ok t =
     list_all (\<lambda>n. 1 \<le> n)
       [rt_default_max_files t, rt_default_max_changed_lines t, rt_reviewer_max_files t, rt_reviewer_max_changed_lines t,
        rt_worker_failed_attempts_before_reviewer t, rt_worker_failed_attempts_before_premium t,
        rt_premium_failed_attempts_before_strategist t, rt_strategist_failed_attempts_before_human t]"

definition fields_ok :: "model_routing_config \<Rightarrow> bool" where
  "fields_ok cfg \<longleftrightarrow>
     list_all (\<lambda>(n, p). 1 \<le> mf_max_attempts p) (rc_profiles cfg) \<and> list_all (\<lambda>(n, c). ec_steps c \<noteq> []) (rc_escalation_chains cfg)
     \<and> thresholds_ok (rc_thresholds cfg)"

definition quote :: "string \<Rightarrow> string" where
  "quote s = [CHR 0x27] @ s @ [CHR 0x27]"

definition has_key :: "('k, 'v) dict \<Rightarrow> 'k \<Rightarrow> bool" where
  "has_key d k \<longleftrightarrow> k \<in> set (dict_keys d)"

text \<open>The errors of each loop in the order in which it finds them; the first one is raised.\<close>

definition profile_errors :: "model_routing_config \<Rightarrow> string list" where
  "profile_errors cfg = concat (map (\<lambda>(n, p).
     if has_key (rc_providers cfg) (mf_provider p) then []
     else [''profile '' @ quote n @ '' references unknown provider '' @ quote (mf_provider p)]) (rc_profiles cfg))"

definition chain_errors :: "model_routing_config \<Rightarrow> string list" where
  "chain_errors cfg = concat (map (\<lambda>(n, c). concat (map (\<lambda>step.
     if has_key (rc_profiles cfg) step then []
     else [''escalation chain '' @ quote n @ '' references unknown profile '' @ quote step]) (ec_steps c))) (rc_escalation_chains cfg))"

definition situation_errors :: "model_routing_config \<Rightarrow> string list" where
  "situation_errors cfg = concat (map (\<lambda>(n, s).
     (if has_key (rc_profiles cfg) (si_profile s) then []
      else [''situation '' @ quote n @ '' references unknown profile '' @ quote (si_profile s)])
     @ (if has_key (rc_escalation_chains cfg) (si_chain s) then []
        else [''situation '' @ quote n @ '' references unknown chain '' @ quote (si_chain s)])) (rc_situations cfg))"

definition alias_errors :: "model_routing_config \<Rightarrow> string list" where
  "alias_errors cfg = concat (map (\<lambda>(n, al).
     case dict_get (rc_profiles cfg) n of
       None \<Rightarrow> [''model alias '' @ quote n @ '' must match a defined profile name'']
     | Some p \<Rightarrow>
         if mf_model p = al_current al then []
         else [''model alias '' @ quote n @ '' current model '' @ quote (al_current al) @ '' does not match profile model '' @ quote (mf_model p)])
     (rc_model_aliases cfg))"

definition validate_references :: "model_routing_config \<Rightarrow> py_error + model_routing_config" where
  "validate_references cfg =
     (case profile_errors cfg @ chain_errors cfg @ situation_errors cfg @ alias_errors cfg of
        [] \<Rightarrow> Inr cfg
      | e # es \<Rightarrow> Inl (ValueError e))"

text \<open>The constructor: an error of the validator is reported as a \<open>ValidationError\<close>.\<close>

definition new_model_routing :: "model_routing_config \<Rightarrow> py_error + model_routing_config" where
  "new_model_routing cfg =
     (if \<not> fields_ok cfg then Inl ValidationError
      else (case validate_references cfg of Inl e \<Rightarrow> Inl ValidationError | Inr c \<Rightarrow> Inr c))"

section \<open>Lookups\<close>

definition lookup :: "(string, 'v) dict \<Rightarrow> string \<Rightarrow> py_error + 'v" where
  "lookup d k = (case dict_get d k of None \<Rightarrow> Inl (KeyError k) | Some v \<Rightarrow> Inr v)"

definition profile_for_situation :: "model_routing_config \<Rightarrow> string \<Rightarrow> py_error + model_profile" where
  "profile_for_situation cfg s =
     (case lookup (rc_situations cfg) s of Inl e \<Rightarrow> Inl e | Inr r \<Rightarrow> lookup (rc_profiles cfg) (si_profile r))"

definition escalation_steps_for_situation :: "model_routing_config \<Rightarrow> string \<Rightarrow> py_error + string list" where
  "escalation_steps_for_situation cfg s =
     (case lookup (rc_situations cfg) s of
        Inl e \<Rightarrow> Inl e
      | Inr r \<Rightarrow> (case lookup (rc_escalation_chains cfg) (si_chain r) of Inl e \<Rightarrow> Inl e | Inr c \<Rightarrow> Inr (ec_steps c)))"

section \<open>A valid policy answers every situation\<close>

lemma has_key_lookup: "has_key d k \<longleftrightarrow> (\<exists>v. lookup d k = Inr v)"
  unfolding has_key_def dict_keys_iff_get lookup_def by (cases "dict_get d k") simp_all

lemma lookup_mem: "lookup d k = Inr v \<Longrightarrow> (k, v) \<in> set d"
  by (auto simp: lookup_def dest: map_of_SomeD split: option.splits)

lemma valid_routing:
  assumes "new_model_routing cfg = Inr cfg'"
  shows "cfg' = cfg" "fields_ok cfg" "profile_errors cfg = []" "chain_errors cfg = []" "situation_errors cfg = []" "alias_errors cfg = []"
  using assms by (auto simp: new_model_routing_def validate_references_def split: if_splits list.splits)

text \<open>A name of a profile that can be used: the profile is defined, its provider too, and it allows an attempt.\<close>

definition usable_profile :: "model_routing_config \<Rightarrow> string \<Rightarrow> bool" where
  "usable_profile cfg n =
     (case dict_get (rc_profiles cfg) n of
        None \<Rightarrow> False
      | Some p \<Rightarrow> has_key (rc_providers cfg) (mf_provider p) \<and> 1 \<le> mf_max_attempts p)"

lemma usable_profile_key:
  assumes "new_model_routing cfg = Inr cfg'" "has_key (rc_profiles cfg) n"
  shows "usable_profile cfg n"
proof -
  obtain p where p: "lookup (rc_profiles cfg) n = Inr p" using assms(2) by (auto simp: has_key_lookup)
  then have "dict_get (rc_profiles cfg) n = Some p" "(n, p) \<in> set (rc_profiles cfg)"
    using lookup_mem [OF p] by (auto simp: lookup_def split: option.splits)
  then show ?thesis
    using valid_routing(2,3) [OF assms(1)] by (auto simp: usable_profile_def fields_ok_def list_all_iff profile_errors_def split: if_splits)
qed

text \<open>
  C36. A routing policy that is accepted never fails to route. Every situation it names has a usable profile, with a known provider and at least one
  attempt, and an escalation chain that is not empty and consists of usable profiles; an unknown situation raises \<open>KeyError\<close>.
\<close>

theorem routing_total:
  assumes "new_model_routing cfg = Inr cfg'"
  shows "(if has_key (rc_situations cfg') s
     then \<exists>r p steps. dict_get (rc_situations cfg') s = Some r \<and> profile_for_situation cfg' s = Inr p
        \<and> dict_get (rc_profiles cfg') (si_profile r) = Some p \<and> usable_profile cfg' (si_profile r)
        \<and> escalation_steps_for_situation cfg' s = Inr steps \<and> steps \<noteq> [] \<and> list_all (usable_profile cfg') steps
     else profile_for_situation cfg' s = Inl (KeyError s) \<and> escalation_steps_for_situation cfg' s = Inl (KeyError s))"
proof -
  note v = valid_routing [OF assms]
  show ?thesis
  proof (cases "has_key (rc_situations cfg) s")
    case True
    then obtain r where r: "lookup (rc_situations cfg) s = Inr r" by (auto simp: has_key_lookup)
    have keys: "has_key (rc_profiles cfg) (si_profile r)" "has_key (rc_escalation_chains cfg) (si_chain r)"
      using v(5) lookup_mem [OF r] by (auto simp: situation_errors_def split: if_splits)
    obtain p c where pc: "lookup (rc_profiles cfg) (si_profile r) = Inr p" "lookup (rc_escalation_chains cfg) (si_chain r) = Inr c"
      using keys by (auto simp: has_key_lookup)
    have "ec_steps c \<noteq> []" using v(2) lookup_mem [OF pc(2)] by (auto simp: fields_ok_def list_all_iff)
    moreover have "list_all (usable_profile cfg) (ec_steps c)"
      using v(4) lookup_mem [OF pc(2)] usable_profile_key [OF assms] by (fastforce simp: chain_errors_def list_all_iff split: if_splits)
    ultimately show ?thesis
      using True r pc usable_profile_key [OF assms keys(1)]
      by (auto simp: v(1) profile_for_situation_def escalation_steps_for_situation_def lookup_def split: option.splits)
  next
    case False
    then have "lookup (rc_situations cfg) s = Inl (KeyError s)" by (auto simp: has_key_lookup lookup_def split: option.splits)
    then show ?thesis using False by (simp add: v(1) profile_for_situation_def escalation_steps_for_situation_def)
  qed
qed

definition demo_routing :: model_routing_config where
  "demo_routing =
     \<lparr>rc_version = 1, rc_providers = [(''o'', \<lparr>pv_notes = []\<rparr>)],
      rc_profiles = [(''cheap'', \<lparr>mf_provider = ''o'', mf_model = ''m'', mf_purpose = [], mf_max_attempts = 1, mf_allowed_actions = []\<rparr>)],
      rc_escalation_chains = [(''code'', \<lparr>ec_steps = [''cheap'']\<rparr>)],
      rc_situations = [(''fix'', \<lparr>si_description = [], si_profile = ''cheap'', si_chain = ''code'', si_when = []\<rparr>)],
      rc_thresholds = default_thresholds, rc_high_risk_paths = [], rc_strategic_triggers = [],
      rc_model_aliases = [(''cheap'', \<lparr>al_current = ''m'', al_candidate = ''n'', al_cutover_requirements = []\<rparr>)]\<rparr>"

theorem routing_total_witness:
  "\<exists>p. profile_for_situation demo_routing ''fix'' = Inr p \<and> usable_profile demo_routing ''cheap''"
proof -
  have "new_model_routing demo_routing = Inr demo_routing" by code_simp
  moreover have "has_key (rc_situations demo_routing) ''fix''" by code_simp
  moreover have "dict_get (rc_situations demo_routing) ''fix'' = Some \<lparr>si_description = [], si_profile = ''cheap'', si_chain = ''code'', si_when = []\<rparr>"
    by (simp add: demo_routing_def)
  ultimately show ?thesis using routing_total [of demo_routing demo_routing "''fix''"] by auto
qed

end
