(* ===== verification/Spec2Isabelle.thy ===== *)
theory Spec2Isabelle
  imports Restart_Tracker Delegation Degraded_Mode Bulk_Failure Message_Queue
    Memory_Store Backlog Project_State Scheduler Supervisor Worker Company_Root
    Plan_Review Daemon_Server Runtime_Api Conflict_Resolver Workflow Daemon Monitor Plan_Gate
    Alerts Question_Handler Coordination Model_Routing
begin

text \<open>
  Verification of vCompany, a runtime that hires, supervises and coordinates coding agents. Paths are below
  \<open>src/src/vcompany\<close> unless they start with \<open>vco_worker\<close>, the package of the worker process.

  \<^bold>\<open>The program.\<close> A daemon (\<open>daemon/daemon.py\<close>) owns the root of a supervision tree (\<open>supervisor/company_root.py\<close>) and
  answers requests on a socket (\<open>daemon/server.py\<close>, \<open>daemon/runtime_api.py\<close>). An agent is a worker process
  (\<open>vco_worker/main.py\<close>) with a lifecycle and a message handler; the daemon holds a handle for it and both sides exchange
  lines of JSON. A Discord bot in the same process brings the owner's messages to the agents (\<open>bot/routing.py\<close>,
  \<open>bot/cogs/\<close>), their questions, plans and stages to the project manager (\<open>strategist/\<close>), and alerts to the owner. A monitor
  (\<open>monitor/\<close>) watches the agents' clones, and the integration pipeline (\<open>integration/\<close>) merges their branches.

  \<^bold>\<open>Foundations.\<close>
  \<^item> \<open>Vco_Prelude\<close>: exceptions as values (\<open>py_error\<close>), operations that may raise after they changed their object (\<open>outcome\<close>),
    insertion-ordered dictionaries, and the collections \<open>dict_simps\<close> and \<open>py_simps\<close>.
  \<^item> \<open>Py_String\<close>, \<open>Py_Json\<close>, \<open>Py_Value\<close>, \<open>Py_Path\<close>: what the code uses of Python's strings, of its \<open>json\<close> module (with the proof that
    \<open>loads\<close> inverts \<open>dumps\<close>), of values whose type is not known, and of directory scans.
  \<^item> \<open>Sliding_Window\<close>, \<open>Memory_Store\<close>, \<open>Git_Ops\<close>: the contract of a limiter over a sliding window (locale \<open>window_limiter\<close>, interpreted
    by the restart tracker, the delegation tracker and the supervisor), the key-value store (locale \<open>kv_store\<close>), and the commands of git.

  \<^bold>\<open>Supervision.\<close> \<open>Restart_Tracker\<close>, \<open>Bulk_Failure\<close>, \<open>Degraded_Mode\<close>, \<open>Delegation\<close>, \<open>Message_Queue\<close> and \<open>Scheduler\<close> model the classes of these
  names; \<open>Supervisor\<close> the supervisor and the project supervisor with the three restart strategies; \<open>Company_Root\<close> the root
  with the deployment of files, hiring, dismissal, reconnection and the reader of a worker's messages; \<open>Agent_Handle\<close> the handles and the routing table.
  Shown: at most so many restarts, delegations and wakes fall into a window; a strategy restarts exactly the children it names; no
  message is lost, doubled or reordered within its priority (a health report that a newer one replaces is recorded as such), and while
  sends succeed every run of the loop empties the queue; degraded mode is the one the streaks of health results give; every agent in the routing table is known
  and reachable again after the daemon restarts; a supervisor with specifications can never be started.

  \<^bold>\<open>Worker.\<close> \<open>Lifecycle\<close> has the three machines as transition tables with history (locale \<open>lifecycle\<close>); \<open>Worker\<close> the container, its
  handlers, the Claude session and the main loop; \<open>Channel\<close> the message types and their framing. Shown: phases advance one at a time and survive a
  restart, every message gets the answers of the protocol, and a stream of
  messages is read back whatever the chunks, up to the first line over the limit of the reader.

  \<^bold>\<open>Autonomy.\<close> \<open>Backlog\<close> and \<open>Project_State\<close>: claims are exclusive, order is kept, and the backlog is the one that was saved.

  \<^bold>\<open>Daemon and bot.\<close> \<open>Daemon_Server\<close> models the socket's protocol, server and client; \<open>Runtime_Api\<close> the gateway; \<open>Comm_Port\<close> the communication port and its
  Discord adapter (locale \<open>channel_maker\<close>, interpreted by both); \<open>Daemon\<close> the socket methods, signals, boot and shutdown;
  \<open>Bot_Routing\<close> the classification and delivery of messages; \<open>Workflow\<close> the gates between the stages of an agent's work; \<open>Plan_Gate\<close> the review of plans on Discord;
  \<open>Question_Handler\<close> questions and escalations; \<open>Alerts\<close> the alerts. Shown: no method runs before the greeting and every line is answered once; a hired
  agent hears and speaks in its channel; the router refines a table of channels; events stay in the channel of their agent; an approval
  starts no execution; a question asked through the daemon gets the first reply to its post; every alert is posted, buffered or dropped by a refused flush.

  \<^bold>\<open>Project manager, monitor, integration.\<close> \<open>Project_Config\<close>, \<open>Agent_Types\<close>, \<open>Model_Routing\<close> are the configurations; \<open>Strategist\<close> the scorer, the manager and the decision
  log; \<open>Plan_Review\<close> the checks of a plan; \<open>Monitor\<close> the checks, roadmaps, status file, heartbeat and safety tables; \<open>Coordination\<close> the shared
  context, interface changes, check-ins and stand-ups; \<open>Integration\<close> and \<open>Conflict_Resolver\<close> the pipeline. Shown: approved plans touch disjoint files; what
  is published is what was tested; the hunks of a file are its conflict blocks; a roadmap is read as it was written; a scan reports exactly the
  changed plans; an applied contract reaches every writable clone, with its line ends translated; a valid routing policy answers every situation.

  \<^bold>\<open>What the theorems show of the code's faults.\<close> Several properties state what the code does where that is not what it is meant to do: signals are
  never delivered, a project with agents can never be created, an objection to a duplicate plan is read as an approval, a plan announced by mention is
  executed without a check of its files and dependencies, the question handler ignores the questions of the daemon, the first plans of an agent are never reported, a superseded stand-up call waits forever.

  \<^bold>\<open>Conventions.\<close> One definition per function, method or type of the source, with its name where it is free. Code outside the repository is an argument: Discord's
  acceptance of posts, git and other processes, YAML, pydantic codecs, clocks, language models. What a client relies on is the assumption of a
  locale or a hypothesis of the theorem, and each has an instance on the model's own JSON. Floating-point numbers are rationals and
  strings are 8-bit code points. Where the code reads a file as text, the translation of line ends by Python is part of the model (\<open>universal_newlines\<close>). A coroutine runs to its next point of waiting as one step; where it waits for an answer it is split there.

  \<^bold>\<open>Bounds and fuel.\<close> All functions are total. The scanner of conflict blocks is a \<open>partial_function\<close> that is proved to return for every file. The poll for a
  reply is bounded by its own 120 polls. The cuts to 200, 500, 1000, 1500, 1800, 1900, 3000 and 4096 characters are those of the code.

  \<^bold>\<open>Not modelled.\<close> Command-line commands, slash commands, embeds other than those named, views, the bot's client and channel set-up, and the health and workflow-master cogs only pass values on or format
  them. Transports, tmux and Docker are processes and sockets. Logging, paths, templates, personas and prompts
  are constants or text. The scripts under \<open>src/tools\<close> are separate programs that the runtime does not call. The event
  loop, the HTTP server and signal handlers of the operating system are represented by the steps they trigger.
  \<open>StrategistCog\<close> and the injected project manager are modelled though the bot never loads the one and nothing injects the other; no property of
  the running program rests on them. The second delivery of a message by the channel relay cog is not part of \<open>message_arrives\<close>.
\<close>

end
